(* ===== verification/Prelude.thy ===== *)
theory Prelude
  imports "HOL-Library.AList" "HOL-Library.Monad_Syntax" "HOL-Library.Multiset"
begin

text \<open>
  Shared vocabulary of the development: the two map types of the Rust standard
  library that the program uses (the hash map as an association list whose list
  order stands for the arbitrary iteration order, the B-tree map as a strictly
  key-sorted association list), the interface both of them satisfy, and the
  loop over a list whose body may panic.

  A computation that can panic has type \<^typ>\<open>'a option\<close> and \<open>None\<close> is the
  panic; a Rust \<open>Result\<close> is a value of a sum type with the error on the left.
\<close>

named_theorems panic_simps \<open>unfolding of computations that may panic\<close>
named_theorems map_simps \<open>lookup after update, for both map types\<close>

lemmas [panic_simps] = Option.bind_eq_Some_conv Option.bind_eq_None_conv

section \<open>Loops whose body may panic\<close>

primrec ofold :: "('a \<Rightarrow> 's \<Rightarrow> 's option) \<Rightarrow> 'a list \<Rightarrow> 's \<Rightarrow> 's option" where
  "ofold f [] s = Some s"
| "ofold f (x # xs) s = Option.bind (f x s) (ofold f xs)"

lemma ofold_append [simp]:
  "ofold f (xs @ ys) s = Option.bind (ofold f xs s) (ofold f ys)"
  by (induction xs arbitrary: s) (auto split: Option.bind_splits)

lemma ofold_invariant:
  assumes "ofold f xs s = Some s'" and "P s"
    and "\<And>x s t. x \<in> set xs \<Longrightarrow> P s \<Longrightarrow> f x s = Some t \<Longrightarrow> P t"
  shows "P s'"
  using assms by (induction xs arbitrary: s) (auto simp: panic_simps)

lemma ofold_total:
  assumes "\<And>x s. x \<in> set xs \<Longrightarrow> P s \<Longrightarrow> \<exists>t. f x s = Some t \<and> P t" and "P s"
  shows "\<exists>s'. ofold f xs s = Some s' \<and> P s'"
  using assms
proof (induction xs arbitrary: s)
  case (Cons x xs)
  then obtain t where "f x s = Some t" "P t" by (meson list.set_intros(1))
  with Cons.IH [of t] Cons.prems(1) show ?case by auto
qed simp

primrec omap :: "('a \<Rightarrow> 'b option) \<Rightarrow> 'a list \<Rightarrow> 'b list option" where
  "omap f [] = Some []"
| "omap f (x # xs) = Option.bind (f x) (\<lambda>y. Option.bind (omap f xs) (\<lambda>ys. Some (y # ys)))"

lemma omap_eq_Some_iff:
  "omap f xs = Some ys \<longleftrightarrow> list_all2 (\<lambda>x y. f x = Some y) xs ys"
  by (induction xs arbitrary: ys) (auto simp: panic_simps list_all2_Cons1)

lemma omap_map_Some [simp]: "omap (\<lambda>x. Some (f x)) xs = Some (map f xs)"
  by (induction xs) auto

section \<open>The interface of a map\<close>

locale map_interface =
  fixes get :: "'m \<Rightarrow> 'k \<Rightarrow> 'v option"
    and put :: "'k \<Rightarrow> 'v \<Rightarrow> 'm \<Rightarrow> 'm"
    and del :: "'k \<Rightarrow> 'm \<Rightarrow> 'm"
    and inv :: "'m \<Rightarrow> bool"
  assumes get_put: "inv m \<Longrightarrow> get (put k v m) = (get m)(k \<mapsto> v)"
    and get_del: "inv m \<Longrightarrow> get (del k m) = (get m)(k := None)"
    and inv_put: "inv m \<Longrightarrow> inv (put k v m)"
    and inv_del: "inv m \<Longrightarrow> inv (del k m)"
begin

lemma get_put_same: "inv m \<Longrightarrow> get (put k v m) k = Some v"
  by (simp add: get_put)

lemma get_put_other: "inv m \<Longrightarrow> k' \<noteq> k \<Longrightarrow> get (put k v m) k' = get m k'"
  by (simp add: get_put)

lemma get_del_put: "inv m \<Longrightarrow> get (del k (put k v m)) = (get m)(k := None)"
  by (simp add: get_put get_del inv_put)

lemma dom_put: "inv m \<Longrightarrow> dom (get (put k v m)) = insert k (dom (get m))"
  by (simp add: get_put)

lemma dom_del: "inv m \<Longrightarrow> dom (get (del k m)) = dom (get m) - {k}"
  by (simp add: get_del)

lemma del_absent: "inv m \<Longrightarrow> get m k = None \<Longrightarrow> get (del k m) = get m"
  by (simp add: get_del fun_upd_idem)

end

section \<open>Hash maps as association lists\<close>

type_synonym ('k, 'v) hash_map = "('k \<times> 'v) list"

definition hm_get :: "('k, 'v) hash_map \<Rightarrow> 'k \<Rightarrow> 'v option" where
  "hm_get m k = map_of m k"

definition hm_insert :: "'k \<Rightarrow> 'v \<Rightarrow> ('k, 'v) hash_map \<Rightarrow> ('k, 'v) hash_map" where
  "hm_insert k v m = AList.update k v m"

definition hm_remove :: "'k \<Rightarrow> ('k, 'v) hash_map \<Rightarrow> ('k, 'v) hash_map" where
  "hm_remove k m = AList.delete k m"

definition hm_keys :: "('k, 'v) hash_map \<Rightarrow> 'k list" where
  "hm_keys m = map fst m"

definition hm_values :: "('k, 'v) hash_map \<Rightarrow> 'v list" where
  "hm_values m = map snd m"

definition hm_contains :: "'k \<Rightarrow> ('k, 'v) hash_map \<Rightarrow> bool" where
  "hm_contains k m = (hm_get m k \<noteq> None)"

definition hm_get_or :: "'v \<Rightarrow> ('k, 'v) hash_map \<Rightarrow> 'k \<Rightarrow> 'v" where
  "hm_get_or d m k = (case hm_get m k of None \<Rightarrow> d | Some v \<Rightarrow> v)"

definition hm_inv :: "('k, 'v) hash_map \<Rightarrow> bool" where
  "hm_inv m = distinct (map fst m)"

lemma hm_get_Nil [simp]: "hm_get [] k = None"
  by (simp add: hm_get_def)

lemma hm_get_Cons: "hm_get ((k', v) # m) k = (if k = k' then Some v else hm_get m k)"
  by (simp add: hm_get_def)

lemma hm_get_insert [simp, map_simps]:
  "hm_get (hm_insert k v m) k' = (if k' = k then Some v else hm_get m k')"
  by (simp add: hm_get_def hm_insert_def update_conv')

lemma hm_get_remove [simp, map_simps]:
  "hm_get (hm_remove k m) k' = (if k' = k then None else hm_get m k')"
  by (simp add: hm_get_def hm_remove_def delete_conv')

lemma hm_get_or_insert [simp, map_simps]:
  "hm_get_or d (hm_insert k v m) k' = (if k' = k then v else hm_get_or d m k')"
  by (simp add: hm_get_or_def)

lemma hm_inv_Nil [simp]: "hm_inv []"
  by (simp add: hm_inv_def)

lemma hm_inv_insert [simp]: "hm_inv m \<Longrightarrow> hm_inv (hm_insert k v m)"
  by (simp add: hm_inv_def hm_insert_def distinct_update)

lemma hm_inv_remove [simp]: "hm_inv m \<Longrightarrow> hm_inv (hm_remove k m)"
  by (simp add: hm_inv_def hm_remove_def distinct_delete)

lemma hm_contains_iff: "hm_contains k m \<longleftrightarrow> k \<in> set (hm_keys m)"
  by (induction m) (auto simp: hm_contains_def hm_get_def hm_keys_def)

lemma hm_get_in_set: "hm_get m k = Some v \<Longrightarrow> (k, v) \<in> set m"
  by (simp add: hm_get_def map_of_SomeD)

lemma hm_in_set_get: "hm_inv m \<Longrightarrow> (k, v) \<in> set m \<Longrightarrow> hm_get m k = Some v"
  by (simp add: hm_get_def hm_inv_def)

interpretation hm: map_interface hm_get hm_insert hm_remove hm_inv
  by unfold_locales (auto simp: fun_eq_iff)

text \<open>The total of a measure over the entries of a hash map.\<close>

text \<open>Two maps that are inverse to each other.\<close>

definition hm_inverse :: "('k, 'v) hash_map \<Rightarrow> ('v, 'k) hash_map \<Rightarrow> bool" where
  "hm_inverse m w = (\<forall>k v. hm_get m k = Some v \<longleftrightarrow> hm_get w v = Some k)"

lemma hm_inverse_insert:
  assumes "hm_inverse m w" "hm_get m k = None" "hm_get w v = None"
  shows "hm_inverse (hm_insert k v m) (hm_insert v k w)"
  using assms unfolding hm_inverse_def hm_get_insert by (metis option.discI option.inject)

lemma hm_inverse_remove:
  assumes "hm_inverse m w" "hm_get m k = Some v \<or> hm_get w v = Some k"
  shows "hm_inverse (hm_remove k m) (hm_remove v w)"
  using assms unfolding hm_inverse_def hm_get_remove by (metis option.discI option.inject)

definition hm_sum :: "('k \<Rightarrow> 'v \<Rightarrow> 'n::comm_monoid_add) \<Rightarrow> ('k, 'v) hash_map \<Rightarrow> 'n" where
  "hm_sum f m = sum_list (map (\<lambda>(k, v). f k v) m)"

lemma hm_sum_insert_new:
  "hm_get m k = None \<Longrightarrow> hm_sum f (hm_insert k v m) = hm_sum f m + f k v"
  by (induction m) (auto simp: hm_sum_def hm_insert_def hm_get_def add_ac split: if_splits)

lemma hm_sum_insert:
  fixes f :: "'k \<Rightarrow> 'v \<Rightarrow> 'n::ab_group_add"
  assumes "hm_get m k = Some w"
  shows "hm_sum f (hm_insert k v m) = hm_sum f m - f k w + f k v"
  using assms
  by (induction m) (auto simp: hm_sum_def hm_insert_def hm_get_def algebra_simps split: if_splits)

lemma hm_sum_insert_or:
  fixes f :: "'k \<Rightarrow> 'v \<Rightarrow> 'n::ab_group_add"
  assumes "f k d = 0"
  shows "hm_sum f (hm_insert k v m) = hm_sum f m - f k (hm_get_or d m k) + f k v"
  using assms
  by (cases "hm_get m k") (auto simp: hm_sum_insert hm_sum_insert_new hm_get_or_def)

lemma hm_remove_absent: "hm_get m k = None \<Longrightarrow> hm_remove k m = m"
  by (induction m) (auto simp: hm_remove_def hm_get_def split: if_splits)

lemma hm_sum_remove:
  fixes f :: "'k \<Rightarrow> 'v \<Rightarrow> 'n::ab_group_add"
  assumes "hm_inv m"
  shows "hm_sum f (hm_remove k m) = hm_sum f m - (case hm_get m k of Some v \<Rightarrow> f k v | None \<Rightarrow> 0)"
  using assms
proof (induction m)
  case (Cons x m)
  obtain k' v where x: "x = (k', v)" by fastforce
  show ?case
  proof (cases "k' = k")
    case True
    then have "k \<notin> fst ` set m" using Cons.prems x by (simp add: hm_inv_def)
    then have "hm_remove k m = m" by (simp add: hm_remove_def AList.delete_eq filter_id_conv image_iff split_beta)
    then show ?thesis using x True by (simp add: hm_sum_def hm_remove_def hm_get_def)
  next
    case False
    then show ?thesis using Cons x by (simp add: hm_sum_def hm_remove_def hm_get_def hm_inv_def algebra_simps split: option.splits)
  qed
qed (simp add: hm_sum_def hm_remove_def hm_get_def)

text \<open>A property of all entries, kept by insertion.\<close>

lemma hm_all_insert:
  "\<forall>(k, v) \<in> set m. P k v \<Longrightarrow> P k0 v0 \<Longrightarrow> \<forall>(k, v) \<in> set (hm_insert k0 v0 m). P k v"
  by (induction m) (auto simp: hm_insert_def split: if_splits)

section \<open>B-tree maps as key-sorted association lists\<close>

type_synonym ('k, 'v) btree = "('k \<times> 'v) list"

definition bt_inv :: "('k::linorder, 'v) btree \<Rightarrow> bool" where
  "bt_inv m = sorted_wrt (<) (map fst m)"

definition bt_get :: "('k, 'v) btree \<Rightarrow> 'k \<Rightarrow> 'v option" where
  "bt_get m k = map_of m k"

fun bt_insert :: "'k::linorder \<Rightarrow> 'v \<Rightarrow> ('k, 'v) btree \<Rightarrow> ('k, 'v) btree" where
  "bt_insert k v [] = [(k, v)]"
| "bt_insert k v ((k', v') # m) =
     (if k < k' then (k, v) # (k', v') # m
      else if k = k' then (k, v) # m
      else (k', v') # bt_insert k v m)"

fun bt_remove :: "'k \<Rightarrow> ('k, 'v) btree \<Rightarrow> ('k, 'v) btree" where
  "bt_remove k [] = []"
| "bt_remove k ((k', v') # m) = (if k = k' then m else (k', v') # bt_remove k m)"

lemma bt_inv_Nil [simp]: "bt_inv []"
  by (simp add: bt_inv_def)

lemma bt_inv_Cons:
  "bt_inv ((k, v) # m) \<longleftrightarrow> (\<forall>k' \<in> fst ` set m. k < k') \<and> bt_inv m"
  by (auto simp: bt_inv_def)

lemma set_bt_insert_keys [simp]: "fst ` set (bt_insert k v m) = insert k (fst ` set m)"
  by (induction k v m rule: bt_insert.induct) auto

lemma set_bt_insert_subset: "set (bt_insert k v m) \<subseteq> insert (k, v) (set m)"
  by (induction k v m rule: bt_insert.induct) auto

lemma ball_keys_bt_insert [simp]:
  "(\<forall>x \<in> set (bt_insert k v m). P (fst x)) \<longleftrightarrow> P k \<and> (\<forall>x \<in> set m. P (fst x))"
  using set_bt_insert_keys [of k v m] by (metis (no_types, lifting) image_iff insert_iff)

lemma bt_inv_insert [simp]: "bt_inv m \<Longrightarrow> bt_inv (bt_insert k v m)"
proof (induction k v m rule: bt_insert.induct)
  case (2 k v k' v' m)
  then show ?case by (auto simp: bt_inv_Cons dest: order.strict_trans)
qed (simp add: bt_inv_def)

lemma bt_get_insert [simp, map_simps]:
  "bt_get (bt_insert k v m) k' = (if k' = k then Some v else bt_get m k')"
  by (induction k v m rule: bt_insert.induct) (auto simp: bt_get_def)

lemma set_bt_remove_subset: "set (bt_remove k m) \<subseteq> set m"
  by (induction k m rule: bt_remove.induct) auto

lemma bt_inv_remove [simp]: "bt_inv m \<Longrightarrow> bt_inv (bt_remove k m)"
  using set_bt_remove_subset
  by (induction k m rule: bt_remove.induct) (fastforce simp: bt_inv_Cons)+

lemma bt_remove_filter: "bt_inv bm \<Longrightarrow> bt_remove k bm = filter (\<lambda>x. fst x \<noteq> k) bm"
proof (induction k bm rule: bt_remove.induct)
  case (2 k k' v m)
  then show ?case by (auto simp: bt_inv_Cons intro!: filter_True [symmetric])
qed simp

lemma bt_remove_absent: "k \<notin> fst ` set m \<Longrightarrow> bt_remove k m = m"
  by (induction k m rule: bt_remove.induct) auto

lemma bt_inv_get_None: "bt_inv ((k, v) # m) \<Longrightarrow> bt_get m k = None"
  by (auto simp: bt_inv_Cons bt_get_def map_of_eq_None_iff)

lemma bt_get_remove [simp, map_simps]:
  "bt_inv m \<Longrightarrow> bt_get (bt_remove k m) k' = (if k' = k then None else bt_get m k')"
proof (induction k m rule: bt_remove.induct)
  case (2 k k'' v m)
  then show ?case
    using bt_inv_get_None [OF 2(2)] by (auto simp: bt_get_def bt_inv_Cons)
qed (simp add: bt_get_def)

lemma bt_get_in_set: "bt_get m k = Some v \<Longrightarrow> (k, v) \<in> set m"
  by (simp add: bt_get_def map_of_SomeD)

lemma bt_get_eq_None: "bt_get m k = None \<longleftrightarrow> k \<notin> fst ` set m"
  by (simp add: bt_get_def map_of_eq_None_iff)

lemma bt_in_set_get: "bt_inv m \<Longrightarrow> (k, v) \<in> set m \<Longrightarrow> bt_get m k = Some v"
  by (simp add: bt_get_def bt_inv_def strict_sorted_iff)

lemma bt_insert_fresh_mset:
  "bt_inv m \<Longrightarrow> bt_get m k = None \<Longrightarrow> mset (bt_insert k v m) = add_mset (k, v) (mset m)"
  by (induction k v m rule: bt_insert.induct)
     (auto simp: bt_get_def bt_inv_Cons split: if_splits)

lemma bt_remove_mset:
  "bt_get m k = Some v \<Longrightarrow> mset m = add_mset (k, v) (mset (bt_remove k m))"
  by (induction k m rule: bt_remove.induct) (auto simp: bt_get_def split: if_splits)

text \<open>Writing through a mutable reference to the value of a present key.\<close>

definition bt_set :: "'k \<Rightarrow> 'v \<Rightarrow> ('k, 'v) btree \<Rightarrow> ('k, 'v) btree" where
  "bt_set k v m = map (\<lambda>(k', x). (k', if k' = k then v else x)) m"

lemma bt_set_keys [simp]: "map fst (bt_set k v m) = map fst m"
  by (simp add: bt_set_def case_prod_beta)

lemma bt_set_Cons:
  "bt_set k v ((k', x) # m) = (k', if k' = k then v else x) # bt_set k v m"
  by (simp add: bt_set_def)

lemma bt_set_absent: "k \<notin> fst ` set m \<Longrightarrow> bt_set k v m = m"
  by (induction m) (auto simp: bt_set_def)

lemma bt_inv_set [simp]: "bt_inv (bt_set k v m) = bt_inv m"
  by (simp add: bt_inv_def)

lemma in_set_bt_setD: "(k', x) \<in> set (bt_set k v m) \<Longrightarrow> (k', x) \<in> set m \<or> (k' = k \<and> x = v)"
  by (auto simp: bt_set_def split: if_splits)

interpretation bt: map_interface bt_get bt_insert bt_remove bt_inv
  by unfold_locales (auto simp: fun_eq_iff)

end
