(* ===== verification/Rust_Int.thy ===== *)
theory Rust_Int
  imports Prelude "HOL-Library.Signed_Division"
begin

text \<open>
  The machine integers of the program.  An \<open>i128\<close> is an \<^typ>\<open>int\<close> in the range
  of \<open>in_i128\<close>; the operators of the release build wrap around (\<open>wrap_i128\<close>), the
  \<open>checked_\<close> operations give no value outside the range, and division and
  remainder truncate towards zero and panic (\<open>None\<close>) on a zero divisor and on
  \<open>MIN / -1\<close>.  Unsigned integers are \<^typ>\<open>nat\<close> with the modulus written where
  they are incremented.
\<close>

section \<open>The range and the wrap-around of i128\<close>

definition i128_min :: int where "i128_min = - (2 ^ 127)"

definition i128_max :: int where "i128_max = 2 ^ 127 - 1"

definition in_i128 :: "int \<Rightarrow> bool" where
  "in_i128 n = (i128_min \<le> n \<and> n \<le> i128_max)"

definition wrap_i128 :: "int \<Rightarrow> int" where
  "wrap_i128 n = (n + 2 ^ 127) mod 2 ^ 128 - 2 ^ 127"

definition wrap_u128 :: "int \<Rightarrow> int" where
  "wrap_u128 n = n mod 2 ^ 128"

definition u64_mod :: nat where "u64_mod = 2 ^ 64"

definition u64_max :: nat where "u64_max = 2 ^ 64 - 1"

definition wrap_u64 :: "nat \<Rightarrow> nat" where
  "wrap_u64 n = n mod 2 ^ 64"

definition wrap_u8 :: "nat \<Rightarrow> nat" where
  "wrap_u8 n = n mod 256"

lemmas i128_defs = in_i128_def i128_min_def i128_max_def

lemma wrap_i128_id: "in_i128 n \<Longrightarrow> wrap_i128 n = n"
  by (simp add: wrap_i128_def i128_defs)

lemma in_i128_wrap [simp]: "in_i128 (wrap_i128 n)"
proof -
  have "0 \<le> (n + 2 ^ 127) mod 2 ^ 128" "(n + 2 ^ 127) mod 2 ^ 128 < (2 ^ 128 :: int)"
    by simp_all
  then show ?thesis by (simp add: wrap_i128_def i128_defs)
qed

lemma in_i128_between:
  "in_i128 a \<Longrightarrow> in_i128 b \<Longrightarrow> a \<le> n \<Longrightarrow> n \<le> b \<Longrightarrow> in_i128 n"
  by (simp add: in_i128_def)

lemma in_i128_0 [simp]: "in_i128 0"
  by (simp add: i128_defs)

lemma in_i128_abs_le: "in_i128 a \<Longrightarrow> a \<noteq> i128_min \<Longrightarrow> \<bar>n\<bar> \<le> \<bar>a\<bar> \<Longrightarrow> in_i128 n"
  by (auto simp: i128_defs abs_le_iff split: abs_split)

section \<open>Checked operations\<close>

definition i128_checked :: "int \<Rightarrow> int option" where
  "i128_checked n = (if in_i128 n then Some n else None)"

definition i128_checked_add :: "int \<Rightarrow> int \<Rightarrow> int option" where
  "i128_checked_add a b = i128_checked (a + b)"

definition i128_checked_sub :: "int \<Rightarrow> int \<Rightarrow> int option" where
  "i128_checked_sub a b = i128_checked (a - b)"

definition i128_checked_mul :: "int \<Rightarrow> int \<Rightarrow> int option" where
  "i128_checked_mul a b = i128_checked (a * b)"

lemmas i128_checked_defs =
  i128_checked_def i128_checked_add_def i128_checked_sub_def i128_checked_mul_def

lemma i128_checked_eq_Some [simp]: "i128_checked n = Some m \<longleftrightarrow> in_i128 n \<and> m = n"
  by (auto simp: i128_checked_def)

lemma i128_checked_eq_None [simp]: "i128_checked n = None \<longleftrightarrow> \<not> in_i128 n"
  by (auto simp: i128_checked_def)

section \<open>Truncating division\<close>

definition i128_div :: "int \<Rightarrow> int \<Rightarrow> int option" where
  "i128_div a b = (if b = 0 \<or> (a = i128_min \<and> b = -1) then None else Some (a sdiv b))"

definition i128_rem :: "int \<Rightarrow> int \<Rightarrow> int option" where
  "i128_rem a b = (if b = 0 \<or> (a = i128_min \<and> b = -1) then None else Some (a smod b))"

lemma sdiv_pos_divisor:
  fixes a b :: int
  assumes "0 < b"
  shows "a sdiv b = (if 0 \<le> a then a div b else - ((- a) div b))"
  using assms by (auto simp: signed_divide_int_def sgn_if)

lemma smod_pos_divisor:
  fixes a b :: int
  assumes "0 < b"
  shows "a smod b = (if 0 \<le> a then a mod b else - ((- a) mod b))"
  using assms by (auto simp: signed_modulo_int_def sgn_if)

lemma abs_sdiv: "\<bar>a sdiv b\<bar> = \<bar>a\<bar> div \<bar>b\<bar>" for a b :: int
proof (cases "b = 0")
  case False
  have "0 \<le> \<bar>a\<bar> div \<bar>b\<bar>" using False by (simp add: pos_imp_zdiv_nonneg_iff)
  then show ?thesis using False
    by (cases "a = 0") (auto simp: signed_divide_int_def abs_mult abs_sgn_eq)
qed (simp add: signed_divide_int_def)

lemma abs_sdiv_le: "b \<noteq> 0 \<Longrightarrow> \<bar>a sdiv b\<bar> \<le> \<bar>a\<bar>" for a b :: int
  using zdiv_mono2 [of "\<bar>a\<bar>" 1 "\<bar>b\<bar>"] by (simp add: abs_sdiv)

lemma sdiv_exact: "b \<noteq> 0 \<Longrightarrow> (a * b) sdiv b = a" for a b :: int
  by (simp add: signed_divide_int_def abs_mult sgn_mult sgn_mult_abs mult.assoc
      sgn_mult_self_eq[symmetric] del: sgn_mult_self_eq)

text \<open>A truncated quotient is off by less than one divisor and never away from zero.\<close>

lemma sdiv_error:
  fixes a b :: int
  assumes "0 < b"
  shows "\<bar>a - (a sdiv b) * b\<bar> < b"
proof -
  have "a - (a sdiv b) * b = a smod b"
    using sdiv_mult_smod_eq [of a b] by (simp add: algebra_simps)
  moreover have "0 \<le> a mod b" "a mod b < b" "0 \<le> (- a) mod b" "(- a) mod b < b"
    using assms by simp_all
  ultimately show ?thesis using assms by (auto simp: smod_pos_divisor)
qed

lemma sdiv_nonneg: "0 \<le> a \<Longrightarrow> 0 < b \<Longrightarrow> 0 \<le> a sdiv b" for a b :: int
  by (simp add: sdiv_pos_divisor pos_imp_zdiv_nonneg_iff)

lemma sdiv_mono: "0 < b \<Longrightarrow> a \<le> a' \<Longrightarrow> a sdiv b \<le> a' sdiv b" for a a' b :: int
proof -
  assume b: "0 < b" and le: "a \<le> a'"
  consider "0 \<le> a" | "a < 0" "0 \<le> a'" | "a' < 0" by linarith
  then show ?thesis
  proof cases
    case 2
    then have "0 \<le> (- a) div b" "0 \<le> a' div b"
      using b by (simp_all add: pos_imp_zdiv_nonneg_iff)
    then show ?thesis using b 2 by (simp add: sdiv_pos_divisor)
  qed (use b le in \<open>auto simp: sdiv_pos_divisor zdiv_mono1\<close>)
qed

lemma in_i128_sdiv:
  assumes "in_i128 a" "b \<noteq> 0" "\<not> (a = i128_min \<and> b = -1)"
  shows "in_i128 (a sdiv b)"
proof (cases "a = i128_min")
  case False
  then show ?thesis using assms abs_sdiv_le [of b a] in_i128_abs_le by blast
next
  case True
  show ?thesis
  proof (cases "b = 1")
    case True then show ?thesis using assms by (simp add: signed_divide_int_def sgn_if abs_if)
  next
    case False
    then have "2 \<le> \<bar>b\<bar>" using assms True by auto
    then have "\<bar>a\<bar> div \<bar>b\<bar> \<le> \<bar>a\<bar> div 2" by (intro zdiv_mono2) auto
    moreover have "\<bar>a\<bar> div 2 \<le> i128_max" using True by (simp add: i128_min_def i128_max_def)
    ultimately have "\<bar>a sdiv b\<bar> \<le> i128_max" by (simp add: abs_sdiv)
    then show ?thesis by (auto simp: i128_defs)
  qed
qed

section \<open>Powers of ten\<close>

text \<open>\<open>10i128.pow(n)\<close> in the release build: repeated wrapping multiplication.\<close>

definition pow10 :: "nat \<Rightarrow> int" where
  "pow10 n = wrap_i128 (10 ^ n)"

lemma ten_pow_bound: "n \<le> 38 \<Longrightarrow> (10::int) ^ n \<le> i128_max"
proof -
  assume "n \<le> 38"
  then have "(10::int) ^ n \<le> 10 ^ 38" by (intro power_increasing) auto
  also have "\<dots> \<le> i128_max" by (simp add: i128_max_def)
  finally show ?thesis .
qed

lemma pow10_exact: "n \<le> 38 \<Longrightarrow> pow10 n = 10 ^ n"
  using ten_pow_bound [of n]
  by (simp add: pow10_def wrap_i128_id in_i128_def i128_min_def order.trans [of _ 0])

lemma pow10_pos: "n \<le> 38 \<Longrightarrow> 0 < pow10 n"
  by (simp add: pow10_exact)

end
