(* ===== verification/Rust_Str.thy ===== *)
theory Rust_Str
  imports Rust_Int
begin

text \<open>
  The string operations of the standard library that the fixed-point parser and
  printer use, on ASCII strings: trimming, splitting at a character, printing an
  \<open>i128\<close>, parsing one, and left padding; with the round trip of printing and
  parsing a natural number.
\<close>

section \<open>Trimming and splitting\<close>

definition is_ws :: "char \<Rightarrow> bool" where
  "is_ws c = (of_char c = (32::nat) \<or> (9 \<le> (of_char c :: nat) \<and> (of_char c :: nat) \<le> 13))"

definition trim_end_by :: "(char \<Rightarrow> bool) \<Rightarrow> string \<Rightarrow> string" where
  "trim_end_by p s = rev (dropWhile p (rev s))"

definition str_trim :: "string \<Rightarrow> string" where
  "str_trim s = trim_end_by is_ws (dropWhile is_ws s)"

fun split_char :: "char \<Rightarrow> string \<Rightarrow> string list" where
  "split_char c [] = [[]]"
| "split_char c (x # xs) =
     (if x = c then [] # split_char c xs
      else case split_char c xs of [] \<Rightarrow> [[x]] | p # ps \<Rightarrow> (x # p) # ps)"

lemma split_char_none: "c \<notin> set s \<Longrightarrow> split_char c s = [s]"
  by (induction c s rule: split_char.induct) auto

lemma split_char_app: "c \<notin> set s \<Longrightarrow> split_char c (s @ c # t) = s # split_char c t"
  by (induction c s rule: split_char.induct) auto

lemma trim_end_by_id: "s = [] \<or> \<not> p (last s) \<Longrightarrow> trim_end_by p s = s"
proof (cases s rule: rev_cases)
  case (snoc ys y)
  then show "s = [] \<or> \<not> p (last s) \<Longrightarrow> trim_end_by p s = s" by (simp add: trim_end_by_def)
qed (simp add: trim_end_by_def)

lemma trim_end_by_prefix: "\<exists>k. s = trim_end_by p s @ k \<and> (\<forall>c \<in> set k. p c)"
proof -
  have "s = rev (takeWhile p (rev s) @ dropWhile p (rev s))" by simp
  then have "s = trim_end_by p s @ rev (takeWhile p (rev s))"
    unfolding trim_end_by_def rev_append by simp
  then show ?thesis using set_takeWhileD by fastforce
qed

lemma trim_end_by_app: "\<not> p c \<Longrightarrow> trim_end_by p (s @ c # t) = s @ c # trim_end_by p t"
proof -
  assume "\<not> p c"
  then have "dropWhile p (rev t @ c # rev s) = dropWhile p (rev t) @ c # rev s"
    by (simp add: dropWhile_append dropWhile_eq_Nil_conv)
  then show ?thesis by (simp add: trim_end_by_def)
qed

lemma str_trim_id:
  assumes "\<forall>c \<in> set s. \<not> is_ws c"
  shows "str_trim s = s"
proof -
  have "dropWhile is_ws s = s" using assms by (cases s) auto
  moreover have "s = [] \<or> \<not> is_ws (last s)" using assms by (cases s rule: rev_cases) auto
  ultimately show ?thesis by (simp add: str_trim_def trim_end_by_id)
qed

lemma replicate_unroll: "replicate (numeral k) x = x # replicate (pred_numeral k) x"
  by (simp add: numeral_eq_Suc)

section \<open>Numbers\<close>

definition digit_char :: "nat \<Rightarrow> char" where
  "digit_char n = char_of (48 + n)"

definition is_digit :: "char \<Rightarrow> bool" where
  "is_digit c = (48 \<le> (of_char c :: nat) \<and> (of_char c :: nat) \<le> 57)"

definition digit_val :: "char \<Rightarrow> nat" where
  "digit_val c = of_char c - 48"

fun show_nat :: "nat \<Rightarrow> string" where
  "show_nat n = (if n < 10 then [digit_char n] else show_nat (n div 10) @ [digit_char (n mod 10)])"

declare show_nat.simps [simp del]

definition digits_val :: "string \<Rightarrow> nat" where
  "digits_val s = foldl (\<lambda>acc c. acc * 10 + digit_val c) 0 s"

definition show_i128 :: "int \<Rightarrow> string" where
  "show_i128 n = (if n < 0 then CHR ''-'' # show_nat (nat (- n)) else show_nat (nat n))"

definition parse_digits :: "string \<Rightarrow> nat option" where
  "parse_digits s = (if s \<noteq> [] \<and> list_all is_digit s then Some (digits_val s) else None)"

definition parse_i128 :: "string \<Rightarrow> int option" where
  "parse_i128 s = (case s of
       [] \<Rightarrow> None
     | c # r \<Rightarrow>
         if c = CHR ''-'' then do { n \<leftarrow> parse_digits r; i128_checked (- int n) }
         else if c = CHR ''+'' then do { n \<leftarrow> parse_digits r; i128_checked (int n) }
         else do { n \<leftarrow> parse_digits s; i128_checked (int n) })"

definition pad_left :: "char \<Rightarrow> nat \<Rightarrow> string \<Rightarrow> string" where
  "pad_left c w s = replicate (w - length s) c @ s"

lemma of_digit_char [simp]: "n < 10 \<Longrightarrow> of_char (digit_char n) = (48 + n :: nat)"
  by (simp add: digit_char_def)

lemma is_digit_digit_char [simp]: "n < 10 \<Longrightarrow> is_digit (digit_char n)"
  by (simp add: is_digit_def)

lemma digit_val_digit_char [simp]: "n < 10 \<Longrightarrow> digit_val (digit_char n) = n"
  by (simp add: digit_val_def)

lemma is_digit_0 [simp]: "is_digit (CHR ''0'')"
  by (simp add: is_digit_def)

lemma is_digit_no_ws: "is_digit c \<Longrightarrow> \<not> is_ws c"
  by (auto simp: is_digit_def is_ws_def)

lemma is_digit_other:
  "is_digit c \<Longrightarrow> c \<noteq> CHR ''.''" "is_digit c \<Longrightarrow> c \<noteq> CHR ''-''" "is_digit c \<Longrightarrow> c \<noteq> CHR ''+''"
  by (auto simp: is_digit_def)

lemma show_nat_digits: "list_all is_digit (show_nat n)"
  by (induction n rule: show_nat.induct) (subst show_nat.simps, simp)

lemma show_nat_not_Nil [simp]: "show_nat n \<noteq> []"
  by (subst show_nat.simps) simp

lemma digits_val_Nil [simp]: "digits_val [] = 0"
  by (simp add: digits_val_def)

lemma digits_val_snoc [simp]: "digits_val (s @ [c]) = digits_val s * 10 + digit_val c"
  by (simp add: digits_val_def)

lemma digits_val_append: "digits_val (s @ t) = digits_val s * 10 ^ length t + digits_val t"
proof (induction t rule: rev_induct)
  case (snoc c t)
  show ?case
    unfolding append_assoc [symmetric] digits_val_snoc snoc.IH by (simp add: algebra_simps)
qed simp

lemma digits_val_zeros [simp]: "digits_val (replicate n (CHR ''0'')) = 0"
proof (induction n)
  case (Suc n)
  have "digits_val [CHR ''0''] = 0" by (simp add: digits_val_def digit_val_def)
  then show ?case
    using Suc digits_val_append [of "[CHR ''0'']" "replicate n (CHR ''0'')"] by simp
qed simp

lemma digits_show_nat [simp]: "digits_val (show_nat n) = n"
  by (induction n rule: show_nat.induct)
     (subst show_nat.simps, auto simp: digits_val_def)

lemma length_show_nat: "0 < k \<Longrightarrow> n < 10 ^ k \<Longrightarrow> length (show_nat n) \<le> k"
proof (induction n arbitrary: k rule: show_nat.induct)
  case (1 n)
  show ?case
  proof (cases "n < 10")
    case False
    with 1(3) have "1 < k" by (cases "k = 1") (use 1(2) in auto)
    then obtain j where j: "k = Suc j" "0 < j" by (cases k) auto
    with 1(3) have "n div 10 < 10 ^ j" by (simp add: div_less_iff_less_mult mult.commute)
    with False j 1(1) show ?thesis by (subst show_nat.simps) simp
  qed (use 1 in \<open>subst show_nat.simps, simp\<close>)
qed

lemma parse_i128_digits:
  assumes "s \<noteq> []" "list_all is_digit s"
  shows "parse_i128 s = i128_checked (int (digits_val s))"
  using assms is_digit_other
  by (cases s) (auto simp: parse_i128_def parse_digits_def)

lemma pad_left_digits: "list_all is_digit s \<Longrightarrow> list_all is_digit (pad_left (CHR ''0'') w s)"
  by (auto simp: pad_left_def list_all_iff)

lemma digits_pad_left [simp]: "digits_val (pad_left (CHR ''0'') w s) = digits_val s"
  by (simp add: pad_left_def digits_val_append)

lemma length_pad_left: "length (pad_left c w s) = max w (length s)"
  by (simp add: pad_left_def)

end
