(* ===== verification/Decimal.thy ===== *)
theory Decimal
  imports Rust_Str "HOL-Library.Word"
begin

unbundle bit_operations_syntax

text \<open>
  The fixed-point decimals of \<open>crates/primitives/src/decimal.rs\<close>.  A decimal is
  a raw \<open>i128\<close> value with a number of decimal places; the derived order is the
  lexicographic one on (value, decimals).  Operations whose Rust counterpart can
  panic return an option; \<open>checked_mul\<close> and \<open>checked_div\<close>, which
  both panic and return an option of their own, return an option of an option
  with the panic outermost.  The model follows the
  release build: \<open>debug_assert_eq\<close> on the number of decimals is not executed and
  the raw multiplications wrap.
\<close>

section \<open>Data\<close>

datatype decimal = Decimal (d_val: int) (d_dec: nat)

instantiation decimal :: linorder
begin

definition less_eq_decimal :: "decimal \<Rightarrow> decimal \<Rightarrow> bool" where
  "less_eq_decimal a b = (d_val a < d_val b \<or> (d_val a = d_val b \<and> d_dec a \<le> d_dec b))"

definition less_decimal :: "decimal \<Rightarrow> decimal \<Rightarrow> bool" where
  "less_decimal a b = (d_val a < d_val b \<or> (d_val a = d_val b \<and> d_dec a < d_dec b))"

instance
  by intro_classes (auto simp: less_eq_decimal_def less_decimal_def decimal.expand)

end

lemmas decimal_ord_defs = less_eq_decimal_def less_decimal_def

lemma decimal_le_same_dec: "d_dec a = d_dec b \<Longrightarrow> a \<le> b \<longleftrightarrow> d_val a \<le> d_val b"
  by (auto simp: less_eq_decimal_def)

lemma decimal_less_same_dec: "d_dec a = d_dec b \<Longrightarrow> a < b \<longleftrightarrow> d_val a < d_val b"
  by (auto simp: less_decimal_def)

definition PRICE_DECIMALS :: nat where "PRICE_DECIMALS = 8"
definition SIZE_DECIMALS :: nat where "SIZE_DECIMALS = 8"
definition USDC_DECIMALS :: nat where "USDC_DECIMALS = 6"
definition RATE_DECIMALS :: nat where "RATE_DECIMALS = 10"

definition ZERO :: decimal where "ZERO = Decimal 0 8"
definition ONE :: decimal where "ONE = Decimal 100000000 8"

lemmas dec_consts = PRICE_DECIMALS_def SIZE_DECIMALS_def USDC_DECIMALS_def RATE_DECIMALS_def

text \<open>A decimal of the program: an \<open>i128\<close> and a \<open>u8\<close>.\<close>

definition dec_wf :: "decimal \<Rightarrow> bool" where
  "dec_wf d = (in_i128 (d_val d) \<and> d_dec d < 256)"

section \<open>Construction, comparison and rescaling\<close>

definition from_int :: "int \<Rightarrow> nat \<Rightarrow> decimal" where
  "from_int n dec = Decimal (wrap_i128 (n * pow10 dec)) dec"

definition is_zero :: "decimal \<Rightarrow> bool" where "is_zero d = (d_val d = 0)"

definition is_positive :: "decimal \<Rightarrow> bool" where "is_positive d = (d_val d > 0)"

definition is_negative :: "decimal \<Rightarrow> bool" where "is_negative d = (d_val d < 0)"

definition dec_abs :: "decimal \<Rightarrow> decimal" where
  "dec_abs d = Decimal (wrap_i128 \<bar>d_val d\<bar>) (d_dec d)"

definition dec_min :: "decimal \<Rightarrow> decimal \<Rightarrow> decimal" where
  "dec_min a b = (if d_val a \<le> d_val b then a else b)"

definition dec_max :: "decimal \<Rightarrow> decimal \<Rightarrow> decimal" where
  "dec_max a b = (if d_val a \<ge> d_val b then a else b)"

definition dec_neg :: "decimal \<Rightarrow> decimal" where
  "dec_neg d = Decimal (wrap_i128 (- d_val d)) (d_dec d)"

definition to_decimals :: "decimal \<Rightarrow> nat \<Rightarrow> decimal option" where
  "to_decimals d target =
     (if target = d_dec d then Some d
      else if target > d_dec d then
        Some (Decimal (wrap_i128 (d_val d * pow10 (target - d_dec d))) target)
      else do {
        v \<leftarrow> i128_div (d_val d) (pow10 (d_dec d - target));
        Some (Decimal v target)
      })"

section \<open>Checked arithmetic and the operators\<close>

definition checked_add :: "decimal \<Rightarrow> decimal \<Rightarrow> decimal option" where
  "checked_add a b = do {
     v \<leftarrow> i128_checked_add (d_val a) (d_val b);
     Some (Decimal v (d_dec a))
   }"

definition checked_sub :: "decimal \<Rightarrow> decimal \<Rightarrow> decimal option" where
  "checked_sub a b = do {
     v \<leftarrow> i128_checked_sub (d_val a) (d_val b);
     Some (Decimal v (d_dec a))
   }"

definition checked_mul :: "decimal \<Rightarrow> decimal \<Rightarrow> decimal option option" where
  "checked_mul a b = (case i128_checked_mul (d_val a) (d_val b) of
       None \<Rightarrow> Some None
     | Some raw \<Rightarrow> do {
         v \<leftarrow> i128_div raw (pow10 (d_dec b));
         Some (Some (Decimal v (d_dec a)))
       })"

definition checked_div :: "decimal \<Rightarrow> decimal \<Rightarrow> decimal option option" where
  "checked_div a b =
     (if d_val b = 0 then Some None
      else case i128_checked_mul (d_val a) (pow10 (d_dec b)) of
        None \<Rightarrow> Some None
      | Some scaled \<Rightarrow> do {
          v \<leftarrow> i128_div scaled (d_val b);
          Some (Some (Decimal v (d_dec a)))
        })"

definition dec_add :: "decimal \<Rightarrow> decimal \<Rightarrow> decimal option" where
  "dec_add a b = checked_add a b"

definition dec_sub :: "decimal \<Rightarrow> decimal \<Rightarrow> decimal option" where
  "dec_sub a b = checked_sub a b"

definition dec_mul :: "decimal \<Rightarrow> decimal \<Rightarrow> decimal option" where
  "dec_mul a b = Option.bind (checked_mul a b) (\<lambda>r. r)"

definition dec_div :: "decimal \<Rightarrow> decimal \<Rightarrow> decimal option" where
  "dec_div a b = Option.bind (checked_div a b) (\<lambda>r. r)"

definition mul_int :: "decimal \<Rightarrow> int \<Rightarrow> decimal" where
  "mul_int d k = Decimal (wrap_i128 (d_val d * k)) (d_dec d)"

definition div_int :: "decimal \<Rightarrow> int \<Rightarrow> decimal option" where
  "div_int d k = do { v \<leftarrow> i128_div (d_val d) k; Some (Decimal v (d_dec d)) }"

section \<open>Strings\<close>

definition from_str_exact :: "string \<Rightarrow> nat \<Rightarrow> decimal option" where
  "from_str_exact str dec =
    (let s0 = str_trim str;
         negative = (s0 \<noteq> [] \<and> hd s0 = CHR ''-'');
         s = (if negative then tl s0 else s0);
         parts = split_char (CHR ''.'') s
     in if length parts > 2 then None
        else do {
          integer_part \<leftarrow> parse_i128 (hd parts);
          decimal_part \<leftarrow>
            (if length parts = 2 then
               let ds = parts ! 1 in
               if length ds > dec then None
               else parse_i128 (ds @ replicate (dec - length ds) (CHR ''0''))
             else Some 0);
          m \<leftarrow> i128_checked_mul integer_part (pow10 dec);
          v \<leftarrow> i128_checked_add m decimal_part;
          Some (Decimal (if negative then wrap_i128 (- v) else v) dec)
        })"

definition to_string_full :: "decimal \<Rightarrow> string option" where
  "to_string_full d =
    (let scale = pow10 (d_dec d);
         sign = (if d_val d < 0 then ''-'' else '''');
         abs_value = wrap_i128 \<bar>d_val d\<bar>
     in do {
       integer \<leftarrow> i128_div abs_value scale;
       decimal \<leftarrow> i128_rem abs_value scale;
       Some (sign @ show_i128 integer @ ''.'' @
         pad_left (CHR ''0'') (d_dec d) (show_i128 decimal))
     })"

definition to_string_trimmed :: "decimal \<Rightarrow> string option" where
  "to_string_trimmed d = do {
     full \<leftarrow> to_string_full d;
     Some (if CHR ''.'' \<in> set full
           then trim_end_by (\<lambda>c. c = CHR ''.'') (trim_end_by (\<lambda>c. c = CHR ''0'') full)
           else full)
   }"

definition serialize_json :: "decimal \<Rightarrow> string option" where
  "serialize_json d = to_string_trimmed d"

definition deserialize_json :: "string \<Rightarrow> decimal option" where
  "deserialize_json s = from_str_exact s PRICE_DECIMALS"

definition dec_price :: "string \<Rightarrow> decimal option" where
  "dec_price s = from_str_exact s PRICE_DECIMALS"

definition dec_size :: "string \<Rightarrow> decimal option" where
  "dec_size s = from_str_exact s SIZE_DECIMALS"

definition dec_usdc :: "string \<Rightarrow> decimal option" where
  "dec_usdc s = from_str_exact s USDC_DECIMALS"

definition dec_rate :: "string \<Rightarrow> decimal option" where
  "dec_rate s = from_str_exact s RATE_DECIMALS"

section \<open>Batch operations\<close>

fun batch_compare_loop :: "int \<Rightarrow> nat \<Rightarrow> decimal list \<Rightarrow> 64 word \<Rightarrow> 64 word option" where
  "batch_compare_loop v i [] bits = Some bits"
| "batch_compare_loop v i (p # ps) bits = do {
     q \<leftarrow> to_decimals p PRICE_DECIMALS;
     batch_compare_loop v (Suc i) ps (if v \<ge> d_val q then bits OR push_bit i 1 else bits)
   }"

definition batch_compare_ge :: "decimal \<Rightarrow> decimal list \<Rightarrow> 64 word option" where
  "batch_compare_ge d prices = do {
     s \<leftarrow> to_decimals d PRICE_DECIMALS;
     batch_compare_loop (d_val s) 0 (take 64 prices) 0
   }"

definition batch_add :: "decimal list \<Rightarrow> decimal \<Rightarrow> decimal list option" where
  "batch_add vals addend = omap (\<lambda>v. dec_add v addend) vals"

section \<open>Behaviour of the operators\<close>

lemmas dec_defs = checked_add_def checked_sub_def dec_add_def dec_sub_def i128_checked_add_def
  i128_checked_sub_def i128_checked_mul_def

lemma dec_add_eq_Some [panic_simps]:
  "dec_add a b = Some c \<longleftrightarrow>
     in_i128 (d_val a + d_val b) \<and> c = Decimal (d_val a + d_val b) (d_dec a)"
  by (auto simp: dec_defs panic_simps)

lemma dec_sub_eq_Some [panic_simps]:
  "dec_sub a b = Some c \<longleftrightarrow>
     in_i128 (d_val a - d_val b) \<and> c = Decimal (d_val a - d_val b) (d_dec a)"
  by (auto simp: dec_defs panic_simps)

lemma dec_mul_eq_Some [panic_simps]:
  "dec_mul a b = Some c \<longleftrightarrow>
     in_i128 (d_val a * d_val b) \<and>
     (\<exists>v. i128_div (d_val a * d_val b) (pow10 (d_dec b)) = Some v \<and> c = Decimal v (d_dec a))"
  by (auto simp: dec_mul_def checked_mul_def dec_defs panic_simps i128_checked_def
      split: option.splits)

lemma dec_div_eq_Some [panic_simps]:
  "dec_div a b = Some c \<longleftrightarrow>
     d_val b \<noteq> 0 \<and> in_i128 (d_val a * pow10 (d_dec b)) \<and>
     (\<exists>v. i128_div (d_val a * pow10 (d_dec b)) (d_val b) = Some v \<and> c = Decimal v (d_dec a))"
  by (auto simp: dec_div_def checked_div_def dec_defs panic_simps i128_checked_def
      split: option.splits)

lemma i128_div_pos: "0 < b \<Longrightarrow> i128_div a b = Some (a sdiv b)"
  by (simp add: i128_div_def)

lemma i128_div_eq_Some [panic_simps]:
  "i128_div a b = Some v \<longleftrightarrow> b \<noteq> 0 \<and> \<not> (a = i128_min \<and> b = -1) \<and> v = a sdiv b"
  by (auto simp: i128_div_def)

lemma dec_mul_small:
  "d_dec b \<le> 38 \<Longrightarrow> dec_mul a b =
     (if in_i128 (d_val a * d_val b)
      then Some (Decimal (d_val a * d_val b sdiv 10 ^ d_dec b) (d_dec a)) else None)"
  by (simp add: dec_mul_def checked_mul_def dec_defs i128_div_pos pow10_exact i128_checked_def)

lemma to_decimals_dec: "to_decimals d n = Some e \<Longrightarrow> d_dec e = n"
  by (auto simp: to_decimals_def panic_simps split: if_splits)

lemma to_decimals_total: "d_dec d \<le> n + 38 \<Longrightarrow> \<exists>e. to_decimals d n = Some e"
  by (auto simp: to_decimals_def i128_div_pos pow10_pos)

lemma to_decimals_up:
  assumes "d_dec d \<le> n" "n \<le> d_dec d + 38" "in_i128 (d_val d * 10 ^ (n - d_dec d))"
  shows "to_decimals d n = Some (Decimal (d_val d * 10 ^ (n - d_dec d)) n)"
proof (cases "n = d_dec d")
  case True
  then show ?thesis by (cases d) (simp add: to_decimals_def)
next
  case False
  then have "n - d_dec d \<le> 38" using assms by linarith
  then show ?thesis using assms False
    by (auto simp: to_decimals_def pow10_exact wrap_i128_id)
qed

lemma to_decimals_down:
  assumes "n \<le> d_dec d" "d_dec d \<le> n + 38"
  shows "to_decimals d n = Some (Decimal (d_val d sdiv 10 ^ (d_dec d - n)) n)"
proof (cases "n = d_dec d")
  case True
  then show ?thesis
    by (cases d) (simp add: to_decimals_def signed_divide_int_def sgn_mult_abs)
next
  case False
  then show ?thesis using assms
    by (auto simp: to_decimals_def i128_div_pos pow10_exact)
qed

section \<open>Printing and parsing\<close>

text \<open>The string built from a sign, an integer part and the significant fractional digits.\<close>

definition dec_string :: "bool \<Rightarrow> string \<Rightarrow> string \<Rightarrow> string" where
  "dec_string neg ip f =
     (if neg then ''-'' else '''') @ ip @ (if f = [] then [] else CHR ''.'' # f)"

lemma digits_notin:
  assumes "list_all is_digit s"
  shows "CHR ''.'' \<notin> set s" "CHR ''-'' \<notin> set s" "\<forall>c \<in> set s. \<not> is_ws c"
  using assms is_digit_other [of "CHR ''.''"] is_digit_other [of "CHR ''-''"] is_digit_no_ws
  unfolding list_all_iff by blast+

lemma str_trim_dec_string:
  assumes "list_all is_digit ip" "list_all is_digit f"
  shows "str_trim (dec_string neg ip f) = dec_string neg ip f"
  using digits_notin(3) [OF assms(1)] digits_notin(3) [OF assms(2)]
  by (intro str_trim_id) (auto simp: dec_string_def is_ws_def)

lemma split_dec_string:
  assumes "list_all is_digit ip" "list_all is_digit f"
  shows "split_char (CHR ''.'') (ip @ (if f = [] then [] else CHR ''.'' # f)) =
    (if f = [] then [ip] else [ip, f])"
  using digits_notin(1) [OF assms(1)] digits_notin(1) [OF assms(2)]
  by (simp add: split_char_none split_char_app)

lemma dec_string_sign:
  fixes neg f
  assumes "list_all is_digit ip" "ip \<noteq> []"
  defines "s \<equiv> dec_string neg ip f"
  shows "(s \<noteq> [] \<and> hd s = CHR ''-'') = neg"
    and "(if neg then tl s else s) = ip @ (if f = [] then [] else CHR ''.'' # f)"
  using assms is_digit_other(2) by (cases ip; auto simp: dec_string_def)+

lemma from_str_exact_dec_string:
  assumes ip: "list_all is_digit ip" "ip \<noteq> []" and f: "list_all is_digit f" "length f \<le> dec"
    and dec: "dec \<le> 38"
    and v: "v = int (digits_val ip) * 10 ^ dec + int (digits_val f) * 10 ^ (dec - length f)"
    and le: "v \<le> i128_max"
  shows "from_str_exact (dec_string neg ip f) dec = Some (Decimal (if neg then - v else v) dec)"
proof -
  let ?m = "int (digits_val ip) * 10 ^ dec" and ?d = "int (digits_val f) * 10 ^ (dec - length f)"
  have pos: "0 \<le> ?m" "0 \<le> ?d" by simp_all
  have rng: "in_i128 n" if "0 \<le> n" "n \<le> v" for n
    using that le by (simp add: i128_defs)
  have "int (digits_val ip) * 1 \<le> ?m" by (intro mult_left_mono) auto
  then have "int (digits_val ip) \<le> v" using pos v by linarith
  then have "in_i128 (int (digits_val ip))" "in_i128 ?m" "in_i128 ?d" "in_i128 v"
    using pos v by (simp_all add: rng)
  moreover have "0 \<le> v" using pos v by linarith
  moreover have "in_i128 (- v)" using le \<open>0 \<le> v\<close> by (simp add: i128_defs)
  moreover have "parse_i128 (f @ replicate (dec - length f) (CHR ''0'')) = i128_checked ?d" if "f \<noteq> []"
    using f that by (subst parse_i128_digits) (auto simp: digits_val_append list_all_iff)
  moreover have "?m = v" if "f = []" using that v by simp
  moreover note facts = str_trim_dec_string [OF ip(1) f(1)] dec_string_sign [OF ip]
    split_dec_string [OF ip(1) f(1)]
  ultimately show ?thesis
    using f(2) dec unfolding from_str_exact_def Let_def facts
    by (cases "f = []")
       (simp_all add: parse_i128_digits [OF ip(2,1)] i128_checked_defs pow10_exact wrap_i128_id
         flip: v)
qed

lemma to_string_full_eq:
  assumes "d_dec d \<le> 38" "d_val d \<noteq> i128_min" "in_i128 (d_val d)"
  defines "n \<equiv> nat \<bar>d_val d\<bar>"
  shows "to_string_full d = Some ((if d_val d < 0 then ''-'' else '''') @ show_nat (n div 10 ^ d_dec d)
    @ CHR ''.'' # pad_left (CHR ''0'') (d_dec d) (show_nat (n mod 10 ^ d_dec d)))"
proof -
  have "wrap_i128 \<bar>d_val d\<bar> = int n"
    using assms by (simp add: n_def wrap_i128_id in_i128_abs_le)
  moreover have "int n sdiv 10 ^ d_dec d = int (n div 10 ^ d_dec d)"
    "int n smod 10 ^ d_dec d = int (n mod 10 ^ d_dec d)"
    by (simp_all add: sdiv_pos_divisor smod_pos_divisor zdiv_int zmod_int)
  moreover have "(10::int) ^ k \<noteq> - 1" for k
    using zero_less_power [of "10::int" k] by linarith
  ultimately show ?thesis
    using assms(1) by (simp add: to_string_full_def Let_def pow10_exact i128_div_def i128_rem_def
        show_i128_def)
qed

lemma trim_fraction:
  fixes sg fr
  assumes "list_all is_digit ip" "ip \<noteq> []" "list_all is_digit fr"
  defines "f \<equiv> trim_end_by (\<lambda>c. c = CHR ''0'') fr"
  shows "trim_end_by (\<lambda>c. c = CHR ''.'')
      (trim_end_by (\<lambda>c. c = CHR ''0'') (sg @ ip @ CHR ''.'' # fr)) =
    sg @ ip @ (if f = [] then [] else CHR ''.'' # f)"
proof -
  have "trim_end_by (\<lambda>c. c = CHR ''0'') (sg @ ip @ CHR ''.'' # fr) = sg @ ip @ CHR ''.'' # f"
    using trim_end_by_app [of "\<lambda>c. c = CHR ''0''" "CHR ''.''" "sg @ ip" fr] by (simp add: f_def)
  moreover have "trim_end_by (\<lambda>c. c = CHR ''.'') (sg @ ip @ CHR ''.'' # f) =
      sg @ ip @ (if f = [] then [] else CHR ''.'' # f)"
  proof (cases f rule: rev_cases)
    case Nil
    have "last ip \<noteq> CHR ''.''"
      using assms(1,2) digits_notin(1) last_in_set by metis
    then have "trim_end_by (\<lambda>c. c = CHR ''.'') (sg @ ip) = sg @ ip"
      using assms(2) by (intro trim_end_by_id) simp
    then show ?thesis using Nil by (simp add: trim_end_by_def)
  next
    case (snoc f' c)
    obtain k where "fr = f @ k" using trim_end_by_prefix [of fr "\<lambda>c. c = CHR ''0''"] by (auto simp: f_def)
    then have "list_all is_digit f" using assms(3) by simp
    then have "c \<noteq> CHR ''.''" using snoc is_digit_other(1) by simp
    then show ?thesis using snoc by (intro trans [OF trim_end_by_id]) auto
  qed
  ultimately show ?thesis by simp
qed

lemma pad_left_fraction:
  assumes "n < 10 ^ w"
  defines "fr \<equiv> pad_left (CHR ''0'') w (show_nat n)"
  defines "f \<equiv> trim_end_by (\<lambda>c. c = CHR ''0'') fr"
  shows "list_all is_digit f \<and> length f \<le> w \<and> digits_val f * 10 ^ (w - length f) = n"
proof -
  obtain k where k: "fr = f @ k" "\<forall>c \<in> set k. c = CHR ''0''"
    using trim_end_by_prefix [of fr "\<lambda>c. c = CHR ''0''"] by (auto simp: f_def)
  then have kz: "k = replicate (length k) (CHR ''0'')" by (intro replicate_eqI) auto
  have "list_all is_digit fr" by (simp add: fr_def pad_left_digits show_nat_digits)
  then have dig: "list_all is_digit f" using k by simp
  have "digits_val fr = n" by (simp add: fr_def)
  then have v: "n = digits_val f * 10 ^ length k"
    using k(1) digits_val_append [of f k] digits_val_zeros [of "length k", folded kz] by simp
  show ?thesis
  proof (cases "w = 0")
    case True
    then have "n = 0" using assms(1) by simp
    moreover have "char_of (of_char (CHR ''0'') :: nat) = CHR ''0''" by (rule char_of_char)
    ultimately have "f = []" using True
      by (simp add: f_def fr_def pad_left_def trim_end_by_def show_nat.simps digit_char_def)
    then show ?thesis using True \<open>n = 0\<close> by simp
  next
    case False
    then have "length fr = w"
      using assms(1) length_show_nat [of w n] by (simp add: fr_def length_pad_left)
    then have "w - length f = length k" "length f \<le> w" using k(1) by simp_all
    then show ?thesis using v dig by simp
  qed
qed

lemma to_string_trimmed_eq:
  assumes "d_dec d \<le> 38" "d_val d \<noteq> i128_min" "in_i128 (d_val d)"
  obtains ip f where "to_string_trimmed d = Some (dec_string (d_val d < 0) ip f)"
    "list_all is_digit ip" "ip \<noteq> []" "list_all is_digit f" "length f \<le> d_dec d"
    "\<bar>d_val d\<bar> = int (digits_val ip) * 10 ^ d_dec d + int (digits_val f) * 10 ^ (d_dec d - length f)"
proof -
  let ?n = "nat \<bar>d_val d\<bar>" and ?D = "10 ^ d_dec d :: nat"
  let ?fr = "pad_left (CHR ''0'') (d_dec d) (show_nat (?n mod ?D))"
  let ?ip = "show_nat (?n div ?D)" and ?f = "trim_end_by (\<lambda>c. c = CHR ''0'') ?fr"
  have ip: "list_all is_digit ?ip" "?ip \<noteq> []" by (simp_all add: show_nat_digits)
  have f: "list_all is_digit ?f \<and> length ?f \<le> d_dec d \<and>
      digits_val ?f * 10 ^ (d_dec d - length ?f) = ?n mod ?D"
    by (rule pad_left_fraction) simp
  have "list_all is_digit ?fr" by (simp add: pad_left_digits show_nat_digits)
  note trim = trim_fraction [OF ip this, where sg = "if d_val d < 0 then ''-'' else ''''"]
  have "to_string_trimmed d = Some (dec_string (d_val d < 0) ?ip ?f)"
    unfolding to_string_trimmed_def to_string_full_eq [OF assms]
    using trim by (simp add: dec_string_def)
  moreover have "\<bar>d_val d\<bar> = int (?n div ?D * ?D + ?n mod ?D)"
    unfolding div_mult_mod_eq by simp
  then have "\<bar>d_val d\<bar> = int (digits_val ?ip) * 10 ^ d_dec d +
      int (digits_val ?f) * 10 ^ (d_dec d - length ?f)"
    using f by (metis (no_types, lifting) digits_show_nat of_nat_add of_nat_mult of_nat_numeral of_nat_power)
  ultimately show thesis using that ip f by blast
qed

text \<open>
  Parsing the printed form with at least as many decimal places gives the
  rescaled decimal, as long as that fits an \<open>i128\<close>.
\<close>

lemma print_parse_rescaled:
  assumes "in_i128 (d_val d)" "d_val d \<noteq> i128_min" "d_dec d \<le> n" "n \<le> 38"
    and fits: "\<bar>d_val d\<bar> * 10 ^ (n - d_dec d) \<le> i128_max"
  shows "\<exists>s. to_string_trimmed d = Some s \<and>
    from_str_exact s n = Some (Decimal (d_val d * 10 ^ (n - d_dec d)) n)"
proof -
  obtain ip f where s: "to_string_trimmed d = Some (dec_string (d_val d < 0) ip f)"
    and ip: "list_all is_digit ip" "ip \<noteq> []" and f: "list_all is_digit f" "length f \<le> d_dec d"
    and v: "\<bar>d_val d\<bar> = int (digits_val ip) * 10 ^ d_dec d + int (digits_val f) * 10 ^ (d_dec d - length f)"
    using assms by (elim to_string_trimmed_eq [rotated 3]) auto
  let ?k = "n - d_dec d"
  have "d_dec d + ?k = n" "d_dec d - length f + ?k = n - length f" using assms(3) f(2) by auto
  then have "\<bar>d_val d\<bar> * 10 ^ ?k =
      int (digits_val ip) * 10 ^ n + int (digits_val f) * 10 ^ (n - length f)"
    unfolding v by (simp add: algebra_simps flip: power_add)
  then have "from_str_exact (dec_string (d_val d < 0) ip f) n =
      Some (Decimal (if d_val d < 0 then - (\<bar>d_val d\<bar> * 10 ^ ?k) else \<bar>d_val d\<bar> * 10 ^ ?k) n)"
    using assms ip f by (intro from_str_exact_dec_string) auto
  then show ?thesis using s by (auto split: if_splits)
qed

text \<open>
  (C39) Printing a decimal without its trailing zeros and parsing the string back
  at the same precision gives the decimal back, for every decimal of at most 38
  places whose value is not the least \<open>i128\<close>.
\<close>

theorem decimal_print_parse:
  assumes "dec_wf d" "d_dec d \<le> 38" "d_val d \<noteq> i128_min"
  shows "\<exists>s. to_string_trimmed d = Some s \<and> from_str_exact s (d_dec d) = Some d"
proof -
  have "\<bar>d_val d\<bar> \<le> i128_max" using assms by (auto simp: dec_wf_def i128_defs)
  then show ?thesis
    using print_parse_rescaled [of d "d_dec d"] assms by (simp add: dec_wf_def)
qed

theorem decimal_print_parse_witness:
  "\<exists>s. to_string_trimmed (Decimal (-1250) 3) = Some s \<and>
     from_str_exact s (d_dec (Decimal (-1250) 3)) = Some (Decimal (-1250) 3)"
  by (rule decimal_print_parse) (simp_all add: dec_wf_def i128_defs)

text \<open>
  The JSON encoding of a decimal with at most eight places reads back as
  the same number at eight places: exactly what rescaling it to the price
  precision gives.
\<close>

theorem json_roundtrip_rescales:
  assumes "dec_wf d" "d_dec d \<le> PRICE_DECIMALS"
    and "\<bar>d_val d\<bar> * 10 ^ (PRICE_DECIMALS - d_dec d) \<le> i128_max"
  shows "\<exists>s. serialize_json d = Some s \<and> deserialize_json s = to_decimals d PRICE_DECIMALS"
proof -
  let ?k = "PRICE_DECIMALS - d_dec d"
  have "\<bar>d_val d\<bar> * 1 \<le> \<bar>d_val d\<bar> * 10 ^ ?k" by (intro mult_left_mono) auto
  then have "d_val d \<noteq> i128_min" using assms by (auto simp: i128_defs)
  moreover have "in_i128 (d_val d * 10 ^ ?k)"
  proof -
    have "\<bar>d_val d * 10 ^ ?k\<bar> \<le> i128_max" using assms(3) by (simp add: abs_mult)
    then show ?thesis by (auto simp: i128_defs)
  qed
  ultimately show ?thesis
    using assms print_parse_rescaled [of d PRICE_DECIMALS]
    by (simp add: dec_wf_def serialize_json_def deserialize_json_def to_decimals_up
        PRICE_DECIMALS_def)
qed

theorem json_roundtrip_rescales_witness:
  "\<exists>s. serialize_json (Decimal 1500000 6) = Some s \<and>
     deserialize_json s = to_decimals (Decimal 1500000 6) PRICE_DECIMALS"
  by (rule json_roundtrip_rescales) (simp_all add: dec_wf_def i128_defs PRICE_DECIMALS_def)

section \<open>Precision\<close>

lemma sdiv_truncates:
  fixes a b :: int
  assumes "0 < b"
  shows "\<bar>a - (a sdiv b) * b\<bar> < b \<and> \<bar>(a sdiv b) * b\<bar> \<le> \<bar>a\<bar>"
proof -
  have "\<bar>(a sdiv b) * b\<bar> = \<bar>a\<bar> div b * b" using assms by (simp add: abs_mult abs_sdiv)
  moreover have "\<bar>a\<bar> div b * b = \<bar>a\<bar> - \<bar>a\<bar> mod b" by (simp add: minus_mod_eq_div_mult)
  moreover have "0 \<le> \<bar>a\<bar> mod b" using assms by simp
  ultimately show ?thesis using sdiv_error [OF assms] by simp
qed

text \<open>
  (C40) The multiplication operator panics exactly when the raw product leaves
  the \<open>i128\<close> range; otherwise it keeps the precision of its left operand and
  truncates the exact product towards zero by less than one unit.
\<close>

theorem dec_mul_truncates:
  assumes "d_dec b \<le> 38"
  shows "case dec_mul a b of
      None \<Rightarrow> \<not> in_i128 (d_val a * d_val b)
    | Some c \<Rightarrow> in_i128 (d_val a * d_val b) \<and> d_dec c = d_dec a \<and> in_i128 (d_val c) \<and>
        \<bar>d_val a * d_val b - d_val c * 10 ^ d_dec b\<bar> < 10 ^ d_dec b \<and>
        \<bar>d_val c * 10 ^ d_dec b\<bar> \<le> \<bar>d_val a * d_val b\<bar>"
proof -
  have "(10::int) ^ d_dec b > 0" by simp
  moreover from this have "(10::int) ^ d_dec b \<noteq> 0" "(10::int) ^ d_dec b \<noteq> - 1" by linarith+
  ultimately show ?thesis
    using sdiv_truncates [of "10 ^ d_dec b" "d_val a * d_val b"]
    by (auto simp: dec_mul_small [OF assms] in_i128_sdiv)
qed

theorem dec_mul_truncates_witness:
  "case dec_mul (Decimal 150000000 8) (Decimal 3 1) of
      None \<Rightarrow> \<not> in_i128 (d_val (Decimal 150000000 8) * d_val (Decimal 3 1))
    | Some c \<Rightarrow> in_i128 (d_val (Decimal 150000000 8) * d_val (Decimal 3 1)) \<and>
        d_dec c = d_dec (Decimal 150000000 8) \<and> in_i128 (d_val c) \<and>
        \<bar>d_val (Decimal 150000000 8) * d_val (Decimal 3 1) - d_val c * 10 ^ d_dec (Decimal 3 1)\<bar>
          < 10 ^ d_dec (Decimal 3 1) \<and>
        \<bar>d_val c * 10 ^ d_dec (Decimal 3 1)\<bar> \<le> \<bar>d_val (Decimal 150000000 8) * d_val (Decimal 3 1)\<bar>"
  by (rule dec_mul_truncates) simp

text \<open>
  Division: the quotient is the exact one truncated towards zero, for a positive
  divisor; a zero divisor and an overflowing scaled dividend panic.
\<close>

lemma dec_div_truncates:
  assumes "d_dec b \<le> 38" "0 < d_val b"
  shows "dec_div a b = (if in_i128 (d_val a * 10 ^ d_dec b)
     then Some (Decimal (d_val a * 10 ^ d_dec b sdiv d_val b) (d_dec a)) else None)"
  using assms
  by (simp add: dec_div_def checked_div_def dec_defs i128_div_pos pow10_exact i128_checked_def)

lemma dec_div_zero: "d_val b = 0 \<Longrightarrow> dec_div a b = None"
  by (simp add: dec_div_def checked_div_def)

lemma to_decimals_up_down:
  assumes "d_dec d \<le> n" "n \<le> d_dec d + 38" "in_i128 (d_val d * 10 ^ (n - d_dec d))"
  shows "Option.bind (to_decimals d n) (\<lambda>e. to_decimals e (d_dec d)) = Some d"
  using assms to_decimals_down [of "d_dec d" "Decimal (d_val d * 10 ^ (n - d_dec d)) n"]
  by (cases d) (simp add: to_decimals_up sdiv_exact)

section \<open>Batch comparison\<close>

lemma batch_compare_loop_bit:
  assumes "batch_compare_loop v i ps bs = Some m" "i + length ps \<le> 64"
    "\<forall>k. i \<le> k \<longrightarrow> \<not> bit bs k" "omap (\<lambda>p. to_decimals p PRICE_DECIMALS) ps = Some qs"
  shows "bit m k \<longleftrightarrow> bit bs k \<or> (i \<le> k \<and> k < i + length ps \<and> d_val (qs ! (k - i)) \<le> v)"
  using assms
proof (induction v i ps bs arbitrary: qs rule: batch_compare_loop.induct)
  case (2 v i p ps bs)
  then obtain q qs' where q: "to_decimals p PRICE_DECIMALS = Some q" "qs = q # qs'"
    "omap (\<lambda>p. to_decimals p PRICE_DECIMALS) ps = Some qs'"
    by (auto simp: panic_simps)
  let ?b = "if d_val q \<le> v then bs OR push_bit i 1 else bs"
  have new: "bit ?b k \<longleftrightarrow> bit bs k \<or> (k = i \<and> d_val q \<le> v)" for k
    using 2(3) by (auto simp: bit_or_iff bit_exp_iff)
  have "bit m k \<longleftrightarrow> bit ?b k \<or> (Suc i \<le> k \<and> k < Suc i + length ps \<and> d_val (qs' ! (k - Suc i)) \<le> v)"
    using 2 q new by (intro 2(1)) auto
  then show ?case
    unfolding new using q(2) by (cases "k = i") (auto simp: nth_Cons' diff_Suc split: nat.splits)
qed auto

lemma batch_compare_loop_Some:
  "omap (\<lambda>p. to_decimals p PRICE_DECIMALS) ps = Some qs \<Longrightarrow> \<exists>m. batch_compare_loop v i ps bs = Some m"
proof (induction ps arbitrary: qs i bs)
  case (Cons p ps)
  then obtain q qs' where "to_decimals p PRICE_DECIMALS = Some q"
    "omap (\<lambda>p. to_decimals p PRICE_DECIMALS) ps = Some qs'" by (auto simp: panic_simps)
  then show ?case using Cons.IH by simp
qed simp

text \<open>
  The batch comparison sets bit \<open>k\<close> of its 64-bit mask exactly for the
  prices among the first 64 that are at most the receiver, all of them compared
  at the price precision.
\<close>

theorem batch_compare_ge_bits:
  assumes "to_decimals d PRICE_DECIMALS = Some s"
    and "omap (\<lambda>p. to_decimals p PRICE_DECIMALS) (take 64 prices) = Some qs"
  shows "\<exists>m. batch_compare_ge d prices = Some m \<and>
    (\<forall>k. bit m k = (k < length prices \<and> k < 64 \<and> d_val (qs ! k) \<le> d_val s))"
proof -
  obtain m where m: "batch_compare_loop (d_val s) 0 (take 64 prices) 0 = Some m"
    using batch_compare_loop_Some assms(2) by blast
  have "bit m k \<longleftrightarrow> bit (0 :: 64 word) k \<or> (0 \<le> k \<and> k < 0 + length (take 64 prices) \<and> d_val (qs ! (k - 0)) \<le> d_val s)"
    for k by (rule batch_compare_loop_bit [OF m _ _ assms(2)]) auto
  then show ?thesis using m assms(1) by (auto simp: batch_compare_ge_def)
qed

theorem batch_compare_ge_bits_witness:
  "\<exists>m. batch_compare_ge (Decimal 5 8) [Decimal 3 8, Decimal 70 9] = Some m \<and>
    (\<forall>k. bit m k = (k < length [Decimal 3 8, Decimal 70 9] \<and> k < 64 \<and>
       d_val ([Decimal 3 8, Decimal 7 8] ! k) \<le> d_val (Decimal 5 8)))"
  by (rule batch_compare_ge_bits)
     (simp_all add: to_decimals_def PRICE_DECIMALS_def pow10_exact i128_div_def
       signed_divide_int_def i128_min_def)

end
