(* ===== verification/Order.thy ===== *)
theory Order
  imports Decimal
begin

text \<open>
  Orders, requests, fills and the keys of the book, from
  \<open>crates/primitives/src/order.rs\<close>, \<open>types.rs\<close> and \<open>error.rs\<close>.  Identifiers,
  timestamps and addresses are natural numbers.  Where an error of the source
  carries the printed form of a decimal, the model carries the decimal.
\<close>

type_synonym address = nat
type_synonym timestamp = nat
type_synonym order_id = nat
type_synonym market_id = nat

section \<open>Errors\<close>

datatype error =
    InvalidSignature
  | InvalidNonce nat nat
  | NonceTooOld nat
  | InsufficientMargin decimal decimal
  | InsufficientBalance decimal decimal
  | InvalidPrice decimal decimal
  | InvalidSize decimal decimal
  | SizeTooSmall decimal decimal
  | SizeTooLarge decimal decimal
  | OrderNotFound order_id
  | OrderNotOwned
  | MaxOrdersExceeded nat
  | PostOnlyWouldCross
  | ReduceOnlyViolation
  | FokNotFilled
  | InvalidOrderType
  | DuplicateClientOrderId string
  | MarketNotFound market_id
  | MarketPaused string
  | MarketClosed string
  | PositionNotFound market_id
  | MaxPositionExceeded decimal
  | InvalidLeverage nat nat
  | LeverageWouldCauseLiquidation
  | AccountBeingLiquidated
  | PositionUnderwater
  | RateLimited
  | Internal string
  | StateCorruption string
  | Serialization string
  | Database string
  | Orderbook string

section \<open>Enumerations\<close>

datatype margin_mode = Isolated | Cross

datatype side = Buy | Sell

fun opposite :: "side \<Rightarrow> side" where
  "opposite Buy = Sell"
| "opposite Sell = Buy"

fun side_sign :: "side \<Rightarrow> int" where
  "side_sign Buy = 1"
| "side_sign Sell = -1"

datatype tif = Gtc | Ioc | Fok | Alo

datatype order_type = Limit tif | Market

datatype order_status = Open | PartiallyFilled | Filled | Canceled | Rejected

datatype trigger_direction = Above | Below

section \<open>Orders and fills\<close>

record order_request =
  q_market :: market_id
  q_side :: side
  q_price :: decimal
  q_size :: decimal
  q_type :: order_type
  q_reduce_only :: bool
  q_cloid :: "string option"
  q_trig_price :: "decimal option"
  q_trig_dir :: "trigger_direction option"

record order =
  o_id :: order_id
  o_owner :: address
  o_market :: market_id
  o_side :: side
  o_price :: decimal
  o_orig :: decimal
  o_rem :: decimal
  o_type :: order_type
  o_reduce_only :: bool
  o_post_only :: bool
  o_cloid :: "string option"
  o_ts :: timestamp
  o_status :: order_status
  o_trig_price :: "decimal option"
  o_trig_dir :: "trigger_direction option"
  o_triggered :: bool

record fill =
  f_market :: market_id
  f_maker :: address
  f_taker :: address
  f_maker_oid :: order_id
  f_taker_oid :: order_id
  f_price :: int
  f_size :: int
  f_maker_fee :: int
  f_taker_fee :: int
  f_ts :: timestamp
  f_taker_buy :: bool
  f_pnl_maker :: int
  f_pnl_taker :: int

definition order_new :: "order_id \<Rightarrow> address \<Rightarrow> order_request \<Rightarrow> timestamp \<Rightarrow> order" where
  "order_new i own r ts =
     \<lparr> o_id = i, o_owner = own, o_market = q_market r, o_side = q_side r, o_price = q_price r,
       o_orig = q_size r, o_rem = q_size r, o_type = q_type r, o_reduce_only = q_reduce_only r,
       o_post_only = (q_type r = Limit Alo), o_cloid = q_cloid r, o_ts = ts, o_status = Open,
       o_trig_price = q_trig_price r, o_trig_dir = q_trig_dir r, o_triggered = False \<rparr>"

definition is_filled :: "order \<Rightarrow> bool" where
  "is_filled ord = is_zero (o_rem ord)"

definition is_resting :: "order \<Rightarrow> bool" where
  "is_resting ord = (o_status ord = Open \<or> o_status ord = PartiallyFilled)"

definition should_rest :: "order \<Rightarrow> bool" where
  "should_rest ord = (case o_type ord of Limit t \<Rightarrow> t = Gtc \<or> t = Alo | Market \<Rightarrow> False)"

definition is_ioc :: "order \<Rightarrow> bool" where
  "is_ioc ord = (o_type ord = Limit Ioc \<or> o_type ord = Market)"

definition is_fok :: "order \<Rightarrow> bool" where
  "is_fok ord = (o_type ord = Limit Fok)"

definition order_fill :: "order \<Rightarrow> decimal \<Rightarrow> order option" where
  "order_fill ord sz = do {
     r \<leftarrow> dec_sub (o_rem ord) sz;
     Some (ord \<lparr> o_rem := r, o_status := (if is_zero r then Filled else PartiallyFilled) \<rparr>)
   }"

definition order_cancel :: "order \<Rightarrow> order" where
  "order_cancel ord = ord \<lparr> o_status := Canceled \<rparr>"

definition filled_size :: "order \<Rightarrow> decimal option" where
  "filled_size ord = dec_sub (o_orig ord) (o_rem ord)"

definition order_notional :: "order \<Rightarrow> decimal option" where
  "order_notional ord = dec_mul (o_rem ord) (o_price ord)"

section \<open>Keys: price-time priority\<close>

datatype order_key = OrderKey (k_price: int) (k_ts: nat) (k_id: nat)

definition key_bid :: "decimal \<Rightarrow> timestamp \<Rightarrow> order_id \<Rightarrow> order_key" where
  "key_bid price ts i = OrderKey (wrap_i128 (- d_val price)) ts i"

definition key_ask :: "decimal \<Rightarrow> timestamp \<Rightarrow> order_id \<Rightarrow> order_key" where
  "key_ask price ts i = OrderKey (d_val price) ts i"

text \<open>The order on keys compares price, then timestamp, then order id.\<close>

definition key_not_after :: "order_key \<Rightarrow> order_key \<Rightarrow> bool" where
  "key_not_after a b =
     (k_price a < k_price b \<or> (k_price a = k_price b \<and>
       (k_ts a < k_ts b \<or> (k_ts a = k_ts b \<and> k_id a \<le> k_id b))))"

instantiation order_key :: linorder
begin

definition less_eq_order_key :: "order_key \<Rightarrow> order_key \<Rightarrow> bool" where
  "less_eq_order_key a b = key_not_after a b"

definition less_order_key :: "order_key \<Rightarrow> order_key \<Rightarrow> bool" where
  "less_order_key a b =
     (k_price a < k_price b \<or> (k_price a = k_price b \<and>
       (k_ts a < k_ts b \<or> (k_ts a = k_ts b \<and> k_id a < k_id b))))"

instance
  by intro_classes (auto simp: less_eq_order_key_def key_not_after_def less_order_key_def order_key.expand)

end

section \<open>Well-formed orders and filling\<close>

text \<open>
  The orders the book holds: the price is a positive \<open>i128\<close> at the price
  precision, the remaining size a positive \<open>i128\<close> at the size precision.
\<close>

definition pos_amount :: "decimal \<Rightarrow> bool" where
  "pos_amount d = (0 < d_val d \<and> in_i128 (d_val d) \<and> d_dec d = 8)"

definition order_ok :: "order \<Rightarrow> bool" where
  "order_ok ord = (pos_amount (o_price ord) \<and> pos_amount (o_rem ord))"

lemma order_fill_Some:
  assumes "order_ok ord" "pos_amount s" "d_val s \<le> d_val (o_rem ord)"
  shows "order_fill ord s = Some (ord \<lparr> o_rem := Decimal (d_val (o_rem ord) - d_val s) 8,
    o_status := (if d_val s = d_val (o_rem ord) then Filled else PartiallyFilled) \<rparr>)"
proof -
  have "in_i128 (d_val (o_rem ord) - d_val s)"
    using assms by (auto simp: order_ok_def pos_amount_def i128_defs)
  then have "dec_sub (o_rem ord) s = Some (Decimal (d_val (o_rem ord) - d_val s) 8)"
    using assms by (simp add: dec_sub_eq_Some order_ok_def pos_amount_def)
  then show ?thesis by (simp add: order_fill_def is_zero_def)
qed

lemma order_fill_fields:
  assumes "order_fill ord s = Some ord'"
  shows "o_id ord' = o_id ord" "o_owner ord' = o_owner ord" "o_side ord' = o_side ord"
    "o_price ord' = o_price ord" "o_ts ord' = o_ts ord" "o_market ord' = o_market ord"
    "o_orig ord' = o_orig ord" "o_type ord' = o_type ord" "o_post_only ord' = o_post_only ord"
    "o_reduce_only ord' = o_reduce_only ord"
  using assms by (auto simp: order_fill_def panic_simps)

text \<open>A limit order at the standard precisions, for concrete instances.\<close>

definition limit_request :: "side \<Rightarrow> int \<Rightarrow> int \<Rightarrow> tif \<Rightarrow> order_request" where
  "limit_request s p sz t =
     \<lparr> q_market = 0, q_side = s, q_price = Decimal p 8, q_size = Decimal sz 8, q_type = Limit t,
       q_reduce_only = False, q_cloid = None, q_trig_price = None, q_trig_dir = None \<rparr>"

definition limit_order :: "order_id \<Rightarrow> address \<Rightarrow> side \<Rightarrow> int \<Rightarrow> int \<Rightarrow> tif \<Rightarrow> order" where
  "limit_order i own s p sz t = order_new i own (limit_request s p sz t) i"

lemmas limit_order_defs = limit_order_def order_new_def limit_request_def

lemma limit_order_sel [simp]:
  "o_id (limit_order i own s p sz t) = i" "o_owner (limit_order i own s p sz t) = own"
  "o_side (limit_order i own s p sz t) = s" "o_price (limit_order i own s p sz t) = Decimal p 8"
  "o_rem (limit_order i own s p sz t) = Decimal sz 8" "o_ts (limit_order i own s p sz t) = i"
  "o_orig (limit_order i own s p sz t) = Decimal sz 8" "o_type (limit_order i own s p sz t) = Limit t"
  "o_post_only (limit_order i own s p sz t) = (t = Alo)"
  by (simp_all add: limit_order_defs)

lemma order_ok_limit_order:
  "order_ok (limit_order i own s p sz t) \<longleftrightarrow> 0 < p \<and> in_i128 p \<and> 0 < sz \<and> in_i128 sz"
  by (auto simp: order_ok_def pos_amount_def)

end
