(* ===== verification/Order_Book.thy ===== *)
theory Order_Book
  imports Order
begin

text \<open>
  The order book of one market, from \<open>crates/engine/src/orderbook.rs\<close>: two
  B-tree maps from keys to orders, a hash index from order ids to keys, and the
  cached best prices.  \<open>remove\<close>, \<open>get\<close> and \<open>get_mut\<close> decide the side from the
  sign of the key's price, as the source does.
\<close>

section \<open>State and operations\<close>

record order_book =
  bids :: "(order_key, order) btree"
  asks :: "(order_key, order) btree"
  order_index :: "(order_id, order_key) hash_map"
  best_bid_cache :: "decimal option"
  best_ask_cache :: "decimal option"

definition book_new :: order_book where
  "book_new = \<lparr> bids = [], asks = [], order_index = [], best_bid_cache = None, best_ask_cache = None \<rparr>"

definition first_value :: "('k \<times> 'v) list \<Rightarrow> 'v option" where
  "first_value m = (case m of [] \<Rightarrow> None | kv # _ \<Rightarrow> Some (snd kv))"

definition best_bid :: "order_book \<Rightarrow> order option" where
  "best_bid b = first_value (bids b)"

definition best_ask :: "order_book \<Rightarrow> order option" where
  "best_ask b = first_value (asks b)"

definition update_best_bid :: "order_book \<Rightarrow> order_book" where
  "update_best_bid b = b \<lparr> best_bid_cache := map_option o_price (first_value (bids b)) \<rparr>"

definition update_best_ask :: "order_book \<Rightarrow> order_book" where
  "update_best_ask b = b \<lparr> best_ask_cache := map_option o_price (first_value (asks b)) \<rparr>"

definition order_key_of :: "order \<Rightarrow> order_key" where
  "order_key_of ord = (case o_side ord of
       Buy \<Rightarrow> key_bid (o_price ord) (o_ts ord) (o_id ord)
     | Sell \<Rightarrow> key_ask (o_price ord) (o_ts ord) (o_id ord))"

definition book_insert :: "order \<Rightarrow> order_book \<Rightarrow> order_book" where
  "book_insert ord b =
    (let key = order_key_of ord;
         b1 = b \<lparr> order_index := hm_insert (o_id ord) key (order_index b) \<rparr>
     in case o_side ord of
          Buy \<Rightarrow> update_best_bid (b1 \<lparr> bids := bt_insert key ord (bids b1) \<rparr>)
        | Sell \<Rightarrow> update_best_ask (b1 \<lparr> asks := bt_insert key ord (asks b1) \<rparr>))"

definition book_remove :: "order_id \<Rightarrow> order_book \<Rightarrow> order option \<times> order_book" where
  "book_remove i b = (case hm_get (order_index b) i of
       None \<Rightarrow> (None, b)
     | Some key \<Rightarrow>
         let b1 = b \<lparr> order_index := hm_remove i (order_index b) \<rparr> in
         if k_price key < 0
         then (bt_get (bids b1) key, update_best_bid (b1 \<lparr> bids := bt_remove key (bids b1) \<rparr>))
         else (bt_get (asks b1) key, update_best_ask (b1 \<lparr> asks := bt_remove key (asks b1) \<rparr>)))"

definition book_get :: "order_id \<Rightarrow> order_book \<Rightarrow> order option" where
  "book_get i b = (case hm_get (order_index b) i of
       None \<Rightarrow> None
     | Some key \<Rightarrow> if k_price key < 0 then bt_get (bids b) key else bt_get (asks b) key)"

text \<open>Assignment through the reference that \<open>get_mut\<close> returns.\<close>

definition book_set :: "order_id \<Rightarrow> order \<Rightarrow> order_book \<Rightarrow> order_book" where
  "book_set i ord b = (case hm_get (order_index b) i of
       None \<Rightarrow> b
     | Some key \<Rightarrow> if k_price key < 0 then b \<lparr> bids := bt_set key ord (bids b) \<rparr>
                   else b \<lparr> asks := bt_set key ord (asks b) \<rparr>)"

definition best_bid_price :: "order_book \<Rightarrow> decimal option" where
  "best_bid_price b = best_bid_cache b"

definition best_ask_price :: "order_book \<Rightarrow> decimal option" where
  "best_ask_price b = best_ask_cache b"

definition spread :: "order_book \<Rightarrow> decimal option option" where
  "spread b = (case (best_bid_cache b, best_ask_cache b) of
       (Some bid, Some ask) \<Rightarrow> map_option Some (dec_sub ask bid)
     | _ \<Rightarrow> Some None)"

definition mid_price :: "order_book \<Rightarrow> decimal option option" where
  "mid_price b = (case (best_bid_cache b, best_ask_cache b) of
       (Some bid, Some ask) \<Rightarrow> do { s \<leftarrow> dec_add bid ask; m \<leftarrow> div_int s 2; Some (Some m) }
     | _ \<Rightarrow> Some None)"

definition book_is_empty :: "order_book \<Rightarrow> bool" where
  "book_is_empty b = (bids b = [] \<and> asks b = [])"

definition bid_count :: "order_book \<Rightarrow> nat" where
  "bid_count b = length (bids b)"

definition ask_count :: "order_book \<Rightarrow> nat" where
  "ask_count b = length (asks b)"

definition book_len :: "order_book \<Rightarrow> nat" where
  "book_len b = bid_count b + ask_count b"

definition bids_iter :: "order_book \<Rightarrow> order list" where
  "bids_iter b = map snd (bids b)"

definition asks_iter :: "order_book \<Rightarrow> order list" where
  "asks_iter b = map snd (asks b)"

text \<open>The loop shared by the two impact prices: remaining notional, total size and total cost.\<close>

fun impact_loop :: "order list \<Rightarrow> decimal \<Rightarrow> decimal \<Rightarrow> decimal \<Rightarrow> (decimal \<times> decimal) option" where
  "impact_loop [] remaining total_size total_cost = Some (total_size, total_cost)"
| "impact_loop (ord # os) remaining total_size total_cost = do {
     n \<leftarrow> dec_mul (o_price ord) (o_rem ord);
     if n \<le> remaining then do {
       ts \<leftarrow> dec_add total_size (o_rem ord);
       tc \<leftarrow> dec_add total_cost n;
       r \<leftarrow> dec_sub remaining n;
       impact_loop os r ts tc
     } else do {
       p \<leftarrow> dec_div remaining (o_price ord);
       ts \<leftarrow> dec_add total_size p;
       tc \<leftarrow> dec_add total_cost remaining;
       Some (ts, tc)
     }
   }"

definition impact_price :: "order list \<Rightarrow> decimal \<Rightarrow> decimal option option" where
  "impact_price os notional =
    (if os = [] \<or> is_zero notional then Some None
     else do {
       (ts, tc) \<leftarrow> impact_loop os notional (Decimal 0 SIZE_DECIMALS)
                    (Decimal 0 (PRICE_DECIMALS + SIZE_DECIMALS));
       if is_zero ts then Some None else map_option Some (dec_div tc ts)
     })"

definition impact_price_buy :: "order_book \<Rightarrow> decimal \<Rightarrow> decimal option option" where
  "impact_price_buy b notional = impact_price (asks_iter b) notional"

definition impact_price_sell :: "order_book \<Rightarrow> decimal \<Rightarrow> decimal option option" where
  "impact_price_sell b notional = impact_price (bids_iter b) notional"

definition update_size :: "order_id \<Rightarrow> decimal \<Rightarrow> order_book \<Rightarrow> (error + unit) \<times> order_book" where
  "update_size i r b = (case book_get i b of
       None \<Rightarrow> (Inl (OrderNotFound i), b)
     | Some ord \<Rightarrow> (Inr (), book_set i (ord \<lparr> o_rem := r \<rparr>) b))"

definition remove_if_filled :: "order_id \<Rightarrow> order_book \<Rightarrow> order option \<times> order_book" where
  "remove_if_filled i b = (case book_get i b of
       Some ord \<Rightarrow> if is_filled ord then book_remove i b else (None, b)
     | None \<Rightarrow> (None, b))"

section \<open>Aggregated levels\<close>

record price_level =
  l_price :: decimal
  l_size :: decimal
  l_count :: nat

text \<open>
  The level under construction is the last one of the list; \<open>order_count\<close> is a
  \<open>u32\<close>.  The loop stops at the first order of a new price once the depth is reached.
\<close>

fun aggregate_loop :: "nat \<Rightarrow> order list \<Rightarrow> price_level list \<Rightarrow> decimal option \<Rightarrow> price_level list option"
  where
  "aggregate_loop depth [] levels cur = Some levels"
| "aggregate_loop depth (ord # os) levels cur =
     (if length levels \<ge> depth \<and> cur \<noteq> Some (o_price ord) then Some levels
      else if cur = Some (o_price ord) then
        (if levels = [] then aggregate_loop depth os levels cur
         else do {
           s \<leftarrow> dec_add (l_size (last levels)) (o_rem ord);
           aggregate_loop depth os
             (butlast levels @ [(last levels) \<lparr> l_size := s,
                                              l_count := (l_count (last levels) + 1) mod 2 ^ 32 \<rparr>]) cur
         })
      else if length levels < depth then
        aggregate_loop depth os
          (levels @ [\<lparr> l_price = o_price ord, l_size = o_rem ord, l_count = 1 \<rparr>]) (Some (o_price ord))
      else aggregate_loop depth os levels cur)"

definition aggregate_levels :: "order list \<Rightarrow> nat \<Rightarrow> price_level list option" where
  "aggregate_levels os depth = aggregate_loop depth os [] None"

definition get_l2 :: "order_book \<Rightarrow> nat \<Rightarrow> (price_level list \<times> price_level list) option" where
  "get_l2 b depth = do {
     bs \<leftarrow> aggregate_levels (bids_iter b) depth;
     as \<leftarrow> aggregate_levels (asks_iter b) depth;
     Some (bs, as)
   }"

section \<open>Snapshots\<close>

record book_snapshot =
  bs_bids :: "order list"
  bs_asks :: "order list"

definition book_snapshot :: "order_book \<Rightarrow> book_snapshot" where
  "book_snapshot b = \<lparr> bs_bids = bids_iter b, bs_asks = asks_iter b \<rparr>"

definition book_from_snapshot :: "book_snapshot \<Rightarrow> order_book" where
  "book_from_snapshot s =
     fold book_insert (bs_asks s) (fold book_insert (bs_bids s) book_new)"

definition get_all_orders :: "order_book \<Rightarrow> order list" where
  "get_all_orders b = bids_iter b @ asks_iter b"

definition restore_order :: "order \<Rightarrow> order_book \<Rightarrow> order_book" where
  "restore_order ord b = book_insert ord b"

section \<open>The invariant of the book\<close>

text \<open>
  Each side is keyed by the key of the order it stores and holds well-formed
  orders of that side only; the index maps exactly the ids of the resting orders
  to their keys; the caches hold the first price of each side.
\<close>

definition side_inv :: "side \<Rightarrow> (order_key, order) btree \<Rightarrow> bool" where
  "side_inv s m = (bt_inv m \<and>
     list_all (\<lambda>(k, ord). k = order_key_of ord \<and> o_side ord = s \<and> order_ok ord) m)"

definition book_keys :: "order_book \<Rightarrow> order_key list" where
  "book_keys b = map fst (bids b) @ map fst (asks b)"

definition index_inv :: "order_book \<Rightarrow> bool" where
  "index_inv b = (hm_inv (order_index b) \<and>
     list_all (\<lambda>(i, k). k_id k = i \<and> List.member (book_keys b) k) (order_index b) \<and>
     list_all (\<lambda>k. hm_get (order_index b) (k_id k) = Some k) (book_keys b))"

definition cache_inv :: "order_book \<Rightarrow> bool" where
  "cache_inv b = (best_bid_cache b = map_option o_price (best_bid b) \<and>
     best_ask_cache b = map_option o_price (best_ask b))"

definition book_inv :: "order_book \<Rightarrow> bool" where
  "book_inv b = (side_inv Buy (bids b) \<and> side_inv Sell (asks b) \<and> index_inv b \<and> cache_inv b)"

lemmas book_ops = book_insert_def book_remove_def book_get_def book_set_def update_best_bid_def
  update_best_ask_def

lemma k_id_order_key [simp]: "k_id (order_key_of ord) = o_id ord"
  by (simp add: order_key_of_def key_bid_def key_ask_def split: side.splits)

lemma k_ts_order_key [simp]: "k_ts (order_key_of ord) = o_ts ord"
  by (simp add: order_key_of_def key_bid_def key_ask_def split: side.splits)

lemma k_price_order_key:
  assumes "order_ok ord"
  shows "k_price (order_key_of ord) =
    (case o_side ord of Buy \<Rightarrow> - d_val (o_price ord) | Sell \<Rightarrow> d_val (o_price ord))"
proof -
  have "in_i128 (- d_val (o_price ord))"
    using assms by (auto simp: order_ok_def pos_amount_def i128_defs)
  then show ?thesis
    by (simp add: order_key_of_def key_bid_def key_ask_def wrap_i128_id split: side.splits)
qed

lemma key_sign:
  "order_ok ord \<Longrightarrow> k_price (order_key_of ord) < 0 \<longleftrightarrow> o_side ord = Buy"
  by (auto simp: k_price_order_key order_ok_def pos_amount_def split: side.splits)

lemma side_inv_Nil [simp]: "side_inv s []"
  by (simp add: side_inv_def)

lemma side_inv_in:
  "side_inv s m \<Longrightarrow> (k, ord) \<in> set m \<Longrightarrow> k = order_key_of ord \<and> o_side ord = s \<and> order_ok ord"
  by (auto simp: side_inv_def list_all_iff)

lemma side_inv_bt: "side_inv s m \<Longrightarrow> bt_inv m"
  by (simp add: side_inv_def)

lemma side_inv_insert:
  "side_inv s m \<Longrightarrow> o_side ord = s \<Longrightarrow> order_ok ord \<Longrightarrow> side_inv s (bt_insert (order_key_of ord) ord m)"
  using set_bt_insert_subset [of "order_key_of ord" ord m] by (auto simp: side_inv_def list_all_iff)

lemma side_inv_remove: "side_inv s m \<Longrightarrow> side_inv s (bt_remove k m)"
  using set_bt_remove_subset [of k m] by (auto simp: side_inv_def list_all_iff)

lemma side_inv_set:
  "side_inv s m \<Longrightarrow> order_key_of ord = k \<Longrightarrow> o_side ord = s \<Longrightarrow> order_ok ord \<Longrightarrow>
   side_inv s (bt_set k ord m)"
  by (auto simp: side_inv_def list_all_iff dest!: in_set_bt_setD)

lemma bt_remove_keys:
  "bt_inv m \<Longrightarrow> fst ` set (bt_remove k m) = fst ` set m - {k}"
  by (induction k m rule: bt_remove.induct) (force simp: bt_inv_Cons)+

lemma set_book_keys: "set (book_keys b) = fst ` set (bids b) \<union> fst ` set (asks b)"
  by (simp add: book_keys_def)

text \<open>The two halves of the index invariant, as one equivalence.\<close>

lemma index_inv_iff:
  assumes "index_inv b"
  shows "hm_get (order_index b) i = Some k \<longleftrightarrow> k_id k = i \<and> k \<in> set (book_keys b)"
  using assms hm_get_in_set [of "order_index b" i k]
  by (fastforce simp: index_inv_def list_all_iff List.member_iff)

lemma index_invI:
  assumes "hm_inv (order_index b)"
    and "\<And>i k. hm_get (order_index b) i = Some k \<longleftrightarrow> k_id k = i \<and> k \<in> set (book_keys b)"
  shows "index_inv b"
  using assms hm_in_set_get [OF assms(1)]
  unfolding index_inv_def list_all_iff List.member_iff by fastforce

lemma side_inv_key_sign:
  assumes "side_inv s m" "k \<in> fst ` set m"
  shows "k_price k < 0 \<longleftrightarrow> s = Buy"
  using assms side_inv_in key_sign by fastforce

lemma book_inv_new [simp]: "book_inv book_new"
  by (simp add: book_inv_def book_new_def index_inv_def cache_inv_def book_keys_def best_bid_def
      best_ask_def first_value_def)

section \<open>The book as a map from ids to orders\<close>

definition side_map :: "side \<Rightarrow> order_book \<Rightarrow> (order_key, order) btree" where
  "side_map s b = (case s of Buy \<Rightarrow> bids b | Sell \<Rightarrow> asks b)"

lemma side_map_simps [simp]: "side_map Buy b = bids b" "side_map Sell b = asks b"
  by (simp_all add: side_map_def)

lemma book_inv_side: "book_inv b \<Longrightarrow> side_inv s (side_map s b)"
  by (cases s) (simp_all add: book_inv_def)

lemma in_book_keys:
  "book_inv b \<Longrightarrow> (k, ord) \<in> set (side_map s b) \<Longrightarrow> k \<in> set (book_keys b)"
  by (cases s) (force simp: set_book_keys)+

lemma index_of_resting:
  assumes "book_inv b" "(k, ord) \<in> set (side_map s b)"
  shows "hm_get (order_index b) (o_id ord) = Some k" "k = order_key_of ord" "o_side ord = s" "order_ok ord"
  using side_inv_in [OF book_inv_side [OF assms(1)] assms(2)] in_book_keys [OF assms] assms(1)
  by (auto simp: book_inv_def index_inv_iff)

lemma book_get_iff:
  assumes "book_inv b"
  shows "book_get i b = Some ord \<longleftrightarrow>
    o_id ord = i \<and> (order_key_of ord, ord) \<in> set (side_map (o_side ord) b)"
proof
  assume get: "book_get i b = Some ord"
  then obtain k where k: "hm_get (order_index b) i = Some k"
    by (auto simp: book_get_def split: option.splits)
  from get k obtain s where s: "(k, ord) \<in> set (side_map s b)"
    by (auto simp: book_get_def dest!: bt_get_in_set split: if_splits) (metis side_map_simps)+
  have "k_id k = i" using k assms by (simp add: book_inv_def index_inv_iff)
  then show "o_id ord = i \<and> (order_key_of ord, ord) \<in> set (side_map (o_side ord) b)"
    using index_of_resting [OF assms s] s by auto
next
  assume r: "o_id ord = i \<and> (order_key_of ord, ord) \<in> set (side_map (o_side ord) b)"
  note f = index_of_resting [OF assms conjunct2 [OF r]]
  have "bt_get (side_map (o_side ord) b) (order_key_of ord) = Some ord"
    using r side_inv_bt [OF book_inv_side [OF assms]] by (intro bt_in_set_get) auto
  then show "book_get i b = Some ord"
    using f(1) r key_sign [OF f(4)] by (cases "o_side ord") (auto simp: book_get_def)
qed

lemma book_get_None_iff:
  assumes "book_inv b"
  shows "book_get i b = None \<longleftrightarrow> hm_get (order_index b) i = None"
proof
  assume none: "book_get i b = None"
  show "hm_get (order_index b) i = None"
  proof (rule ccontr)
    assume "hm_get (order_index b) i \<noteq> None"
    then obtain k where k: "hm_get (order_index b) i = Some k" by auto
    then have "k_id k = i" "k \<in> set (book_keys b)" using assms by (auto simp: book_inv_def index_inv_iff)
    then obtain s ord where s: "(k, ord) \<in> set (side_map s b)"
      by (auto simp: set_book_keys) (metis side_map_simps)+
    then have "book_get i b = Some ord"
      using index_of_resting [OF assms s] \<open>k_id k = i\<close> by (auto simp: book_get_iff [OF assms])
    then show False using none by simp
  qed
qed (simp add: book_get_def)

lemma set_get_all_orders:
  assumes "book_inv b"
  shows "ord \<in> set (get_all_orders b) \<longleftrightarrow> book_get (o_id ord) b = Some ord"
proof -
  have ex: "(\<exists>s. P s) \<longleftrightarrow> P Buy \<or> P Sell" for P by (metis side.exhaust)
  have "ord \<in> set (get_all_orders b) \<longleftrightarrow> (\<exists>s. \<exists>k. (k, ord) \<in> set (side_map s b))"
    unfolding ex by (force simp: get_all_orders_def bids_iter_def asks_iter_def)
  then show ?thesis
    using book_get_iff [OF assms] index_of_resting [OF assms] by metis
qed

section \<open>Operations preserve the invariant\<close>

lemma book_insert_sides:
  "side_map s (book_insert ord b) =
     (if s = o_side ord then bt_insert (order_key_of ord) ord (side_map s b) else side_map s b)"
  by (cases s) (auto simp: book_ops Let_def split: side.splits)

lemma book_insert_index [simp]:
  "order_index (book_insert ord b) = hm_insert (o_id ord) (order_key_of ord) (order_index b)"
  by (auto simp: book_ops Let_def split: side.splits)

lemma side_UNIV: "(UNIV :: side set) = {Buy, Sell}"
  by (auto intro: side.exhaust)

lemma book_keys_sides: "set (book_keys b) = (\<Union>s. fst ` set (side_map s b))"
  unfolding side_UNIV by (simp add: set_book_keys)

lemma book_insert_keys:
  "set (book_keys (book_insert ord b)) = insert (order_key_of ord) (set (book_keys b))"
  using book_insert_sides [of Buy ord b] book_insert_sides [of Sell ord b]
  by (cases "o_side ord") (simp_all add: set_book_keys)

definition fresh_for :: "order \<Rightarrow> order_book \<Rightarrow> bool" where
  "fresh_for ord b = (hm_get (order_index b) (o_id ord) \<in> {None, Some (order_key_of ord)})"

lemma book_inv_insert [intro]:
  assumes inv: "book_inv b" and ok: "order_ok ord" and fresh: "fresh_for ord b"
  shows "book_inv (book_insert ord b)"
proof -
  have "side_inv s (side_map s (book_insert ord b))" for s
    using book_inv_side [OF inv] ok by (auto simp: book_insert_sides side_inv_insert)
  then have sides: "side_inv Buy (bids (book_insert ord b))" "side_inv Sell (asks (book_insert ord b))"
    by (metis side_map_simps)+
  have idx: "index_inv b" using inv by (simp add: book_inv_def)
  have "index_inv (book_insert ord b)"
  proof (rule index_invI)
    show "hm_inv (order_index (book_insert ord b))"
      using idx by (simp add: index_inv_def)
    fix i k
    show "hm_get (order_index (book_insert ord b)) i = Some k \<longleftrightarrow>
        k_id k = i \<and> k \<in> set (book_keys (book_insert ord b))"
      using fresh index_inv_iff [OF idx, of i k]
      by (auto simp: book_insert_keys fresh_for_def)
  qed
  moreover have "cache_inv (book_insert ord b)"
    using inv by (auto simp: book_inv_def cache_inv_def book_ops Let_def best_bid_def best_ask_def
        split: side.splits)
  ultimately show ?thesis using sides by (simp add: book_inv_def)
qed

lemma book_remove_get: "fst (book_remove i b) = book_get i b"
  by (simp add: book_remove_def book_get_def Let_def split: option.splits)

lemma book_remove_None: "hm_get (order_index b) i = None \<Longrightarrow> snd (book_remove i b) = b"
  by (simp add: book_remove_def)

lemma book_remove_Some:
  assumes "hm_get (order_index b) i = Some k"
  shows "side_map s (snd (book_remove i b)) =
      (if (k_price k < 0) = (s = Buy) then bt_remove k (side_map s b) else side_map s b)"
    and "order_index (snd (book_remove i b)) = hm_remove i (order_index b)"
  using assms by (cases s; auto simp: book_ops Let_def)+

lemma book_remove_keys:
  assumes "book_inv b" "hm_get (order_index b) i = Some k"
  shows "set (book_keys (snd (book_remove i b))) = set (book_keys b) - {k}"
proof -
  have "fst ` set (side_map s (snd (book_remove i b))) = fst ` set (side_map s b) - {k}" for s
  proof (cases "(k_price k < 0) = (s = Buy)")
    case True
    then show ?thesis
      using side_inv_bt [OF book_inv_side [OF assms(1)]]
      by (simp add: book_remove_Some(1) [OF assms(2)] bt_remove_keys)
  next
    case False
    then have "k \<notin> fst ` set (side_map s b)"
      using side_inv_key_sign [OF book_inv_side [OF assms(1)]] by blast
    then show ?thesis using False by (simp add: book_remove_Some(1) [OF assms(2)])
  qed
  then show ?thesis by (auto simp: book_keys_sides)
qed

lemma book_inv_remove [intro]:
  assumes inv: "book_inv b"
  shows "book_inv (snd (book_remove i b))"
proof (cases "hm_get (order_index b) i")
  case (Some k)
  let ?b = "snd (book_remove i b)"
  have "side_inv s (side_map s ?b)" for s
    using book_inv_side [OF inv] by (simp add: book_remove_Some [OF Some] side_inv_remove)
  then have sides: "side_inv Buy (bids ?b)" "side_inv Sell (asks ?b)" by (metis side_map_simps)+
  have idx: "index_inv b" using inv by (simp add: book_inv_def)
  have "index_inv ?b"
  proof (rule index_invI)
    show "hm_inv (order_index ?b)"
      using idx by (simp add: index_inv_def book_remove_Some [OF Some])
    fix j k'
    show "hm_get (order_index ?b) j = Some k' \<longleftrightarrow> k_id k' = j \<and> k' \<in> set (book_keys ?b)"
      using Some index_inv_iff [OF idx, of i k] index_inv_iff [OF idx, of j k']
      by (cases "j = i") (auto simp: book_remove_keys [OF inv Some] book_remove_Some [OF Some])
  qed
  moreover have "cache_inv ?b"
    using inv Some by (auto simp: book_inv_def cache_inv_def book_ops Let_def best_bid_def best_ask_def)
  ultimately show ?thesis using sides by (simp add: book_inv_def)
qed (use inv in \<open>simp add: book_remove_None\<close>)

lemma book_set_sides:
  assumes "hm_get (order_index b) i = Some k"
  shows "side_map s (book_set i ord b) =
      (if (k_price k < 0) = (s = Buy) then bt_set k ord (side_map s b) else side_map s b)"
    and "order_index (book_set i ord b) = order_index b"
  using assms by (cases s; auto simp: book_ops)+

lemma book_set_caches:
  "best_bid_cache (book_set i ord b) = best_bid_cache b"
  "best_ask_cache (book_set i ord b) = best_ask_cache b"
  by (simp_all add: book_set_def split: option.splits)

lemma first_value_bt_set:
  assumes "(k, old) \<in> set m" "bt_inv m" "o_price ord = o_price old"
  shows "map_option o_price (first_value (bt_set k ord m)) = map_option o_price (first_value m)"
  using assms by (cases m) (force simp: first_value_def bt_inv_Cons bt_set_def)+

lemma book_inv_set [intro]:
  assumes inv: "book_inv b" and old: "book_get i b = Some old" and ok: "order_ok ord"
    and same: "order_key_of ord = order_key_of old" "o_side ord = o_side old" "o_price ord = o_price old"
  shows "book_inv (book_set i ord b)"
proof -
  let ?k = "order_key_of old"
  have mem: "(?k, old) \<in> set (side_map (o_side old) b)" "o_id old = i"
    using old by (auto simp: book_get_iff [OF inv])
  note f = index_of_resting [OF inv mem(1)]
  have k: "hm_get (order_index b) i = Some ?k" using f(1) mem(2) by simp
  have sgn: "(k_price ?k < 0) = (s = Buy) \<longleftrightarrow> s = o_side old" for s
    using key_sign [OF f(4)] by (cases s; cases "o_side old") auto
  note sides = book_set_sides [OF k, where ord = ord, unfolded sgn]
  have "side_inv s (side_map s (book_set i ord b))" for s
    using book_inv_side [OF inv, of s] same ok by (auto simp: sides intro: side_inv_set)
  then have "side_inv Buy (bids (book_set i ord b))" "side_inv Sell (asks (book_set i ord b))"
    by (metis side_map_simps)+
  moreover have "map fst (side_map s (book_set i ord b)) = map fst (side_map s b)" for s
    by (simp add: sides)
  then have "book_keys (book_set i ord b) = book_keys b"
    by (metis book_keys_def side_map_simps)
  then have "index_inv (book_set i ord b)"
    using inv by (simp add: book_inv_def index_inv_def sides)
  moreover have "map_option o_price (first_value (side_map s (book_set i ord b))) =
      map_option o_price (first_value (side_map s b))" for s
    using first_value_bt_set [OF mem(1) side_inv_bt [OF book_inv_side [OF inv]] same(3)]
    by (auto simp: sides)
  then have "cache_inv (book_set i ord b)"
    using inv unfolding cache_inv_def best_bid_def best_ask_def book_inv_def book_set_caches
    by (metis side_map_simps)
  ultimately show ?thesis by (simp add: book_inv_def)
qed

section \<open>Lookup after an operation\<close>

lemma book_get_insert:
  assumes "book_inv b" "order_ok ord"
  shows "book_get j (book_insert ord b) = (if j = o_id ord then Some ord else book_get j b)"
proof (cases "j = o_id ord")
  case True
  then show ?thesis
    using key_sign [OF assms(2)] by (cases "o_side ord") (auto simp: book_ops Let_def)
next
  case False
  then have "k \<noteq> order_key_of ord" if "hm_get (order_index b) j = Some k" for k
    using that assms(1) by (auto simp: book_inv_def index_inv_iff)
  then show ?thesis using False
    by (cases "o_side ord") (auto simp: book_ops Let_def split: option.splits)
qed

lemma book_get_remove:
  assumes "book_inv b"
  shows "book_get j (snd (book_remove i b)) = (if j = i then None else book_get j b)"
proof (cases "hm_get (order_index b) i")
  case None
  then show ?thesis by (auto simp: book_remove_None book_get_def)
next
  case (Some k)
  have ki: "k_id k = i" using Some assms by (simp add: book_inv_def index_inv_iff)
  have "k' \<noteq> k" if "hm_get (order_index b) j = Some k'" "j \<noteq> i" for k'
    using that ki assms by (auto simp: book_inv_def index_inv_iff)
  then show ?thesis
    using Some side_inv_bt [OF book_inv_side [OF assms, of Buy]]
      side_inv_bt [OF book_inv_side [OF assms, of Sell]]
    by (auto simp: book_ops Let_def split: option.splits)
qed

lemma bt_get_set:
  "bt_get (bt_set k v m) k' = (if k' = k then map_option (\<lambda>_. v) (bt_get m k) else bt_get m k')"
  by (induction m) (auto simp: bt_set_def bt_get_def)

lemma book_get_set:
  assumes "book_inv b" "book_get i b = Some old"
  shows "book_get j (book_set i ord b) = (if j = i then Some ord else book_get j b)"
proof -
  obtain k where k: "hm_get (order_index b) i = Some k"
    using assms(2) by (auto simp: book_get_def split: option.splits)
  have "k' \<noteq> k" if "hm_get (order_index b) j = Some k'" "j \<noteq> i" for k'
    using that k assms by (auto simp: book_inv_def index_inv_iff)
  then show ?thesis using k assms(2)
    by (auto simp: book_get_def book_set_def bt_get_set split: option.splits if_splits)
qed

text \<open>Removing and replacing the first order of a side.\<close>

lemma book_remove_head:
  assumes inv: "book_inv b" and hd: "side_map s b = (k, ord) # rest"
  shows "side_map s' (snd (book_remove (o_id ord) b)) = (if s' = s then rest else side_map s' b)"
proof -
  have mem: "(k, ord) \<in> set (side_map s b)" using hd by simp
  note f = index_of_resting [OF inv mem]
  have "(k_price k < 0) = (s' = Buy) \<longleftrightarrow> s' = s"
    using key_sign [OF f(4)] f(2,3) by (cases s'; cases s) auto
  then show ?thesis
    using hd f(2) by (auto simp: book_remove_Some [OF f(1)])
qed

lemma book_set_head:
  assumes inv: "book_inv b" and hd: "side_map s b = (k, old) # rest"
  shows "side_map s' (book_set (o_id old) ord b) = (if s' = s then (k, ord) # rest else side_map s' b)"
proof -
  have mem: "(k, old) \<in> set (side_map s b)" using hd by simp
  note f = index_of_resting [OF inv mem]
  have "(k_price k < 0) = (s' = Buy) \<longleftrightarrow> s' = s"
    using key_sign [OF f(4)] f(2,3) by (cases s'; cases s) auto
  moreover have "k \<notin> fst ` set rest"
    using side_inv_bt [OF book_inv_side [OF inv, of s]] hd by (auto simp: bt_inv_Cons)
  ultimately show ?thesis
    using hd by (auto simp: book_set_sides [OF f(1)] bt_set_Cons bt_set_absent)
qed

lemma book_get_head:
  assumes "book_inv b" "side_map s b = (k, ord) # rest"
  shows "book_get (o_id ord) b = Some ord"
  using assms index_of_resting [OF assms(1), of k ord s] by (auto simp: book_get_iff)

section \<open>Price-time priority\<close>

definition ahead :: "side \<Rightarrow> order \<Rightarrow> order \<Rightarrow> bool" where
  "ahead s x y =
    (let px = d_val (o_price x); py = d_val (o_price y) in
     (case s of Buy \<Rightarrow> px > py | Sell \<Rightarrow> px < py) \<or>
     (px = py \<and> (o_ts x < o_ts y \<or> (o_ts x = o_ts y \<and> o_id x < o_id y))))"

lemma order_key_less_ahead:
  assumes "order_ok x" "order_ok y" "o_side x = s" "o_side y = s" "order_key_of x < order_key_of y"
  shows "ahead s x y"
  using assms
  by (cases s) (auto simp: ahead_def less_order_key_def k_price_order_key Let_def)

lemma side_inv_priority:
  assumes "side_inv s m"
  shows "sorted_wrt (ahead s) (map snd m)"
proof -
  have "sorted_wrt (\<lambda>x y. fst x < fst y) m"
    using assms by (simp add: side_inv_def bt_inv_def sorted_wrt_map)
  then have "sorted_wrt (\<lambda>x y. ahead s (snd x) (snd y)) m"
    by (rule sorted_wrt_mono_rel [rotated])
       (use side_inv_in [OF assms] order_key_less_ahead in fastforce)
  then show ?thesis by (simp add: sorted_wrt_map)
qed

lemma ahead_price:
  assumes "order_ok x" "order_ok y" "ahead s x y"
  shows "case s of Buy \<Rightarrow> o_price y \<le> o_price x | Sell \<Rightarrow> o_price x \<le> o_price y"
  using assms
  by (cases s) (auto simp: ahead_def Let_def less_eq_decimal_def order_ok_def pos_amount_def)

lemma side_inv_best:
  assumes "side_inv s m" "y \<in> set (map snd m)"
  shows "\<exists>x. first_value m = Some x \<and>
    (case s of Buy \<Rightarrow> o_price y \<le> o_price x | Sell \<Rightarrow> o_price x \<le> o_price y)"
proof (cases m)
  case (Cons kx rest)
  have ok: "order_ok z" if "z \<in> set (map snd m)" for z
    using that assms(1) by (fastforce dest: side_inv_in)
  have "y = snd kx \<or> ahead s (snd kx) y"
    using side_inv_priority [OF assms(1)] assms(2) Cons by auto
  then show ?thesis
    using ahead_price [OF ok [of "snd kx"] ok [OF assms(2)], of s] Cons
    by (auto simp: first_value_def split: side.splits)
qed (use assms in simp)

text \<open>
  In every book that satisfies the invariant both sides are iterated in
  price-time priority (better price first, then earlier time, then smaller id),
  and the cached best prices bound the prices of all resting orders of their side.
\<close>

theorem book_price_time_priority:
  assumes "book_inv b"
  shows "sorted_wrt (ahead Buy) (bids_iter b) \<and> sorted_wrt (ahead Sell) (asks_iter b) \<and>
    (\<forall>ord \<in> set (bids_iter b). \<exists>p. best_bid_price b = Some p \<and> o_price ord \<le> p) \<and>
    (\<forall>ord \<in> set (asks_iter b). \<exists>p. best_ask_price b = Some p \<and> p \<le> o_price ord)"
proof -
  note side = book_inv_side [OF assms]
  have "sorted_wrt (ahead Buy) (bids_iter b)" "sorted_wrt (ahead Sell) (asks_iter b)"
    using side_inv_priority [OF side, of Buy] side_inv_priority [OF side, of Sell]
    by (simp_all add: bids_iter_def asks_iter_def)
  moreover have "\<exists>p. best_bid_price b = Some p \<and> o_price ord \<le> p" if "ord \<in> set (bids_iter b)" for ord
    using side_inv_best [OF side, of ord Buy] that assms
    by (auto simp: bids_iter_def best_bid_price_def book_inv_def cache_inv_def best_bid_def)
  moreover have "\<exists>p. best_ask_price b = Some p \<and> p \<le> o_price ord" if "ord \<in> set (asks_iter b)" for ord
    using side_inv_best [OF side, of ord Sell] that assms
    by (auto simp: asks_iter_def best_ask_price_def book_inv_def cache_inv_def best_ask_def)
  ultimately show ?thesis by blast
qed

lemma order_key_fill: "order_fill ord sz = Some new \<Longrightarrow> order_key_of new = order_key_of ord"
  by (auto simp: order_key_of_def order_fill_fields split: side.splits)

text \<open>A book with one order on each side.\<close>

definition sample_book :: order_book where
  "sample_book = book_insert (limit_order 1 7 Buy 100 5 Gtc)
     (book_insert (limit_order 2 8 Sell 110 6 Gtc) book_new)"

lemma book_inv_sample: "book_inv sample_book"
  unfolding sample_book_def
  by (intro book_inv_insert)
     (simp_all add: order_ok_limit_order i128_defs fresh_for_def book_new_def [THEN arg_cong [of _ _ order_index]])

theorem book_price_time_priority_witness:
  "sorted_wrt (ahead Buy) (bids_iter sample_book) \<and> sorted_wrt (ahead Sell) (asks_iter sample_book) \<and>
   bids_iter sample_book \<noteq> [] \<and>
   (\<exists>p. best_bid_price sample_book = Some p \<and> o_price (hd (bids_iter sample_book)) \<le> p)"
proof -
  have ne: "bids_iter sample_book \<noteq> []"
    by (simp add: sample_book_def book_insert_def book_new_def bids_iter_def update_best_bid_def
        update_best_ask_def Let_def)
  show ?thesis
    using book_price_time_priority [OF book_inv_sample] ne hd_in_set [OF ne] by blast
qed

section \<open>The operations as updates of the map from ids to orders\<close>

text \<open>
  (C7) Inserting a well-formed order with a fresh id, removing an order by id
  and writing a fill back into a resting order keep the invariant of the book
  and act on the map from ids to orders exactly as insertion, deletion and
  update; removal returns the order that was there.
\<close>

theorem book_operations_refine_map:
  assumes inv: "book_inv b"
  shows "(order_ok ord \<and> fresh_for ord b \<longrightarrow>
      book_inv (book_insert ord b) \<and>
      (\<lambda>i. book_get i (book_insert ord b)) = (\<lambda>i. book_get i b)(o_id ord \<mapsto> ord)) \<and>
    (book_inv (snd (book_remove j b)) \<and> fst (book_remove j b) = book_get j b \<and>
      (\<lambda>i. book_get i (snd (book_remove j b))) = (\<lambda>i. book_get i b)(j := None)) \<and>
    (book_get (o_id old) b = Some old \<and> order_fill old sz = Some new \<and> order_ok new \<longrightarrow>
      book_inv (book_set (o_id old) new b) \<and>
      (\<lambda>i. book_get i (book_set (o_id old) new b)) = (\<lambda>i. book_get i b)(o_id old \<mapsto> new))"
proof (intro conjI impI)
  assume "order_ok ord \<and> fresh_for ord b"
  then show "book_inv (book_insert ord b)"
    "(\<lambda>i. book_get i (book_insert ord b)) = (\<lambda>i. book_get i b)(o_id ord \<mapsto> ord)"
    using inv by (auto simp: book_get_insert fun_eq_iff)
next
  show "book_inv (snd (book_remove j b))" "fst (book_remove j b) = book_get j b"
    "(\<lambda>i. book_get i (snd (book_remove j b))) = (\<lambda>i. book_get i b)(j := None)"
    using inv by (auto simp: book_get_remove book_remove_get fun_eq_iff)
next
  assume *: "book_get (o_id old) b = Some old \<and> order_fill old sz = Some new \<and> order_ok new"
  then have fill: "order_fill old sz = Some new" by blast
  show "book_inv (book_set (o_id old) new b)"
    using book_inv_set [OF inv, of "o_id old" old new] * order_fill_fields [OF fill]
    by (simp add: order_key_fill [OF fill])
  show "(\<lambda>i. book_get i (book_set (o_id old) new b)) = (\<lambda>i. book_get i b)(o_id old \<mapsto> new)"
    using * by (auto simp: book_get_set [OF inv] fun_eq_iff)
qed

theorem book_operations_refine_map_witness:
  "book_inv (book_insert (limit_order 3 9 Sell 120 4 Gtc) sample_book) \<and>
   (\<lambda>i. book_get i (book_insert (limit_order 3 9 Sell 120 4 Gtc) sample_book)) =
     (\<lambda>i. book_get i sample_book)(3 \<mapsto> limit_order 3 9 Sell 120 4 Gtc)"
  using book_operations_refine_map [OF book_inv_sample, of "limit_order 3 9 Sell 120 4 Gtc"]
  by (simp add: order_ok_limit_order i128_defs fresh_for_def sample_book_def
      book_new_def [THEN arg_cong [of _ _ order_index]])

section \<open>Snapshot and restore\<close>

lemma bt_insert_last:
  "\<forall>x \<in> set m. fst x < k \<Longrightarrow> bt_insert k v m = m @ [(k, v)]"
  by (induction m) (auto simp: not_less_iff_gr_or_eq)

lemma side_inv_append:
  "side_inv s (m @ m') \<Longrightarrow> side_inv s m \<and> side_inv s m' \<and> (\<forall>k \<in> fst ` set m. \<forall>k' \<in> fst ` set m'. k < k')"
  by (auto simp: side_inv_def bt_inv_def sorted_wrt_append)

lemma fold_book_insert_side:
  assumes "book_inv b" "side_inv s (side_map s b @ m)" "distinct (map (o_id \<circ> snd) m)"
    "\<And>ord. ord \<in> snd ` set m \<Longrightarrow> hm_get (order_index b) (o_id ord) = None"
  defines "b' \<equiv> fold book_insert (map snd m) b"
  shows "book_inv b' \<and> (\<forall>s'. side_map s' b' = (if s' = s then side_map s b @ m else side_map s' b)) \<and>
    (\<forall>i. i \<notin> (o_id \<circ> snd) ` set m \<longrightarrow> hm_get (order_index b') i = hm_get (order_index b) i)"
  using assms(1-4) unfolding b'_def
proof (induction m arbitrary: b)
  case (Cons x m)
  obtain k ord where x: "x = (k, ord)" by (cases x)
  have k: "k = order_key_of ord" "o_side ord = s" "order_ok ord"
    using side_inv_in [OF Cons.prems(2), of k ord] x by auto
  have "\<forall>k' \<in> fst ` set (side_map s b). k' < k"
    using side_inv_append [OF Cons.prems(2)] x by auto
  then have ins: "side_map s' (book_insert ord b) =
      (if s' = s then side_map s b @ [x] else side_map s' b)" for s'
    using k x by (auto simp: book_insert_sides bt_insert_last)
  have fresh: "hm_get (order_index b) (o_id ord) = None" using Cons.prems(4) x by auto
  have "book_inv (book_insert ord b)"
    using Cons.prems(1) k fresh by (intro book_inv_insert) (auto simp: fresh_for_def)
  moreover have "hm_get (order_index (book_insert ord b)) (o_id ord') = None"
    if "ord' \<in> snd ` set m" for ord'
  proof -
    have "o_id ord' \<noteq> o_id ord" using that Cons.prems(3) x by (force simp: image_iff)
    then show ?thesis using that Cons.prems(4) by auto
  qed
  ultimately show ?case
    using Cons.IH [of "book_insert ord b"] Cons.prems(2,3) ins x by (auto simp: comp_def)
qed auto

text \<open>Two books with the same sides agree on everything that can be observed.\<close>

lemma book_inv_determined:
  assumes "book_inv b" "book_inv b'" "bids b' = bids b" "asks b' = asks b"
  shows "hm_get (order_index b') = hm_get (order_index b) \<and>
    best_bid_cache b' = best_bid_cache b \<and> best_ask_cache b' = best_ask_cache b"
proof -
  have "hm_get (order_index b') i = hm_get (order_index b) i" for i
  proof (rule option.expand)
    have "hm_get (order_index b') i = Some k \<longleftrightarrow> hm_get (order_index b) i = Some k" for k
      using assms by (simp add: book_inv_def index_inv_iff set_book_keys)
    then show "(hm_get (order_index b') i = None) = (hm_get (order_index b) i = None)"
      "hm_get (order_index b') i \<noteq> None \<Longrightarrow> hm_get (order_index b) i \<noteq> None \<Longrightarrow>
        the (hm_get (order_index b') i) = the (hm_get (order_index b) i)"
      by (metis not_None_eq option.sel)+
  qed
  then show ?thesis
    using assms by (auto simp: book_inv_def cache_inv_def best_bid_def best_ask_def)
qed

lemma book_ids_distinct:
  assumes "book_inv b"
  shows "distinct (map (o_id \<circ> snd) (side_map s b))"
    and "x \<in> set (bids b) \<Longrightarrow> y \<in> set (asks b) \<Longrightarrow> o_id (snd x) \<noteq> o_id (snd y)"
proof -
  have "distinct (map fst (side_map s b))"
    using side_inv_bt [OF book_inv_side [OF assms]] by (simp add: bt_inv_def strict_sorted_iff)
  moreover have "inj_on (\<lambda>x. (o_id \<circ> snd) x) (set (side_map s b))"
  proof (rule inj_onI, clarsimp)
    fix k ord k' ord'
    assume m: "(k, ord) \<in> set (side_map s b)" "(k', ord') \<in> set (side_map s b)" "o_id ord = o_id ord'"
    have "k = k'" using index_of_resting(1) [OF assms m(1)] index_of_resting(1) [OF assms m(2)] m(3) by simp
    then show "k = k' \<and> ord = ord'"
      using m bt_in_set_get [OF side_inv_bt [OF book_inv_side [OF assms, of s]]] by (metis option.inject)
  qed
  ultimately show "distinct (map (o_id \<circ> snd) (side_map s b))"
    unfolding distinct_map by (simp add: comp_def)
  show "o_id (snd x) \<noteq> o_id (snd y)" if "x \<in> set (bids b)" "y \<in> set (asks b)"
  proof
    assume eq: "o_id (snd x) = o_id (snd y)"
    note fx = index_of_resting [OF assms, of "fst x" "snd x" Buy, simplified, OF that(1)]
    note fy = index_of_resting [OF assms, of "fst y" "snd y" Sell, simplified, OF that(2)]
    have "order_key_of (snd x) = order_key_of (snd y)" using fx(1,2) fy(1,2) eq by simp
    then show False using key_sign [OF fx(4)] key_sign [OF fy(4)] fx(3) fy(3) by simp
  qed
qed

text \<open>
  Restoring a book from its snapshot gives a book with the same bids, asks,
  index and cached best prices.
\<close>

theorem book_snapshot_roundtrip:
  assumes inv: "book_inv b"
  defines "b' \<equiv> book_from_snapshot (book_snapshot b)"
  shows "book_inv b' \<and> bids b' = bids b \<and> asks b' = asks b \<and>
    hm_get (order_index b') = hm_get (order_index b) \<and>
    best_bid_price b' = best_bid_price b \<and> best_ask_price b' = best_ask_price b"
proof -
  let ?b1 = "fold book_insert (map snd (bids b)) book_new"
  have new: "side_map s book_new = []" "hm_get (order_index book_new) i = None" for s i
    by (cases s; simp add: book_new_def)+
  have b1: "book_inv ?b1 \<and> (\<forall>s'. side_map s' ?b1 = (if s' = Buy then side_map Buy book_new @ bids b
      else side_map s' book_new)) \<and>
      (\<forall>i. i \<notin> (o_id \<circ> snd) ` set (bids b) \<longrightarrow> hm_get (order_index ?b1) i = hm_get (order_index book_new) i)"
    using book_inv_side [OF inv, of Buy] book_ids_distinct(1) [OF inv, of Buy]
    by (intro fold_book_insert_side) (auto simp: new)
  have b': "b' = fold book_insert (map snd (asks b)) ?b1"
    by (simp add: b'_def book_from_snapshot_def book_snapshot_def bids_iter_def asks_iter_def)
  have "book_inv b' \<and> (\<forall>s'. side_map s' b' = (if s' = Sell then side_map Sell ?b1 @ asks b
      else side_map s' ?b1)) \<and>
      (\<forall>i. i \<notin> (o_id \<circ> snd) ` set (asks b) \<longrightarrow> hm_get (order_index b') i = hm_get (order_index ?b1) i)"
    unfolding b'
  proof (intro fold_book_insert_side)
    show "hm_get (order_index ?b1) (o_id ord) = None" if "ord \<in> snd ` set (asks b)" for ord
    proof -
      have "o_id ord \<notin> (o_id \<circ> snd) ` set (bids b)"
        using that book_ids_distinct(2) [OF inv] by fastforce
      then show ?thesis using b1 new(2) by metis
    qed
    show "side_inv Sell (side_map Sell ?b1 @ asks b)"
      using b1 new book_inv_side [OF inv, of Sell] by (metis append_Nil side.distinct(1) side_map_simps(2))
  qed (use b1 book_ids_distinct(1) [OF inv, of Sell] in auto)
  then have "book_inv b'" "bids b' = bids b" "asks b' = asks b"
    using b1 new by (metis append_Nil side.distinct(1) side_map_simps)+
  then show ?thesis
    using book_inv_determined [OF inv] by (simp add: best_bid_price_def best_ask_price_def)
qed

theorem book_snapshot_roundtrip_witness:
  "let b' = book_from_snapshot (book_snapshot sample_book) in
    book_inv b' \<and> bids b' = bids sample_book \<and> asks b' = asks sample_book \<and>
    hm_get (order_index b') = hm_get (order_index sample_book) \<and>
    best_bid_price b' = best_bid_price sample_book \<and> best_ask_price b' = best_ask_price sample_book"
  unfolding Let_def by (rule book_snapshot_roundtrip [OF book_inv_sample])

end
