(* ===== verification/Matching.thy ===== *)
theory Matching
  imports Order_Book
begin

text \<open>
  The matching engine of \<open>crates/engine/src/matching.rs\<close>.  The two matching
  loops are translated as they stand, as partial functions into \<open>option\<close>; a
  locale proves once, for both sides, that under the book's invariant they end
  without a panic and compute a structurally recursive specification on the list
  of resting orders, from which the properties of the fills follow.
\<close>

section \<open>State\<close>

record matching_engine =
  orderbooks :: "(market_id, order_book) hash_map"
  me_next_order_id :: nat

definition matching_engine_new :: matching_engine where
  "matching_engine_new = \<lparr> orderbooks = [], me_next_order_id = 1 \<rparr>"

definition add_orderbook :: "market_id \<Rightarrow> matching_engine \<Rightarrow> matching_engine" where
  "add_orderbook m e = e \<lparr> orderbooks := hm_insert m book_new (orderbooks e) \<rparr>"

definition me_get_orderbook :: "matching_engine \<Rightarrow> market_id \<Rightarrow> order_book option" where
  "me_get_orderbook e m = hm_get (orderbooks e) m"

section \<open>The matching loops\<close>

definition mk_fill :: "order \<Rightarrow> order \<Rightarrow> decimal \<Rightarrow> timestamp \<Rightarrow> bool \<Rightarrow> fill" where
  "mk_fill ord resting sz ts buy =
     \<lparr> f_market = o_market ord, f_maker = o_owner resting, f_taker = o_owner ord,
       f_maker_oid = o_id resting, f_taker_oid = o_id ord,
       f_price = wrap_u128 (d_val (o_price resting)), f_size = wrap_u128 (d_val sz),
       f_maker_fee = 0, f_taker_fee = 0, f_ts = ts, f_taker_buy = buy,
       f_pnl_maker = 0, f_pnl_taker = 0 \<rparr>"

partial_function (option) match_against_asks ::
  "order \<Rightarrow> order_book \<Rightarrow> fill list \<Rightarrow> timestamp \<Rightarrow> (order \<times> order_book \<times> fill list) option" where
  "match_against_asks ord book fills ts =
    (if is_zero (o_rem ord) then Some (ord, book, fills)
     else case best_ask book of
       None \<Rightarrow> Some (ord, book, fills)
     | Some ask \<Rightarrow>
         if o_price ask > o_price ord then Some (ord, book, fills)
         else if o_owner ask = o_owner ord then
           match_against_asks ord (snd (book_remove (o_id ask) book)) fills ts
         else (let sz = dec_min (o_rem ord) (o_rem ask) in do {
           ord' \<leftarrow> order_fill ord sz;
           resting_remaining \<leftarrow> dec_sub (o_rem ask) sz;
           book' \<leftarrow>
             (if is_zero resting_remaining then Some (snd (book_remove (o_id ask) book))
              else case book_get (o_id ask) book of
                Some resting \<Rightarrow> do {
                  resting' \<leftarrow> order_fill resting sz;
                  Some (book_set (o_id ask) resting' book)
                }
              | None \<Rightarrow> Some book);
           match_against_asks ord' book' (fills @ [mk_fill ord ask sz ts True]) ts
         }))"

partial_function (option) match_against_bids ::
  "order \<Rightarrow> order_book \<Rightarrow> fill list \<Rightarrow> timestamp \<Rightarrow> (order \<times> order_book \<times> fill list) option" where
  "match_against_bids ord book fills ts =
    (if is_zero (o_rem ord) then Some (ord, book, fills)
     else case best_bid book of
       None \<Rightarrow> Some (ord, book, fills)
     | Some bid \<Rightarrow>
         if o_price bid < o_price ord then Some (ord, book, fills)
         else if o_owner bid = o_owner ord then
           match_against_bids ord (snd (book_remove (o_id bid) book)) fills ts
         else (let sz = dec_min (o_rem ord) (o_rem bid) in do {
           ord' \<leftarrow> order_fill ord sz;
           resting_remaining \<leftarrow> dec_sub (o_rem bid) sz;
           book' \<leftarrow>
             (if is_zero resting_remaining then Some (snd (book_remove (o_id bid) book))
              else case book_get (o_id bid) book of
                Some resting \<Rightarrow> do {
                  resting' \<leftarrow> order_fill resting sz;
                  Some (book_set (o_id bid) resting' book)
                }
              | None \<Rightarrow> Some book);
           match_against_bids ord' book' (fills @ [mk_fill ord bid sz ts False]) ts
         }))"

definition handle_unfilled ::
  "order \<Rightarrow> order_book \<Rightarrow> fill list \<Rightarrow> (error + unit) \<times> order \<times> order_book" where
  "handle_unfilled ord book fills =
    (if is_zero (o_rem ord) then (Inr (), ord, book)
     else if o_post_only ord \<and> fills \<noteq> [] then (Inl PostOnlyWouldCross, ord, book)
     else if is_fok ord \<and> fills \<noteq> [] then (Inl FokNotFilled, ord, book)
     else if should_rest ord then (Inr (), ord, book_insert ord book)
     else (Inr (), ord \<lparr> o_status := Canceled \<rparr>, book))"

text \<open>
  The result of processing an order: the error or the order with its fills, and
  the book as it is left, on the error branch too.
\<close>

definition process_order ::
  "order \<Rightarrow> order_book \<Rightarrow> ((error + order \<times> fill list) \<times> order_book) option" where
  "process_order ord book = do {
     (ord1, book1, fills) \<leftarrow>
       (case o_side ord of
          Buy \<Rightarrow> match_against_asks ord book [] (o_ts ord)
        | Sell \<Rightarrow> match_against_bids ord book [] (o_ts ord));
     (let (r, ord2, book2) = handle_unfilled ord1 book1 fills in
      Some (case r of Inl e \<Rightarrow> Inl e | Inr _ \<Rightarrow> Inr (ord2, fills), book2))
   }"

definition process_order_by_market ::
  "order \<Rightarrow> market_id \<Rightarrow> matching_engine \<Rightarrow> ((error + order \<times> fill list) \<times> matching_engine) option" where
  "process_order_by_market ord m e = (case hm_get (orderbooks e) m of
       None \<Rightarrow> Some (Inl (MarketNotFound m), e)
     | Some book \<Rightarrow> do {
         (r, book') \<leftarrow> process_order ord book;
         Some (r, e \<lparr> orderbooks := hm_insert m book' (orderbooks e) \<rparr>)
       })"

definition remove_from_book ::
  "market_id \<Rightarrow> order \<Rightarrow> matching_engine \<Rightarrow> (error + unit) \<times> matching_engine" where
  "remove_from_book m ord e = (case hm_get (orderbooks e) m of
       None \<Rightarrow> (Inl (MarketNotFound m), e)
     | Some book \<Rightarrow>
         (Inr (), e \<lparr> orderbooks := hm_insert m (snd (book_remove (o_id ord) book)) (orderbooks e) \<rparr>))"

definition next_order_id :: "matching_engine \<Rightarrow> nat \<times> matching_engine" where
  "next_order_id e =
     (me_next_order_id e, e \<lparr> me_next_order_id := wrap_u64 (me_next_order_id e + 1) \<rparr>)"

section \<open>Specification: matching against a list of resting orders\<close>

definition reduce :: "order \<Rightarrow> int \<Rightarrow> order" where
  "reduce ord n = ord \<lparr> o_rem := Decimal (d_val (o_rem ord) - n) 8,
     o_status := (if n = d_val (o_rem ord) then Filled else PartiallyFilled) \<rparr>"

lemma reduce_sel [simp]:
  "o_id (reduce ord n) = o_id ord" "o_owner (reduce ord n) = o_owner ord"
  "o_side (reduce ord n) = o_side ord" "o_price (reduce ord n) = o_price ord"
  "o_ts (reduce ord n) = o_ts ord" "o_market (reduce ord n) = o_market ord"
  "o_type (reduce ord n) = o_type ord" "o_post_only (reduce ord n) = o_post_only ord"
  "o_rem (reduce ord n) = Decimal (d_val (o_rem ord) - n) 8" "o_orig (reduce ord n) = o_orig ord"
  by (simp_all add: reduce_def)

fun match_list ::
  "(decimal \<Rightarrow> bool) \<Rightarrow> bool \<Rightarrow> timestamp \<Rightarrow> order \<Rightarrow> order list \<Rightarrow> order \<times> order list \<times> fill list" where
  "match_list acc buy ts t [] = (t, [], [])"
| "match_list acc buy ts t (r # rs) =
    (if d_val (o_rem t) = 0 \<or> \<not> acc (o_price r) then (t, r # rs, [])
     else if o_owner r = o_owner t then match_list acc buy ts t rs
     else let n = min (d_val (o_rem t)) (d_val (o_rem r));
              f = mk_fill t r (Decimal n 8) ts buy
       in if n = d_val (o_rem r)
          then let (t2, rs2, fs) = match_list acc buy ts (reduce t n) rs in (t2, rs2, f # fs)
          else (reduce t n, reduce r n # rs, [f]))"

lemma match_list_trade:
  assumes "d_val (o_rem t) \<noteq> 0" "acc (o_price r)" "o_owner r \<noteq> o_owner t"
    and "n = min (d_val (o_rem t)) (d_val (o_rem r))"
  shows "match_list acc buy ts t (r # rs) =
    (if n = d_val (o_rem r)
     then (case match_list acc buy ts (reduce t n) rs of
            (t2, rs2, fs) \<Rightarrow> (t2, rs2, mk_fill t r (Decimal n 8) ts buy # fs))
     else (reduce t n, reduce r n # rs, [mk_fill t r (Decimal n 8) ts buy]))"
  using assms by (simp add: Let_def)

lemma match_list_trade_cases:
  assumes "match_list acc buy ts t (r # rs) = (t', rs', fs')"
    and "d_val (o_rem t) \<noteq> 0" "acc (o_price r)" "o_owner r \<noteq> o_owner t"
  obtains (full) n fs2 where "n = min (d_val (o_rem t)) (d_val (o_rem r))" "n = d_val (o_rem r)"
      "match_list acc buy ts (reduce t n) rs = (t', rs', fs2)"
      "fs' = mk_fill t r (Decimal n 8) ts buy # fs2"
  | (part) n where "n = min (d_val (o_rem t)) (d_val (o_rem r))" "n = d_val (o_rem t)"
      "n < d_val (o_rem r)" "t' = reduce t n" "rs' = reduce r n # rs"
      "fs' = [mk_fill t r (Decimal n 8) ts buy]"
proof -
  obtain n where n: "n = min (d_val (o_rem t)) (d_val (o_rem r))" by blast
  show thesis
  proof (cases "n = d_val (o_rem r)")
    case True
    then show thesis
      using full [OF n True] assms(1) match_list_trade [of t acc r n, OF assms(2-4) n]
      by (auto split: prod.splits)
  next
    case False
    then have "n = d_val (o_rem t)" "n < d_val (o_rem r)" using n by linarith+
    then show thesis
      using part [OF n] assms(1) match_list_trade [of t acc r n, OF assms(2-4) n] False by auto
  qed
qed

text \<open>An incoming order: a positive price, a remaining size that may be zero.\<close>

definition taker_ok :: "order \<Rightarrow> bool" where
  "taker_ok t = (pos_amount (o_price t) \<and> 0 \<le> d_val (o_rem t) \<and> in_i128 (d_val (o_rem t)) \<and>
     d_dec (o_rem t) = 8)"

lemma order_ok_taker_ok: "order_ok t \<Longrightarrow> taker_ok t"
  by (simp add: order_ok_def taker_ok_def pos_amount_def)

lemma taker_ok_pos: "taker_ok t \<Longrightarrow> d_val (o_rem t) \<noteq> 0 \<Longrightarrow> order_ok t"
  by (simp add: order_ok_def taker_ok_def pos_amount_def)

lemma in_i128_nonneg_le: "0 \<le> n \<Longrightarrow> n \<le> m \<Longrightarrow> in_i128 m \<Longrightarrow> in_i128 n"
  by (auto simp: i128_defs)

lemma in_i128_diff: "in_i128 m \<Longrightarrow> 0 \<le> n \<Longrightarrow> n \<le> m \<Longrightarrow> in_i128 (m - n)"
  by (auto simp: i128_defs)

lemma reduce_taker_ok:
  "taker_ok t \<Longrightarrow> 0 \<le> n \<Longrightarrow> n \<le> d_val (o_rem t) \<Longrightarrow> taker_ok (reduce t n)"
  by (auto simp: taker_ok_def intro!: in_i128_diff)

lemma reduce_order_ok:
  "order_ok r \<Longrightarrow> 0 \<le> n \<Longrightarrow> n < d_val (o_rem r) \<Longrightarrow> order_ok (reduce r n)"
  by (auto simp: order_ok_def pos_amount_def intro!: in_i128_diff)

lemma order_fill_reduce:
  assumes "order_ok ord" "0 < n" "n \<le> d_val (o_rem ord)"
  shows "order_fill ord (Decimal n 8) = Some (reduce ord n)"
proof -
  have "pos_amount (Decimal n 8)"
    using assms in_i128_nonneg_le [of n "d_val (o_rem ord)"] by (auto simp: pos_amount_def order_ok_def)
  then show ?thesis using assms by (simp add: order_fill_Some reduce_def)
qed

section \<open>One side of a book, and the loop over it\<close>

locale book_side =
  fixes inv :: "'b \<Rightarrow> bool"
    and resting :: "'b \<Rightarrow> order list"
    and best :: "'b \<Rightarrow> order option"
    and drop_order :: "order_id \<Rightarrow> 'b \<Rightarrow> 'b"
    and find_order :: "order_id \<Rightarrow> 'b \<Rightarrow> order option"
    and write_order :: "order_id \<Rightarrow> order \<Rightarrow> 'b \<Rightarrow> 'b"
  assumes best_head: "inv b \<Longrightarrow> best b = (case resting b of [] \<Rightarrow> None | r # _ \<Rightarrow> Some r)"
    and resting_ok: "inv b \<Longrightarrow> r \<in> set (resting b) \<Longrightarrow> order_ok r"
    and find_head: "inv b \<Longrightarrow> resting b = r # rs \<Longrightarrow> find_order (o_id r) b = Some r"
    and drop_head: "inv b \<Longrightarrow> resting b = r # rs \<Longrightarrow>
      inv (drop_order (o_id r) b) \<and> resting (drop_order (o_id r) b) = rs"
    and write_head: "inv b \<Longrightarrow> resting b = r # rs \<Longrightarrow> order_fill r sz = Some r' \<Longrightarrow> order_ok r' \<Longrightarrow>
      inv (write_order (o_id r) r' b) \<and> resting (write_order (o_id r) r' b) = r' # rs"

locale matching_loop = book_side +
  fixes loop :: "order \<Rightarrow> 'a \<Rightarrow> fill list \<Rightarrow> timestamp \<Rightarrow> (order \<times> 'a \<times> fill list) option"
    and accepts :: "decimal \<Rightarrow> decimal \<Rightarrow> bool"
    and buy :: bool
  assumes loop_step: "loop ord b fs ts =
    (if is_zero (o_rem ord) then Some (ord, b, fs)
     else case best b of
       None \<Rightarrow> Some (ord, b, fs)
     | Some r \<Rightarrow>
         if \<not> accepts (o_price ord) (o_price r) then Some (ord, b, fs)
         else if o_owner r = o_owner ord then loop ord (drop_order (o_id r) b) fs ts
         else (let sz = dec_min (o_rem ord) (o_rem r) in do {
           ord' \<leftarrow> order_fill ord sz;
           rr \<leftarrow> dec_sub (o_rem r) sz;
           b' \<leftarrow>
             (if is_zero rr then Some (drop_order (o_id r) b)
              else case find_order (o_id r) b of
                Some r0 \<Rightarrow> do { r' \<leftarrow> order_fill r0 sz; Some (write_order (o_id r) r' b) }
              | None \<Rightarrow> Some b);
           loop ord' b' (fs @ [mk_fill ord r sz ts buy]) ts
         }))"
begin

lemma loop_filled: "d_val (o_rem t) = 0 \<Longrightarrow> loop t b fs ts = Some (t, b, fs)"
  by (subst loop_step) (simp add: is_zero_def)

text \<open>The body of the loop when the first resting order is matched.\<close>

lemma loop_match:
  assumes "taker_ok t" "inv b" "resting b = r # rs" "d_val (o_rem t) \<noteq> 0"
    "accepts (o_price t) (o_price r)" "o_owner r \<noteq> o_owner t"
    and n_def: "n = min (d_val (o_rem t)) (d_val (o_rem r))"
  shows "loop t b fs ts = loop (reduce t n)
      (if n = d_val (o_rem r) then drop_order (o_id r) b
       else write_order (o_id r) (reduce r n) b)
      (fs @ [mk_fill t r (Decimal n 8) ts buy]) ts"
proof -
  have t: "order_ok t" using assms taker_ok_pos by blast
  have r: "order_ok r" using resting_ok [OF assms(2)] assms(3) by simp
  have n: "0 < n" "n \<le> d_val (o_rem t)" "n \<le> d_val (o_rem r)"
    using t r by (auto simp: n_def order_ok_def pos_amount_def)
  have dec: "d_dec (o_rem t) = 8" "d_dec (o_rem r) = 8"
    using t r by (auto simp: order_ok_def pos_amount_def)
  have "dec_min (o_rem t) (o_rem r) = Decimal n 8"
    using dec by (cases "o_rem t"; cases "o_rem r") (auto simp: dec_min_def n_def)
  moreover have "in_i128 (d_val (o_rem r) - n)"
    using n r by (auto simp: order_ok_def pos_amount_def intro!: in_i128_diff)
  then have "dec_sub (o_rem r) (Decimal n 8) = Some (Decimal (d_val (o_rem r) - n) 8)"
    using dec by (simp add: dec_sub_eq_Some)
  moreover have "best b = Some r" using best_head [OF assms(2)] assms(3) by simp
  moreover have "find_order (o_id r) b = Some r" using find_head assms(2,3) by blast
  ultimately show ?thesis
    using assms(4-6) n order_fill_reduce [OF t] order_fill_reduce [OF r]
    by (subst loop_step) (simp add: is_zero_def)
qed

theorem loop_refines_match_list:
  assumes "taker_ok t" "inv b" "match_list (accepts (o_price t)) buy ts t (resting b) = (t', rs', fs')"
  shows "\<exists>b'. loop t b fs ts = Some (t', b', fs @ fs') \<and> inv b' \<and> resting b' = rs'"
  using assms
proof (induction "resting b" arbitrary: t b fs fs')
  case Nil
  then show ?case by (subst loop_step) (auto simp: best_head)
next
  case (Cons r rs)
  note rest = Cons.hyps(2) [symmetric]
  note drop = drop_head [OF Cons.prems(2) rest]
  consider "d_val (o_rem t) = 0 \<or> \<not> accepts (o_price t) (o_price r)"
    | (self) "d_val (o_rem t) \<noteq> 0" "accepts (o_price t) (o_price r)" "o_owner r = o_owner t"
    | (trade) "d_val (o_rem t) \<noteq> 0" "accepts (o_price t) (o_price r)" "o_owner r \<noteq> o_owner t"
    by blast
  then show ?case
  proof cases
    case 1
    have "best b = Some r" using best_head [OF Cons.prems(2)] rest by simp
    then have "loop t b fs ts = Some (t, b, fs)"
      using 1 by (subst loop_step) (auto simp: is_zero_def)
    then show ?thesis using Cons.prems rest 1 by auto
  next
    case self
    then have "loop t b fs ts = loop t (drop_order (o_id r) b) fs ts"
      using Cons.prems rest by (subst loop_step) (simp add: best_head is_zero_def)
    then show ?thesis
      using Cons.hyps(1) [of "drop_order (o_id r) b" t] Cons.prems rest self drop by auto
  next
    case trade
    note step = loop_match [OF Cons.prems(1,2) rest trade]
    have r: "order_ok r" using resting_ok [OF Cons.prems(2)] rest by simp
    have pos: "0 < d_val (o_rem t)" "0 < d_val (o_rem r)"
      using Cons.prems(1) trade(1) r by (auto simp: taker_ok_def order_ok_def pos_amount_def)
    from Cons.prems(3) [unfolded rest] trade show ?thesis
    proof (cases rule: match_list_trade_cases)
      case (full n fs2)
      have "taker_ok (reduce t n)"
        using Cons.prems(1) full pos by (intro reduce_taker_ok) auto
      then show ?thesis
        using Cons.hyps(1) [of "drop_order (o_id r) b" "reduce t n" fs2
              "fs @ [mk_fill t r (Decimal n 8) ts buy]"] drop full(2-) step [OF full(1)] by simp
    next
      case (part n)
      have "order_ok (reduce r n)" "order_fill r (Decimal n 8) = Some (reduce r n)"
        using part pos r by (auto intro!: reduce_order_ok order_fill_reduce)
      then show ?thesis
        using step [OF part(1)] part write_head [OF Cons.prems(2) rest]
          loop_filled [of "reduce t n"] by auto
    qed
  qed
qed

end

section \<open>The book provides both sides; the loops of the source run over them\<close>

text \<open>
  While one side is matched the other side is constant (\<open>other\<close>) and the id of
  the incoming order stays out of the index.
\<close>

definition side_frame :: "side \<Rightarrow> (order_key, order) btree \<Rightarrow> order_id \<Rightarrow> order_book \<Rightarrow> bool" where
  "side_frame s other i b =
     (book_inv b \<and> side_map (opposite s) b = other \<and> hm_get (order_index b) i = None)"

definition side_orders :: "side \<Rightarrow> order_book \<Rightarrow> order list" where
  "side_orders s b = map snd (side_map s b)"

definition side_best :: "side \<Rightarrow> order_book \<Rightarrow> order option" where
  "side_best s b = first_value (side_map s b)"

definition book_drop :: "order_id \<Rightarrow> order_book \<Rightarrow> order_book" where
  "book_drop i b = snd (book_remove i b)"

lemma opposite_neq [simp]: "opposite s \<noteq> s" "s \<noteq> opposite s"
  by (cases s; simp)+

lemma book_remove_index_None:
  "hm_get (order_index b) i = None \<Longrightarrow> hm_get (order_index (snd (book_remove j b))) i = None"
  by (auto simp: book_ops Let_def split: option.splits)

lemma book_set_index: "order_index (book_set j ord b) = order_index b"
  by (auto simp: book_set_def split: option.splits)

lemma book_side_laws:
  "book_side (side_frame s other i) (side_orders s) (side_best s) book_drop book_get book_set"
proof
  fix b assume frame: "side_frame s other i b"
  then have inv: "book_inv b" by (simp add: side_frame_def)
  show "side_best s b = (case side_orders s b of [] \<Rightarrow> None | r # _ \<Rightarrow> Some r)"
    by (simp add: side_best_def side_orders_def first_value_def split: list.splits)
  show "order_ok r" if "r \<in> set (side_orders s b)" for r
    using that side_inv_in [OF book_inv_side [OF inv]] by (fastforce simp: side_orders_def)
  fix r rs assume hd: "side_orders s b = r # rs"
  then obtain k m where m: "side_map s b = (k, r) # m" "rs = map snd m"
    by (auto simp: side_orders_def)
  show get: "book_get (o_id r) b = Some r" using book_get_head [OF inv m(1)] .
  show "side_frame s other i (book_drop (o_id r) b) \<and> side_orders s (book_drop (o_id r) b) = rs"
    using frame book_remove_head [OF inv m(1)] m(2) book_remove_index_None
    by (auto simp: side_frame_def side_orders_def book_drop_def)
  fix sz r' assume fill: "order_fill r sz = Some r'" and ok: "order_ok r'"
  have "book_inv (book_set (o_id r) r' b)"
    using book_inv_set [OF inv get ok order_key_fill [OF fill]] order_fill_fields [OF fill] by simp
  then show "side_frame s other i (book_set (o_id r) r' b) \<and>
      side_orders s (book_set (o_id r) r' b) = r' # rs"
    using frame book_set_head [OF inv m(1)] m(2)
    by (auto simp: side_frame_def side_orders_def book_set_index)
qed

interpretation resting: book_side "side_frame s other i" "side_orders s" "side_best s"
  book_drop book_get book_set for s other i
  by (rule book_side_laws)

lemma side_best_eq: "best_ask = side_best Sell" "best_bid = side_best Buy"
  by (simp_all add: fun_eq_iff best_ask_def best_bid_def side_best_def)

lemmas match_against_asks_step =
  match_against_asks.simps [unfolded side_best_eq, folded book_drop_def not_le]
lemmas match_against_bids_step =
  match_against_bids.simps [unfolded side_best_eq, folded book_drop_def not_le]

interpretation ask_loop: matching_loop "side_frame Sell other i" "side_orders Sell" "side_best Sell"
  book_drop book_get book_set match_against_asks "\<lambda>lim p. p \<le> lim" True for other i
  by unfold_locales (rule match_against_asks_step)

interpretation bid_loop: matching_loop "side_frame Buy other i" "side_orders Buy" "side_best Buy"
  book_drop book_get book_set match_against_bids "\<lambda>lim p. lim \<le> p" False for other i
  by unfold_locales (rule match_against_bids_step)

text \<open>Both sides at once: the loop that \<open>process_order\<close> runs for an order of side \<open>s\<close>.\<close>

definition accepts :: "side \<Rightarrow> decimal \<Rightarrow> decimal \<Rightarrow> bool" where
  "accepts s lim p = (case s of Buy \<Rightarrow> p \<le> lim | Sell \<Rightarrow> lim \<le> p)"

lemma accepts_simps: "accepts Buy lim = (\<lambda>p. p \<le> lim)" "accepts Sell lim = (\<lambda>p. lim \<le> p)"
  by (simp_all add: accepts_def fun_eq_iff)

definition match_side :: "order \<Rightarrow> order_book \<Rightarrow> (order \<times> order_book \<times> fill list) option" where
  "match_side ord b = (case o_side ord of
       Buy \<Rightarrow> match_against_asks ord b [] (o_ts ord)
     | Sell \<Rightarrow> match_against_bids ord b [] (o_ts ord))"

definition spec_match :: "order \<Rightarrow> order_book \<Rightarrow> order \<times> order list \<times> fill list" where
  "spec_match ord b = match_list (accepts (o_side ord) (o_price ord)) (o_side ord = Buy) (o_ts ord) ord
     (side_orders (opposite (o_side ord)) b)"

theorem match_side_refines:
  assumes "taker_ok ord" "book_inv b" "hm_get (order_index b) (o_id ord) = None"
    and spec: "spec_match ord b = (ord', rs', fs)"
  shows "\<exists>b'. match_side ord b = Some (ord', b', fs) \<and> book_inv b' \<and>
    hm_get (order_index b') (o_id ord) = None \<and>
    side_map (o_side ord) b' = side_map (o_side ord) b \<and> side_orders (opposite (o_side ord)) b' = rs'"
proof (cases "o_side ord")
  case Buy
  then have "side_frame Sell (bids b) (o_id ord) b" using assms by (simp add: side_frame_def)
  then show ?thesis
    using ask_loop.loop_refines_match_list [OF assms(1), of "bids b" "o_id ord" b "o_ts ord" ord' rs' fs "[]"]
      spec Buy by (auto simp: spec_match_def match_side_def accepts_simps side_frame_def)
next
  case Sell
  then have "side_frame Buy (asks b) (o_id ord) b" using assms by (simp add: side_frame_def)
  then show ?thesis
    using bid_loop.loop_refines_match_list [OF assms(1), of "asks b" "o_id ord" b "o_ts ord" ord' rs' fs "[]"]
      spec Sell by (auto simp: spec_match_def match_side_def accepts_simps side_frame_def)
qed

section \<open>Properties of the specification\<close>

lemma wrap_u128_id: "0 \<le> n \<Longrightarrow> in_i128 n \<Longrightarrow> wrap_u128 n = n"
  by (simp add: wrap_u128_def i128_defs)

text \<open>The four ways a matching step can go, as an induction principle.\<close>

lemma match_list_induct [consumes 3, case_names stop self full part]:
  assumes "match_list acc buy ts t rs = (t', rs', fs)" "taker_ok t" "\<forall>r \<in> set rs. order_ok r"
    and stop: "\<And>t rs. taker_ok t \<Longrightarrow> d_val (o_rem t) = 0 \<or> rs = [] \<or> \<not> acc (o_price (hd rs)) \<Longrightarrow>
      P t rs t rs []"
    and self: "\<And>t r rs t' rs' fs. o_owner r = o_owner t \<Longrightarrow> P t rs t' rs' fs \<Longrightarrow> P t (r # rs) t' rs' fs"
    and full: "\<And>t r rs t' rs' fs f. taker_ok t \<Longrightarrow> order_ok r \<Longrightarrow> acc (o_price r) \<Longrightarrow>
      o_owner r \<noteq> o_owner t \<Longrightarrow> d_val (o_rem r) \<le> d_val (o_rem t) \<Longrightarrow>
      f = mk_fill t r (Decimal (d_val (o_rem r)) 8) ts buy \<Longrightarrow> f_size f = d_val (o_rem r) \<Longrightarrow>
      f_price f = d_val (o_price r) \<Longrightarrow> taker_ok (reduce t (d_val (o_rem r))) \<Longrightarrow>
      P (reduce t (d_val (o_rem r))) rs t' rs' fs \<Longrightarrow> P t (r # rs) t' rs' (f # fs)"
    and part: "\<And>t r rs f. taker_ok t \<Longrightarrow> order_ok r \<Longrightarrow> acc (o_price r) \<Longrightarrow>
      o_owner r \<noteq> o_owner t \<Longrightarrow> 0 < d_val (o_rem t) \<Longrightarrow> d_val (o_rem t) < d_val (o_rem r) \<Longrightarrow>
      f = mk_fill t r (Decimal (d_val (o_rem t)) 8) ts buy \<Longrightarrow> f_size f = d_val (o_rem t) \<Longrightarrow>
      f_price f = d_val (o_price r) \<Longrightarrow> taker_ok (reduce t (d_val (o_rem t))) \<Longrightarrow>
      P t (r # rs) (reduce t (d_val (o_rem t))) (reduce r (d_val (o_rem t)) # rs) [f]"
  shows "P t rs t' rs' fs"
  using assms(1-3)
proof (induction rs arbitrary: t fs)
  case (Cons r rs)
  have r: "order_ok r" using Cons.prems by simp
  consider "d_val (o_rem t) = 0 \<or> \<not> acc (o_price r)"
    | (own) "d_val (o_rem t) \<noteq> 0" "acc (o_price r)" "o_owner r = o_owner t"
    | (trade) "d_val (o_rem t) \<noteq> 0" "acc (o_price r)" "o_owner r \<noteq> o_owner t"
    by blast
  then show ?case
  proof cases
    case 1
    then show ?thesis using Cons.prems stop [of t "r # rs"] by auto
  next
    case own
    then show ?thesis using Cons by (auto intro: self)
  next
    case trade
    have pos: "0 < d_val (o_rem t)" "0 < d_val (o_rem r)" "0 < d_val (o_price r)"
      "in_i128 (d_val (o_rem t))" "in_i128 (d_val (o_rem r))" "in_i128 (d_val (o_price r))"
      using Cons.prems(2) trade(1) r by (auto simp: taker_ok_def order_ok_def pos_amount_def)
    from Cons.prems(1) trade show ?thesis
    proof (cases rule: match_list_trade_cases)
      case (full n fs2)
      have "taker_ok (reduce t n)" using Cons.prems(2) full pos by (intro reduce_taker_ok) auto
      with full Cons trade r pos show ?thesis
        by (auto intro!: assms(6) simp: mk_fill_def wrap_u128_id)
    next
      case (part n)
      have "taker_ok (reduce t n)" using Cons.prems(2) part pos by (intro reduce_taker_ok) auto
      with part Cons.prems trade r pos show ?thesis
        by (auto intro!: assms(7) simp: mk_fill_def wrap_u128_id)
    qed
  qed
qed (auto intro: stop)

definition fills_total :: "fill list \<Rightarrow> int" where
  "fills_total fs = (\<Sum>f\<leftarrow>fs. f_size f)"

definition open_total :: "address \<Rightarrow> order list \<Rightarrow> int" where
  "open_total own rs = (\<Sum>r\<leftarrow>filter (\<lambda>r. o_owner r \<noteq> own) rs. d_val (o_rem r))"

lemmas totals_defs = fills_total_def open_total_def

lemma match_list_taker:
  assumes "match_list acc buy ts t rs = (t', rs', fs)" "taker_ok t" "\<forall>r \<in> set rs. order_ok r"
  shows "taker_ok t' \<and> o_id t' = o_id t \<and> o_owner t' = o_owner t \<and> o_side t' = o_side t \<and>
    o_price t' = o_price t \<and> o_ts t' = o_ts t \<and> o_type t' = o_type t \<and>
    o_post_only t' = o_post_only t \<and> o_orig t' = o_orig t \<and> o_market t' = o_market t"
  using assms by (induction rule: match_list_induct) auto

lemma match_list_conservation:
  assumes "match_list acc buy ts t rs = (t', rs', fs)" "taker_ok t" "\<forall>r \<in> set rs. order_ok r"
  shows "fills_total fs + d_val (o_rem t') = d_val (o_rem t) \<and>
    fills_total fs + open_total (o_owner t) rs' = open_total (o_owner t) rs"
  using assms by (induction rule: match_list_induct) (auto simp: totals_defs)

lemma match_list_fills:
  assumes "match_list acc buy ts t rs = (t', rs', fs)" "taker_ok t" "\<forall>r \<in> set rs. order_ok r" "f \<in> set fs"
  shows "\<exists>r \<in> set rs. f_maker_oid f = o_id r \<and> f_maker f = o_owner r \<and> f_price f = d_val (o_price r) \<and>
    acc (o_price r) \<and> 0 < f_size f \<and> f_size f \<le> d_val (o_rem r) \<and>
    o_owner r \<noteq> o_owner t \<and> f_taker f = o_owner t \<and> f_taker_oid f = o_id t \<and> f_taker_buy f = buy"
  using assms
  by (induction rule: match_list_induct)
     (auto simp: mk_fill_def order_ok_def pos_amount_def)

lemma match_list_priority:
  assumes "match_list acc buy ts t rs = (t', rs', fs)" "taker_ok t" "\<forall>r \<in> set rs. order_ok r"
  shows "map f_maker_oid fs = take (length fs) (map o_id (filter (\<lambda>r. o_owner r \<noteq> o_owner t) rs))"
  using assms by (induction rule: match_list_induct) (auto simp: mk_fill_def)

lemma match_list_exhausts:
  assumes "match_list acc buy ts t rs = (t', rs', fs)" "taker_ok t" "\<forall>r \<in> set rs. order_ok r"
  shows "d_val (o_rem t') = 0 \<or> rs' = [] \<or> \<not> acc (o_price (hd rs'))"
  using assms by (induction rule: match_list_induct) auto

lemma match_list_rest:
  assumes "match_list acc buy ts t rs = (t', rs', fs)" "taker_ok t" "\<forall>r \<in> set rs. order_ok r"
  shows "\<exists>k. map (\<lambda>r. (o_id r, o_price r)) rs' = map (\<lambda>r. (o_id r, o_price r)) (drop k rs)"
  using assms
proof (induction rule: match_list_induct)
  case (stop t rs)
  show ?case by (rule exI [of _ 0]) simp
next
  case (self t r rs t' rs' fs)
  then show ?case by (metis drop_Suc_Cons)
next
  case (full t r rs t' rs' fs f)
  then show ?case by (metis drop_Suc_Cons)
next
  case (part t r rs f)
  show ?case by (rule exI [of _ 0]) simp
qed

section \<open>Processing an order\<close>

lemma process_order_match_side:
  "process_order ord b = do {
     (ord1, b1, fills) \<leftarrow> match_side ord b;
     (let (r, ord2, b2) = handle_unfilled ord1 b1 fills in
      Some (case r of Inl e \<Rightarrow> Inl e | Inr _ \<Rightarrow> Inr (ord2, fills), b2)) }"
  by (simp add: process_order_def match_side_def)

lemma side_orders_ok: "book_inv b \<Longrightarrow> \<forall>r \<in> set (side_orders s b). order_ok r"
  using side_inv_in [OF book_inv_side] by (fastforce simp: side_orders_def)

text \<open>Everything there is to know about processing a well-formed order, in terms of the specification.\<close>

lemma process_order_spec:
  assumes "order_ok ord" "book_inv b" "hm_get (order_index b) (o_id ord) = None"
  obtains ord1 rs fs b1 where "spec_match ord b = (ord1, rs, fs)"
    "match_side ord b = Some (ord1, b1, fs)" "book_inv b1"
    "hm_get (order_index b1) (o_id ord) = None"
    "side_map (o_side ord) b1 = side_map (o_side ord) b"
    "side_orders (opposite (o_side ord)) b1 = rs"
    "process_order ord b = Some (case handle_unfilled ord1 b1 fs of
       (Inl e, _, b2) \<Rightarrow> (Inl e, b2) | (Inr _, ord2, b2) \<Rightarrow> (Inr (ord2, fs), b2))"
proof -
  obtain ord1 rs fs where spec: "spec_match ord b = (ord1, rs, fs)" by (metis prod_cases3)
  show thesis
    using that [OF spec] match_side_refines [OF order_ok_taker_ok [OF assms(1)] assms(2,3) spec]
    by (auto simp: process_order_match_side Let_def split: prod.splits sum.splits)
qed

lemma spec_match_taker:
  assumes "spec_match ord b = (ord1, rs, fs)" "order_ok ord" "book_inv b"
  shows "taker_ok ord1 \<and> o_id ord1 = o_id ord \<and> o_owner ord1 = o_owner ord \<and>
    o_side ord1 = o_side ord \<and> o_price ord1 = o_price ord \<and> o_ts ord1 = o_ts ord \<and>
    o_type ord1 = o_type ord \<and> o_post_only ord1 = o_post_only ord \<and> o_orig ord1 = o_orig ord \<and>
    o_market ord1 = o_market ord"
  using assms match_list_taker order_ok_taker_ok side_orders_ok unfolding spec_match_def by blast

lemma handle_unfilled_inv:
  assumes "handle_unfilled ord b fs = (r, ord', b')" "taker_ok ord" "book_inv b"
    "hm_get (order_index b) (o_id ord) = None"
  shows "book_inv b' \<and> o_rem ord' = o_rem ord \<and> r \<in> {Inr (), Inl PostOnlyWouldCross, Inl FokNotFilled}"
  using assms taker_ok_pos [OF assms(2)]
  by (auto simp: handle_unfilled_def is_zero_def fresh_for_def split: if_splits)

lemma handle_unfilled_sides:
  assumes "handle_unfilled ord b fs = (r, ord', b')"
  shows "b' = b \<or> (b' = book_insert ord b \<and> d_val (o_rem ord) \<noteq> 0)"
  using assms by (auto simp: handle_unfilled_def is_zero_def split: if_splits)

text \<open>
  (C1) Processing a well-formed order with a fresh id against a book that
  satisfies the invariant always returns, never panics, and leaves a book that
  satisfies the invariant, whether the order is accepted or rejected; the only
  rejections are the post-only and the fill-or-kill ones.
\<close>

theorem process_order_returns:
  assumes "order_ok ord" "book_inv b" "hm_get (order_index b) (o_id ord) = None"
  shows "\<exists>r b'. process_order ord b = Some (r, b') \<and> book_inv b' \<and>
    (case r of Inl e \<Rightarrow> e \<in> {PostOnlyWouldCross, FokNotFilled} | Inr (ord', fs) \<Rightarrow> True)"
proof -
  obtain ord1 rs fs b1 where s: "spec_match ord b = (ord1, rs, fs)"
    "match_side ord b = Some (ord1, b1, fs)" "book_inv b1"
    "hm_get (order_index b1) (o_id ord) = None"
    "side_map (o_side ord) b1 = side_map (o_side ord) b"
    "side_orders (opposite (o_side ord)) b1 = rs"
    "process_order ord b = Some (case handle_unfilled ord1 b1 fs of
       (Inl e, _, b2) \<Rightarrow> (Inl e, b2) | (Inr _, ord2, b2) \<Rightarrow> (Inr (ord2, fs), b2))"
    by (rule process_order_spec [OF assms])
  obtain r ord2 b2 where h: "handle_unfilled ord1 b1 fs = (r, ord2, b2)" by (metis prod_cases3)
  have "book_inv b2 \<and> r \<in> {Inr (), Inl PostOnlyWouldCross, Inl FokNotFilled}"
    using handle_unfilled_inv [OF h] spec_match_taker [OF s(1) assms(1,2)] s(3,4) by auto
  then show ?thesis using s(7) h by auto
qed

theorem process_order_returns_witness:
  "\<exists>r b'. process_order (limit_order 3 9 Buy 120 8 Gtc) sample_book = Some (r, b') \<and> book_inv b' \<and>
    (case r of Inl e \<Rightarrow> e \<in> {PostOnlyWouldCross, FokNotFilled} | Inr (ord', fs) \<Rightarrow> True)"
  by (rule process_order_returns [OF _ book_inv_sample])
     (simp_all add: order_ok_limit_order i128_defs sample_book_def book_new_def)

text \<open>The accepted runs of \<open>process_order\<close>, as the properties below use them.\<close>

lemma process_order_accepted:
  assumes "order_ok ord" "book_inv b" "hm_get (order_index b) (o_id ord) = None"
    and "process_order ord b = Some (Inr (ord', fs), b')"
  obtains ord1 rs b1 where "spec_match ord b = (ord1, rs, fs)"
    "handle_unfilled ord1 b1 fs = (Inr (), ord', b')" "book_inv b1"
    "side_map (o_side ord) b1 = side_map (o_side ord) b"
    "side_orders (opposite (o_side ord)) b1 = rs" "o_rem ord' = o_rem ord1"
proof -
  obtain ord1 rs fs1 b1 where s: "spec_match ord b = (ord1, rs, fs1)"
    "match_side ord b = Some (ord1, b1, fs1)" "book_inv b1"
    "hm_get (order_index b1) (o_id ord) = None"
    "side_map (o_side ord) b1 = side_map (o_side ord) b"
    "side_orders (opposite (o_side ord)) b1 = rs"
    "process_order ord b = Some (case handle_unfilled ord1 b1 fs1 of
       (Inl e, _, b2) \<Rightarrow> (Inl e, b2) | (Inr _, ord2, b2) \<Rightarrow> (Inr (ord2, fs1), b2))"
    by (rule process_order_spec [OF assms(1-3)])
  obtain r ord2 b2 where h: "handle_unfilled ord1 b1 fs1 = (r, ord2, b2)" by (metis prod_cases3)
  have "r = Inr ()" "ord2 = ord'" "fs1 = fs" "b2 = b'"
    using s(7) h assms(4) by (auto split: sum.splits)
  moreover have "o_rem ord2 = o_rem ord1"
    using handle_unfilled_inv [OF h] spec_match_taker [OF s(1) assms(1,2)] s(3,4) by auto
  ultimately show thesis using that s h by blast
qed


text \<open>
  (C3) Every fill of an accepted order trades with a resting order of another
  account on the opposite side, at that order's own price, which is at least as
  good as the incoming limit, for a positive size of at most what the resting
  order had left; and the makers are served strictly in the book's price-time
  order, no order being passed over except the taker's own.
\<close>

theorem process_order_fills_fair:
  assumes "order_ok ord" "book_inv b" "hm_get (order_index b) (o_id ord) = None"
    and "process_order ord b = Some (Inr (ord', fs), b')"
  defines "resting \<equiv> side_orders (opposite (o_side ord)) b"
  shows "(\<forall>f \<in> set fs. \<exists>r \<in> set resting. f_maker_oid f = o_id r \<and> f_maker f = o_owner r \<and>
      f_price f = d_val (o_price r) \<and> accepts (o_side ord) (o_price ord) (o_price r) \<and>
      0 < f_size f \<and> f_size f \<le> d_val (o_rem r) \<and> f_taker f = o_owner ord \<and> f_maker f \<noteq> f_taker f) \<and>
    map f_maker_oid fs =
      take (length fs) (map o_id (filter (\<lambda>r. o_owner r \<noteq> o_owner ord) resting))"
  using assms(1-4)
proof (rule process_order_accepted)
  fix ord1 rs
  assume "spec_match ord b = (ord1, rs, fs)"
  then have m: "match_list (accepts (o_side ord) (o_price ord)) (o_side ord = Buy) (o_ts ord) ord resting
      = (ord1, rs, fs)" by (simp add: spec_match_def resting_def)
  note ok = order_ok_taker_ok [OF assms(1)] side_orders_ok [OF assms(2), of "opposite (o_side ord)"]
  show ?thesis
    using match_list_fills [OF m] match_list_priority [OF m] ok unfolding resting_def by fastforce
qed

definition uncrossed :: "order_book \<Rightarrow> bool" where
  "uncrossed b = (\<forall>x \<in> set (bids_iter b). \<forall>y \<in> set (asks_iter b). o_price x < o_price y)"

lemma uncrossed_sides:
  "uncrossed b \<longleftrightarrow> (\<forall>x \<in> set (side_orders s b). \<forall>y \<in> set (side_orders (opposite s) b).
     \<not> accepts s (o_price x) (o_price y))"
  by (cases s)
     (simp_all add: uncrossed_def bids_iter_def asks_iter_def side_orders_def accepts_def not_le, blast)

lemma exhausted_rejects_all:
  assumes "book_inv b" "side_orders (opposite s) b = rs" "rs = [] \<or> \<not> accepts s lim (o_price (hd rs))"
    "y \<in> set rs"
  shows "\<not> accepts s lim (o_price y)"
proof -
  obtain x where x: "first_value (side_map (opposite s) b) = Some x"
    "case opposite s of Buy \<Rightarrow> o_price y \<le> o_price x | Sell \<Rightarrow> o_price x \<le> o_price y"
    using side_inv_best [OF book_inv_side [OF assms(1)], of y "opposite s"] assms(2,4)
    by (auto simp: side_orders_def)
  then have "x = hd rs"
    using assms(2) by (auto simp: first_value_def side_orders_def split: list.splits)
  then show ?thesis
    using x(2) assms(3,4) by (cases s) (auto simp: accepts_def)
qed

text \<open>
  (C4) Processing an order keeps the book uncrossed: if every bid was below every
  ask before, it is so afterwards, on acceptance and on rejection.
\<close>

theorem process_order_keeps_uncrossed:
  assumes "order_ok ord" "book_inv b" "hm_get (order_index b) (o_id ord) = None"
    and "process_order ord b = Some (r, b')" "uncrossed b"
  shows "uncrossed b'"
proof -
  let ?s = "o_side ord"
  obtain ord1 rs fs b1 where s: "spec_match ord b = (ord1, rs, fs)"
    "match_side ord b = Some (ord1, b1, fs)" "book_inv b1"
    "hm_get (order_index b1) (o_id ord) = None" "side_map ?s b1 = side_map ?s b"
    "side_orders (opposite ?s) b1 = rs"
    "process_order ord b = Some (case handle_unfilled ord1 b1 fs of
       (Inl e, _, b2) \<Rightarrow> (Inl e, b2) | (Inr _, ord2, b2) \<Rightarrow> (Inr (ord2, fs), b2))"
    by (rule process_order_spec [OF assms(1-3)])
  obtain r1 ord2 where h: "handle_unfilled ord1 b1 fs = (r1, ord2, b')"
    using s(7) assms(4) by (auto split: prod.splits sum.splits)
  have m: "match_list (accepts ?s (o_price ord)) (?s = Buy) (o_ts ord) ord (side_orders (opposite ?s) b)
      = (ord1, rs, fs)" using s(1) by (simp add: spec_match_def)
  note ok = order_ok_taker_ok [OF assms(1)] side_orders_ok [OF assms(2), of "opposite ?s"]
  have t: "o_side ord1 = ?s" "o_price ord1 = o_price ord"
    using spec_match_taker [OF s(1) assms(1,2)] by auto
  obtain k where "map (\<lambda>r. (o_id r, o_price r)) rs =
      map (\<lambda>r. (o_id r, o_price r)) (drop k (side_orders (opposite ?s) b))"
    using match_list_rest [OF m ok] by blast
  then have "map o_price rs = map o_price (drop k (side_orders (opposite ?s) b))"
    by (auto dest: arg_cong [where f = "map snd"] simp: comp_def)
  then have prices: "o_price ` set rs \<subseteq> o_price ` set (side_orders (opposite ?s) b)"
    by (metis list.set_map image_mono set_drop_subset)
  have same: "side_orders ?s b1 = side_orders ?s b" using s(5) by (simp add: side_orders_def)
  have un1: "uncrossed b1"
    using assms(5) prices unfolding uncrossed_sides [of _ ?s] s(6) same by fastforce
  from handle_unfilled_sides [OF h] show ?thesis
  proof
    assume ins: "b' = book_insert ord1 b1 \<and> d_val (o_rem ord1) \<noteq> 0"
    have opp: "side_orders (opposite ?s) b' = rs"
      using ins s(6) t by (simp add: side_orders_def book_insert_sides)
    have own: "set (side_orders ?s b') \<subseteq> insert ord1 (set (side_orders ?s b1))"
      using ins t set_bt_insert_subset [of "order_key_of ord1" ord1 "side_map ?s b1"]
      by (force simp: side_orders_def book_insert_sides)
    have "rs = [] \<or> \<not> accepts ?s (o_price ord) (o_price (hd rs))"
      using match_list_exhausts [OF m ok] ins by simp
    then have "\<not> accepts ?s (o_price ord1) (o_price y)" if "y \<in> set rs" for y
      using exhausted_rejects_all [OF s(3,6) _ that] t by simp
    then show ?thesis
      using un1 own unfolding uncrossed_sides [of _ ?s] opp s(6) by fastforce
  qed (use un1 in simp)
qed

section \<open>Acceptance, rejection and concrete runs\<close>

text \<open>Orders that are neither post-only nor fill-or-kill are always accepted.\<close>

lemma process_order_accepts:
  assumes "order_ok ord" "book_inv b" "hm_get (order_index b) (o_id ord) = None"
    and "\<not> o_post_only ord" "\<not> is_fok ord"
  shows "\<exists>ord' fs b'. process_order ord b = Some (Inr (ord', fs), b')"
  using assms(1-3)
proof (rule process_order_spec)
  fix ord1 rs fs b1
  assume s: "spec_match ord b = (ord1, rs, fs)"
    "process_order ord b = Some (case handle_unfilled ord1 b1 fs of
       (Inl e, _, b2) \<Rightarrow> (Inl e, b2) | (Inr _, ord2, b2) \<Rightarrow> (Inr (ord2, fs), b2))"
  have "\<not> o_post_only ord1" "\<not> is_fok ord1"
    using assms(4,5) spec_match_taker [OF s(1) assms(1,2)] by (auto simp: is_fok_def)
  then show ?thesis using s(2) by (simp add: handle_unfilled_def)
qed

lemma sample_taker:
  "order_ok (limit_order 3 9 Buy 120 8 Gtc)"
  "hm_get (order_index sample_book) (o_id (limit_order 3 9 Buy 120 8 Gtc)) = None"
  "\<exists>ord' fs b'. process_order (limit_order 3 9 Buy 120 8 Gtc) sample_book = Some (Inr (ord', fs), b')"
proof -
  show *: "order_ok (limit_order 3 9 Buy 120 8 Gtc)"
    "hm_get (order_index sample_book) (o_id (limit_order 3 9 Buy 120 8 Gtc)) = None"
    by (simp_all add: order_ok_limit_order i128_defs sample_book_def book_new_def)
  show "\<exists>ord' fs b'. process_order (limit_order 3 9 Buy 120 8 Gtc) sample_book = Some (Inr (ord', fs), b')"
    using * by (intro process_order_accepts book_inv_sample) (auto simp: is_fok_def)
qed


theorem process_order_fills_fair_witness:
  "\<exists>ord' fs b'. process_order (limit_order 3 9 Buy 120 8 Gtc) sample_book = Some (Inr (ord', fs), b') \<and>
    map f_maker_oid fs = take (length fs) (map o_id (filter (\<lambda>r. o_owner r \<noteq> 9) (side_orders Sell sample_book)))"
  using sample_taker(3) process_order_fills_fair [OF sample_taker(1) book_inv_sample sample_taker(2)]
  by fastforce

lemma sample_sides:
  "bids sample_book = [(OrderKey (-100) 1 1, limit_order 1 7 Buy 100 5 Gtc)]"
  "asks sample_book = [(OrderKey 110 2 2, limit_order 2 8 Sell 110 6 Gtc)]"
  by (simp_all add: sample_book_def book_insert_def order_key_of_def key_bid_def key_ask_def
      update_best_bid_def update_best_ask_def Let_def book_new_def wrap_i128_id i128_defs)

theorem process_order_keeps_uncrossed_witness:
  "\<exists>r b'. process_order (limit_order 3 9 Buy 120 8 Gtc) sample_book = Some (r, b') \<and> uncrossed b'"
proof -
  have "uncrossed sample_book"
    by (simp add: uncrossed_def bids_iter_def asks_iter_def sample_sides less_decimal_def)
  then show ?thesis
    using sample_taker(3) process_order_keeps_uncrossed [OF sample_taker(1) book_inv_sample sample_taker(2)]
    by fastforce
qed

text \<open>
  A post-only order that crosses the book is rejected only when part of it
  remains: one that is filled completely on arrival is accepted and takes
  liquidity.  A rejected fill-or-kill order has already consumed the resting
  orders it matched.
\<close>

lemma sample_spec_match:
  "spec_match (limit_order 3 9 Buy 120 n t) sample_book =
    (if n = 0 then (limit_order 3 9 Buy 120 n t, [limit_order 2 8 Sell 110 6 Gtc], [])
     else if n < 6 then
       (reduce (limit_order 3 9 Buy 120 n t) n, [reduce (limit_order 2 8 Sell 110 6 Gtc) n],
        [mk_fill (limit_order 3 9 Buy 120 n t) (limit_order 2 8 Sell 110 6 Gtc) (Decimal n 8) 3 True])
     else (reduce (limit_order 3 9 Buy 120 n t) 6, [],
        [mk_fill (limit_order 3 9 Buy 120 n t) (limit_order 2 8 Sell 110 6 Gtc) (Decimal 6 8) 3 True]))"
  by (auto simp: spec_match_def accepts_def side_orders_def sample_sides less_eq_decimal_def Let_def)

text \<open>
  A post-only order that the book can fill completely is executed as a taker:
  on a book with an ask of 6 at 110, a post-only bid of 6 at 120 is accepted with
  a fill instead of being rejected.
\<close>

theorem post_only_can_take:
  "o_post_only (limit_order 3 9 Buy 120 6 Alo) \<and>
   (\<exists>ord' f b'. process_order (limit_order 3 9 Buy 120 6 Alo) sample_book = Some (Inr (ord', [f]), b') \<and>
      f_size f = 6 \<and> f_maker f = 8 \<and> f_taker f = 9)"
proof
  let ?o = "limit_order 3 9 Buy 120 6 Alo"
  have pre: "order_ok ?o" "hm_get (order_index sample_book) (o_id ?o) = None"
    by (simp_all add: order_ok_limit_order i128_defs sample_book_def book_new_def)
  show "\<exists>ord' f b'. process_order ?o sample_book = Some (Inr (ord', [f]), b') \<and>
      f_size f = 6 \<and> f_maker f = 8 \<and> f_taker f = 9"
  proof (rule process_order_spec [OF pre(1) book_inv_sample pre(2)])
    fix ord1 rs fs b1
    assume "spec_match ?o sample_book = (ord1, rs, fs)"
      and p: "process_order ?o sample_book = Some (case handle_unfilled ord1 b1 fs of
         (Inl e, _, b2) \<Rightarrow> (Inl e, b2) | (Inr _, ord2, b2) \<Rightarrow> (Inr (ord2, fs), b2))"
    then have o: "ord1 = reduce ?o 6" "fs = [mk_fill ?o (limit_order 2 8 Sell 110 6 Gtc) (Decimal 6 8) 3 True]"
      by (simp_all add: sample_spec_match)
    then have "process_order ?o sample_book = Some (Inr (ord1, fs), b1)"
      using p by (simp add: handle_unfilled_def is_zero_def)
    then show ?thesis using o by (simp add: mk_fill_def wrap_u128_def)
  qed
qed simp

text \<open>
  Rejecting a fill-or-kill order does not restore the book: a bid of 8
  against the ask of 6 is rejected, and the ask is gone.
\<close>

theorem fok_rejection_consumes_book:
  "\<exists>b'. process_order (limit_order 3 9 Buy 120 8 Fok) sample_book = Some (Inl FokNotFilled, b') \<and>
     asks sample_book \<noteq> [] \<and> asks b' = []"
proof -
  let ?o = "limit_order 3 9 Buy 120 8 Fok"
  have pre: "order_ok ?o" "hm_get (order_index sample_book) (o_id ?o) = None"
    by (simp_all add: order_ok_limit_order i128_defs sample_book_def book_new_def)
  show ?thesis
  proof (rule process_order_spec [OF pre(1) book_inv_sample pre(2)])
    fix ord1 rs fs b1
    assume "spec_match ?o sample_book = (ord1, rs, fs)"
      and rs: "side_orders (opposite (o_side ?o)) b1 = rs"
      and p: "process_order ?o sample_book = Some (case handle_unfilled ord1 b1 fs of
         (Inl e, _, b2) \<Rightarrow> (Inl e, b2) | (Inr _, ord2, b2) \<Rightarrow> (Inr (ord2, fs), b2))"
    then have o: "ord1 = reduce ?o 6" "rs = []" "fs \<noteq> []"
      by (auto simp: sample_spec_match)
    then have "process_order ?o sample_book = Some (Inl FokNotFilled, b1)"
      using p by (simp add: handle_unfilled_def is_zero_def is_fok_def)
    then show ?thesis using o rs by (simp add: side_orders_def sample_sides)
  qed
qed

end
