(* ===== verification/Market.thy ===== *)
theory Market
  imports Order
begin

text \<open>
  Perpetual markets (\<open>crates/primitives/src/market.rs\<close>) and positions
  (\<open>crates/primitives/src/position.rs\<close>).  A calculation that can overflow, divide
  by zero or fail to rescale panics, so it returns an option; where the Rust
  function itself returns an option the panic is the outer one.
\<close>

section \<open>Market configuration\<close>

datatype market_status = Active | Paused | Settling | Settled

record market_config =
  mc_id :: market_id
  mc_symbol :: string
  mc_base_asset :: string
  mc_size_decimals :: nat
  mc_price_decimals :: nat
  mc_tick_size :: decimal
  mc_lot_size :: decimal
  mc_min_order_size :: decimal
  mc_max_order_size :: decimal
  mc_max_position_notional :: decimal
  mc_max_leverage :: nat
  mc_maintenance_margin_rate :: decimal
  mc_initial_margin_factor :: decimal
  mc_maker_fee_rate :: decimal
  mc_taker_fee_rate :: decimal
  mc_liquidation_fee_rate :: decimal
  mc_max_open_orders :: nat

text \<open>The literals of the configurations are the parsed strings of the source.\<close>

lemma config_literals:
  "dec_price ''0.01'' = Some (Decimal 1000000 8)" "dec_price ''0.1'' = Some (Decimal 10000000 8)"
  "dec_size ''0.001'' = Some (Decimal 100000 8)" "dec_size ''0.01'' = Some (Decimal 1000000 8)"
  "dec_size ''10000'' = Some (Decimal 1000000000000 8)" "dec_size ''1000'' = Some (Decimal 100000000000 8)"
  "dec_usdc ''10000000'' = Some (Decimal 10000000000000 6)"
  "dec_rate ''0.025'' = Some (Decimal 250000000 10)" "dec_rate ''1.0'' = Some (Decimal 10000000000 10)"
  "dec_rate ''0.0002'' = Some (Decimal 2000000 10)" "dec_rate ''0.0005'' = Some (Decimal 5000000 10)"
  "dec_rate ''0.005'' = Some (Decimal 50000000 10)"
  by (simp_all add: dec_price_def dec_size_def dec_usdc_def dec_rate_def dec_consts from_str_exact_def
      str_trim_def trim_end_by_def is_ws_def parse_i128_def parse_digits_def is_digit_def
      digits_val_def digit_val_def i128_checked_defs i128_defs pow10_def wrap_i128_def Let_def
      replicate_unroll)

definition market_config_new :: "market_id \<Rightarrow> string \<Rightarrow> nat \<Rightarrow> market_config" where
  "market_config_new i symbol lev =
     \<lparr> mc_id = i, mc_symbol = symbol, mc_base_asset = hd (split_char (CHR ''-'') symbol),
       mc_size_decimals = 3, mc_price_decimals = 2, mc_tick_size = Decimal 1000000 8,
       mc_lot_size = Decimal 100000 8, mc_min_order_size = Decimal 100000 8,
       mc_max_order_size = Decimal 1000000000000 8,
       mc_max_position_notional = Decimal 10000000000000 6, mc_max_leverage = lev,
       mc_maintenance_margin_rate = Decimal 250000000 10, mc_initial_margin_factor = Decimal 10000000000 10,
       mc_maker_fee_rate = Decimal 2000000 10, mc_taker_fee_rate = Decimal 5000000 10,
       mc_liquidation_fee_rate = Decimal 50000000 10, mc_max_open_orders = 200 \<rparr>"

definition btc_perp :: market_config where
  "btc_perp =
     \<lparr> mc_id = 0, mc_symbol = ''BTC-PERP'', mc_base_asset = ''BTC'',
       mc_size_decimals = 3, mc_price_decimals = 1, mc_tick_size = Decimal 10000000 8,
       mc_lot_size = Decimal 100000 8, mc_min_order_size = Decimal 100000 8,
       mc_max_order_size = Decimal 100000000000 8,
       mc_max_position_notional = Decimal 10000000000000 6, mc_max_leverage = 50,
       mc_maintenance_margin_rate = Decimal 250000000 10, mc_initial_margin_factor = Decimal 10000000000 10,
       mc_maker_fee_rate = Decimal 2000000 10, mc_taker_fee_rate = Decimal 5000000 10,
       mc_liquidation_fee_rate = Decimal 50000000 10, mc_max_open_orders = 200 \<rparr>"

definition eth_perp :: market_config where
  "eth_perp =
     \<lparr> mc_id = 1, mc_symbol = ''ETH-PERP'', mc_base_asset = ''ETH'',
       mc_size_decimals = 2, mc_price_decimals = 2, mc_tick_size = Decimal 1000000 8,
       mc_lot_size = Decimal 1000000 8, mc_min_order_size = Decimal 1000000 8,
       mc_max_order_size = Decimal 1000000000000 8,
       mc_max_position_notional = Decimal 10000000000000 6, mc_max_leverage = 50,
       mc_maintenance_margin_rate = Decimal 250000000 10, mc_initial_margin_factor = Decimal 10000000000 10,
       mc_maker_fee_rate = Decimal 2000000 10, mc_taker_fee_rate = Decimal 5000000 10,
       mc_liquidation_fee_rate = Decimal 50000000 10, mc_max_open_orders = 200 \<rparr>"

definition validate_price :: "market_config \<Rightarrow> decimal \<Rightarrow> bool option" where
  "validate_price c price = do {
     r \<leftarrow> i128_rem (d_val price) (d_val (mc_tick_size c));
     Some (r = 0)
   }"

definition validate_size :: "market_config \<Rightarrow> decimal \<Rightarrow> bool option" where
  "validate_size c sz = do {
     r \<leftarrow> i128_rem (d_val sz) (d_val (mc_lot_size c));
     Some (r = 0 \<and> sz \<ge> mc_min_order_size c)
   }"

definition initial_margin :: "decimal \<Rightarrow> decimal \<Rightarrow> nat \<Rightarrow> decimal option" where
  "initial_margin sz price lev = do {
     notional \<leftarrow> dec_mul (dec_abs sz) price;
     dec_div notional (from_int (int lev) (d_dec notional))
   }"

definition maintenance_margin :: "market_config \<Rightarrow> decimal \<Rightarrow> decimal \<Rightarrow> decimal option" where
  "maintenance_margin c sz price = do {
     notional \<leftarrow> dec_mul (dec_abs sz) price;
     r \<leftarrow> to_decimals (mc_maintenance_margin_rate c) (d_dec notional);
     dec_mul notional r
   }"

definition maker_fee :: "market_config \<Rightarrow> decimal \<Rightarrow> decimal option" where
  "maker_fee c notional = do {
     r \<leftarrow> to_decimals (mc_maker_fee_rate c) (d_dec notional);
     dec_mul notional r
   }"

definition taker_fee :: "market_config \<Rightarrow> decimal \<Rightarrow> decimal option" where
  "taker_fee c notional = do {
     r \<leftarrow> to_decimals (mc_taker_fee_rate c) (d_dec notional);
     dec_mul notional r
   }"

section \<open>Market state\<close>

record market_state =
  ms_mark_price :: decimal
  ms_index_price :: decimal
  ms_best_bid :: "decimal option"
  ms_best_ask :: "decimal option"
  ms_funding_rate :: decimal
  ms_premium :: decimal
  ms_funding_accumulator :: decimal
  ms_next_funding_time :: timestamp
  ms_oi_long :: decimal
  ms_oi_short :: decimal
  ms_volume_24h :: decimal
  ms_status :: market_status
  ms_last_trade_time :: timestamp

definition market_state_new :: "decimal \<Rightarrow> timestamp \<Rightarrow> market_state" where
  "market_state_new price ft =
     \<lparr> ms_mark_price = price, ms_index_price = price, ms_best_bid = None, ms_best_ask = None,
       ms_funding_rate = Decimal 0 RATE_DECIMALS, ms_premium = Decimal 0 RATE_DECIMALS,
       ms_funding_accumulator = Decimal 0 RATE_DECIMALS, ms_next_funding_time = ft,
       ms_oi_long = Decimal 0 SIZE_DECIMALS, ms_oi_short = Decimal 0 SIZE_DECIMALS,
       ms_volume_24h = Decimal 0 USDC_DECIMALS, ms_status = Active, ms_last_trade_time = 0 \<rparr>"

definition ms_mid_price :: "market_state \<Rightarrow> decimal option option" where
  "ms_mid_price s = (case (ms_best_bid s, ms_best_ask s) of
       (Some bid, Some ask) \<Rightarrow> do { sum \<leftarrow> dec_add bid ask; m \<leftarrow> div_int sum 2; Some (Some m) }
     | _ \<Rightarrow> Some None)"

definition ms_spread :: "market_state \<Rightarrow> decimal option option" where
  "ms_spread s = (case (ms_best_bid s, ms_best_ask s) of
       (Some bid, Some ask) \<Rightarrow> map_option Some (dec_sub ask bid)
     | _ \<Rightarrow> Some None)"

definition is_tradeable :: "market_state \<Rightarrow> bool" where
  "is_tradeable s = (ms_status s = Active)"

definition update_open_interest :: "decimal \<Rightarrow> decimal \<Rightarrow> market_state \<Rightarrow> market_state option" where
  "update_open_interest dl ds s = do {
     l \<leftarrow> dec_add (ms_oi_long s) dl;
     sh \<leftarrow> dec_add (ms_oi_short s) ds;
     Some (s \<lparr> ms_oi_long := l, ms_oi_short := sh \<rparr>)
   }"

record market =
  m_config :: market_config
  m_state :: market_state

definition market_new :: "market_config \<Rightarrow> decimal \<Rightarrow> timestamp \<Rightarrow> market" where
  "market_new c price ft = \<lparr> m_config = c, m_state = market_state_new price ft \<rparr>"

end
