(* ===== verification/Position.thy ===== *)
theory Position
  imports Market
begin

text \<open>
  Positions, from \<open>crates/primitives/src/position.rs\<close>: average entry price,
  profit and loss, liquidation price, the update by a fill and the settlement of
  funding.
\<close>

section \<open>State and operations\<close>

record position =
  p_size :: decimal
  p_entry_notional :: decimal
  p_realized_pnl :: decimal
  p_last_funding_index :: decimal

definition position_new :: position where
  "position_new = \<lparr> p_size = Decimal 0 SIZE_DECIMALS, p_entry_notional = Decimal 0 SIZE_DECIMALS,
     p_realized_pnl = Decimal 0 USDC_DECIMALS, p_last_funding_index = Decimal 0 RATE_DECIMALS \<rparr>"

definition pos_is_empty :: "position \<Rightarrow> bool" where "pos_is_empty p = is_zero (p_size p)"

definition is_long :: "position \<Rightarrow> bool" where "is_long p = is_positive (p_size p)"

definition is_short :: "position \<Rightarrow> bool" where "is_short p = is_negative (p_size p)"

definition abs_size :: "position \<Rightarrow> decimal" where "abs_size p = dec_abs (p_size p)"

definition entry_price :: "position \<Rightarrow> decimal option option" where
  "entry_price p = (if is_zero (p_size p) then Some None
     else map_option Some (dec_div (p_entry_notional p) (abs_size p)))"

definition unrealized_pnl :: "position \<Rightarrow> decimal \<Rightarrow> decimal option" where
  "unrealized_pnl p mark =
    (if is_zero (p_size p) then Some (Decimal 0 USDC_DECIMALS)
     else do {
       current \<leftarrow> dec_mul (abs_size p) mark;
       if is_long p then dec_sub current (p_entry_notional p) else dec_sub (p_entry_notional p) current
     })"

definition notional_value :: "position \<Rightarrow> decimal \<Rightarrow> decimal option" where
  "notional_value p mark = dec_mul (abs_size p) mark"

definition liquidation_price :: "position \<Rightarrow> decimal \<Rightarrow> decimal \<Rightarrow> decimal option option" where
  "liquidation_price p balance mmr =
    (if is_zero (p_size p) then Some None
     else let one = from_int 1 (d_dec mmr) in
       if is_long p then do {
         factor \<leftarrow> dec_sub one mmr;
         if is_zero factor then Some None
         else do {
           bal \<leftarrow> to_decimals balance (d_dec (p_entry_notional p));
           numerator \<leftarrow> dec_sub (p_entry_notional p) bal;
           if is_negative numerator then Some (Some (Decimal 0 PRICE_DECIMALS))
           else do {
             den \<leftarrow> dec_mul (p_size p) factor;
             q \<leftarrow> dec_div numerator den;
             Some (Some q)
           }
         }
       } else do {
         factor \<leftarrow> dec_add one mmr;
         bal \<leftarrow> to_decimals balance (d_dec (p_entry_notional p));
         numerator \<leftarrow> dec_add (p_entry_notional p) bal;
         den \<leftarrow> dec_mul (abs_size p) factor;
         q \<leftarrow> dec_div numerator den;
         Some (Some q)
       })"

text \<open>The PnL that closing a part of the position realizes, shared by the two functions below.\<close>

definition reducing_pnl :: "position \<Rightarrow> decimal \<Rightarrow> decimal \<Rightarrow> (decimal \<times> decimal) option" where
  "reducing_pnl p fill_size fill_notional = do {
     close_ratio \<leftarrow> dec_div fill_size (abs_size p);
     closed_notional \<leftarrow> dec_mul (p_entry_notional p) close_ratio;
     pnl \<leftarrow> (if is_long p then dec_sub fill_notional closed_notional
             else dec_sub closed_notional fill_notional);
     Some (pnl, closed_notional)
   }"

definition calculate_fill_pnl :: "position \<Rightarrow> decimal \<Rightarrow> decimal \<Rightarrow> bool \<Rightarrow> decimal option" where
  "calculate_fill_pnl p fill_size fill_price is_buy =
    (if is_zero (p_size p) then Some (Decimal 0 USDC_DECIMALS)
     else let fill_side = (if is_buy then fill_size else dec_neg fill_size) in do {
       new_size \<leftarrow> dec_add (p_size p) fill_side;
       fill_notional \<leftarrow> dec_mul fill_size fill_price;
       let same_sign = ((is_positive (p_size p) \<and> is_positive new_size) \<or>
                        (is_negative (p_size p) \<and> is_negative new_size) \<or> is_zero new_size) in
       if same_sign then
         (if sgn (d_val (p_size p)) = sgn (d_val fill_side) then Some (Decimal 0 USDC_DECIMALS)
          else do {
            (pnl, _) \<leftarrow> reducing_pnl p fill_size fill_notional;
            to_decimals pnl USDC_DECIMALS
          })
       else do {
         u \<leftarrow> unrealized_pnl p fill_price;
         to_decimals u USDC_DECIMALS
       }
     })"

definition pos_apply_fill :: "position \<Rightarrow> decimal \<Rightarrow> decimal \<Rightarrow> bool \<Rightarrow> position option" where
  "pos_apply_fill p fill_size fill_price is_buy =
    (let fill_side = (if is_buy then fill_size else dec_neg fill_size) in do {
       new_size \<leftarrow> dec_add (p_size p) fill_side;
       fill_notional \<leftarrow> dec_mul fill_size fill_price;
       let same_sign = ((is_positive (p_size p) \<and> is_positive new_size) \<or>
                        (is_negative (p_size p) \<and> is_negative new_size) \<or>
                        is_zero (p_size p) \<or> is_zero new_size);
       p1 \<leftarrow>
         (if same_sign then
            (if is_zero (p_size p) \<or> sgn (d_val (p_size p)) = sgn (d_val fill_side) then do {
               n \<leftarrow> dec_add (p_entry_notional p) fill_notional;
               Some (p \<lparr> p_entry_notional := n \<rparr>)
             } else do {
               (pnl, closed_notional) \<leftarrow> reducing_pnl p fill_size fill_notional;
               d \<leftarrow> to_decimals pnl (d_dec (p_realized_pnl p));
               r \<leftarrow> dec_add (p_realized_pnl p) d;
               n \<leftarrow> dec_sub (p_entry_notional p) closed_notional;
               Some (p \<lparr> p_realized_pnl := r, p_entry_notional := n \<rparr>)
             })
          else do {
            close_pnl \<leftarrow> unrealized_pnl p fill_price;
            d \<leftarrow> to_decimals close_pnl (d_dec (p_realized_pnl p));
            r \<leftarrow> dec_add (p_realized_pnl p) d;
            rest \<leftarrow> dec_sub fill_size (abs_size p);
            n \<leftarrow> dec_mul (dec_abs rest) fill_price;
            Some (p \<lparr> p_realized_pnl := r, p_entry_notional := n \<rparr>)
          });
       let p2 = p1 \<lparr> p_size := new_size \<rparr>;
       Some (if is_zero new_size
             then p2 \<lparr> p_entry_notional := Decimal 0 (d_dec (p_entry_notional p2)) \<rparr> else p2)
     })"

definition settle_funding :: "position \<Rightarrow> decimal \<Rightarrow> (decimal \<times> position) option" where
  "settle_funding p acc = do {
     delta \<leftarrow> dec_sub acc (p_last_funding_index p);
     payment \<leftarrow> dec_mul (p_size p) delta;
     r \<leftarrow> to_decimals payment USDC_DECIMALS;
     Some (r, p \<lparr> p_last_funding_index := acc \<rparr>)
   }"

section \<open>Invariant\<close>

text \<open>
  A position of the engine: size and entry notional at eight places, realized PnL
  at the USDC precision, a nonnegative entry notional that is zero when nothing
  is held, all of them in range.
\<close>

definition pos_inv :: "position \<Rightarrow> bool" where
  "pos_inv p = (d_dec (p_size p) = 8 \<and> d_dec (p_entry_notional p) = 8 \<and>
     d_dec (p_realized_pnl p) = USDC_DECIMALS \<and>
     in_i128 (d_val (p_size p)) \<and> d_val (p_size p) \<noteq> i128_min \<and>
     0 \<le> d_val (p_entry_notional p) \<and>
     (d_val (p_size p) = 0 \<longrightarrow> d_val (p_entry_notional p) = 0))"

lemma pos_inv_new [simp]: "pos_inv position_new"
  by (simp add: pos_inv_def position_new_def dec_consts i128_min_def)

lemma abs_size_val:
  "in_i128 (d_val (p_size p)) \<Longrightarrow> d_val (p_size p) \<noteq> i128_min \<Longrightarrow>
   abs_size p = Decimal \<bar>d_val (p_size p)\<bar> (d_dec (p_size p))"
  using in_i128_abs_le [of "d_val (p_size p)" "\<bar>d_val (p_size p)\<bar>"]
  by (simp add: abs_size_def dec_abs_def wrap_i128_id)

lemma dec_neg_val:
  "in_i128 (d_val d) \<Longrightarrow> d_val d \<noteq> i128_min \<Longrightarrow> dec_neg d = Decimal (- d_val d) (d_dec d)"
  using in_i128_abs_le [of "d_val d" "- d_val d"] by (simp add: dec_neg_def wrap_i128_id)

lemma pos_amount_facts:
  "pos_amount d \<Longrightarrow> 0 < d_val d" "pos_amount d \<Longrightarrow> d_val d \<noteq> i128_min" "pos_amount d \<Longrightarrow> d_dec d = 8"
  "pos_amount d \<Longrightarrow> in_i128 (d_val d)"
  by (auto simp: pos_amount_def i128_min_def)

section \<open>Closing a part of a position\<close>

lemma dec_mul_nonneg:
  assumes "dec_mul a b = Some c" "0 \<le> d_val a" "0 \<le> d_val b" "d_dec b \<le> 38"
  shows "0 \<le> d_val c \<and> d_dec c = d_dec a"
  using assms by (auto simp: dec_mul_small sdiv_nonneg split: if_splits)

lemma close_ratio_bounds:
  fixes n m :: int
  assumes "0 < n" "n \<le> m"
  shows "0 \<le> n * 10 ^ 8 sdiv m \<and> n * 10 ^ 8 sdiv m \<le> 10 ^ 8"
proof -
  have "n * 10 ^ 8 sdiv m \<le> m * 10 ^ 8 sdiv m" using assms by (intro sdiv_mono) auto
  moreover have "m * 10 ^ 8 sdiv m = 10 ^ 8"
    using assms sdiv_exact [of m "10 ^ 8"] by (simp add: mult.commute)
  ultimately show ?thesis using assms by (simp add: sdiv_nonneg)
qed

lemma reducing_pnl_Some:
  assumes inv: "pos_inv p" "d_val (p_size p) \<noteq> 0" and sz: "0 < d_val sz" "d_val sz \<le> \<bar>d_val (p_size p)\<bar>"
    "d_dec sz = 8" and fn: "d_dec fn = 8" and r: "reducing_pnl p sz fn = Some (pnl, c)"
  shows "d_dec c = 8 \<and> 0 \<le> d_val c \<and> d_val c \<le> d_val (p_entry_notional p) \<and>
    (d_val sz = \<bar>d_val (p_size p)\<bar> \<longrightarrow> d_val c = d_val (p_entry_notional p)) \<and>
    pnl = Decimal (if 0 < d_val (p_size p) then d_val fn - d_val c else d_val c - d_val fn) 8"
proof -
  let ?S = "\<bar>d_val (p_size p)\<bar>" and ?E = "d_val (p_entry_notional p)"
  let ?q = "d_val sz * 10 ^ 8 sdiv ?S"
  have S: "0 < ?S" "abs_size p = Decimal ?S 8" using inv by (auto simp: pos_inv_def abs_size_val)
  from r obtain cr where cr: "dec_div sz (abs_size p) = Some cr" "dec_mul (p_entry_notional p) cr = Some c"
    and pnl: "(if is_long p then dec_sub fn c else dec_sub c fn) = Some pnl"
    by (auto simp: reducing_pnl_def Option.bind_eq_Some_conv)
  have q: "cr = Decimal ?q 8"
    using cr(1) S sz(3) by (auto simp: dec_div_truncates split: if_splits)
  have qb: "0 \<le> ?q" "?q \<le> 10 ^ 8" using close_ratio_bounds sz(1,2) by blast+
  have E: "0 \<le> ?E" "d_dec (p_entry_notional p) = 8" using inv(1) by (auto simp: pos_inv_def)
  have c: "c = Decimal (?E * ?q sdiv 10 ^ 8) 8"
    using cr(2) q E by (auto simp: dec_mul_small split: if_splits)
  have "?E * ?q sdiv 10 ^ 8 \<le> ?E * 10 ^ 8 sdiv 10 ^ 8"
    using qb E by (intro sdiv_mono mult_left_mono) auto
  also have "\<dots> = ?E" by (rule sdiv_exact) simp
  finally have "d_val c \<le> ?E" using c by simp
  moreover have "0 \<le> d_val c" using c qb E by (simp add: sdiv_nonneg)
  moreover have "d_val c = ?E" if "d_val sz = ?S"
  proof -
    have "?q = 10 ^ 8"
      using that S sdiv_exact [of ?S "10 ^ 8"] by (simp add: mult.commute)
    then show ?thesis using c sdiv_exact [of "10 ^ 8" ?E] by simp
  qed
  ultimately show ?thesis
    using pnl c fn by (auto simp: is_long_def is_positive_def panic_simps split: if_splits)
qed

section \<open>Applying a fill\<close>

definition signed_fill :: "bool \<Rightarrow> decimal \<Rightarrow> int" where
  "signed_fill buy sz = (if buy then d_val sz else - d_val sz)"

lemma fill_side_val:
  "pos_amount sz \<Longrightarrow> (if buy then sz else dec_neg sz) = Decimal (signed_fill buy sz) 8"
  by (cases sz) (auto simp: signed_fill_def dec_neg_val pos_amount_def i128_min_def)

text \<open>What \<open>apply_fill\<close> does, by the three kinds of fill.\<close>

lemma pos_apply_fill_cases:
  assumes ok: "pos_amount sz" "pos_amount price"
    and r: "pos_apply_fill p sz price buy = Some p'" and dec: "d_dec (p_size p) = 8"
  defines "S \<equiv> d_val (p_size p)" and "S' \<equiv> d_val (p_size p) + signed_fill buy sz"
  obtains fn where "dec_mul sz price = Some fn" "in_i128 S'" "p_size p' = Decimal S' 8"
    "p_last_funding_index p' = p_last_funding_index p"
    "S = 0 \<or> sgn S = sgn (signed_fill buy sz) \<Longrightarrow> S' \<noteq> 0 \<and> p_realized_pnl p' = p_realized_pnl p \<and>
       dec_add (p_entry_notional p) fn = Some (p_entry_notional p')"
    "S \<noteq> 0 \<Longrightarrow> sgn S \<noteq> sgn (signed_fill buy sz) \<Longrightarrow> d_val sz \<le> \<bar>S\<bar> \<Longrightarrow>
       \<exists>pnl c d n. reducing_pnl p sz fn = Some (pnl, c) \<and>
         to_decimals pnl (d_dec (p_realized_pnl p)) = Some d \<and>
         dec_add (p_realized_pnl p) d = Some (p_realized_pnl p') \<and>
         dec_sub (p_entry_notional p) c = Some n \<and>
         p_entry_notional p' = (if S' = 0 then Decimal 0 (d_dec n) else n)"
    "S \<noteq> 0 \<Longrightarrow> sgn S \<noteq> sgn (signed_fill buy sz) \<Longrightarrow> \<bar>S\<bar> < d_val sz \<Longrightarrow>
       \<exists>u d rest. unrealized_pnl p price = Some u \<and>
         to_decimals u (d_dec (p_realized_pnl p)) = Some d \<and>
         dec_add (p_realized_pnl p) d = Some (p_realized_pnl p') \<and>
         dec_sub sz (abs_size p) = Some rest \<and>
         dec_mul (dec_abs rest) price = Some (p_entry_notional p') \<and> S' \<noteq> 0"
proof -
  have pos: "0 < d_val sz" using ok pos_amount_facts by blast
  let ?f = "signed_fill buy sz"
  have f: "?f \<noteq> 0" "\<bar>?f\<bar> = d_val sz" using pos by (auto simp: signed_fill_def)
  let ?same = "0 < S \<and> 0 < S' \<or> S < 0 \<and> S' < 0 \<or> S = 0 \<or> S' = 0"
  from r obtain ns fn p1 where ns: "dec_add (p_size p) (Decimal ?f 8) = Some ns"
    and fn: "dec_mul sz price = Some fn"
    and p1: "(if (is_positive (p_size p) \<and> is_positive ns) \<or> (is_negative (p_size p) \<and> is_negative ns) \<or>
          is_zero (p_size p) \<or> is_zero ns then
            (if is_zero (p_size p) \<or> sgn (d_val (p_size p)) = sgn (d_val (Decimal ?f 8)) then do {
               n \<leftarrow> dec_add (p_entry_notional p) fn;
               Some (p \<lparr> p_entry_notional := n \<rparr>)
             } else do {
               (pnl, closed_notional) \<leftarrow> reducing_pnl p sz fn;
               d \<leftarrow> to_decimals pnl (d_dec (p_realized_pnl p));
               r \<leftarrow> dec_add (p_realized_pnl p) d;
               n \<leftarrow> dec_sub (p_entry_notional p) closed_notional;
               Some (p \<lparr> p_realized_pnl := r, p_entry_notional := n \<rparr>)
             })
          else do {
            close_pnl \<leftarrow> unrealized_pnl p price;
            d \<leftarrow> to_decimals close_pnl (d_dec (p_realized_pnl p));
            r \<leftarrow> dec_add (p_realized_pnl p) d;
            rest \<leftarrow> dec_sub sz (abs_size p);
            n \<leftarrow> dec_mul (dec_abs rest) price;
            Some (p \<lparr> p_realized_pnl := r, p_entry_notional := n \<rparr>)
          }) = Some p1"
    and p': "p' = (if is_zero ns then p1 \<lparr> p_size := ns, p_entry_notional := Decimal 0 (d_dec (p_entry_notional p1)) \<rparr>
       else p1 \<lparr> p_size := ns \<rparr>)"
    unfolding pos_apply_fill_def fill_side_val [OF ok(1)] Let_def
    by (auto simp: Option.bind_eq_Some_conv)
  have S': "in_i128 S'" "ns = Decimal S' 8" using ns dec by (auto simp: S'_def dec_add_eq_Some)
  note p1' = p1 [unfolded S'(2) is_positive_def is_negative_def is_zero_def decimal.sel, folded S_def]
  show thesis
  proof (rule that [OF fn S'(1)])
    show "p_size p' = Decimal S' 8" using p' S'(2) by simp
    show "p_last_funding_index p' = p_last_funding_index p"
      using p1' p' by (auto simp: Option.bind_eq_Some_conv split: if_splits)
  next
    assume a: "S = 0 \<or> sgn S = sgn ?f"
    then have "S' \<noteq> 0" "?same" using f by (auto simp: S_def S'_def sgn_if split: if_splits)
    then show "S' \<noteq> 0 \<and> p_realized_pnl p' = p_realized_pnl p \<and>
        dec_add (p_entry_notional p) fn = Some (p_entry_notional p')"
      using p1' p' a S' by (auto simp: Option.bind_eq_Some_conv is_zero_def)
  next
    assume a: "S \<noteq> 0" "sgn S \<noteq> sgn ?f" "d_val sz \<le> \<bar>S\<bar>"
    then have "?same" using f by (auto simp: S'_def S_def sgn_if abs_if split: if_splits)
    then show "\<exists>pnl c d n. reducing_pnl p sz fn = Some (pnl, c) \<and>
         to_decimals pnl (d_dec (p_realized_pnl p)) = Some d \<and>
         dec_add (p_realized_pnl p) d = Some (p_realized_pnl p') \<and>
         dec_sub (p_entry_notional p) c = Some n \<and>
         p_entry_notional p' = (if S' = 0 then Decimal 0 (d_dec n) else n)"
      using p1' p' a(1,2) S'(2) by (auto simp: Option.bind_eq_Some_conv is_zero_def)
  next
    assume a: "S \<noteq> 0" "sgn S \<noteq> sgn ?f" "\<bar>S\<bar> < d_val sz"
    then have n: "\<not> ?same" "S' \<noteq> 0" using f by (auto simp: S'_def S_def sgn_if abs_if split: if_splits)
    then show "\<exists>u d rest. unrealized_pnl p price = Some u \<and>
         to_decimals u (d_dec (p_realized_pnl p)) = Some d \<and>
         dec_add (p_realized_pnl p) d = Some (p_realized_pnl p') \<and>
         dec_sub sz (abs_size p) = Some rest \<and>
         dec_mul (dec_abs rest) price = Some (p_entry_notional p') \<and> S' \<noteq> 0"
      using p1' [unfolded if_not_P [OF n(1)]] p' S'(2) by (auto simp: Option.bind_eq_Some_conv is_zero_def)
  qed
qed

text \<open>
  (C21) A fill changes the size of a position by exactly the signed fill size and
  keeps the invariant of positions: the entry notional stays nonnegative and is
  zero whenever the position is closed, however the fill opens, grows, reduces or
  flips the position.
\<close>

theorem apply_fill_keeps_invariant:
  assumes inv: "pos_inv p" and ok: "pos_amount sz" "pos_amount price"
    and r: "pos_apply_fill p sz price buy = Some p'"
    and room: "\<bar>d_val (p_size p)\<bar> + d_val sz \<le> i128_max"
  shows "pos_inv p' \<and> d_val (p_size p') = d_val (p_size p) + signed_fill buy sz"
proof -
  let ?S = "d_val (p_size p)" and ?f = "signed_fill buy sz"
  have dec: "d_dec (p_size p) = 8" "d_dec (p_entry_notional p) = 8" "0 \<le> d_val (p_entry_notional p)"
    using inv by (auto simp: pos_inv_def)
  have amt: "0 < d_val sz" "d_dec sz = 8" "0 < d_val price" "d_dec price = 8"
    using ok pos_amount_facts by blast+
  have nomin: "?S + ?f \<noteq> i128_min"
    using room amt by (auto simp: signed_fill_def i128_min_def i128_max_def)
  from r show ?thesis
  proof (rule pos_apply_fill_cases [OF ok _ dec(1)], goal_cases)
    case (1 fn)
    have fn: "0 \<le> d_val fn" "d_dec fn = 8"
      using dec_mul_nonneg [OF 1(1)] amt by auto
    consider (grow) "?S = 0 \<or> sgn ?S = sgn ?f" | (cut) "?S \<noteq> 0" "sgn ?S \<noteq> sgn ?f" "d_val sz \<le> \<bar>?S\<bar>"
      | (flip) "?S \<noteq> 0" "sgn ?S \<noteq> sgn ?f" "\<bar>?S\<bar> < d_val sz" by linarith
    then have "d_dec (p_entry_notional p') = 8 \<and> d_dec (p_realized_pnl p') = USDC_DECIMALS \<and>
        0 \<le> d_val (p_entry_notional p') \<and> (?S + ?f = 0 \<longrightarrow> d_val (p_entry_notional p') = 0)"
    proof cases
      case grow
      then show ?thesis using 1(5) dec fn inv by (auto simp: dec_add_eq_Some pos_inv_def)
    next
      case cut
      then obtain pnl c d n where c: "reducing_pnl p sz fn = Some (pnl, c)"
        "dec_add (p_realized_pnl p) d = Some (p_realized_pnl p')" "dec_sub (p_entry_notional p) c = Some n"
        "p_entry_notional p' = (if ?S + ?f = 0 then Decimal 0 (d_dec n) else n)"
        using 1(6) by blast
      have "d_val c \<le> d_val (p_entry_notional p)"
        using reducing_pnl_Some [OF inv cut(1) amt(1) cut(3) amt(2) fn(2) c(1)] by blast
      then show ?thesis using c dec inv by (auto simp: dec_add_eq_Some dec_sub_eq_Some pos_inv_def)
    next
      case flip
      then obtain u d rest where c: "dec_add (p_realized_pnl p) d = Some (p_realized_pnl p')"
        "dec_sub sz (abs_size p) = Some rest" "dec_mul (dec_abs rest) price = Some (p_entry_notional p')"
        "?S + ?f \<noteq> 0" using 1(7) by blast
      have "rest = Decimal (d_val sz - \<bar>?S\<bar>) 8" "in_i128 (d_val sz - \<bar>?S\<bar>)"
        using c(2) inv amt by (auto simp: dec_sub_eq_Some pos_inv_def abs_size_val)
      then have "dec_abs rest = Decimal (d_val sz - \<bar>?S\<bar>) 8"
        using flip(3) by (simp add: dec_abs_def wrap_i128_id)
      then show ?thesis
        using dec_mul_nonneg [OF c(3)] flip(3) amt c inv by (auto simp: dec_add_eq_Some pos_inv_def)
    qed
    then show ?thesis using 1(2,3) nomin by (simp add: pos_inv_def)
  qed
qed

text \<open>A long position of 2 at 50, sold 1 at 60.\<close>

definition sample_position :: position where
  "sample_position = position_new \<lparr> p_size := Decimal 200000000 8,
     p_entry_notional := Decimal 10000000000 8 \<rparr>"

lemma pos_inv_sample: "pos_inv sample_position"
  by (simp add: sample_position_def pos_inv_def position_new_def dec_consts i128_defs)

lemma sample_fill:
  "pos_apply_fill sample_position (Decimal 100000000 8) (Decimal 6000000000 8) False =
     Some (sample_position \<lparr> p_size := Decimal 100000000 8, p_entry_notional := Decimal 5000000000 8,
       p_realized_pnl := Decimal 10000000 6 \<rparr>)"
  by (simp add: pos_apply_fill_def sample_position_def position_new_def dec_consts dec_neg_def
      dec_defs i128_checked_def i128_defs is_positive_def is_negative_def is_zero_def reducing_pnl_def
      dec_mul_small dec_div_truncates abs_size_def dec_abs_def wrap_i128_def signed_divide_int_def
      is_long_def to_decimals_def pow10_def i128_div_def Let_def)

theorem apply_fill_keeps_invariant_witness:
  "\<exists>p'. pos_apply_fill sample_position (Decimal 100000000 8) (Decimal 6000000000 8) False = Some p' \<and>
    pos_inv p' \<and> d_val (p_size p') = 100000000"
  using apply_fill_keeps_invariant [OF pos_inv_sample _ _ sample_fill] sample_fill
  by (simp add: pos_amount_def i128_defs sample_position_def signed_fill_def)

text \<open>
  The profit and loss that \<open>calculate_fill_pnl\<close> announces for a fill is
  exactly the amount by which \<open>apply_fill\<close> changes the realized profit and loss.
\<close>

theorem calculate_fill_pnl_is_booked:
  assumes inv: "pos_inv p" and ok: "pos_amount sz" "pos_amount price"
    and r: "pos_apply_fill p sz price buy = Some p'"
  shows "calculate_fill_pnl p sz price buy =
    Some (Decimal (d_val (p_realized_pnl p') - d_val (p_realized_pnl p)) USDC_DECIMALS)"
proof -
  let ?S = "d_val (p_size p)" and ?f = "signed_fill buy sz"
  let ?S' = "?S + ?f"
  have dec: "d_dec (p_size p) = 8" "d_dec (p_realized_pnl p) = USDC_DECIMALS"
    using inv by (auto simp: pos_inv_def)
  have f: "?f \<noteq> 0" "\<bar>?f\<bar> = d_val sz" using ok by (auto simp: signed_fill_def pos_amount_def)
  from r show ?thesis
  proof (rule pos_apply_fill_cases [OF ok _ dec(1)], goal_cases)
    case (1 fn)
    have ns: "dec_add (p_size p) (Decimal ?f 8) = Some (Decimal ?S' 8)"
      using 1(2) dec(1) by (simp add: dec_add_eq_Some)
    note calc = calculate_fill_pnl_def [of p sz price buy, unfolded fill_side_val [OF ok(1)] Let_def
        ns 1(1) Option.bind.bind_lunit is_zero_def is_positive_def is_negative_def decimal.sel]
    consider "?S = 0" | (grow) "?S \<noteq> 0" "sgn ?S = sgn ?f" | (cut) "?S \<noteq> 0" "sgn ?S \<noteq> sgn ?f" "d_val sz \<le> \<bar>?S\<bar>"
      | (flip) "?S \<noteq> 0" "sgn ?S \<noteq> sgn ?f" "\<bar>?S\<bar> < d_val sz" by linarith
    then show ?thesis
    proof cases
      case 1
      then show ?thesis using \<open>?S = 0 \<or> _ \<Longrightarrow> _\<close> by (simp add: calc)
    next
      case grow
      then have "0 < ?S \<and> 0 < ?S' \<or> ?S < 0 \<and> ?S' < 0"
        using f by (auto simp: sgn_if split: if_splits)
      then show ?thesis using grow 1(5) by (auto simp: calc)
    next
      case cut
      then obtain pnl c d where c: "reducing_pnl p sz fn = Some (pnl, c)"
        "to_decimals pnl USDC_DECIMALS = Some d" "dec_add (p_realized_pnl p) d = Some (p_realized_pnl p')"
        using 1(6) dec by metis
      have "0 < ?S \<and> 0 < ?S' \<or> ?S < 0 \<and> ?S' < 0 \<or> ?S' = 0"
        using cut f by (auto simp: sgn_if abs_if split: if_splits)
      moreover have "d = Decimal (d_val d) USDC_DECIMALS"
        using to_decimals_dec [OF c(2)] by (cases d) simp
      ultimately show ?thesis using cut c by (auto simp: calc dec_add_eq_Some)
    next
      case flip
      then obtain u d where c: "unrealized_pnl p price = Some u" "to_decimals u USDC_DECIMALS = Some d"
        "dec_add (p_realized_pnl p) d = Some (p_realized_pnl p')"
        using 1(7) dec by metis
      have "\<not> (0 < ?S \<and> 0 < ?S' \<or> ?S < 0 \<and> ?S' < 0 \<or> ?S' = 0)"
        using flip f by (auto simp: sgn_if abs_if split: if_splits)
      moreover have "d = Decimal (d_val d) USDC_DECIMALS"
        using to_decimals_dec [OF c(2)] by (cases d) simp
      ultimately show ?thesis using flip c by (auto simp: calc dec_add_eq_Some)
    qed
  qed
qed

theorem calculate_fill_pnl_is_booked_witness:
  "calculate_fill_pnl sample_position (Decimal 100000000 8) (Decimal 6000000000 8) False =
     Some (Decimal 10000000 USDC_DECIMALS)"
  using calculate_fill_pnl_is_booked [OF pos_inv_sample _ _ sample_fill]
  by (simp add: pos_amount_def i128_defs sample_position_def position_new_def)

text \<open>
  Closing a whole position realizes exactly the difference between the
  notional of the closing fill and the entry notional, with the sign of the side
  held, rounded to the USDC precision; the position is then empty.
\<close>

theorem close_realizes_notional_difference:
  assumes inv: "pos_inv p" "d_val (p_size p) \<noteq> 0" and ok: "pos_amount sz" "pos_amount price"
    and all: "d_val sz = \<bar>d_val (p_size p)\<bar>"
    and r: "pos_apply_fill p sz price (d_val (p_size p) < 0) = Some p'"
  shows "\<exists>fn. dec_mul sz price = Some fn \<and> pos_is_empty p' \<and> d_val (p_entry_notional p') = 0 \<and>
    d_val (p_realized_pnl p') = d_val (p_realized_pnl p) +
      (sgn (d_val (p_size p)) * (d_val fn - d_val (p_entry_notional p))) sdiv 100"
proof -
  let ?S = "d_val (p_size p)" and ?f = "signed_fill (d_val (p_size p) < 0) sz"
  have dec: "d_dec (p_size p) = 8" "d_dec (p_realized_pnl p) = 6"
    using inv by (auto simp: pos_inv_def USDC_DECIMALS_def)
  have amt: "0 < d_val sz" "d_dec sz = 8" "0 < d_val price" "d_dec price = 8"
    using ok pos_amount_facts by blast+
  have f: "?f = - ?S" using all inv(2) by (auto simp: signed_fill_def)
  from r show ?thesis
  proof (rule pos_apply_fill_cases [OF ok _ dec(1)], goal_cases)
    case (1 fn)
    have fn: "d_dec fn = 8" using dec_mul_nonneg [OF 1(1)] amt by auto
    have "sgn ?S \<noteq> sgn ?f" using f inv(2) by (auto simp: sgn_if)
    then obtain pnl c d n where c: "reducing_pnl p sz fn = Some (pnl, c)" "to_decimals pnl 6 = Some d"
      "dec_add (p_realized_pnl p) d = Some (p_realized_pnl p')" "dec_sub (p_entry_notional p) c = Some n"
      "p_entry_notional p' = (if ?S + ?f = 0 then Decimal 0 (d_dec n) else n)"
      using 1(6) inv(2) all by (auto simp: dec)
    have "pnl = Decimal (sgn ?S * (d_val fn - d_val (p_entry_notional p))) 8"
      using reducing_pnl_Some [OF inv amt(1) _ amt(2) fn c(1)] all inv(2) by (auto simp: sgn_if)
    then have "d_val d = sgn ?S * (d_val fn - d_val (p_entry_notional p)) sdiv 100"
      using c(2) by (auto simp: to_decimals_down)
    then show ?thesis
      using 1(1,3) c f dec by (auto simp: dec_add_eq_Some pos_is_empty_def is_zero_def)
  qed
qed

theorem close_realizes_notional_difference_witness:
  "\<exists>p' fn. pos_apply_fill sample_position (Decimal 200000000 8) (Decimal 6000000000 8) False = Some p' \<and>
    dec_mul (Decimal 200000000 8) (Decimal 6000000000 8) = Some fn \<and> pos_is_empty p' \<and>
    d_val (p_realized_pnl p') = (d_val fn - 10000000000) sdiv 100"
proof -
  have run: "pos_apply_fill sample_position (Decimal 200000000 8) (Decimal 6000000000 8)
      (d_val (p_size sample_position) < 0) =
      Some (sample_position \<lparr> p_size := Decimal 0 8, p_entry_notional := Decimal 0 8,
        p_realized_pnl := Decimal 20000000 6 \<rparr>)"
    by (simp add: pos_apply_fill_def sample_position_def position_new_def dec_consts dec_neg_def
      dec_defs i128_checked_def i128_defs is_positive_def is_negative_def is_zero_def reducing_pnl_def
      dec_mul_small dec_div_truncates abs_size_def dec_abs_def wrap_i128_def signed_divide_int_def
      is_long_def to_decimals_def pow10_def i128_div_def Let_def)
  show ?thesis
    using close_realizes_notional_difference [OF pos_inv_sample _ _ _ _ run] run
    by (simp add: sample_position_def position_new_def pos_amount_def i128_defs)
qed

end
