(* ===== verification/Batch_Ops.thy ===== *)
theory Batch_Ops
  imports Decimal
begin

text \<open>
  The batch operations of \<open>crates/engine/src/batch_ops.rs\<close> on raw \<open>i128\<close> values.
  A loop over the indices below the least length is a map over the zipped lists;
  \<open>wrapping_mul\<close> and, in the release build, \<open>-\<close>, \<open>+\<close> and \<open>abs\<close> wrap, and the
  divisions panic on a zero divisor.
\<close>

definition wmul :: "int \<Rightarrow> int \<Rightarrow> int" where "wmul a b = wrap_i128 (a * b)"
definition wadd :: "int \<Rightarrow> int \<Rightarrow> int" where "wadd a b = wrap_i128 (a + b)"
definition wsub :: "int \<Rightarrow> int \<Rightarrow> int" where "wsub a b = wrap_i128 (a - b)"
definition wabs :: "int \<Rightarrow> int" where "wabs a = wrap_i128 \<bar>a\<bar>"

definition batch_mul_scaled :: "int list \<Rightarrow> int list \<Rightarrow> int \<Rightarrow> int list option" where
  "batch_mul_scaled as bs scale = omap (\<lambda>(a, b). i128_div (wmul a b) scale) (zip as bs)"

definition batch_unrealized_pnl :: "int list \<Rightarrow> int list \<Rightarrow> int list \<Rightarrow> int \<Rightarrow> int list option" where
  "batch_unrealized_pnl entries marks sizes scale =
     omap (\<lambda>(e, m, s). i128_div (wmul (wsub m e) s) scale) (zip entries (zip marks sizes))"

definition batch_margin_required :: "int list \<Rightarrow> int list \<Rightarrow> nat list \<Rightarrow> int \<Rightarrow> int list option" where
  "batch_margin_required marks sizes levs scale =
     omap (\<lambda>(m, s, l). do {
        q \<leftarrow> i128_div (wmul m s) scale;
        i128_div (wabs q) (int (max l 1))
      }) (zip marks (zip sizes levs))"

fun price_crosses_loop :: "nat \<Rightarrow> (int \<times> int) list \<Rightarrow> 64 word \<Rightarrow> 64 word" where
  "price_crosses_loop i [] m = m"
| "price_crosses_loop i ((b, a) # ps) m =
     price_crosses_loop (Suc i) ps (if b \<ge> a then Bit_Operations.or m (push_bit i 1) else m)"

definition batch_price_crosses :: "int list \<Rightarrow> int list \<Rightarrow> 64 word" where
  "batch_price_crosses bid_prices ask_prices =
     price_crosses_loop 0 (take 64 (zip bid_prices ask_prices)) 0"

definition batch_abs_sum :: "int list \<Rightarrow> int" where
  "batch_abs_sum vs = foldl (\<lambda>acc v. wadd acc (wabs v)) 0 vs"

definition liquidation_check_one :: "int \<Rightarrow> int \<Rightarrow> int \<Rightarrow> int \<Rightarrow> int \<Rightarrow> int \<Rightarrow> bool option" where
  "liquidation_check_one scale mark entry sz balance rate =
    (if sz = 0 then Some False
     else do {
       unrealized \<leftarrow> i128_div (wmul (wsub mark entry) sz) scale;
       let equity = wadd balance unrealized;
       q \<leftarrow> i128_div (wmul mark sz) scale;
       let notional = wabs q;
       maintenance \<leftarrow> i128_div (wmul notional rate) scale;
       Some (equity < maintenance)
     })"

definition batch_liquidation_check ::
  "int list \<Rightarrow> int list \<Rightarrow> int list \<Rightarrow> int list \<Rightarrow> int list \<Rightarrow> int \<Rightarrow> bool list option" where
  "batch_liquidation_check marks entries sizes balances rates scale =
     omap (\<lambda>(m, e, s, b, r). liquidation_check_one scale m e s b r)
       (zip marks (zip entries (zip sizes (zip balances rates))))"

section \<open>Properties\<close>

lemma price_crosses_loop_bit:
  assumes "i + length ps \<le> 64" "\<forall>k. i \<le> k \<longrightarrow> \<not> bit m k"
  shows "bit (price_crosses_loop i ps m) k \<longleftrightarrow>
    bit m k \<or> (i \<le> k \<and> k < i + length ps \<and> snd (ps ! (k - i)) \<le> fst (ps ! (k - i)))"
  using assms
proof (induction i ps m rule: price_crosses_loop.induct)
  case (2 i b a ps m)
  let ?m = "if a \<le> b then Bit_Operations.or m (push_bit i 1) else m"
  have new: "bit ?m k \<longleftrightarrow> bit m k \<or> (k = i \<and> a \<le> b)" for k
    using 2(2) by (auto simp: bit_or_iff bit_exp_iff)
  have "bit (price_crosses_loop (Suc i) ps ?m) k \<longleftrightarrow> bit ?m k \<or>
      (Suc i \<le> k \<and> k < Suc i + length ps \<and> snd (ps ! (k - Suc i)) \<le> fst (ps ! (k - Suc i)))"
    using 2 new by (intro 2(1)) auto
  then show ?case
    unfolding new by (cases "k = i") (auto simp: nth_Cons' diff_Suc split: nat.splits)
qed auto

text \<open>
  The batch crossing test sets bit \<open>k\<close> exactly when the \<open>k\<close>-th bid is at
  least the \<open>k\<close>-th ask, for the first 64 pairs, and no other bit.
\<close>

theorem batch_price_crosses_bits:
  "bit (batch_price_crosses bs as) k \<longleftrightarrow>
     k < 64 \<and> k < length bs \<and> k < length as \<and> as ! k \<le> bs ! k"
proof -
  have "bit (batch_price_crosses bs as) k \<longleftrightarrow> bit (0 :: 64 word) k \<or> (0 \<le> k \<and>
      k < 0 + length (take 64 (zip bs as)) \<and>
      snd (take 64 (zip bs as) ! (k - 0)) \<le> fst (take 64 (zip bs as) ! (k - 0)))"
    unfolding batch_price_crosses_def by (rule price_crosses_loop_bit) auto
  then show ?thesis by auto
qed

text \<open>Inside the range the wrapping operations are exact.\<close>

lemma wops_exact:
  "in_i128 (a * b) \<Longrightarrow> wmul a b = a * b" "in_i128 (a + b) \<Longrightarrow> wadd a b = a + b"
  "in_i128 (a - b) \<Longrightarrow> wsub a b = a - b" "in_i128 \<bar>a\<bar> \<Longrightarrow> wabs a = \<bar>a\<bar>"
  by (simp_all add: wmul_def wadd_def wsub_def wabs_def wrap_i128_id)

lemma wrap_i128_add_wrap: "wrap_i128 (wrap_i128 a + b) = wrap_i128 (a + b)"
proof -
  have "((a + 2 ^ 127) mod 2 ^ 128 - 2 ^ 127 + b + 2 ^ 127) mod 2 ^ 128 = ((a + 2 ^ 127) mod 2 ^ 128 + b) mod (2 ^ 128 :: int)"
    by simp
  also have "\<dots> = (a + b + 2 ^ 127) mod 2 ^ 128"
    by (metis (no_types, opaque_lifting) add.assoc add.commute mod_add_left_eq)
  finally show ?thesis by (simp add: wrap_i128_def)
qed

lemma batch_abs_sum_wraps: "batch_abs_sum vs = wrap_i128 (\<Sum>v\<leftarrow>vs. wabs v)"
proof -
  have "foldl (\<lambda>acc v. wadd acc (wabs v)) (wrap_i128 a) vs = wrap_i128 (a + (\<Sum>v\<leftarrow>vs. wabs v))" for a
  proof (induction vs arbitrary: a)
    case (Cons v vs)
    have "wadd (wrap_i128 a) (wabs v) = wrap_i128 (a + wabs v)"
      by (simp add: wadd_def wrap_i128_add_wrap)
    then show ?case using Cons.IH [of "a + wabs v"] by (simp add: add.assoc)
  qed simp
  from this [of 0] show ?thesis by (simp add: batch_abs_sum_def wrap_i128_id)
qed

text \<open>
  Without overflow, the batch total of absolute values is the exact one.
\<close>

lemma batch_abs_sum_exact:
  assumes "(\<Sum>v\<leftarrow>vs. \<bar>v\<bar>) \<le> i128_max"
  shows "batch_abs_sum vs = (\<Sum>v\<leftarrow>vs. \<bar>v\<bar>)"
proof -
  have nonneg: "0 \<le> (\<Sum>v\<leftarrow>ws. \<bar>v\<bar>)" for ws :: "int list" by (induction ws) auto
  have "map wabs vs = map abs vs"
    using assms
  proof (induction vs)
    case (Cons v vs)
    have "0 \<le> (\<Sum>v\<leftarrow>vs. \<bar>v\<bar>)" by (rule nonneg)
    then have "in_i128 \<bar>v\<bar>" "(\<Sum>v\<leftarrow>vs. \<bar>v\<bar>) \<le> i128_max"
      using Cons.prems by (auto simp: i128_defs)
    then show ?case using Cons.IH by (simp add: wops_exact)
  qed simp
  then have "batch_abs_sum vs = wrap_i128 (\<Sum>v\<leftarrow>vs. \<bar>v\<bar>)" by (simp only: batch_abs_sum_wraps)
  then show ?thesis using assms nonneg [of vs] by (simp add: wrap_i128_id i128_defs)
qed

end
