(* ===== verification/Risk.thy ===== *)
theory Risk
  imports Position Batch_Ops
begin

text \<open>
  Margin calculations (\<open>crates/engine/src/risk.rs\<close>), liquidation
  (\<open>crates/engine/src/liquidation.rs\<close>) and funding rates
  (\<open>crates/engine/src/funding.rs\<close>).
\<close>

section \<open>Accounts and margin\<close>

record account_state =
  a_balance :: int
  a_nonce :: nat
  a_last_timestamp_nonce :: nat

record margin_summary =
  su_account_value :: int
  su_total_position_value :: int
  su_total_initial_margin :: int
  su_total_maintenance_margin :: int
  su_free_collateral :: int
  su_withdrawable :: int

text \<open>The folds of the risk engine: amounts are rescaled to USDC and added up.\<close>

definition sum_usdc :: "('x \<Rightarrow> decimal option) \<Rightarrow> 'x list \<Rightarrow> decimal option" where
  "sum_usdc f xs = ofold (\<lambda>x acc. do {
      v \<leftarrow> f x;
      w \<leftarrow> to_decimals v USDC_DECIMALS;
      dec_add acc w
    }) xs (Decimal 0 USDC_DECIMALS)"

definition calculate_equity :: "account_state \<Rightarrow> (position \<times> market) list \<Rightarrow> decimal option" where
  "calculate_equity acc ps = do {
     total \<leftarrow> sum_usdc (\<lambda>(p, m). unrealized_pnl p (ms_mark_price (m_state m))) ps;
     dec_add (Decimal (a_balance acc) USDC_DECIMALS) total
   }"

definition calculate_initial_margin :: "(position \<times> market \<times> nat) list \<Rightarrow> decimal option" where
  "calculate_initial_margin ps =
     sum_usdc (\<lambda>(p, m, lev). initial_margin (p_size p) (ms_mark_price (m_state m)) lev) ps"

definition calculate_maintenance_margin :: "(position \<times> market) list \<Rightarrow> decimal option" where
  "calculate_maintenance_margin ps =
     sum_usdc (\<lambda>(p, m). maintenance_margin (m_config m) (p_size p) (ms_mark_price (m_state m))) ps"

definition calculate_free_collateral ::
  "account_state \<Rightarrow> (position \<times> market \<times> nat) list \<Rightarrow> decimal option" where
  "calculate_free_collateral acc ps = do {
     equity \<leftarrow> calculate_equity acc (map (\<lambda>(p, m, _). (p, m)) ps);
     im \<leftarrow> calculate_initial_margin ps;
     r \<leftarrow> to_decimals im (d_dec equity);
     dec_sub equity r
   }"

definition calculate_margin_summary ::
  "account_state \<Rightarrow> (position \<times> market \<times> nat) list \<Rightarrow> margin_summary option" where
  "calculate_margin_summary acc ps =
    (let pe = map (\<lambda>(p, m, _). (p, m)) ps in do {
       equity \<leftarrow> calculate_equity acc pe;
       im \<leftarrow> calculate_initial_margin ps;
       mm \<leftarrow> calculate_maintenance_margin pe;
       tv \<leftarrow> sum_usdc (\<lambda>(p, m, _). notional_value p (ms_mark_price (m_state m))) ps;
       r \<leftarrow> to_decimals im (d_dec equity);
       fc \<leftarrow> dec_sub equity r;
       let withdrawable =
         (if is_positive fc
          then dec_min fc (dec_max (Decimal (a_balance acc) USDC_DECIMALS) (Decimal 0 USDC_DECIMALS))
          else Decimal 0 USDC_DECIMALS);
       Some \<lparr> su_account_value = d_val equity, su_total_position_value = wrap_u128 (d_val tv),
              su_total_initial_margin = wrap_u128 (d_val im),
              su_total_maintenance_margin = wrap_u128 (d_val mm),
              su_free_collateral = d_val fc, su_withdrawable = wrap_u128 (d_val withdrawable) \<rparr>
     })"

definition is_account_liquidatable :: "account_state \<Rightarrow> (position \<times> market) list \<Rightarrow> bool option" where
  "is_account_liquidatable acc ps =
    (if ps = [] then Some False
     else do {
       equity \<leftarrow> calculate_equity acc ps;
       mm \<leftarrow> calculate_maintenance_margin ps;
       r \<leftarrow> to_decimals mm (d_dec equity);
       Some (equity \<le> r)
     })"

definition is_liquidatable :: "account_state \<Rightarrow> position \<Rightarrow> market \<Rightarrow> bool option" where
  "is_liquidatable acc p m =
    (if pos_is_empty p then Some False
     else do {
       equity \<leftarrow> calculate_equity acc [(p, m)];
       mm \<leftarrow> calculate_maintenance_margin [(p, m)];
       r \<leftarrow> to_decimals mm (d_dec equity);
       Some (equity \<le> r)
     })"

definition check_order_margin ::
  "order_request \<Rightarrow> account_state \<Rightarrow> position \<Rightarrow> market \<Rightarrow> nat \<Rightarrow> (error + unit) option" where
  "check_order_margin req acc p m lev = do {
     order_notional \<leftarrow> dec_mul (q_size req) (q_price req);
     order_margin \<leftarrow> dec_div order_notional (from_int (int lev) (d_dec order_notional));
     free \<leftarrow> calculate_free_collateral acc [(p, m, lev)];
     om \<leftarrow> to_decimals order_margin (d_dec free);
     if om > free then Some (Inl (InsufficientMargin order_margin free))
     else do {
       nv \<leftarrow> notional_value p (ms_mark_price (m_state m));
       new_notional \<leftarrow> dec_add nv order_notional;
       if new_notional > mc_max_position_notional (m_config m)
       then Some (Inl (MaxPositionExceeded (mc_max_position_notional (m_config m))))
       else Some (Inr ())
     }
   }"

definition check_leverage_change ::
  "account_state \<Rightarrow> position \<Rightarrow> market \<Rightarrow> nat \<Rightarrow> (error + unit) option" where
  "check_leverage_change acc p m lev = do {
     im \<leftarrow> initial_margin (p_size p) (ms_mark_price (m_state m)) lev;
     equity \<leftarrow> calculate_equity acc [(p, m)];
     r \<leftarrow> to_decimals im (d_dec equity);
     if r > equity then Some (Inl LeverageWouldCauseLiquidation) else Some (Inr ())
   }"

definition margin_ratio :: "account_state \<Rightarrow> (position \<times> market) list \<Rightarrow> decimal option option" where
  "margin_ratio acc ps = do {
     equity \<leftarrow> calculate_equity acc ps;
     mm \<leftarrow> calculate_maintenance_margin ps;
     if is_zero mm then Some None
     else do { r \<leftarrow> to_decimals mm (d_dec equity); q \<leftarrow> dec_div equity r; Some (Some q) }
   }"

definition batch_unrealized_pnl_total :: "(position \<times> market) list \<Rightarrow> decimal option" where
  "batch_unrealized_pnl_total ps =
    (if ps = [] then Some (Decimal 0 USDC_DECIMALS)
     else do {
       rows \<leftarrow> omap (\<lambda>(p, m). do {
           ep \<leftarrow> entry_price p;
           e \<leftarrow> to_decimals (case ep of Some x \<Rightarrow> x | None \<Rightarrow> ms_mark_price (m_state m)) PRICE_DECIMALS;
           mk \<leftarrow> to_decimals (ms_mark_price (m_state m)) PRICE_DECIMALS;
           s \<leftarrow> to_decimals (p_size p) PRICE_DECIMALS;
           Some (d_val e, d_val mk, d_val s)
         }) ps;
       pnl \<leftarrow> batch_unrealized_pnl (map fst rows) (map (fst \<circ> snd) rows) (map (snd \<circ> snd) rows)
                (pow10 PRICE_DECIMALS);
       to_decimals (Decimal (foldl wadd 0 pnl) PRICE_DECIMALS) USDC_DECIMALS
     })"

section \<open>Liquidation\<close>

record liquidation_engine =
  le_partial_ratio :: decimal
  le_liquidation_spread :: decimal

definition liquidation_engine_new :: "decimal \<Rightarrow> liquidation_engine" where
  "liquidation_engine_new ratio =
     \<lparr> le_partial_ratio = ratio, le_liquidation_spread = Decimal 50000000 10 \<rparr>"

definition calculate_liquidation_size :: "liquidation_engine \<Rightarrow> position \<Rightarrow> decimal option" where
  "calculate_liquidation_size le p = do {
     r \<leftarrow> to_decimals (le_partial_ratio le) (d_dec (abs_size p));
     partial \<leftarrow> dec_mul (abs_size p) r;
     Some (dec_min partial (abs_size p))
   }"

definition calculate_liquidation_price :: "liquidation_engine \<Rightarrow> position \<Rightarrow> market \<Rightarrow> decimal option" where
  "calculate_liquidation_price le p m =
    (let mark = ms_mark_price (m_state m); one = from_int 1 (d_dec mark) in do {
       sf \<leftarrow> to_decimals (le_liquidation_spread le) (d_dec mark);
       if is_long p then do { fa \<leftarrow> dec_sub one sf; dec_mul mark fa }
       else do { fa \<leftarrow> dec_add one sf; dec_mul mark fa }
     })"

definition process_liquidation ::
  "liquidation_engine \<Rightarrow> position \<Rightarrow> market \<Rightarrow> (decimal \<times> decimal) option option" where
  "process_liquidation le p m =
    (if pos_is_empty p then Some None
     else do {
       s \<leftarrow> calculate_liquidation_size le p;
       pr \<leftarrow> calculate_liquidation_price le p m;
       Some (Some (s, pr))
     })"

definition calculate_bankruptcy_price :: "position \<Rightarrow> decimal \<Rightarrow> decimal option option" where
  "calculate_bankruptcy_price p balance =
    (if pos_is_empty p then Some None
     else do {
       ep \<leftarrow> entry_price p;
       (case ep of
          None \<Rightarrow> Some None
        | Some e \<Rightarrow> do {
            bn \<leftarrow> to_decimals balance (d_dec e);
            per_unit \<leftarrow> dec_div bn (abs_size p);
            map_option Some (if is_long p then dec_sub e per_unit else dec_add e per_unit)
          })
     })"

definition calculate_insurance_contribution :: "decimal \<Rightarrow> decimal \<Rightarrow> decimal \<Rightarrow> decimal option" where
  "calculate_insurance_contribution sz price fee_rate = do {
     notional \<leftarrow> dec_mul sz price;
     r \<leftarrow> to_decimals fee_rate (d_dec notional);
     dec_mul notional r
   }"

definition should_trigger_adl :: "decimal \<Rightarrow> decimal \<Rightarrow> bool" where
  "should_trigger_adl loss fund = (loss > fund)"

definition calculate_adl_score :: "position \<Rightarrow> market \<Rightarrow> nat \<Rightarrow> decimal option" where
  "calculate_adl_score p m lev = do {
     pnl \<leftarrow> unrealized_pnl p (ms_mark_price (m_state m));
     notional \<leftarrow> notional_value p (ms_mark_price (m_state m));
     if is_zero notional then Some (Decimal 0 RATE_DECIMALS)
     else do {
       a \<leftarrow> to_decimals pnl RATE_DECIMALS;
       b \<leftarrow> to_decimals notional RATE_DECIMALS;
       r \<leftarrow> dec_div a b;
       Some (mul_int r (int lev))
     }
   }"

section \<open>Funding\<close>

record funding_engine =
  fe_interval_secs :: nat
  fe_max_rate :: decimal
  fe_ewma_decay :: decimal

definition funding_engine_new :: "nat \<Rightarrow> decimal \<Rightarrow> funding_engine" where
  "funding_engine_new secs mx =
     \<lparr> fe_interval_secs = secs, fe_max_rate = mx, fe_ewma_decay = Decimal 9000000000 10 \<rparr>"

definition clamp_rate :: "funding_engine \<Rightarrow> decimal \<Rightarrow> decimal" where
  "clamp_rate fe rate =
    (let mx = fe_max_rate fe; mn = dec_neg mx in
     if rate > mx then mx else if rate < mn then mn else rate)"

definition calculate_funding_rate :: "funding_engine \<Rightarrow> market_state \<Rightarrow> decimal \<Rightarrow> decimal option" where
  "calculate_funding_rate fe s index_price =
    (if is_zero index_price then Some (Decimal 0 RATE_DECIMALS)
     else do {
       mark \<leftarrow> to_decimals (ms_mark_price s) RATE_DECIMALS;
       index \<leftarrow> to_decimals index_price RATE_DECIMALS;
       diff \<leftarrow> dec_sub mark index;
       premium \<leftarrow> dec_div diff index;
       Some (clamp_rate fe premium)
     })"

definition calculate_premium_index ::
  "decimal option \<Rightarrow> decimal option \<Rightarrow> decimal \<Rightarrow> decimal option" where
  "calculate_premium_index bid ask index_price = (case (bid, ask) of
       (Some b, Some a) \<Rightarrow> do {
         s \<leftarrow> dec_add b a;
         mid_price \<leftarrow> div_int s 2;
         if is_zero index_price then Some (Decimal 0 RATE_DECIMALS)
         else do {
           mid \<leftarrow> to_decimals mid_price RATE_DECIMALS;
           index \<leftarrow> to_decimals index_price RATE_DECIMALS;
           diff \<leftarrow> dec_sub mid index;
           dec_div diff index
         }
       }
     | _ \<Rightarrow> Some (Decimal 0 RATE_DECIMALS))"

definition fe_settle_funding :: "funding_engine \<Rightarrow> decimal \<Rightarrow> timestamp \<Rightarrow> market \<Rightarrow> market option" where
  "fe_settle_funding fe rate now m = do {
     mk \<leftarrow> to_decimals (ms_mark_price (m_state m)) (d_dec rate);
     delta \<leftarrow> dec_mul rate mk;
     acc \<leftarrow> dec_add (ms_funding_accumulator (m_state m)) delta;
     Some (m \<lparr> m_state := (m_state m) \<lparr> ms_funding_accumulator := acc, ms_funding_rate := rate,
        ms_next_funding_time := wrap_u64 (now + wrap_u64 (fe_interval_secs fe * 1000)) \<rparr> \<rparr>)
   }"

definition calculate_funding_payment :: "decimal \<Rightarrow> decimal \<Rightarrow> decimal \<Rightarrow> decimal option" where
  "calculate_funding_payment sz last_index acc = do {
     delta \<leftarrow> dec_sub acc last_index;
     dec_mul sz delta
   }"

definition should_settle :: "market_state \<Rightarrow> timestamp \<Rightarrow> bool" where
  "should_settle s now = (now \<ge> ms_next_funding_time s)"

definition time_until_funding :: "market_state \<Rightarrow> timestamp \<Rightarrow> nat" where
  "time_until_funding s now =
     (if now \<ge> ms_next_funding_time s then 0 else ms_next_funding_time s - now)"

section \<open>Properties of the margin checks\<close>

lemma is_liquidatable_singleton:
  "\<not> pos_is_empty p \<Longrightarrow> is_liquidatable acc p m = is_account_liquidatable acc [(p, m)]"
  by (simp add: is_liquidatable_def is_account_liquidatable_def)

lemma calculate_equity_dec: "calculate_equity acc ps = Some e \<Longrightarrow> d_dec e = USDC_DECIMALS"
  by (auto simp: calculate_equity_def Option.bind_eq_Some_conv dec_add_eq_Some)

text \<open>
  The withdrawable amount of a margin summary never exceeds the free
  collateral nor the account balance, is never negative, and is zero whenever no
  collateral is free.
\<close>

theorem withdrawable_bounded:
  assumes "calculate_margin_summary acc ps = Some s" "in_i128 (a_balance acc)"
  shows "0 \<le> su_withdrawable s \<and> su_withdrawable s \<le> max 0 (su_free_collateral s) \<and>
    su_withdrawable s \<le> max 0 (a_balance acc) \<and>
    (su_free_collateral s \<le> 0 \<longrightarrow> su_withdrawable s = 0)"
proof -
  obtain e r fc where fc: "su_free_collateral s = d_val fc" "dec_sub e r = Some fc"
    and w: "su_withdrawable s = wrap_u128 (d_val (if is_positive fc
      then dec_min fc (dec_max (Decimal (a_balance acc) USDC_DECIMALS) (Decimal 0 USDC_DECIMALS))
      else Decimal 0 USDC_DECIMALS))"
    using assms(1)
    by (auto simp: calculate_margin_summary_def Let_def Option.bind_eq_Some_conv)
  have "in_i128 (d_val fc)" using fc(2) by (auto simp: dec_sub_eq_Some)
  moreover have u: "wrap_u128 n = n" if "0 \<le> n" "in_i128 n" for n
    using that by (simp add: wrap_u128_def i128_defs)
  ultimately show ?thesis
    using w fc(1) assms(2) u [of "d_val fc"] u [of "a_balance acc"] u [of 0]
    by (auto simp: is_positive_def dec_min_def dec_max_def)
qed

text \<open>An account with 10,000,000 USDC in a market marked at 50,000.\<close>

definition rich_account :: account_state where
  "rich_account = \<lparr> a_balance = 10000000000000, a_nonce = 0, a_last_timestamp_nonce = 0 \<rparr>"

definition sample_market :: market where
  "sample_market = market_new btc_perp (Decimal 5000000000000 8) 0"

lemmas risk_eval = calculate_margin_summary_def calculate_equity_def calculate_initial_margin_def
  calculate_maintenance_margin_def calculate_free_collateral_def sum_usdc_def initial_margin_def
  maintenance_margin_def unrealized_pnl_def notional_value_def abs_size_def dec_abs_def from_int_def
  sample_market_def market_new_def market_state_new_def btc_perp_def rich_account_def position_new_def
  dec_consts dec_mul_small dec_div_truncates to_decimals_def pow10_def wrap_i128_def wrap_u128_def
  i128_div_def signed_divide_int_def dec_defs i128_checked_def i128_defs is_zero_def is_positive_def
  is_long_def dec_min_def dec_max_def less_decimal_def less_eq_decimal_def

theorem withdrawable_bounded_witness:
  "\<exists>s. calculate_margin_summary rich_account [(position_new, sample_market, 10)] = Some s \<and>
    0 \<le> su_withdrawable s \<and> su_withdrawable s \<le> 10000000000000"
proof -
  obtain s where s: "calculate_margin_summary rich_account [(position_new, sample_market, 10)] = Some s"
    by (simp add: risk_eval)
  have "in_i128 (a_balance rich_account)" by (simp add: rich_account_def i128_defs)
  then show ?thesis using withdrawable_bounded [OF s] s by (simp add: rich_account_def)
qed

text \<open>
  The position limit is compared without rescaling: with the limit given at
  six places and sizes, prices and marks at eight, an order is accepted only if
  the raw notional at eight places is at most the raw limit at six, that is, only
  up to a hundredth of the configured limit.
\<close>

theorem position_limit_is_a_hundredth:
  assumes "check_order_margin req acc p m lev = Some (Inr ())"
    and "d_dec (q_size req) = 8" "d_dec (q_price req) = 8" "pos_inv p"
    and "d_dec (mc_max_position_notional (m_config m)) = 6"
  shows "\<exists>nv n. notional_value p (ms_mark_price (m_state m)) = Some nv \<and>
    dec_mul (q_size req) (q_price req) = Some n \<and> d_dec nv = 8 \<and> d_dec n = 8 \<and>
    d_val nv + d_val n < d_val (mc_max_position_notional (m_config m))"
proof -
  obtain nv n where r: "notional_value p (ms_mark_price (m_state m)) = Some nv"
    "dec_mul (q_size req) (q_price req) = Some n"
    and le: "\<not> mc_max_position_notional (m_config m) < Decimal (d_val nv + d_val n) (d_dec nv)"
    using assms(1)
    by (auto simp: check_order_margin_def Option.bind_eq_Some_conv dec_add_eq_Some split: if_splits)
  have "d_dec n = 8" using r(2) assms(2) by (auto simp: dec_mul_eq_Some)
  moreover have "d_dec nv = 8"
    using r(1) assms(4) by (auto simp: notional_value_def dec_mul_eq_Some pos_inv_def abs_size_def dec_abs_def)
  ultimately show ?thesis
    using r le assms(5) by (auto simp: less_decimal_def)
qed

theorem position_limit_is_a_hundredth_witness:
  "check_order_margin (limit_request Buy 5000000000000 100000000 Gtc) rich_account position_new
      sample_market 10 = Some (Inr ()) \<and>
   check_order_margin (limit_request Buy 5000000000000 300000000 Gtc) rich_account position_new
      sample_market 10 = Some (Inl (MaxPositionExceeded (Decimal 10000000000000 6))) \<and>
   (\<exists>nv n. notional_value position_new (Decimal 5000000000000 8) = Some nv \<and>
      d_val nv + d_val n < 10000000000000)"
proof -
  have ok: "check_order_margin (limit_request Buy 5000000000000 100000000 Gtc) rich_account position_new
      sample_market 10 = Some (Inr ())"
    by (simp add: check_order_margin_def limit_request_def risk_eval)
  have bad: "check_order_margin (limit_request Buy 5000000000000 300000000 Gtc) rich_account position_new
      sample_market 10 = Some (Inl (MaxPositionExceeded (Decimal 10000000000000 6)))"
    by (simp add: check_order_margin_def limit_request_def risk_eval)
  show ?thesis
    using ok bad position_limit_is_a_hundredth [OF ok]
    by (auto simp: limit_request_def sample_market_def market_new_def market_state_new_def btc_perp_def)
qed

section \<open>Properties of liquidation and funding\<close>

lemma sdiv_minus: "(- a) sdiv b = - (a sdiv b)" for a b :: int
  by (simp add: signed_divide_int_def)

text \<open>
  A partial liquidation with a ratio between zero and one takes the exact
  fraction of the absolute position size, rounded down by less than one unit, and
  never more than the position.
\<close>

theorem liquidation_size_bounded:
  assumes inv: "pos_inv p" and ratio: "to_decimals (le_partial_ratio le) 8 = Some r"
    "0 \<le> d_val r" "d_val r \<le> 10 ^ 8"
    and s: "calculate_liquidation_size le p = Some s"
  shows "0 \<le> d_val s \<and> d_val s \<le> \<bar>d_val (p_size p)\<bar> \<and>
    d_val s * 10 ^ 8 \<le> \<bar>d_val (p_size p)\<bar> * d_val r \<and>
    \<bar>d_val (p_size p)\<bar> * d_val r < (d_val s + 1) * 10 ^ 8"
proof -
  let ?S = "\<bar>d_val (p_size p)\<bar>"
  have S: "abs_size p = Decimal ?S 8" using inv by (simp add: pos_inv_def abs_size_val)
  have r: "d_dec r = 8" using ratio(1) to_decimals_dec by blast
  let ?q = "?S * d_val r sdiv 10 ^ 8"
  have "?q \<le> ?S * 10 ^ 8 sdiv 10 ^ 8" using ratio by (intro sdiv_mono mult_left_mono) auto
  then have le: "?q \<le> ?S" using sdiv_exact [of "10 ^ 8" ?S] by simp
  have "d_val s = ?q"
    using s ratio(1) r le S by (auto simp: calculate_liquidation_size_def Option.bind_eq_Some_conv
        dec_mul_small dec_min_def split: if_splits)
  moreover have "0 \<le> ?S * d_val r" using ratio by simp
  moreover have "\<bar>?S * d_val r - ?q * 10 ^ 8\<bar> < 10 ^ 8 \<and> \<bar>?q * 10 ^ 8\<bar> \<le> \<bar>?S * d_val r\<bar>"
    by (rule sdiv_truncates) simp
  moreover have "0 \<le> ?q" using ratio by (simp add: sdiv_nonneg)
  ultimately show ?thesis using le by (simp add: abs_if algebra_simps split: if_splits)
qed

theorem liquidation_size_bounded_witness:
  "\<exists>s. calculate_liquidation_size (liquidation_engine_new (Decimal 2500000000 10)) sample_position = Some s \<and>
    0 \<le> d_val s \<and> d_val s \<le> 200000000"
proof -
  let ?le = "liquidation_engine_new (Decimal 2500000000 10)"
  have r: "to_decimals (le_partial_ratio ?le) 8 = Some (Decimal 25000000 8)"
    by (simp add: liquidation_engine_new_def risk_eval)
  have s: "calculate_liquidation_size ?le sample_position = Some (Decimal 50000000 8)"
    by (simp add: calculate_liquidation_size_def liquidation_engine_new_def sample_position_def risk_eval)
  show ?thesis
    using liquidation_size_bounded [OF pos_inv_sample r _ _ s] s by (simp add: sample_position_def)
qed

text \<open>
  A computed funding rate never exceeds the configured maximum in absolute
  value, has the sign of the premium, and is zero for a zero index price.
\<close>

theorem funding_rate_clamped:
  assumes "calculate_funding_rate fe s index_price = Some rate"
    and "0 \<le> d_val (fe_max_rate fe)" "in_i128 (d_val (fe_max_rate fe))"
    and "to_decimals (ms_mark_price s) RATE_DECIMALS = Some mark"
    and "to_decimals index_price RATE_DECIMALS = Some index" "0 \<le> d_val index"
  shows "\<bar>d_val rate\<bar> \<le> d_val (fe_max_rate fe) \<and>
    (d_val index \<le> d_val mark \<longrightarrow> 0 \<le> d_val rate) \<and>
    (d_val mark \<le> d_val index \<longrightarrow> d_val rate \<le> 0) \<and>
    (is_zero index_price \<longrightarrow> is_zero rate)"
proof (cases "is_zero index_price")
  case True
  then show ?thesis using assms by (auto simp: calculate_funding_rate_def is_zero_def)
next
  case False
  let ?mx = "d_val (fe_max_rate fe)"
  have mn: "d_val (dec_neg (fe_max_rate fe)) = - ?mx"
    using assms(2,3) by (subst dec_neg_val) (auto simp: i128_min_def)
  obtain pr where pr: "dec_div (Decimal (d_val mark - d_val index) (d_dec mark)) index = Some pr"
    and rate: "rate = clamp_rate fe pr"
    using assms(1,4,5) False
    by (auto simp: calculate_funding_rate_def Option.bind_eq_Some_conv dec_sub_eq_Some)
  have "d_dec index = 10" using to_decimals_dec [OF assms(5)] by (simp add: RATE_DECIMALS_def)
  moreover have "d_val index \<noteq> 0" using pr by (auto simp: dec_div_eq_Some)
  ultimately have q: "d_val pr = (d_val mark - d_val index) * 10 ^ 10 sdiv d_val index" "0 < d_val index"
    using pr assms(6) by (auto simp: dec_div_truncates split: if_splits)
  have pos: "0 \<le> d_val pr" if "d_val index \<le> d_val mark"
    using that q by (simp add: sdiv_nonneg)
  have neg: "d_val pr \<le> 0" if "d_val mark \<le> d_val index"
  proof -
    have "0 \<le> (- ((d_val mark - d_val index) * 10 ^ 10)) sdiv d_val index"
      using that q(2) by (intro sdiv_nonneg) auto
    then show ?thesis using q(1) by (simp only: sdiv_minus)
  qed
  have "\<bar>d_val rate\<bar> \<le> ?mx"
    using rate mn assms(2) by (auto simp: clamp_rate_def Let_def less_decimal_def)
  moreover have "0 \<le> d_val pr \<Longrightarrow> 0 \<le> d_val rate" "d_val pr \<le> 0 \<Longrightarrow> d_val rate \<le> 0"
    using rate mn assms(2) by (auto simp: clamp_rate_def Let_def less_decimal_def)
  ultimately show ?thesis using pos neg False by auto
qed

theorem funding_rate_clamped_witness:
  "\<exists>rate. calculate_funding_rate (funding_engine_new 28800 (Decimal 5000000 10))
      (market_state_new (Decimal 10100000000 8) 0) (Decimal 10000000000 8) = Some rate \<and>
    \<bar>d_val rate\<bar> \<le> 5000000"
proof -
  let ?fe = "funding_engine_new 28800 (Decimal 5000000 10)"
  let ?s = "market_state_new (Decimal 10100000000 8) 0" and ?i = "Decimal 10000000000 8"
  have run: "calculate_funding_rate ?fe ?s ?i = Some (Decimal 5000000 10)"
    by (simp add: calculate_funding_rate_def funding_engine_new_def clamp_rate_def dec_neg_def risk_eval)
  show ?thesis
    using funding_rate_clamped [OF run, of "Decimal 1010000000000 10" "Decimal 1000000000000 10"] run
    by (simp add: funding_engine_new_def risk_eval)
qed

text \<open>
  Funding is zero-sum between opposite positions: two positions of opposite
  size and the same funding index owe exactly opposite payments, rounding
  included.
\<close>

theorem funding_payments_cancel:
  assumes "settle_funding p acc = Some (x, p')" "settle_funding q acc = Some (y, q')"
    and "p_last_funding_index q = p_last_funding_index p"
    and "d_val (p_size q) = - d_val (p_size p)" "d_dec (p_size q) = d_dec (p_size p)"
    and "USDC_DECIMALS \<le> d_dec (p_size p)" "d_dec (p_size p) \<le> 38" "d_dec acc \<le> 38"
  shows "d_val x + d_val y = 0"
proof -
  have pay: "d_val x = (d_val (p_size p) * (d_val acc - d_val (p_last_funding_index p)) sdiv 10 ^ d_dec acc)
      sdiv 10 ^ (d_dec (p_size p) - USDC_DECIMALS)"
    if "settle_funding p acc = Some (x, p')" "USDC_DECIMALS \<le> d_dec (p_size p)" "d_dec (p_size p) \<le> 38"
    for p x p'
  proof -
    have "d_dec (p_size p) \<le> USDC_DECIMALS + 38" using that(3) by simp
    then show ?thesis using that assms(8)
      by (auto simp: settle_funding_def Option.bind_eq_Some_conv dec_sub_eq_Some dec_mul_small
          to_decimals_down split: if_splits)
  qed
  show ?thesis
    using pay [OF assms(1,6,7)] pay [OF assms(2)] assms(3-7) by (simp add: sdiv_minus)
qed

theorem funding_payments_cancel_witness:
  "\<exists>x y p' q'. settle_funding sample_position (Decimal 333 10) = Some (x, p') \<and>
    settle_funding (sample_position \<lparr> p_size := Decimal (-200000000) 8 \<rparr>) (Decimal 333 10) = Some (y, q') \<and>
    d_val x + d_val y = 0"
proof -
  let ?q = "sample_position \<lparr> p_size := Decimal (-200000000) 8 \<rparr>"
  obtain x p' where a: "settle_funding sample_position (Decimal 333 10) = Some (x, p')"
    by (simp add: settle_funding_def sample_position_def risk_eval)
  obtain y q' where b: "settle_funding ?q (Decimal 333 10) = Some (y, q')"
    by (simp add: settle_funding_def sample_position_def risk_eval)
  show ?thesis
    using a b funding_payments_cancel [OF a b] by (simp add: sample_position_def USDC_DECIMALS_def)
qed

end
