(* ===== verification/Engine_State.thy ===== *)
theory Engine_State
  imports Matching Risk
begin

text \<open>
  The state of the perpetuals engine, from \<open>crates/engine/src/state.rs\<close>:
  accounts, positions, leverage, markets, order books, the order maps and their
  per-account index, trigger orders, histories, and the snapshot used for
  re-organisations.  Block metadata (hash, time and events of past blocks, for
  queries only) is not part of the model.
\<close>

section \<open>Maps of maps\<close>

type_synonym ('a, 'b, 'v) nested_map = "('a, ('b, 'v) hash_map) hash_map"

definition nget :: "('a, 'b, 'v) nested_map \<Rightarrow> 'a \<Rightarrow> 'b \<Rightarrow> 'v option" where
  "nget m a b = Option.bind (hm_get m a) (\<lambda>i. hm_get i b)"

definition nput :: "'a \<Rightarrow> 'b \<Rightarrow> 'v \<Rightarrow> ('a, 'b, 'v) nested_map \<Rightarrow> ('a, 'b, 'v) nested_map" where
  "nput a b v m = hm_insert a (hm_insert b v (hm_get_or [] m a)) m"

lemma nget_nput [simp, map_simps]:
  "nget (nput a b v m) a' b' = (if a' = a \<and> b' = b then Some v else nget m a' b')"
  by (auto simp: nget_def nput_def hm_get_or_def split: option.splits)

lemma nget_Nil [simp]: "nget [] a b = None"
  by (simp add: nget_def)

section \<open>State\<close>

record funding_payment =
  fp_market :: market_id
  fp_account :: address
  fp_payment :: int
  fp_position_size :: int
  fp_funding_rate :: int
  fp_ts :: timestamp

type_synonym trigger_map = "(market_id, (int, order list) btree) hash_map"

record engine_state =
  es_accounts :: "(address, account_state) hash_map"
  es_positions :: "(address, market_id, position) nested_map"
  es_leverage :: "(address, market_id, nat) nested_map"
  es_markets :: "(market_id, market) hash_map"
  es_orderbooks :: "(market_id, order_book) hash_map"
  es_orders :: "(market_id, order_id, order) nested_map"
  es_account_orders :: "(address, market_id, order_id list) nested_map"
  es_insurance_fund :: int
  es_next_order_id :: order_id
  es_account_fills :: "(address, fill list) hash_map"
  es_recent_trades :: "(market_id, fill list) hash_map"
  es_funding_history :: "(address, funding_payment list) hash_map"
  es_market_funding :: "(market_id, (timestamp \<times> int) list) hash_map"
  es_margin_mode :: "(address, margin_mode) hash_map"
  es_triggers_above :: trigger_map
  es_triggers_below :: trigger_map
  es_trigger_index :: "(order_id, market_id \<times> trigger_direction \<times> int) hash_map"

definition engine_state_new :: engine_state where
  "engine_state_new =
     \<lparr> es_accounts = [], es_positions = [], es_leverage = [], es_markets = [], es_orderbooks = [],
       es_orders = [], es_account_orders = [], es_insurance_fund = 0, es_next_order_id = 1,
       es_account_fills = [], es_recent_trades = [], es_funding_history = [], es_market_funding = [],
       es_margin_mode = [], es_triggers_above = [], es_triggers_below = [], es_trigger_index = [] \<rparr>"

section \<open>Accounts\<close>

definition account_default :: account_state where
  "account_default = \<lparr> a_balance = 0, a_nonce = 0, a_last_timestamp_nonce = 0 \<rparr>"

definition es_get_account :: "engine_state \<Rightarrow> address \<Rightarrow> account_state option" where
  "es_get_account s a = hm_get (es_accounts s) a"

text \<open>Assignment through \<open>get_account_mut\<close>: nothing happens when the account is absent.\<close>

definition es_update_account :: "address \<Rightarrow> (account_state \<Rightarrow> account_state) \<Rightarrow> engine_state \<Rightarrow> engine_state" where
  "es_update_account a f s = (case hm_get (es_accounts s) a of
       None \<Rightarrow> s
     | Some acc \<Rightarrow> s \<lparr> es_accounts := hm_insert a (f acc) (es_accounts s) \<rparr>)"

definition get_or_create_account :: "address \<Rightarrow> engine_state \<Rightarrow> engine_state" where
  "get_or_create_account a s = (case hm_get (es_accounts s) a of
       Some _ \<Rightarrow> s
     | None \<Rightarrow> s \<lparr> es_accounts := hm_insert a account_default (es_accounts s) \<rparr>)"

definition deposit :: "address \<Rightarrow> int \<Rightarrow> engine_state \<Rightarrow> engine_state" where
  "deposit a amount s =
     es_update_account a (\<lambda>acc. acc \<lparr> a_balance := wrap_i128 (a_balance acc + wrap_i128 amount) \<rparr>)
       (get_or_create_account a s)"

definition withdraw :: "address \<Rightarrow> int \<Rightarrow> engine_state \<Rightarrow> bool \<times> engine_state" where
  "withdraw a amount s = (case hm_get (es_accounts s) a of
       Some acc \<Rightarrow>
         if a_balance acc \<ge> wrap_i128 amount
         then (True, s \<lparr> es_accounts :=
                hm_insert a (acc \<lparr> a_balance := wrap_i128 (a_balance acc - wrap_i128 amount) \<rparr>) (es_accounts s) \<rparr>)
         else (False, s)
     | None \<Rightarrow> (False, s))"

section \<open>Positions, leverage, margin mode\<close>

definition get_position :: "engine_state \<Rightarrow> address \<Rightarrow> market_id \<Rightarrow> position option" where
  "get_position s a m = nget (es_positions s) a m"

definition set_position :: "address \<Rightarrow> market_id \<Rightarrow> position \<Rightarrow> engine_state \<Rightarrow> engine_state" where
  "set_position a m p s = s \<lparr> es_positions := nput a m p (es_positions s) \<rparr>"

definition get_or_create_position :: "address \<Rightarrow> market_id \<Rightarrow> engine_state \<Rightarrow> engine_state" where
  "get_or_create_position a m s = (case get_position s a m of
       Some _ \<Rightarrow> s
     | None \<Rightarrow> set_position a m position_new s)"

definition get_all_positions :: "engine_state \<Rightarrow> address \<Rightarrow> (market_id \<times> position) list" where
  "get_all_positions s a = hm_get_or [] (es_positions s) a"

definition get_leverage :: "engine_state \<Rightarrow> address \<Rightarrow> market_id \<Rightarrow> nat" where
  "get_leverage s a m = (case nget (es_leverage s) a m of Some l \<Rightarrow> l | None \<Rightarrow> 10)"

definition set_leverage :: "address \<Rightarrow> market_id \<Rightarrow> nat \<Rightarrow> engine_state \<Rightarrow> engine_state" where
  "set_leverage a m l s = s \<lparr> es_leverage := nput a m l (es_leverage s) \<rparr>"

definition get_margin_mode :: "engine_state \<Rightarrow> address \<Rightarrow> margin_mode" where
  "get_margin_mode s a = hm_get_or Isolated (es_margin_mode s) a"

definition es_set_margin_mode :: "address \<Rightarrow> margin_mode \<Rightarrow> engine_state \<Rightarrow> engine_state" where
  "es_set_margin_mode a mode s = s \<lparr> es_margin_mode := hm_insert a mode (es_margin_mode s) \<rparr>"

section \<open>Markets and books\<close>

definition es_add_market :: "market \<Rightarrow> engine_state \<Rightarrow> engine_state" where
  "es_add_market m s = (let i = mc_id (m_config m) in
     s \<lparr> es_markets := hm_insert i m (es_markets s),
         es_orderbooks := hm_insert i book_new (es_orderbooks s),
         es_orders := hm_insert i [] (es_orders s) \<rparr>)"

definition get_market :: "engine_state \<Rightarrow> market_id \<Rightarrow> market option" where
  "get_market s m = hm_get (es_markets s) m"

definition es_set_market :: "market_id \<Rightarrow> market \<Rightarrow> engine_state \<Rightarrow> engine_state" where
  "es_set_market i m s = s \<lparr> es_markets := hm_insert i m (es_markets s) \<rparr>"

definition get_orderbook :: "engine_state \<Rightarrow> market_id \<Rightarrow> order_book option" where
  "get_orderbook s m = hm_get (es_orderbooks s) m"

definition es_set_orderbook :: "market_id \<Rightarrow> order_book \<Rightarrow> engine_state \<Rightarrow> engine_state" where
  "es_set_orderbook i b s = s \<lparr> es_orderbooks := hm_insert i b (es_orderbooks s) \<rparr>"

section \<open>Orders\<close>

definition es_take_order_id :: "engine_state \<Rightarrow> order_id \<times> engine_state" where
  "es_take_order_id s =
     (es_next_order_id s, s \<lparr> es_next_order_id := wrap_u64 (es_next_order_id s + 1) \<rparr>)"

definition index_push :: "address \<Rightarrow> market_id \<Rightarrow> order_id \<Rightarrow> engine_state \<Rightarrow> engine_state" where
  "index_push own m i s = s \<lparr> es_account_orders := nput own m
     ((case nget (es_account_orders s) own m of Some l \<Rightarrow> l | None \<Rightarrow> []) @ [i]) (es_account_orders s) \<rparr>"

definition add_order :: "order \<Rightarrow> engine_state \<Rightarrow> engine_state" where
  "add_order ord s =
    (let m = o_market ord;
         s1 = (case hm_get (es_orders s) m of
                 Some mo \<Rightarrow> s \<lparr> es_orders := hm_insert m (hm_insert (o_id ord) ord mo) (es_orders s) \<rparr>
               | None \<Rightarrow> s);
         s2 = (case get_orderbook s1 m of
                 Some b \<Rightarrow> es_set_orderbook m (book_insert ord b) s1
               | None \<Rightarrow> s1)
     in index_push (o_owner ord) m (o_id ord) s2)"

definition get_order :: "engine_state \<Rightarrow> market_id \<Rightarrow> order_id \<Rightarrow> order option" where
  "get_order s m i = nget (es_orders s) m i"

definition remove_order :: "market_id \<Rightarrow> order_id \<Rightarrow> engine_state \<Rightarrow> order option \<times> engine_state" where
  "remove_order m i s = (case hm_get (es_orders s) m of
       None \<Rightarrow> (None, s)
     | Some mo \<Rightarrow> (case hm_get mo i of
         None \<Rightarrow> (None, s)
       | Some ord \<Rightarrow>
           let s1 = s \<lparr> es_orders := hm_insert m (hm_remove i mo) (es_orders s) \<rparr>;
               s2 = (case get_orderbook s1 m of
                       Some b \<Rightarrow> es_set_orderbook m (snd (book_remove i b)) s1
                     | None \<Rightarrow> s1);
               s3 = (case nget (es_account_orders s2) (o_owner ord) m of
                       Some ids \<Rightarrow> s2 \<lparr> es_account_orders :=
                          nput (o_owner ord) m (filter (\<lambda>j. j \<noteq> i) ids) (es_account_orders s2) \<rparr>
                     | None \<Rightarrow> s2)
           in (Some ord, s3)))"

definition account_order_ids :: "engine_state \<Rightarrow> address \<Rightarrow> market_id \<Rightarrow> order_id list" where
  "account_order_ids s a m = (case nget (es_account_orders s) a m of Some l \<Rightarrow> l | None \<Rightarrow> [])"

definition get_orders_by_account :: "engine_state \<Rightarrow> address \<Rightarrow> market_id \<Rightarrow> order list" where
  "get_orders_by_account s a m = List.map_filter (get_order s m) (account_order_ids s a m)"

definition update_order_remaining :: "market_id \<Rightarrow> order_id \<Rightarrow> decimal \<Rightarrow> engine_state \<Rightarrow> engine_state" where
  "update_order_remaining m i r s = (case nget (es_orders s) m i of
       None \<Rightarrow> s
     | Some ord \<Rightarrow> s \<lparr> es_orders :=
          nput m i (ord \<lparr> o_rem := r, o_status := PartiallyFilled \<rparr>) (es_orders s) \<rparr>)"

definition get_order_count :: "engine_state \<Rightarrow> address \<Rightarrow> market_id \<Rightarrow> nat" where
  "get_order_count s a m = (case nget (es_account_orders s) a m of Some l \<Rightarrow> length l | None \<Rightarrow> 0)"

definition get_all_user_orders :: "engine_state \<Rightarrow> address \<Rightarrow> order list" where
  "get_all_user_orders s a =
     concat (map (\<lambda>(m, ids). List.map_filter (get_order s m) ids) (hm_get_or [] (es_account_orders s) a))"

section \<open>Insurance fund\<close>

definition add_to_insurance_fund :: "int \<Rightarrow> engine_state \<Rightarrow> engine_state" where
  "add_to_insurance_fund amount s =
     s \<lparr> es_insurance_fund := wrap_i128 (es_insurance_fund s + amount) \<rparr>"

definition use_insurance_fund :: "int \<Rightarrow> engine_state \<Rightarrow> bool \<times> engine_state" where
  "use_insurance_fund amount s =
    (if es_insurance_fund s \<ge> amount
     then (True, s \<lparr> es_insurance_fund := wrap_i128 (es_insurance_fund s - amount) \<rparr>)
     else (False, s))"

end
