(* ===== verification/Trigger_Orders.thy ===== *)
theory Trigger_Orders
  imports Engine_State
begin

text \<open>
  Trigger orders (take-profit and stop-loss), from the trigger section of
  \<open>crates/engine/src/state.rs\<close>: two maps from market and raw trigger price to the
  waiting orders, one per direction, and an index by order id.
\<close>

section \<open>Operations\<close>

definition trigger_map_of :: "trigger_direction \<Rightarrow> engine_state \<Rightarrow> trigger_map" where
  "trigger_map_of d s = (case d of Above \<Rightarrow> es_triggers_above s | Below \<Rightarrow> es_triggers_below s)"

definition set_trigger_map :: "trigger_direction \<Rightarrow> trigger_map \<Rightarrow> engine_state \<Rightarrow> engine_state" where
  "set_trigger_map d t s = (case d of
       Above \<Rightarrow> s \<lparr> es_triggers_above := t \<rparr> | Below \<Rightarrow> s \<lparr> es_triggers_below := t \<rparr>)"

text \<open>\<open>map.entry(market).or_default().entry(price).or_default().push(order)\<close>\<close>

definition trigger_push :: "market_id \<Rightarrow> int \<Rightarrow> order \<Rightarrow> trigger_map \<Rightarrow> trigger_map" where
  "trigger_push m raw ord t =
    (let bm = hm_get_or [] t m;
         os = (case bt_get bm raw of Some l \<Rightarrow> l | None \<Rightarrow> [])
     in hm_insert m (bt_insert raw (os @ [ord]) bm) t)"

definition add_trigger_order :: "order \<Rightarrow> engine_state \<Rightarrow> engine_state" where
  "add_trigger_order ord s = (case o_trig_price ord of
       None \<Rightarrow> s
     | Some tp \<Rightarrow> (case o_trig_dir ord of
         None \<Rightarrow> s
       | Some d \<Rightarrow>
           let m = o_market ord; raw = d_val tp;
               s1 = set_trigger_map d (trigger_push m raw ord (trigger_map_of d s)) s
           in s1 \<lparr> es_trigger_index := hm_insert (o_id ord) (m, d, raw) (es_trigger_index s1) \<rparr>))"

fun remove_by_id :: "order_id \<Rightarrow> order list \<Rightarrow> (order \<times> order list) option" where
  "remove_by_id i [] = None"
| "remove_by_id i (ord # os) =
     (if o_id ord = i then Some (ord, os)
      else map_option (\<lambda>(x, rest). (x, ord # rest)) (remove_by_id i os))"

text \<open>
  The entry leaves the index first; the early returns after that keep the maps as
  they are.
\<close>

definition remove_trigger_order :: "order_id \<Rightarrow> engine_state \<Rightarrow> order option \<times> engine_state" where
  "remove_trigger_order i s = (case hm_get (es_trigger_index s) i of
       None \<Rightarrow> (None, s)
     | Some (m, d, raw) \<Rightarrow>
         let s1 = s \<lparr> es_trigger_index := hm_remove i (es_trigger_index s) \<rparr>;
             t = trigger_map_of d s1
         in (case hm_get t m of
               None \<Rightarrow> (None, s1)
             | Some bm \<Rightarrow> (case bt_get bm raw of
                 None \<Rightarrow> (None, s1)
               | Some os \<Rightarrow> (case remove_by_id i os of
                   None \<Rightarrow> (None, s1)
                 | Some (ord, rest) \<Rightarrow>
                     (Some ord, set_trigger_map d
                        (hm_insert m (if rest = [] then bt_remove raw bm else bt_set raw rest bm) t) s1)))))"

text \<open>The loop over the triggered keys: the entries leave the map and their orders the index.\<close>

definition drain_key ::
  "int \<Rightarrow> (int, order list) btree \<times> (order_id, market_id \<times> trigger_direction \<times> int) hash_map \<times> order list \<Rightarrow>
   (int, order list) btree \<times> (order_id, market_id \<times> trigger_direction \<times> int) hash_map \<times> order list" where
  "drain_key k st = (case st of (bm, idx, res) \<Rightarrow>
     (case bt_get bm k of
        Some os \<Rightarrow> (bt_remove k bm, fold (\<lambda>ord. hm_remove (o_id ord)) os idx, res @ os)
      | None \<Rightarrow> st))"

definition get_triggered :: "trigger_direction \<Rightarrow> (int \<Rightarrow> bool) \<Rightarrow> market_id \<Rightarrow> engine_state \<Rightarrow> order list \<times> engine_state" where
  "get_triggered d hit m s = (case hm_get (trigger_map_of d s) m of
       None \<Rightarrow> ([], s)
     | Some bm \<Rightarrow>
         let keys = filter hit (map fst bm);
             (bm', idx', res) = fold drain_key keys (bm, es_trigger_index s, [])
         in (res, (set_trigger_map d (hm_insert m bm' (trigger_map_of d s)) s) \<lparr> es_trigger_index := idx' \<rparr>))"

definition get_triggered_orders_above :: "market_id \<Rightarrow> decimal \<Rightarrow> engine_state \<Rightarrow> order list \<times> engine_state" where
  "get_triggered_orders_above m mark s = get_triggered Above (\<lambda>k. k \<le> d_val mark) m s"

definition get_triggered_orders_below :: "market_id \<Rightarrow> decimal \<Rightarrow> engine_state \<Rightarrow> order list \<times> engine_state" where
  "get_triggered_orders_below m mark s = get_triggered Below (\<lambda>k. d_val mark \<le> k) m s"

definition trigger_list :: "(int, order list) btree \<Rightarrow> order list" where
  "trigger_list bm = concat (map snd bm)"

definition get_user_trigger_orders :: "engine_state \<Rightarrow> address \<Rightarrow> order list" where
  "get_user_trigger_orders s a =
     filter (\<lambda>ord. o_owner ord = a)
       (concat (map (trigger_list \<circ> snd) (es_triggers_above s)) @
        concat (map (trigger_list \<circ> snd) (es_triggers_below s)))"

definition cancel_trigger_orders_for_position :: "address \<Rightarrow> market_id \<Rightarrow> engine_state \<Rightarrow> engine_state" where
  "cancel_trigger_orders_for_position a m s =
    (let waiting = (\<lambda>t. case hm_get t m of None \<Rightarrow> [] | Some bm \<Rightarrow> filter (\<lambda>ord. o_owner ord = a) (trigger_list bm));
         to_remove = map o_id (waiting (es_triggers_above s) @ waiting (es_triggers_below s))
     in fold (\<lambda>i s. snd (remove_trigger_order i s)) to_remove s)"

section \<open>Draining the triggered prices\<close>

lemma fold_hm_remove_get:
  "hm_get (fold (\<lambda>ord. hm_remove (o_id ord)) os idx) i = (if i \<in> o_id ` set os then None else hm_get idx i)"
  by (induction os arbitrary: idx) auto

lemma fold_drain_keys:
  assumes "bt_inv bm" "distinct ks" "set ks \<subseteq> fst ` set bm"
  shows "\<exists>idx'. fold drain_key ks (bm, idx, res) =
      (filter (\<lambda>x. fst x \<notin> set ks) bm, idx', res @ concat (map (the \<circ> bt_get bm) ks)) \<and>
    (\<forall>i. hm_get idx' i =
      (if i \<in> o_id ` set (concat (map (the \<circ> bt_get bm) ks)) then None else hm_get idx i))"
  using assms
proof (induction ks arbitrary: bm idx res)
  case (Cons k ks)
  obtain os where os: "bt_get bm k = Some os"
    using Cons.prems(3) bt_get_eq_None [of bm k] by fastforce
  let ?bm = "bt_remove k bm" and ?idx = "fold (\<lambda>ord. hm_remove (o_id ord)) os idx"
  have rem: "?bm = filter (\<lambda>x. fst x \<noteq> k) bm" using bt_remove_filter Cons.prems(1) by blast
  have "set ks \<subseteq> fst ` set ?bm" using Cons.prems(2,3) unfolding rem by fastforce
  then obtain idx' where ih0: "fold drain_key ks (?bm, ?idx, res @ os) =
      (filter (\<lambda>x. fst x \<notin> set ks) ?bm, idx', (res @ os) @ concat (map (the \<circ> bt_get ?bm) ks))"
    "\<forall>i. hm_get idx' i = (if i \<in> o_id ` set (concat (map (the \<circ> bt_get ?bm) ks)) then None else hm_get ?idx i)"
    using Cons.IH [of ?bm ?idx "res @ os"] Cons.prems(1,2) by (metis bt_inv_remove distinct.simps(2))
  have "map (the \<circ> bt_get ?bm) ks = map (the \<circ> bt_get bm) ks"
    using Cons.prems(1,2) by (intro map_cong) auto
  with ih0 have ih: "fold drain_key ks (?bm, ?idx, res @ os) =
      (filter (\<lambda>x. fst x \<notin> set ks) ?bm, idx', (res @ os) @ concat (map (the \<circ> bt_get bm) ks))"
    "\<forall>i. hm_get idx' i = (if i \<in> o_id ` set (concat (map (the \<circ> bt_get bm) ks)) then None else hm_get ?idx i)"
    by simp_all
  have step: "drain_key k (bm, idx, res) = (?bm, ?idx, res @ os)" using os by (simp add: drain_key_def)
  have "filter (\<lambda>x. fst x \<notin> set ks) ?bm = filter (\<lambda>x. fst x \<notin> set (k # ks)) bm"
    unfolding rem by (simp add: conj_commute)
  then have "fold drain_key (k # ks) (bm, idx, res) = (filter (\<lambda>x. fst x \<notin> set (k # ks)) bm, idx',
      res @ concat (map (the \<circ> bt_get bm) (k # ks)))"
    using ih(1) step os by simp
  moreover have "hm_get idx' i = (if i \<in> o_id ` set (concat (map (the \<circ> bt_get bm) (k # ks))) then None
      else hm_get idx i)" for i
    using ih(2) os by (auto simp: fold_hm_remove_get)
  ultimately show ?case by blast
qed auto

lemma concat_filter_keys:
  assumes "bt_inv bm"
  shows "concat (map (the \<circ> bt_get bm) (filter hit (map fst bm))) = trigger_list (filter (\<lambda>x. hit (fst x)) bm)"
proof -
  have "map (the \<circ> bt_get bm \<circ> fst) (filter (\<lambda>x. hit (fst x)) bm) = map snd (filter (\<lambda>x. hit (fst x)) bm)"
    using bt_in_set_get [OF assms] by (intro map_cong) auto
  then show ?thesis unfolding trigger_list_def filter_map comp_def map_map by (rule arg_cong)
qed

lemma trigger_map_of_set [simp]:
  "trigger_map_of d (set_trigger_map d' t s) = (if d = d' then t else trigger_map_of d s)"
  "trigger_map_of d (s \<lparr> es_trigger_index := x \<rparr>) = trigger_map_of d s"
  "es_trigger_index (set_trigger_map d t s) = es_trigger_index s"
  by (cases d; cases d'; simp add: trigger_map_of_def set_trigger_map_def)+

text \<open>
  When a mark price is reached, exactly the waiting orders of that market
  and direction whose trigger price is hit are returned, in trigger price order
  and in order of arrival; they leave the map and the index, and every other
  waiting order stays where it was.
\<close>

theorem triggered_orders_exact:
  assumes "hm_get (trigger_map_of d s) m = Some bm" "bt_inv bm" "get_triggered d hit m s = (res, s')"
  shows "res = trigger_list (filter (\<lambda>x. hit (fst x)) bm) \<and>
    hm_get (trigger_map_of d s') m = Some (filter (\<lambda>x. \<not> hit (fst x)) bm) \<and>
    (\<forall>i. hm_get (es_trigger_index s') i =
       (if i \<in> o_id ` set res then None else hm_get (es_trigger_index s) i)) \<and>
    (\<forall>m'. m' = m \<or> hm_get (trigger_map_of d s') m' = hm_get (trigger_map_of d s) m') \<and>
    (\<forall>d'. d' = d \<or> trigger_map_of d' s' = trigger_map_of d' s)"
proof -
  let ?ks = "filter hit (map fst bm)"
  have "distinct (map fst bm)" using assms(2) by (simp add: bt_inv_def strict_sorted_iff)
  then obtain idx' where f: "fold drain_key ?ks (bm, es_trigger_index s, []) =
      (filter (\<lambda>x. fst x \<notin> set ?ks) bm, idx', [] @ concat (map (the \<circ> bt_get bm) ?ks))"
    "\<forall>i. hm_get idx' i = (if i \<in> o_id ` set (concat (map (the \<circ> bt_get bm) ?ks)) then None
       else hm_get (es_trigger_index s) i)"
    using fold_drain_keys [OF assms(2), of ?ks "es_trigger_index s" "[]"] by auto
  have "filter (\<lambda>x. fst x \<notin> set ?ks) bm = filter (\<lambda>x. \<not> hit (fst x)) bm"
    by (rule filter_cong) auto
  then have "get_triggered d hit m s = (trigger_list (filter (\<lambda>x. hit (fst x)) bm),
      set_trigger_map d (hm_insert m (filter (\<lambda>x. \<not> hit (fst x)) bm) (trigger_map_of d s)) s
        \<lparr> es_trigger_index := idx' \<rparr>)"
    using assms(1) f(1) concat_filter_keys [OF assms(2), of hit] by (simp add: get_triggered_def Let_def)
  then show ?thesis
    using assms(3) f(2) concat_filter_keys [OF assms(2), of hit] by auto
qed
text \<open>Two orders wait above 100 and 120; the mark price reaches 110.\<close>

definition waiting :: "order_id \<Rightarrow> int \<Rightarrow> order" where
  "waiting i raw = (limit_order i 7 Sell raw 5 Gtc) \<lparr> o_trig_price := Some (Decimal raw 8), o_trig_dir := Some Above \<rparr>"

definition sample_triggers :: engine_state where
  "sample_triggers = add_trigger_order (waiting 1 120) (add_trigger_order (waiting 2 100) engine_state_new)"

lemma sample_triggers_map:
  "hm_get (trigger_map_of Above sample_triggers) 0 = Some [(100, [waiting 2 100]), (120, [waiting 1 120])]"
  by (simp add: sample_triggers_def add_trigger_order_def waiting_def trigger_push_def trigger_map_of_def
      set_trigger_map_def engine_state_new_def limit_order_defs hm_get_or_def hm_insert_def bt_get_def
      hm_get_def Let_def)

theorem triggered_orders_exact_witness:
  "fst (get_triggered_orders_above 0 (Decimal 110 8) sample_triggers) = [waiting 2 100] \<and>
   hm_get (trigger_map_of Above (snd (get_triggered_orders_above 0 (Decimal 110 8) sample_triggers))) 0 =
     Some [(120, [waiting 1 120])]"
proof -
  obtain res s' where run: "get_triggered Above (\<lambda>k. k \<le> d_val (Decimal 110 8)) 0 sample_triggers = (res, s')"
    by fastforce
  have "bt_inv [(100 :: int, [waiting 2 100]), (120, [waiting 1 120])]" by (simp add: bt_inv_def)
  from triggered_orders_exact [OF sample_triggers_map this run] show ?thesis
    using run by (simp add: get_triggered_orders_above_def trigger_list_def)
qed

section \<open>Adding and removing\<close>

lemma bt_remove_insert: "bt_inv m \<Longrightarrow> bt_remove k (bt_insert k v m) = bt_remove k m"
proof (induction k v m rule: bt_insert.induct)
  case (2 k v k' v' m)
  have "k \<notin> fst ` set m" if "k < k'" using that 2(2) by (auto simp: bt_inv_Cons)
  then show ?case using 2 by (auto simp: bt_inv_Cons bt_remove_absent)
qed simp

lemma bt_set_insert:
  "bt_inv m \<Longrightarrow> bt_get m k = Some v \<Longrightarrow> bt_set k v (bt_insert k w m) = m"
proof (induction k w m rule: bt_insert.induct)
  case (2 k w k' v' m)
  then have "k \<noteq> k' \<Longrightarrow> \<not> k < k'"
    using bt_get_in_set [of "(k', v') # m" k v] by (force simp: bt_inv_Cons)
  moreover have "bt_set k v m = m" if "k = k'"
    using 2(2) that by (intro bt_set_absent) (auto simp: bt_inv_Cons)
  ultimately show ?case using 2 by (auto simp: bt_set_Cons bt_inv_Cons bt_get_def)
qed (simp add: bt_get_def)

lemma remove_by_id_snoc:
  "\<forall>x \<in> set os. o_id x \<noteq> o_id ord \<Longrightarrow> remove_by_id (o_id ord) (os @ [ord]) = Some (ord, os)"
  by (induction os) auto

text \<open>
  A trigger order can be taken back: removing it by its id right after it was
  stored returns it and leaves the map of its direction and market as before.
\<close>

theorem trigger_add_remove_roundtrip:
  assumes "o_trig_price ord = Some tp" "o_trig_dir ord = Some d"
    and bm: "bm = hm_get_or [] (trigger_map_of d s) (o_market ord)" "bt_inv bm"
    and fresh: "\<forall>os. bt_get bm (d_val tp) = Some os \<longrightarrow> os \<noteq> [] \<and> (\<forall>x \<in> set os. o_id x \<noteq> o_id ord)"
  shows "\<exists>s'. remove_trigger_order (o_id ord) (add_trigger_order ord s) = (Some ord, s') \<and>
    hm_get_or [] (trigger_map_of d s') (o_market ord) = bm \<and> hm_get (es_trigger_index s') (o_id ord) = None"
proof -
  let ?raw = "d_val tp" and ?m = "o_market ord"
  let ?os = "case bt_get bm ?raw of Some l \<Rightarrow> l | None \<Rightarrow> []"
  let ?bm1 = "bt_insert ?raw (?os @ [ord]) bm"
  let ?s1 = "add_trigger_order ord s"
  have s1: "hm_get (trigger_map_of d ?s1) ?m = Some ?bm1"
    "hm_get (es_trigger_index ?s1) (o_id ord) = Some (?m, d, ?raw)"
    using assms(1,2) bm(1) by (simp_all add: add_trigger_order_def trigger_push_def Let_def)
  have rem: "remove_by_id (o_id ord) (?os @ [ord]) = Some (ord, ?os)"
    using fresh by (intro remove_by_id_snoc) (cases "bt_get bm ?raw"; simp)
  have "(if ?os = [] then bt_remove ?raw ?bm1 else bt_set ?raw ?os ?bm1) = bm"
  proof (cases "bt_get bm ?raw")
    case None
    then have "bt_remove ?raw bm = bm" by (simp add: bt_remove_absent bt_get_eq_None)
    then show ?thesis using None bm(2) by (simp add: bt_remove_insert)
  next
    case (Some os)
    then show ?thesis using bm(2) fresh by (auto simp: bt_set_insert)
  qed
  then show ?thesis
    using s1 rem by (simp add: remove_trigger_order_def Let_def hm_get_or_def)
qed

theorem trigger_add_remove_roundtrip_witness:
  "\<exists>s'. remove_trigger_order 3 (add_trigger_order (waiting 3 100) sample_triggers) = (Some (waiting 3 100), s') \<and>
    hm_get_or [] (trigger_map_of Above s') 0 = [(100, [waiting 2 100]), (120, [waiting 1 120])]"
proof -
  have [simp]: "o_id (waiting i raw) = i" "o_market (waiting i raw) = 0"
    "o_trig_price (waiting i raw) = Some (Decimal raw 8)" "o_trig_dir (waiting i raw) = Some Above" for i raw
    by (simp_all add: waiting_def limit_order_defs)
  show ?thesis
    using trigger_add_remove_roundtrip [of "waiting 3 100" "Decimal 100 8" Above _ sample_triggers] sample_triggers_map
    by (fastforce simp: hm_get_or_def bt_inv_def bt_get_def)
qed

end
