(* ===== verification/Engine_History.thy ===== *)
theory Engine_History
  imports Trigger_Orders
begin

text \<open>
  The rest of \<open>crates/engine/src/state.rs\<close>: bounded histories of fills and
  funding, the smoothed mark price, the impact mid price, and the snapshot with
  which the state is restored after a re-organisation.
\<close>

section \<open>Bounded histories\<close>

definition push_capped :: "nat \<Rightarrow> 'a \<Rightarrow> 'a list \<Rightarrow> 'a list" where
  "push_capped cap x xs = (let ys = xs @ [x] in if length ys > cap then tl ys else ys)"

definition MAX_FILLS_PER_USER :: nat where "MAX_FILLS_PER_USER = 1000"
definition MAX_TRADES_PER_MARKET :: nat where "MAX_TRADES_PER_MARKET = 500"
definition MAX_FUNDING_PER_USER :: nat where "MAX_FUNDING_PER_USER = 500"
definition MAX_FUNDING_PER_MARKET :: nat where "MAX_FUNDING_PER_MARKET = 1000"

definition record_for :: "nat \<Rightarrow> 'k \<Rightarrow> 'a \<Rightarrow> ('k, 'a list) hash_map \<Rightarrow> ('k, 'a list) hash_map" where
  "record_for cap k x m = hm_insert k (push_capped cap x (hm_get_or [] m k)) m"

definition record_fill :: "fill \<Rightarrow> engine_state \<Rightarrow> engine_state" where
  "record_fill f s =
    (let s1 = s \<lparr> es_account_fills := record_for MAX_FILLS_PER_USER (f_maker f) f (es_account_fills s) \<rparr>;
         s2 = s1 \<lparr> es_account_fills := record_for MAX_FILLS_PER_USER (f_taker f) f (es_account_fills s1) \<rparr>
     in s2 \<lparr> es_recent_trades := record_for MAX_TRADES_PER_MARKET (f_market f) f (es_recent_trades s2) \<rparr>)"

definition latest :: "nat \<Rightarrow> nat option \<Rightarrow> 'a list \<Rightarrow> 'a list" where
  "latest dflt lim xs = take (min (case lim of Some l \<Rightarrow> l | None \<Rightarrow> dflt) (length xs)) (rev xs)"

definition get_user_fills :: "engine_state \<Rightarrow> address \<Rightarrow> nat option \<Rightarrow> fill list" where
  "get_user_fills s a lim = latest 100 lim (hm_get_or [] (es_account_fills s) a)"

definition get_recent_trades :: "engine_state \<Rightarrow> market_id \<Rightarrow> nat option \<Rightarrow> fill list" where
  "get_recent_trades s m lim = latest 50 lim (hm_get_or [] (es_recent_trades s) m)"

definition record_funding_payment :: "funding_payment \<Rightarrow> engine_state \<Rightarrow> engine_state" where
  "record_funding_payment p s = s \<lparr> es_funding_history :=
     record_for MAX_FUNDING_PER_USER (fp_account p) p (es_funding_history s) \<rparr>"

definition record_market_funding :: "market_id \<Rightarrow> timestamp \<Rightarrow> int \<Rightarrow> engine_state \<Rightarrow> engine_state" where
  "record_market_funding m ts rate s = s \<lparr> es_market_funding :=
     record_for MAX_FUNDING_PER_MARKET m (ts, rate) (es_market_funding s) \<rparr>"

definition get_user_funding_history :: "engine_state \<Rightarrow> address \<Rightarrow> nat option \<Rightarrow> funding_payment list" where
  "get_user_funding_history s a lim = latest 100 lim (hm_get_or [] (es_funding_history s) a)"

definition get_market_funding_history :: "engine_state \<Rightarrow> market_id \<Rightarrow> nat option \<Rightarrow> (timestamp \<times> int) list" where
  "get_market_funding_history s m lim = latest 100 lim (hm_get_or [] (es_market_funding s) m)"

section \<open>Prices and queries\<close>

definition es_get_balance :: "engine_state \<Rightarrow> address \<Rightarrow> decimal" where
  "es_get_balance s a =
     Decimal (case hm_get (es_accounts s) a of Some acc \<Rightarrow> a_balance acc | None \<Rightarrow> 0) USDC_DECIMALS"

definition get_market_ids :: "engine_state \<Rightarrow> market_id list" where
  "get_market_ids s = sort (hm_keys (es_markets s))"

definition get_market_id_by_name :: "engine_state \<Rightarrow> string \<Rightarrow> market_id option" where
  "get_market_id_by_name s name =
     map_option fst (List.find (\<lambda>(_, m). mc_symbol (m_config m) = name) (es_markets s))"

definition smoothed_price :: "decimal \<Rightarrow> decimal \<Rightarrow> decimal option" where
  "smoothed_price old_mark trade_price = do {
     trade \<leftarrow> to_decimals trade_price (d_dec old_mark);
     a \<leftarrow> dec_mul old_mark (Decimal 9 1);
     b \<leftarrow> dec_mul trade (Decimal 1 1);
     dec_add a b
   }"

definition update_mark_price :: "market_id \<Rightarrow> decimal \<Rightarrow> engine_state \<Rightarrow> engine_state option" where
  "update_mark_price i trade_price s = (case get_market s i of
       None \<Rightarrow> Some s
     | Some m \<Rightarrow> do {
         p \<leftarrow> (if is_zero (ms_mark_price (m_state m)) then Some trade_price
                else smoothed_price (ms_mark_price (m_state m)) trade_price);
         Some (es_set_market i (m \<lparr> m_state := (m_state m) \<lparr> ms_mark_price := p \<rparr> \<rparr>) s)
       })"

definition median3 :: "decimal \<Rightarrow> decimal \<Rightarrow> decimal \<Rightarrow> decimal" where
  "median3 impact_mid impact_bid mark =
    (if (impact_mid \<ge> impact_bid \<and> impact_mid \<le> mark) \<or> (impact_mid \<le> impact_bid \<and> impact_mid \<ge> mark)
     then impact_mid
     else if (mark \<ge> impact_mid \<and> mark \<le> impact_bid) \<or> (mark \<le> impact_mid \<and> mark \<ge> impact_bid)
     then mark
     else impact_bid)"

definition compute_impact_mid :: "engine_state \<Rightarrow> market_id \<Rightarrow> decimal \<Rightarrow> decimal option option" where
  "compute_impact_mid s i notional = (case (get_orderbook s i, get_market s i) of
       (Some b, Some m) \<Rightarrow> do {
         rb \<leftarrow> impact_price_buy b notional;
         (case rb of
            None \<Rightarrow> Some None
          | Some impact_bid \<Rightarrow> do {
              rs \<leftarrow> impact_price_sell b notional;
              (case rs of
                 None \<Rightarrow> Some None
               | Some impact_ask \<Rightarrow> do {
                   sum \<leftarrow> dec_add impact_bid impact_ask;
                   impact_mid \<leftarrow> div_int sum 2;
                   Some (Some (median3 impact_mid impact_bid (ms_mark_price (m_state m))))
                 })
            })
       }
     | _ \<Rightarrow> Some None)"

definition get_all_mid_prices :: "engine_state \<Rightarrow> (market_id \<times> decimal) list option" where
  "get_all_mid_prices s = do {
     rows \<leftarrow> omap (\<lambda>(i, _). case get_orderbook s i of
               None \<Rightarrow> Some None
             | Some b \<Rightarrow> do { r \<leftarrow> mid_price b; Some (map_option (Pair i) r) }) (es_markets s);
     Some (sort_key fst (List.map_filter (\<lambda>r. r) rows))
   }"

section \<open>Snapshot and restore\<close>

record engine_snapshot =
  sn_accounts :: "(address \<times> account_state) list"
  sn_positions :: "(address \<times> market_id \<times> position) list"
  sn_leverage :: "(address \<times> market_id \<times> nat) list"
  sn_markets :: "market list"
  sn_orders :: "order list"
  sn_insurance_fund :: int
  sn_next_order_id :: order_id
  sn_margin_modes :: "(address \<times> margin_mode) list"
  sn_trigger_orders :: "order list"

definition flatten :: "('a, 'b, 'v) nested_map \<Rightarrow> ('a \<times> 'b \<times> 'v) list" where
  "flatten m = concat (map (\<lambda>(a, i). map (\<lambda>(b, v). (a, b, v)) i) m)"

definition es_snapshot :: "engine_state \<Rightarrow> engine_snapshot" where
  "es_snapshot s =
     \<lparr> sn_accounts = es_accounts s, sn_positions = flatten (es_positions s),
       sn_leverage = flatten (es_leverage s), sn_markets = hm_values (es_markets s),
       sn_orders = concat (map hm_values (hm_values (es_orders s))),
       sn_insurance_fund = es_insurance_fund s, sn_next_order_id = es_next_order_id s,
       sn_margin_modes = es_margin_mode s,
       sn_trigger_orders = concat (map (trigger_list \<circ> snd) (es_triggers_above s)) @
                           concat (map (trigger_list \<circ> snd) (es_triggers_below s)) \<rparr>"

text \<open>The insertions that \<open>restore\<close> and \<open>from_snapshot\<close> perform, in their order.\<close>

definition es_load :: "engine_snapshot \<Rightarrow> engine_state \<Rightarrow> engine_state" where
  "es_load sn s0 =
    (let s1 = fold (\<lambda>(a, acc) s. s \<lparr> es_accounts := hm_insert a acc (es_accounts s) \<rparr>) (sn_accounts sn) s0;
         s2 = fold (\<lambda>(a, m, p) s. set_position a m p s) (sn_positions sn) s1;
         s3 = fold (\<lambda>(a, m, l) s. set_leverage a m l s) (sn_leverage sn) s2;
         s4 = fold es_add_market (sn_markets sn) s3;
         s5 = fold add_order (sn_orders sn) s4;
         s6 = fold (\<lambda>(a, mode) s. es_set_margin_mode a mode s) (sn_margin_modes sn) s5;
         s7 = fold add_trigger_order (sn_trigger_orders sn) s6
     in s7 \<lparr> es_insurance_fund := sn_insurance_fund sn, es_next_order_id := sn_next_order_id sn \<rparr>)"

definition es_restore :: "engine_snapshot \<Rightarrow> engine_state \<Rightarrow> engine_state" where
  "es_restore sn s = es_load sn
     (s \<lparr> es_accounts := [], es_positions := [], es_leverage := [], es_markets := [], es_orderbooks := [],
          es_orders := [], es_account_orders := [], es_margin_mode := [], es_triggers_above := [],
          es_triggers_below := [], es_trigger_index := [] \<rparr>)"

definition es_from_snapshot :: "engine_snapshot \<Rightarrow> engine_state" where
  "es_from_snapshot sn = es_load sn engine_state_new"

definition es_restore_order :: "order \<Rightarrow> engine_state \<Rightarrow> engine_state" where
  "es_restore_order ord s =
    (let m = o_market ord;
         s1 = s \<lparr> es_orders := nput m (o_id ord) ord (es_orders s) \<rparr>;
         s2 = (case get_orderbook s1 m of
                 Some b \<Rightarrow> es_set_orderbook m (restore_order ord b) s1
               | None \<Rightarrow> s1)
     in index_push (o_owner ord) m (o_id ord) s2)"

section \<open>Histories stay bounded\<close>

lemma length_push_capped: "length xs \<le> cap \<Longrightarrow> length (push_capped cap x xs) \<le> cap"
  by (simp add: push_capped_def Let_def)

lemma last_push_capped: "0 < cap \<Longrightarrow> length xs \<le> cap \<Longrightarrow> last (push_capped cap x xs) = x"
  by (cases xs) (auto simp: push_capped_def Let_def)

definition histories_bounded :: "engine_state \<Rightarrow> bool" where
  "histories_bounded s =
    ((\<forall>a. length (hm_get_or [] (es_account_fills s) a) \<le> MAX_FILLS_PER_USER) \<and>
     (\<forall>m. length (hm_get_or [] (es_recent_trades s) m) \<le> MAX_TRADES_PER_MARKET))"

text \<open>
  Recording a fill keeps the bounded histories bounded, and the fill is the
  most recent entry of the maker, of the taker and of the market.
\<close>

theorem record_fill_bounded:
  assumes "histories_bounded s"
  shows "histories_bounded (record_fill f s) \<and>
    hd (get_user_fills (record_fill f s) (f_maker f) None) = f \<and>
    hd (get_user_fills (record_fill f s) (f_taker f) None) = f \<and>
    hd (get_recent_trades (record_fill f s) (f_market f) None) = f"
proof -
  have pos: "0 < MAX_FILLS_PER_USER" "0 < MAX_TRADES_PER_MARKET"
    by (simp_all add: MAX_FILLS_PER_USER_def MAX_TRADES_PER_MARKET_def)
  have b: "length (hm_get_or [] (es_account_fills s) a) \<le> MAX_FILLS_PER_USER"
    "length (hm_get_or [] (es_recent_trades s) m) \<le> MAX_TRADES_PER_MARKET" for a m
    using assms by (auto simp: histories_bounded_def)
  have ne: "push_capped cap x xs \<noteq> []" if "0 < cap" for cap and x :: fill and xs
    using that by (cases xs) (auto simp: push_capped_def Let_def)
  have hd: "hd (latest n None (push_capped cap x xs)) = x"
    if "0 < cap" "length xs \<le> cap" "0 < n" for n cap and x :: fill and xs
  proof -
    have "hd (take k ys) = hd ys" if "0 < k" for k and ys :: "fill list" using that by (cases ys) auto
    then show ?thesis
      using that ne [OF that(1), of x xs] last_push_capped [OF that(1,2), of x]
      by (auto simp: latest_def hd_rev)
  qed
  have f: "es_account_fills (record_fill f s) = record_for MAX_FILLS_PER_USER (f_taker f) f
      (record_for MAX_FILLS_PER_USER (f_maker f) f (es_account_fills s))"
    "es_recent_trades (record_fill f s) = record_for MAX_TRADES_PER_MARKET (f_market f) f (es_recent_trades s)"
    by (simp_all add: record_fill_def Let_def)
  show ?thesis
    unfolding histories_bounded_def get_user_fills_def get_recent_trades_def f
    using b by (auto simp: record_for_def length_push_capped hd pos)
qed

theorem record_fill_bounded_witness:
  "hd (get_recent_trades (record_fill (mk_fill (limit_order 1 7 Buy 100 5 Gtc) (limit_order 2 8 Sell 100 5 Gtc)
      (Decimal 5 8) 3 True) engine_state_new) 0 None) =
    mk_fill (limit_order 1 7 Buy 100 5 Gtc) (limit_order 2 8 Sell 100 5 Gtc) (Decimal 5 8) 3 True"
proof -
  have "histories_bounded engine_state_new"
    by (simp add: histories_bounded_def engine_state_new_def hm_get_or_def)
  from record_fill_bounded [OF this] show ?thesis
    by (metis (no_types, lifting) fill.select_convs(1) limit_order_def limit_request_def mk_fill_def
        order.select_convs(3) order_new_def order_request.select_convs(1))
qed

section \<open>The smoothed mark price\<close>

text \<open>
  The smoothed mark price stays between the old mark and the trade price, up
  to the two units that the truncated products lose.
\<close>

theorem mark_price_between:
  assumes "smoothed_price old trade = Some p" "to_decimals trade (d_dec old) = Some t"
    and "0 \<le> d_val old" "0 \<le> d_val t"
  shows "min (d_val old) (d_val t) - 2 \<le> d_val p \<and> d_val p \<le> max (d_val old) (d_val t)"
proof -
  let ?a = "d_val old * 9 sdiv 10" and ?b = "d_val t sdiv 10"
  have p: "d_val p = ?a + ?b"
    using assms(1,2) by (auto simp: smoothed_price_def Option.bind_eq_Some_conv dec_add_eq_Some
        dec_mul_small split: if_splits)
  have "?a * 10 \<le> d_val old * 9" "d_val old * 9 < ?a * 10 + 10"
    "?b * 10 \<le> d_val t" "d_val t < ?b * 10 + 10"
    using assms(3,4) by (auto simp: sdiv_pos_divisor)
  then show ?thesis unfolding p by linarith
qed

theorem mark_price_between_witness:
  "\<exists>p. smoothed_price (Decimal 1000 8) (Decimal 2000 8) = Some p \<and> 998 \<le> d_val p \<and> d_val p \<le> 2000"
proof -
  have run: "smoothed_price (Decimal 1000 8) (Decimal 2000 8) = Some (Decimal 1100 8)"
    by (simp add: smoothed_price_def risk_eval)
  show ?thesis
    using mark_price_between [OF run, of "Decimal 2000 8"] run by (simp add: to_decimals_def)
qed

section \<open>The snapshot round trip\<close>

lemma fold_proj: "(\<And>x s. g (f x s) = g s) \<Longrightarrow> g (fold f xs s) = g s"
  by (induction xs arbitrary: s) auto

text \<open>A projection that every step updates in the same way is folded by itself.\<close>

lemma fold_hom: "(\<And>x s. g (f x s) = h x (g s)) \<Longrightarrow> g (fold f xs s) = fold h xs (g s)"
  by (induction xs arbitrary: s) auto

lemma hm_get_fold_insert:
  assumes "distinct (map fst xs)"
  shows "hm_get (fold (\<lambda>(k, v). hm_insert k v) xs m) k =
    (case map_of xs k of Some v \<Rightarrow> Some v | None \<Rightarrow> hm_get m k)"
  using assms
proof (induction xs arbitrary: m)
  case (Cons x xs)
  then show ?case by (cases x) (auto split: option.splits dest: map_of_SomeD intro: rev_image_eqI)
qed simp

definition pair_key :: "'a \<times> 'b \<times> 'v \<Rightarrow> ('a \<times> 'b) \<times> 'v" where
  "pair_key x = ((fst x, fst (snd x)), snd (snd x))"

lemma nget_fold_nput:
  assumes "distinct (map (fst \<circ> pair_key) xs)"
  shows "nget (fold (\<lambda>(a, b, v). nput a b v) xs m) a b =
    (case map_of (map pair_key xs) (a, b) of Some v \<Rightarrow> Some v | None \<Rightarrow> nget m a b)"
  using assms
proof (induction xs arbitrary: m)
  case (Cons x xs)
  obtain a0 b0 v0 where x: "x = (a0, b0, v0)" by (cases x)
  have "map_of (map pair_key xs) (a0, b0) = None"
    using Cons.prems x by (force simp: map_of_eq_None_iff pair_key_def)
  moreover have "pair_key x = ((a0, b0), v0)" by (simp add: x pair_key_def)
  ultimately show ?case using Cons x by (auto split: option.splits)
qed simp

definition nested_inv :: "('a, 'b, 'v) nested_map \<Rightarrow> bool" where
  "nested_inv m = (hm_inv m \<and> (\<forall>i \<in> snd ` set m. hm_inv i))"

lemma flatten_Cons: "flatten ((a, i) # m) = map (\<lambda>(b, v). (a, b, v)) i @ flatten m"
  by (simp add: flatten_def)

lemma pair_key_row:
  "map (fst \<circ> pair_key) (map (\<lambda>(b, v). (a, b, v)) i) = map (Pair a) (map fst i)"
  "map_of (map pair_key (map (\<lambda>(b, v). (a, b, v)) i)) (a', b) = (if a' = a then hm_get i b else None)"
  by (induction i) (auto simp: pair_key_def hm_get_def)

lemma flatten_key_in: "k \<in> set (map (fst \<circ> pair_key) (flatten m)) \<Longrightarrow> fst k \<in> fst ` set m"
  by (force simp: flatten_def pair_key_def)

lemma flatten_distinct: "nested_inv m \<Longrightarrow> distinct (map (fst \<circ> pair_key) (flatten m))"
proof (induction m)
  case (Cons x m)
  obtain a i where x: "x = (a, i)" by (cases x)
  have inv: "nested_inv m" "hm_inv i" "a \<notin> fst ` set m"
    using Cons.prems x by (auto simp: nested_inv_def hm_inv_def)
  then have "distinct (map (Pair a) (map fst i))"
    by (simp add: hm_inv_def distinct_map inj_on_def)
  moreover have "set (map (Pair a) (map fst i)) \<inter> set (map (fst \<circ> pair_key) (flatten m)) = {}"
    using inv(3) flatten_key_in [of _ m] by fastforce
  ultimately show ?case
    using Cons.IH [OF inv(1)] unfolding x flatten_Cons map_append pair_key_row distinct_append by blast
qed (simp add: flatten_def)

lemma flatten_map_of: "nested_inv m \<Longrightarrow> map_of (map pair_key (flatten m)) (a, b) = nget m a b"
proof (induction m)
  case (Cons x m)
  obtain a0 i where x: "x = (a0, i)" by (cases x)
  have inv: "nested_inv m" "a0 \<notin> fst ` set m" using Cons.prems x by (auto simp: nested_inv_def hm_inv_def)
  have "hm_get m a0 = None" using inv(2) by (simp add: hm_get_def map_of_eq_None_iff)
  then have "nget m a0 b = None" by (simp add: nget_def)
  then show ?case
    unfolding x flatten_Cons map_append map_of_append map_add_def pair_key_row(2) Cons.IH [OF inv(1)]
    by (auto simp: nget_def hm_get_Cons split: option.splits)
qed (simp add: flatten_def)

lemma nested_roundtrip:
  "nested_inv m \<Longrightarrow> nget (fold (\<lambda>(a, b, v). nput a b v) (flatten m) []) a b = nget m a b"
  by (simp add: nget_fold_nput flatten_distinct flatten_map_of split: option.splits)

lemma hm_roundtrip: "hm_inv m \<Longrightarrow> hm_get (fold (\<lambda>(k, v). hm_insert k v) m []) k = hm_get m k"
  unfolding hm_inv_def by (simp add: hm_get_fold_insert) (simp add: hm_get_def split: option.splits)

lemma add_order_frame [simp]:
  "es_accounts (add_order ord s) = es_accounts s" "es_positions (add_order ord s) = es_positions s"
  "es_leverage (add_order ord s) = es_leverage s" "es_markets (add_order ord s) = es_markets s"
  "es_margin_mode (add_order ord s) = es_margin_mode s"
  by (simp_all add: add_order_def index_push_def es_set_orderbook_def Let_def split: option.splits)

lemma add_order_orders:
  "es_orders (add_order ord s) = (case hm_get (es_orders s) (o_market ord) of
     Some _ \<Rightarrow> nput (o_market ord) (o_id ord) ord (es_orders s) | None \<Rightarrow> es_orders s)"
  by (simp add: add_order_def index_push_def es_set_orderbook_def nput_def hm_get_or_def Let_def
      split: option.splits)

lemma add_trigger_order_frame [simp]:
  "es_accounts (add_trigger_order ord s) = es_accounts s"
  "es_positions (add_trigger_order ord s) = es_positions s"
  "es_leverage (add_trigger_order ord s) = es_leverage s"
  "es_markets (add_trigger_order ord s) = es_markets s"
  "es_margin_mode (add_trigger_order ord s) = es_margin_mode s"
  "es_orders (add_trigger_order ord s) = es_orders s"
  by (simp_all add: add_trigger_order_def set_trigger_map_def Let_def
      split: option.splits trigger_direction.splits)

lemmas es_setters = set_position_def set_leverage_def es_add_market_def es_set_margin_mode_def Let_def

lemma es_load_fields:
  "es_accounts (es_load sn s) = fold (\<lambda>(a, acc). hm_insert a acc) (sn_accounts sn) (es_accounts s)"
  "es_positions (es_load sn s) = fold (\<lambda>(a, m, p). nput a m p) (sn_positions sn) (es_positions s)"
  "es_leverage (es_load sn s) = fold (\<lambda>(a, m, l). nput a m l) (sn_leverage sn) (es_leverage s)"
  "es_markets (es_load sn s) = fold (\<lambda>m. hm_insert (mc_id (m_config m)) m) (sn_markets sn) (es_markets s)"
  "es_margin_mode (es_load sn s) = fold (\<lambda>(a, mode). hm_insert a mode) (sn_margin_modes sn) (es_margin_mode s)"
  "es_insurance_fund (es_load sn s) = sn_insurance_fund sn"
  "es_next_order_id (es_load sn s) = sn_next_order_id sn"
  unfolding es_load_def
  by (simp_all add: Let_def fold_proj [of es_accounts] fold_proj [of es_positions] fold_proj [of es_leverage]
      fold_proj [of es_markets] fold_proj [of es_margin_mode] case_prod_unfold es_setters
      fold_hom [of es_accounts _ "\<lambda>x. hm_insert (fst x) (snd x)"]
      fold_hom [of es_positions _ "\<lambda>x. nput (fst x) (fst (snd x)) (snd (snd x))"]
      fold_hom [of es_leverage _ "\<lambda>x. nput (fst x) (fst (snd x)) (snd (snd x))"]
      fold_hom [of es_markets _ "\<lambda>m. hm_insert (mc_id (m_config m)) m"]
      fold_hom [of es_margin_mode _ "\<lambda>x. hm_insert (fst x) (snd x)"])

lemma fold_orders_nput:
  assumes "\<forall>ord \<in> set ords. hm_get os (o_market ord) \<noteq> None"
  shows "fold (\<lambda>ord os. case hm_get os (o_market ord) of
      Some _ \<Rightarrow> nput (o_market ord) (o_id ord) ord os | None \<Rightarrow> os) ords os =
    fold (\<lambda>(m, i, ord). nput m i ord) (map (\<lambda>ord. (o_market ord, o_id ord, ord)) ords) os"
  using assms
proof (induction ords arbitrary: os)
  case (Cons ord ords)
  have "\<forall>x \<in> set ords. hm_get (nput (o_market ord) (o_id ord) ord os) (o_market x) \<noteq> None"
    using Cons.prems by (auto simp: nput_def)
  then show ?case using Cons by (auto split: option.splits)
qed simp

lemma es_load_orders:
  "es_orders (es_load sn s) = fold (\<lambda>ord os. case hm_get os (o_market ord) of
      Some _ \<Rightarrow> nput (o_market ord) (o_id ord) ord os | None \<Rightarrow> os) (sn_orders sn)
    (fold (\<lambda>m. hm_insert (mc_id (m_config m)) []) (sn_markets sn) (es_orders s))"
  unfolding es_load_def
  by (simp add: Let_def fold_proj [of es_orders] case_prod_beta es_setters add_order_orders
      fold_hom [of es_orders add_order "\<lambda>ord os. case hm_get os (o_market ord) of
        Some _ \<Rightarrow> nput (o_market ord) (o_id ord) ord os | None \<Rightarrow> os"]
      fold_hom [of es_orders es_add_market "\<lambda>m. hm_insert (mc_id (m_config m)) []"])

text \<open>
  The well-formed states: no map has two entries for a key, markets and orders are
  stored under their own ids, and every order belongs to an existing market.
\<close>

definition es_wf :: "engine_state \<Rightarrow> bool" where
  "es_wf s = (hm_inv (es_accounts s) \<and> nested_inv (es_positions s) \<and> nested_inv (es_leverage s) \<and>
     hm_inv (es_markets s) \<and> (\<forall>(i, m) \<in> set (es_markets s). mc_id (m_config m) = i) \<and>
     nested_inv (es_orders s) \<and>
     (\<forall>(m, mo) \<in> set (es_orders s). \<forall>(i, ord) \<in> set mo.
        o_market ord = m \<and> o_id ord = i \<and> hm_get (es_markets s) m \<noteq> None) \<and>
     hm_inv (es_margin_mode s))"

lemma orders_flatten:
  assumes "\<forall>(m, mo) \<in> set os. \<forall>(i, ord) \<in> set mo. o_market ord = m \<and> o_id ord = i"
  shows "map (\<lambda>ord. (o_market ord, o_id ord, ord)) (concat (map hm_values (hm_values os))) = flatten os"
  using assms
proof (induction os)
  case (Cons x os)
  obtain m mo where x: "x = (m, mo)" by (cases x)
  have "map (\<lambda>ord. (o_market ord, o_id ord, ord)) (hm_values mo) = map (\<lambda>(i, ord). (m, i, ord)) mo"
    using Cons.prems x by (auto simp: hm_values_def)
  then show ?case using Cons x by (simp add: flatten_Cons hm_values_def)
qed (simp add: hm_values_def flatten_def)

lemma nget_fold_empty:
  "(\<And>a b. nget os a b = None) \<Longrightarrow> nget (fold (\<lambda>m. hm_insert (f m) []) ms os) a b = None"
proof (induction ms arbitrary: os)
  case (Cons m ms)
  have "nget (hm_insert (f m) [] os) a b = None" for a b
    using Cons.prems [of a b] by (auto simp: nget_def)
  then show ?case using Cons.IH by simp
qed simp

lemma hm_get_fold_insert_const:
  "hm_get (fold (\<lambda>m. hm_insert (f m) v) ms os) k = (if k \<in> f ` set ms then Some v else hm_get os k)"
  by (induction ms arbitrary: os) auto

lemma es_load_roundtrip_orders:
  assumes wf: "es_wf s" and empty: "es_orders s0 = []"
  shows "nget (es_orders (es_load (es_snapshot s) s0)) m i = nget (es_orders s) m i"
proof -
  let ?os0 = "fold (\<lambda>m. hm_insert (mc_id (m_config m)) []) (hm_values (es_markets s)) (es_orders s0)"
  let ?ords = "concat (map hm_values (hm_values (es_orders s)))"
  have ids: "(mc_id \<circ> m_config) ` set (hm_values (es_markets s)) = fst ` set (es_markets s)"
  proof -
    have "\<forall>x \<in> set (es_markets s). mc_id (m_config (snd x)) = fst x"
      using wf by (auto simp: es_wf_def)
    then have "map (\<lambda>x. (mc_id \<circ> m_config) (snd x)) (es_markets s) = map fst (es_markets s)" by simp
    from arg_cong [OF this, of set] show ?thesis by (simp add: hm_values_def image_image)
  qed
  have dom: "\<forall>ord \<in> set ?ords. hm_get ?os0 (o_market ord) \<noteq> None"
  proof
    fix ord assume "ord \<in> set ?ords"
    then obtain m mo i where "(m, mo) \<in> set (es_orders s)" "(i, ord) \<in> set mo"
      by (auto simp: hm_values_def)
    then have "hm_get (es_markets s) (o_market ord) \<noteq> None" using wf by (fastforce simp: es_wf_def)
    then have "o_market ord \<in> (mc_id \<circ> m_config) ` set (hm_values (es_markets s))"
      unfolding ids by (force dest: hm_get_in_set)
    then show "hm_get ?os0 (o_market ord) \<noteq> None"
      by (simp add: hm_get_fold_insert_const comp_def)
  qed
  have keyed: "\<forall>(m, mo) \<in> set (es_orders s). \<forall>(i, ord) \<in> set mo. o_market ord = m \<and> o_id ord = i"
    using wf by (fastforce simp: es_wf_def)
  have "es_orders (es_load (es_snapshot s) s0) = fold (\<lambda>(m, i, ord). nput m i ord) (flatten (es_orders s)) ?os0"
    unfolding es_load_orders using fold_orders_nput [OF dom] orders_flatten [OF keyed]
    by (simp add: es_snapshot_def)
  moreover have "nget ?os0 m i = None" using empty by (intro nget_fold_empty) simp
  moreover have "nested_inv (es_orders s)" using wf by (simp add: es_wf_def)
  ultimately show ?thesis
    by (simp add: nget_fold_nput flatten_distinct flatten_map_of split: option.splits)
qed

text \<open>
  (C38) Restoring a snapshot of a well-formed state, over whatever the state had
  become since, brings back its accounts, positions, leverage settings, markets,
  orders, margin modes, insurance fund and order id counter.
\<close>

theorem engine_snapshot_roundtrip:
  fixes s t :: engine_state
  assumes wf: "es_wf s"
  defines "s' \<equiv> es_restore (es_snapshot s) t"
  shows "es_get_account s' a = es_get_account s a \<and> get_position s' a m = get_position s a m \<and>
    get_leverage s' a m = get_leverage s a m \<and> get_market s' m = get_market s m \<and>
    get_order s' m i = get_order s m i \<and> get_margin_mode s' a = get_margin_mode s a \<and>
    es_insurance_fund s' = es_insurance_fund s \<and> es_next_order_id s' = es_next_order_id s"
proof -
  have keyed: "map (\<lambda>m. (mc_id (m_config m), m)) (hm_values (es_markets s)) = es_markets s"
    using wf by (auto simp: es_wf_def hm_values_def comp_def intro!: map_idI)
  have markets: "fold (\<lambda>m. hm_insert (mc_id (m_config m)) m) (hm_values (es_markets s)) [] =
      fold (\<lambda>(k, v). hm_insert k v) (es_markets s) []"
    by (subst (2) keyed [symmetric]) (simp add: fold_map comp_def)
  have inv: "hm_inv (es_accounts s)" "nested_inv (es_positions s)" "nested_inv (es_leverage s)"
    "hm_inv (es_markets s)" "hm_inv (es_margin_mode s)"
    using wf by (auto simp: es_wf_def)
  show ?thesis
    unfolding s'_def es_restore_def
    by (simp add: es_get_account_def get_position_def get_leverage_def get_market_def get_order_def
        get_margin_mode_def es_load_fields es_load_roundtrip_orders [OF wf])
       (simp add: es_snapshot_def hm_roundtrip nested_roundtrip markets inv hm_get_or_def)
qed

definition sample_engine_state :: engine_state where
  "sample_engine_state = add_order (limit_order 1 7 Buy 100 5 Gtc)
     (set_position 7 0 sample_position (es_add_market sample_market (deposit 7 1000 engine_state_new)))"

lemma sample_engine_wf: "es_wf sample_engine_state"
  by (simp add: es_wf_def sample_engine_state_def add_order_def set_position_def es_add_market_def
      deposit_def es_update_account_def get_or_create_account_def engine_state_new_def index_push_def
      es_set_orderbook_def get_orderbook_def nput_def hm_get_or_def nested_inv_def hm_inv_def
      hm_insert_def hm_get_def limit_order_defs sample_market_def market_new_def btc_perp_def Let_def)

theorem engine_snapshot_roundtrip_witness:
  "get_position (es_restore (es_snapshot sample_engine_state) engine_state_new) 7 0 =
     get_position sample_engine_state 7 0"
  using engine_snapshot_roundtrip [OF sample_engine_wf] by blast

end
