(* ===== verification/Unified_State.thy ===== *)
theory Unified_State
  imports Decimal
begin

text \<open>
  The master balance sheet with its Core and EVM views, from
  \<open>crates/primitives/src/unified_state.rs\<close>.  A balance is keyed by (user, token)
  and its total is meant to equal the sum of the two views.  The lock around the
  shared state serialises the operations, so each one is a function of the state.
\<close>

section \<open>State and operations\<close>

record unified_balance =
  ub_total :: decimal
  ub_core :: decimal
  ub_evm :: decimal

type_synonym unified_state = "(nat \<times> nat, unified_balance) hash_map"

datatype view_transfer_error =
    NoBalance
  | InsufficientCoreView decimal decimal
  | InsufficientEvmView decimal decimal
  | InvalidAmount string

definition ub_new :: "decimal \<Rightarrow> unified_balance" where
  "ub_new t = \<lparr> ub_total = t, ub_core = t, ub_evm = Decimal 0 (d_dec t) \<rparr>"

definition ub_with_views :: "decimal \<Rightarrow> decimal \<Rightarrow> decimal \<Rightarrow> unified_balance" where
  "ub_with_views t c e = \<lparr> ub_total = t, ub_core = c, ub_evm = e \<rparr>"

definition ub_is_valid :: "unified_balance \<Rightarrow> bool option" where
  "ub_is_valid b = do { s \<leftarrow> dec_add (ub_core b) (ub_evm b); Some (ub_total b = s) }"

definition ub_is_zero :: "unified_balance \<Rightarrow> bool" where
  "ub_is_zero b = is_zero (ub_total b)"

definition us_new :: unified_state where "us_new = []"

definition get_balance :: "unified_state \<Rightarrow> nat \<Rightarrow> nat \<Rightarrow> unified_balance option" where
  "get_balance st user token = hm_get st (user, token)"

definition default_decimals :: "nat \<Rightarrow> nat" where
  "default_decimals token = (if token = 0 then 6 else 18)"

definition get_balance_or_default :: "unified_state \<Rightarrow> nat \<Rightarrow> nat \<Rightarrow> unified_balance" where
  "get_balance_or_default st user token =
     (case hm_get st (user, token) of Some b \<Rightarrow> b | None \<Rightarrow> ub_new (Decimal 0 (default_decimals token)))"

definition get_all_balances :: "unified_state \<Rightarrow> nat \<Rightarrow> (nat \<times> unified_balance) list" where
  "get_all_balances st user = [(t, b). ((u, t), b) \<leftarrow> st, u = user]"

definition get_core_view :: "unified_state \<Rightarrow> nat \<Rightarrow> nat \<Rightarrow> decimal" where
  "get_core_view st user token =
     (case hm_get st (user, token) of Some b \<Rightarrow> ub_core b | None \<Rightarrow> Decimal 0 (default_decimals token))"

definition get_evm_view :: "unified_state \<Rightarrow> nat \<Rightarrow> nat \<Rightarrow> decimal" where
  "get_evm_view st user token =
     (case hm_get st (user, token) of Some b \<Rightarrow> ub_evm b | None \<Rightarrow> Decimal 0 (default_decimals token))"

definition get_total :: "unified_state \<Rightarrow> nat \<Rightarrow> nat \<Rightarrow> decimal" where
  "get_total st user token =
     (case hm_get st (user, token) of Some b \<Rightarrow> ub_total b | None \<Rightarrow> Decimal 0 (default_decimals token))"

text \<open>\<open>entry(key).or_insert_with(zero balance at the precision of the amount)\<close>\<close>

definition us_entry :: "unified_state \<Rightarrow> nat \<Rightarrow> nat \<Rightarrow> decimal \<Rightarrow> unified_balance" where
  "us_entry st user token amount = hm_get_or (ub_new (Decimal 0 (d_dec amount))) st (user, token)"

definition credit :: "nat \<Rightarrow> nat \<Rightarrow> decimal \<Rightarrow> unified_state \<Rightarrow> unified_state option" where
  "credit user token amount st = (let b = us_entry st user token amount in do {
     t \<leftarrow> dec_add (ub_total b) amount;
     c \<leftarrow> dec_add (ub_core b) amount;
     Some (hm_insert (user, token) (b \<lparr> ub_total := t, ub_core := c \<rparr>) st)
   })"

definition credit_evm :: "nat \<Rightarrow> nat \<Rightarrow> decimal \<Rightarrow> unified_state \<Rightarrow> unified_state option" where
  "credit_evm user token amount st = (let b = us_entry st user token amount in do {
     t \<leftarrow> dec_add (ub_total b) amount;
     e \<leftarrow> dec_add (ub_evm b) amount;
     Some (hm_insert (user, token) (b \<lparr> ub_total := t, ub_evm := e \<rparr>) st)
   })"

definition debit_core :: "nat \<Rightarrow> nat \<Rightarrow> decimal \<Rightarrow> unified_state \<Rightarrow> (bool \<times> unified_state) option" where
  "debit_core user token amount st = (case hm_get st (user, token) of
       Some b \<Rightarrow>
         if ub_core b \<ge> amount then do {
           t \<leftarrow> dec_sub (ub_total b) amount;
           c \<leftarrow> dec_sub (ub_core b) amount;
           Some (True, hm_insert (user, token) (b \<lparr> ub_total := t, ub_core := c \<rparr>) st)
         } else Some (False, st)
     | None \<Rightarrow> Some (False, st))"

definition debit_evm :: "nat \<Rightarrow> nat \<Rightarrow> decimal \<Rightarrow> unified_state \<Rightarrow> (bool \<times> unified_state) option" where
  "debit_evm user token amount st = (case hm_get st (user, token) of
       Some b \<Rightarrow>
         if ub_evm b \<ge> amount then do {
           t \<leftarrow> dec_sub (ub_total b) amount;
           e \<leftarrow> dec_sub (ub_evm b) amount;
           Some (True, hm_insert (user, token) (b \<lparr> ub_total := t, ub_evm := e \<rparr>) st)
         } else Some (False, st)
     | None \<Rightarrow> Some (False, st))"

definition transfer_to_evm_view ::
  "nat \<Rightarrow> nat \<Rightarrow> decimal \<Rightarrow> unified_state \<Rightarrow> ((view_transfer_error + unit) \<times> unified_state) option" where
  "transfer_to_evm_view user token amount st = (case hm_get st (user, token) of
       None \<Rightarrow> Some (Inl NoBalance, st)
     | Some b \<Rightarrow>
         if ub_core b < amount then Some (Inl (InsufficientCoreView (ub_core b) amount), st)
         else do {
           c \<leftarrow> dec_sub (ub_core b) amount;
           e \<leftarrow> dec_add (ub_evm b) amount;
           Some (Inr (), hm_insert (user, token) (b \<lparr> ub_core := c, ub_evm := e \<rparr>) st)
         })"

definition transfer_to_core_view ::
  "nat \<Rightarrow> nat \<Rightarrow> decimal \<Rightarrow> unified_state \<Rightarrow> ((view_transfer_error + unit) \<times> unified_state) option" where
  "transfer_to_core_view user token amount st = (case hm_get st (user, token) of
       None \<Rightarrow> Some (Inl NoBalance, st)
     | Some b \<Rightarrow>
         if ub_evm b < amount then Some (Inl (InsufficientEvmView (ub_evm b) amount), st)
         else do {
           e \<leftarrow> dec_sub (ub_evm b) amount;
           c \<leftarrow> dec_add (ub_core b) amount;
           Some (Inr (), hm_insert (user, token) (b \<lparr> ub_core := c, ub_evm := e \<rparr>) st)
         })"

text \<open>The default decimal of an absent sender has value 0 and no decimal places.\<close>

definition transfer_core ::
  "nat \<Rightarrow> nat \<Rightarrow> nat \<Rightarrow> decimal \<Rightarrow> unified_state \<Rightarrow> (bool \<times> unified_state) option" where
  "transfer_core from_u to_u token amount st =
    (if (case hm_get st (from_u, token) of Some b \<Rightarrow> ub_core b | None \<Rightarrow> Decimal 0 0) < amount
     then Some (False, st)
     else do {
       st1 \<leftarrow> (case hm_get st (from_u, token) of
           Some b \<Rightarrow> do {
             t \<leftarrow> dec_sub (ub_total b) amount;
             c \<leftarrow> dec_sub (ub_core b) amount;
             Some (hm_insert (from_u, token) (b \<lparr> ub_total := t, ub_core := c \<rparr>) st)
           }
         | None \<Rightarrow> Some st);
       st2 \<leftarrow> credit to_u token amount st1;
       Some (True, st2)
     })"

definition transfer_evm ::
  "nat \<Rightarrow> nat \<Rightarrow> nat \<Rightarrow> decimal \<Rightarrow> unified_state \<Rightarrow> (bool \<times> unified_state) option" where
  "transfer_evm from_u to_u token amount st =
    (if (case hm_get st (from_u, token) of Some b \<Rightarrow> ub_evm b | None \<Rightarrow> Decimal 0 0) < amount
     then Some (False, st)
     else do {
       st1 \<leftarrow> (case hm_get st (from_u, token) of
           Some b \<Rightarrow> do {
             t \<leftarrow> dec_sub (ub_total b) amount;
             e \<leftarrow> dec_sub (ub_evm b) amount;
             Some (hm_insert (from_u, token) (b \<lparr> ub_total := t, ub_evm := e \<rparr>) st)
           }
         | None \<Rightarrow> Some st);
       st2 \<leftarrow> credit_evm to_u token amount st1;
       Some (True, st2)
     })"

definition set_balance :: "nat \<Rightarrow> nat \<Rightarrow> unified_balance \<Rightarrow> unified_state \<Rightarrow> unified_state" where
  "set_balance user token b st = hm_insert (user, token) b st"

definition get_token_holders :: "unified_state \<Rightarrow> nat \<Rightarrow> (nat \<times> unified_balance) list" where
  "get_token_holders st token = [(u, b). ((u, t), b) \<leftarrow> st, t = token]"

fun all_valid :: "unified_balance list \<Rightarrow> bool option" where
  "all_valid [] = Some True"
| "all_valid (b # bs) = do { v \<leftarrow> ub_is_valid b; if v then all_valid bs else Some False }"

definition verify_invariants :: "unified_state \<Rightarrow> bool option" where
  "verify_invariants st = all_valid (hm_values st)"

definition balance_count :: "unified_state \<Rightarrow> nat" where
  "balance_count st = length st"

definition us_snapshot :: "unified_state \<Rightarrow> (nat \<times> nat, unified_balance) hash_map" where
  "us_snapshot st = st"

definition us_restore :: "(nat \<times> nat, unified_balance) hash_map \<Rightarrow> unified_state \<Rightarrow> unified_state" where
  "us_restore snap st = snap"

section \<open>The invariant of a balance\<close>

lemma ub_is_valid_iff:
  "ub_is_valid b = Some True \<longleftrightarrow> in_i128 (d_val (ub_core b) + d_val (ub_evm b)) \<and>
     ub_total b = Decimal (d_val (ub_core b) + d_val (ub_evm b)) (d_dec (ub_core b))"
  by (auto simp: ub_is_valid_def panic_simps)

lemma verify_invariants_iff:
  "verify_invariants st = Some True \<longleftrightarrow> (\<forall>(k, b) \<in> set st. ub_is_valid b = Some True)"
proof -
  have "all_valid bs = Some True \<longleftrightarrow> (\<forall>b \<in> set bs. ub_is_valid b = Some True)" for bs
    by (induction bs) (auto split: Option.bind_splits)
  then show ?thesis by (auto simp: verify_invariants_def hm_values_def)
qed

text \<open>A sound balance: the views add up to the total and neither is overdrawn.\<close>

definition ub_sound :: "unified_balance \<Rightarrow> bool" where
  "ub_sound b = (ub_is_valid b = Some True \<and> 0 \<le> d_val (ub_core b) \<and> 0 \<le> d_val (ub_evm b))"

definition us_sound :: "unified_state \<Rightarrow> bool" where
  "us_sound st = (\<forall>(k, b) \<in> set st. ub_sound b)"

lemma us_sound_insert: "us_sound st \<Longrightarrow> ub_sound b \<Longrightarrow> us_sound (hm_insert k b st)"
  unfolding us_sound_def by (rule hm_all_insert [where P = "\<lambda>_. ub_sound"])

lemma us_sound_get: "us_sound st \<Longrightarrow> hm_get st k = Some b \<Longrightarrow> ub_sound b"
  by (auto simp: us_sound_def dest: hm_get_in_set)

lemma us_sound_entry: "us_sound st \<Longrightarrow> ub_sound (us_entry st user token amount)"
  by (auto simp: us_entry_def hm_get_or_def ub_sound_def ub_is_valid_iff ub_new_def
      dest: us_sound_get split: option.splits)

lemma us_sound_verify: "us_sound st \<Longrightarrow> verify_invariants st = Some True"
  by (auto simp: us_sound_def verify_invariants_iff ub_sound_def)

lemma dec_le_val: "a \<le> b \<Longrightarrow> d_val a \<le> d_val b" for a b :: decimal
  by (auto simp: less_eq_decimal_def)

lemmas ledger_defs = credit_def credit_evm_def debit_core_def debit_evm_def transfer_to_evm_view_def
  transfer_to_core_view_def transfer_core_def transfer_evm_def

lemma credit_sound:
  assumes "us_sound st" "0 \<le> d_val amount" "credit user token amount st = Some st'"
  shows "us_sound st'"
  using assms us_sound_entry [OF assms(1), of user token amount]
  by (auto simp: credit_def Let_def panic_simps ub_sound_def ub_is_valid_iff algebra_simps
      intro!: us_sound_insert)

lemma credit_evm_sound:
  assumes "us_sound st" "0 \<le> d_val amount" "credit_evm user token amount st = Some st'"
  shows "us_sound st'"
  using assms us_sound_entry [OF assms(1), of user token amount]
  by (auto simp: credit_evm_def Let_def panic_simps ub_sound_def ub_is_valid_iff algebra_simps
      intro!: us_sound_insert)

lemma debit_core_sound:
  assumes "us_sound st" "debit_core user token amount st = Some (r, st')"
  shows "us_sound st'"
  using assms us_sound_get [OF assms(1), of "(user, token)"]
  by (auto simp: debit_core_def panic_simps ub_sound_def ub_is_valid_iff algebra_simps
      dest: dec_le_val intro!: us_sound_insert split: option.splits if_splits)

lemma debit_evm_sound:
  assumes "us_sound st" "debit_evm user token amount st = Some (r, st')"
  shows "us_sound st'"
  using assms us_sound_get [OF assms(1), of "(user, token)"]
  by (auto simp: debit_evm_def panic_simps ub_sound_def ub_is_valid_iff algebra_simps
      dest: dec_le_val intro!: us_sound_insert split: option.splits if_splits)

lemma transfer_to_evm_view_sound:
  assumes "us_sound st" "0 \<le> d_val amount" "transfer_to_evm_view user token amount st = Some (r, st')"
  shows "us_sound st'"
  using assms us_sound_get [OF assms(1), of "(user, token)"]
  by (auto simp: transfer_to_evm_view_def panic_simps ub_sound_def ub_is_valid_iff algebra_simps not_less
      dest: dec_le_val intro!: us_sound_insert split: option.splits if_splits)

lemma transfer_to_core_view_sound:
  assumes "us_sound st" "0 \<le> d_val amount" "transfer_to_core_view user token amount st = Some (r, st')"
  shows "us_sound st'"
  using assms us_sound_get [OF assms(1), of "(user, token)"]
  by (auto simp: transfer_to_core_view_def panic_simps ub_sound_def ub_is_valid_iff algebra_simps not_less
      dest: dec_le_val intro!: us_sound_insert split: option.splits if_splits)

text \<open>A transfer is a debit of the sender followed by a credit of the receiver.\<close>

lemma transfer_core_eq:
  "transfer_core from_u to_u token amount st =
    (case hm_get st (from_u, token) of
       None \<Rightarrow> if Decimal 0 0 < amount then Some (False, st)
               else map_option (Pair True) (credit to_u token amount st)
     | Some b \<Rightarrow> do {
         (r, st1) \<leftarrow> debit_core from_u token amount st;
         if r then map_option (Pair True) (credit to_u token amount st1) else Some (False, st1)
       })"
  by (auto simp: transfer_core_def debit_core_def map_conv_bind_option not_less
      split: option.splits Option.bind_splits)

lemma transfer_evm_eq:
  "transfer_evm from_u to_u token amount st =
    (case hm_get st (from_u, token) of
       None \<Rightarrow> if Decimal 0 0 < amount then Some (False, st)
               else map_option (Pair True) (credit_evm to_u token amount st)
     | Some b \<Rightarrow> do {
         (r, st1) \<leftarrow> debit_evm from_u token amount st;
         if r then map_option (Pair True) (credit_evm to_u token amount st1) else Some (False, st1)
       })"
  by (auto simp: transfer_evm_def debit_evm_def map_conv_bind_option not_less
      split: option.splits Option.bind_splits)

lemma transfer_core_sound:
  assumes "us_sound st" "0 \<le> d_val amount" "transfer_core from_u to_u token amount st = Some (r, st')"
  shows "us_sound st'"
  using assms debit_core_sound [OF assms(1), of from_u token amount] credit_sound [OF _ assms(2)]
  unfolding transfer_core_eq
  by (fastforce simp: Option.bind_eq_Some_conv split: option.splits if_splits)

lemma transfer_evm_sound:
  assumes "us_sound st" "0 \<le> d_val amount" "transfer_evm from_u to_u token amount st = Some (r, st')"
  shows "us_sound st'"
  using assms debit_evm_sound [OF assms(1), of from_u token amount] credit_evm_sound [OF _ assms(2)]
  unfolding transfer_evm_eq
  by (fastforce simp: Option.bind_eq_Some_conv split: option.splits if_splits)

section \<open>The ledger as a state machine\<close>

text \<open>One step per operation of the state, with nonnegative amounts.\<close>

inductive us_step :: "unified_state \<Rightarrow> unified_state \<Rightarrow> bool" where
  credit: "0 \<le> d_val a \<Longrightarrow> credit u t a st = Some st' \<Longrightarrow> us_step st st'"
| credit_evm: "0 \<le> d_val a \<Longrightarrow> credit_evm u t a st = Some st' \<Longrightarrow> us_step st st'"
| debit_core: "0 \<le> d_val a \<Longrightarrow> debit_core u t a st = Some (r, st') \<Longrightarrow> us_step st st'"
| debit_evm: "0 \<le> d_val a \<Longrightarrow> debit_evm u t a st = Some (r, st') \<Longrightarrow> us_step st st'"
| to_evm: "0 \<le> d_val a \<Longrightarrow> transfer_to_evm_view u t a st = Some (v, st') \<Longrightarrow> us_step st st'"
| to_core: "0 \<le> d_val a \<Longrightarrow> transfer_to_core_view u t a st = Some (v, st') \<Longrightarrow> us_step st st'"
| move_core: "0 \<le> d_val a \<Longrightarrow> transfer_core u w t a st = Some (r, st') \<Longrightarrow> us_step st st'"
| move_evm: "0 \<le> d_val a \<Longrightarrow> transfer_evm u w t a st = Some (r, st') \<Longrightarrow> us_step st st'"

lemma us_step_sound: "us_step st st' \<Longrightarrow> us_sound st \<Longrightarrow> us_sound st'"
  by (induction rule: us_step.induct)
     (blast intro: credit_sound credit_evm_sound debit_core_sound debit_evm_sound
       transfer_to_evm_view_sound transfer_to_core_view_sound transfer_core_sound transfer_evm_sound)+


text \<open>A deposit of 5 USDC, of which 2 are moved to the EVM view.\<close>

definition sample_ledger :: unified_state where
  "sample_ledger = [((7, 0), \<lparr> ub_total = Decimal 5000000 6, ub_core = Decimal 3000000 6,
     ub_evm = Decimal 2000000 6 \<rparr>)]"

lemmas ledger_eval = us_entry_def hm_get_or_def ub_new_def hm_insert_def dec_defs i128_checked_def
  i128_defs hm_get_def less_eq_decimal_def less_decimal_def

lemma sample_ledger_reachable: "us_step\<^sup>*\<^sup>* us_new sample_ledger"
proof -
  let ?b = "\<lparr> ub_total = Decimal 5000000 6, ub_core = Decimal 5000000 6, ub_evm = Decimal 0 6 \<rparr>"
  have "us_step us_new [((7, 0), ?b)]"
    by (rule us_step.credit [of "Decimal 5000000 6" 7 0])
       (simp_all add: credit_def ledger_eval us_new_def)
  moreover have "us_step [((7, 0), ?b)] sample_ledger"
    by (rule us_step.to_evm [of "Decimal 2000000 6" 7 0 _ "Inr ()"])
       (simp_all add: transfer_to_evm_view_def ledger_eval sample_ledger_def)
  ultimately show ?thesis by auto
qed


section \<open>Token supply\<close>

definition token_supply :: "nat \<Rightarrow> unified_state \<Rightarrow> int" where
  "token_supply token st = hm_sum (\<lambda>(u, t) b. if t = token then d_val (ub_total b) else 0) st"

lemma supply_insert_entry:
  assumes "d_val (ub_total b') = d_val (ub_total (us_entry st user tk amount)) + n"
  shows "token_supply token (hm_insert (user, tk) b' st) = token_supply token st + (if tk = token then n else 0)"
proof -
  have "token_supply token (hm_insert (user, tk) b' st) =
      token_supply token st - (if tk = token then d_val (ub_total (us_entry st user tk amount)) else 0) +
      (if tk = token then d_val (ub_total b') else 0)"
    unfolding token_supply_def us_entry_def by (subst hm_sum_insert_or) (auto simp: ub_new_def)
  then show ?thesis using assms by simp
qed

lemma supply_insert_existing:
  assumes "hm_get st (user, tk) = Some b" "d_val (ub_total b') = d_val (ub_total b) + n"
  shows "token_supply token (hm_insert (user, tk) b' st) = token_supply token st + (if tk = token then n else 0)"
  using assms by (simp add: token_supply_def hm_sum_insert)

lemma supply_credit:
  "credit user tk a st = Some st' \<Longrightarrow> token_supply token st' = token_supply token st + (if tk = token then d_val a else 0)"
  by (auto simp: credit_def Let_def panic_simps supply_insert_entry [where n = "d_val a" and amount = a])

lemma supply_credit_evm:
  "credit_evm user tk a st = Some st' \<Longrightarrow> token_supply token st' = token_supply token st + (if tk = token then d_val a else 0)"
  by (auto simp: credit_evm_def Let_def panic_simps supply_insert_entry [where n = "d_val a" and amount = a])

lemma supply_debit_core:
  "debit_core user tk a st = Some (r, st') \<Longrightarrow>
   token_supply token st' = token_supply token st - (if r \<and> tk = token then d_val a else 0)"
  by (auto simp: debit_core_def panic_simps supply_insert_existing [where n = "- d_val a"]
      split: option.splits if_splits)

lemma supply_debit_evm:
  "debit_evm user tk a st = Some (r, st') \<Longrightarrow>
   token_supply token st' = token_supply token st - (if r \<and> tk = token then d_val a else 0)"
  by (auto simp: debit_evm_def panic_simps supply_insert_existing [where n = "- d_val a"]
      split: option.splits if_splits)

lemma supply_transfer_core:
  assumes "0 < d_val a" "transfer_core u w tk a st = Some (r, st')"
  shows "token_supply token st' = token_supply token st"
proof -
  have "Decimal 0 0 < a" using assms(1) by (simp add: less_decimal_def)
  then show ?thesis
    using assms(2) supply_debit_core [of u tk a st _ _ token] supply_credit [of w tk a _ st' token]
    unfolding transfer_core_eq
    by (fastforce simp: Option.bind_eq_Some_conv split: option.splits if_splits)
qed

text \<open>What a transfer does to the Core views of two different users, whatever its sign.\<close>

lemma transfer_core_views:
  assumes "transfer_core u w tk a st = Some (True, st')" "hm_get st (u, tk) = Some b" "u \<noteq> w"
  shows "d_val (get_core_view st' u tk) = d_val (get_core_view st u tk) - d_val a"
    "d_val (get_core_view st' w tk) = d_val (get_core_view st w tk) + d_val a"
  using assms
  by (auto simp: transfer_core_def credit_def Let_def panic_simps us_entry_def hm_get_or_def get_core_view_def ub_new_def
      split: option.splits if_splits)


lemma sample_transfer:
  "transfer_core 7 8 0 (Decimal 1000000 6) sample_ledger = Some (True,
     [((7, 0), \<lparr> ub_total = Decimal 4000000 6, ub_core = Decimal 2000000 6, ub_evm = Decimal 2000000 6 \<rparr>),
      ((8, 0), \<lparr> ub_total = Decimal 1000000 6, ub_core = Decimal 1000000 6, ub_evm = Decimal 0 6 \<rparr>)])"
  by (simp add: transfer_core_def credit_def sample_ledger_def ledger_eval)


text \<open>
  Moving an amount to the EVM view succeeds exactly when the user has a
  balance whose Core view covers it and the EVM view does not overflow; it then
  moves exactly that amount between the views of that one balance.  Every
  failure leaves the state as it was.
\<close>

theorem transfer_to_evm_view_exact:
  assumes "transfer_to_evm_view user token amount st = Some (v, st')"
  shows "(v = Inr ()) = (\<exists>b. get_balance st user token = Some b \<and> \<not> ub_core b < amount) \<and>
    (case v of
       Inl e \<Rightarrow> st' = st
     | Inr _ \<Rightarrow>
         d_val (get_core_view st' user token) = d_val (get_core_view st user token) - d_val amount \<and>
         d_val (get_evm_view st' user token) = d_val (get_evm_view st user token) + d_val amount \<and>
         get_total st' user token = get_total st user token \<and>
         (\<forall>k. k = (user, token) \<or> hm_get st' k = hm_get st k))"
  using assms
  by (auto simp: transfer_to_evm_view_def panic_simps get_balance_def get_core_view_def get_evm_view_def
      get_total_def split: option.splits if_splits)

end
