(* ===== verification/Engine.thy ===== *)
theory Engine
  imports Engine_History Unified_State "HOL-Library.Product_Lexorder"
begin

text \<open>
  The perpetuals engine, from \<open>crates/engine/src/lib.rs\<close>: order placement with
  validation, matching, fills, fees and trigger activation; cancellation;
  leverage and margin mode; funding settlement; liquidation with the insurance
  fund and auto-deleveraging.  The shared balance sheet is the optional component
  \<open>en_unified\<close>.  A handler returns its Rust result together with the engine as
  it is left, on error branches too; the outer option is the panic.
\<close>

section \<open>State\<close>

record engine_config =
  ec_max_markets :: nat
  ec_funding_interval_secs :: nat
  ec_max_funding_rate :: decimal
  ec_liquidation_partial_ratio :: decimal

definition engine_config_default :: engine_config where
  "engine_config_default = \<lparr> ec_max_markets = 256, ec_funding_interval_secs = 28800,
     ec_max_funding_rate = Decimal 5000000 10, ec_liquidation_partial_ratio = Decimal 2500000000 10 \<rparr>"

record engine =
  en_config :: engine_config
  en_state :: engine_state
  en_matching :: matching_engine
  en_funding :: funding_engine
  en_liquidation :: liquidation_engine
  en_unified :: "unified_state option"

definition engine_new :: "engine_config \<Rightarrow> engine" where
  "engine_new c = \<lparr> en_config = c, en_state = engine_state_new, en_matching = matching_engine_new,
     en_funding = funding_engine_new (ec_funding_interval_secs c) (ec_max_funding_rate c),
     en_liquidation = liquidation_engine_new (ec_liquidation_partial_ratio c), en_unified = None \<rparr>"

definition with_unified_state :: "engine_config \<Rightarrow> unified_state \<Rightarrow> engine" where
  "with_unified_state c us = (engine_new c) \<lparr> en_unified := Some us \<rparr>"

definition upd_state :: "(engine_state \<Rightarrow> engine_state) \<Rightarrow> engine \<Rightarrow> engine" where
  "upd_state f e = e \<lparr> en_state := f (en_state e) \<rparr>"

definition add_market :: "market_config \<Rightarrow> decimal \<Rightarrow> timestamp \<Rightarrow> engine \<Rightarrow> engine" where
  "add_market c price ts e =
    (let m = market_new c price
               (wrap_u64 (ts + wrap_u64 (ec_funding_interval_secs (en_config e) * 1000)))
     in (upd_state (es_add_market m) e) \<lparr> en_matching := add_orderbook (mc_id c) (en_matching e) \<rparr>)"

section \<open>Validation\<close>

definition validate_order :: "order_request \<Rightarrow> market_config \<Rightarrow> (error + unit) option" where
  "validate_order q c = do {
     vp \<leftarrow> validate_price c (q_price q);
     if \<not> vp then Some (Inl (InvalidPrice (q_price q) (mc_tick_size c)))
     else do {
       vs \<leftarrow> validate_size c (q_size q);
       if \<not> vs then Some (Inl (InvalidSize (q_size q) (mc_lot_size c)))
       else if q_size q < mc_min_order_size c
       then Some (Inl (SizeTooSmall (q_size q) (mc_min_order_size c)))
       else if q_size q > mc_max_order_size c
       then Some (Inl (SizeTooLarge (q_size q) (mc_max_order_size c)))
       else Some (Inr ())
     }
   }"

definition validate_reduce_only :: "order_request \<Rightarrow> position \<Rightarrow> error + unit" where
  "validate_reduce_only q p =
    (let would_increase = (case q_side q of
           Buy \<Rightarrow> is_long p \<or> pos_is_empty p
         | Sell \<Rightarrow> is_short p \<or> pos_is_empty p)
     in if would_increase then Inl ReduceOnlyViolation else Inr ())"

section \<open>Applying a fill\<close>

definition upd_position ::
  "address \<Rightarrow> market_id \<Rightarrow> (position \<Rightarrow> position option) \<Rightarrow> engine_state \<Rightarrow> engine_state option" where
  "upd_position a m f s = (case get_position s a m of
       None \<Rightarrow> Some s
     | Some p \<Rightarrow> do { p' \<leftarrow> f p; Some (set_position a m p' s) })"

definition size_or_zero :: "engine_state \<Rightarrow> address \<Rightarrow> market_id \<Rightarrow> decimal" where
  "size_or_zero s a m = (case get_position s a m of Some p \<Rightarrow> p_size p | None \<Rightarrow> Decimal 0 SIZE_DECIMALS)"

definition oi_delta :: "decimal \<Rightarrow> decimal \<Rightarrow> (decimal \<times> decimal) option" where
  "oi_delta before after =
    (let zero = Decimal 0 SIZE_DECIMALS;
         long_before = (if is_positive before then before else zero);
         long_after = (if is_positive after then after else zero);
         short_before = (if is_negative before then dec_neg before else zero);
         short_after = (if is_negative after then dec_neg after else zero)
     in do {
       l \<leftarrow> dec_sub long_after long_before;
       sh \<leftarrow> dec_sub short_after short_before;
       Some (l, sh)
     })"

definition charge_fees :: "fill \<Rightarrow> unified_state \<Rightarrow> unified_state option" where
  "charge_fees f us = do {
     us1 \<leftarrow>
       (if f_maker_fee f > 0 then map_option snd (debit_core (f_maker f) 0 (Decimal (f_maker_fee f) USDC_DECIMALS) us)
        else if f_maker_fee f < 0
        then credit (f_maker f) 0 (Decimal (wrap_i128 (- f_maker_fee f)) USDC_DECIMALS) us
        else Some us);
     if f_taker_fee f > 0
     then map_option snd (debit_core (f_taker f) 0 (Decimal (wrap_i128 (f_taker_fee f)) USDC_DECIMALS) us1)
     else Some us1
   }"

definition fill_amount :: "fill \<Rightarrow> decimal" where
  "fill_amount f = Decimal (wrap_i128 (f_size f)) SIZE_DECIMALS"

definition fill_price :: "fill \<Rightarrow> decimal" where
  "fill_price f = Decimal (wrap_i128 (f_price f)) PRICE_DECIMALS"

text \<open>The positions of maker and taker and the open interest.\<close>

definition apply_fill_positions :: "fill \<Rightarrow> engine_state \<Rightarrow> engine_state option" where
  "apply_fill_positions f s =
    (let m = f_market f; maker_before = size_or_zero s (f_maker f) m;
         taker_before = size_or_zero s (f_taker f) m
     in do {
       s1 \<leftarrow> upd_position (f_maker f) m (\<lambda>p. pos_apply_fill p (fill_amount f) (fill_price f) (\<not> f_taker_buy f)) s;
       s2 \<leftarrow> upd_position (f_taker f) m (\<lambda>p. pos_apply_fill p (fill_amount f) (fill_price f) (f_taker_buy f)) s1;
       (dl1, ds1) \<leftarrow> oi_delta maker_before (size_or_zero s2 (f_maker f) m);
       l1 \<leftarrow> dec_add (Decimal 0 SIZE_DECIMALS) dl1;
       sh1 \<leftarrow> dec_add (Decimal 0 SIZE_DECIMALS) ds1;
       (dl2, ds2) \<leftarrow> oi_delta taker_before (size_or_zero s2 (f_taker f) m);
       l2 \<leftarrow> dec_add l1 dl2;
       sh2 \<leftarrow> dec_add sh1 ds2;
       (case get_market s2 m of
          None \<Rightarrow> Some s2
        | Some mk \<Rightarrow> do {
            ms \<leftarrow> update_open_interest l2 sh2 (m_state mk);
            Some (es_set_market m (mk \<lparr> m_state := ms \<rparr>) s2)
          })
     })"

definition cancel_triggers_if_flat :: "address \<Rightarrow> market_id \<Rightarrow> engine_state \<Rightarrow> engine_state" where
  "cancel_triggers_if_flat a m s = (case get_position s a m of
       Some p \<Rightarrow> if pos_is_empty p then cancel_trigger_orders_for_position a m s else s
     | None \<Rightarrow> s)"

text \<open>The fees in the accounts of the engine, and the time of the last trade.\<close>

definition book_fees :: "fill \<Rightarrow> engine_state \<Rightarrow> engine_state" where
  "book_fees f s =
     es_update_account (f_taker f)
       (\<lambda>acc. acc \<lparr> a_balance := wrap_i128 (a_balance acc - wrap_i128 (f_taker_fee f)) \<rparr>)
       (es_update_account (f_maker f)
         (\<lambda>acc. acc \<lparr> a_balance := wrap_i128 (a_balance acc - f_maker_fee f) \<rparr>) s)"

definition stamp_trade :: "fill \<Rightarrow> engine_state \<Rightarrow> engine_state" where
  "stamp_trade f s = (case get_market s (f_market f) of
       None \<Rightarrow> s
     | Some mk \<Rightarrow> es_set_market (f_market f)
         (mk \<lparr> m_state := (m_state mk) \<lparr> ms_last_trade_time := f_ts f \<rparr> \<rparr>) s)"

definition en_apply_fill :: "fill \<Rightarrow> engine \<Rightarrow> engine option" where
  "en_apply_fill f e = do {
     s1 \<leftarrow> apply_fill_positions f (en_state e);
     let s2 = book_fees f s1;
     us \<leftarrow> (case en_unified e of
              None \<Rightarrow> Some None
            | Some us \<Rightarrow> map_option Some (charge_fees f us));
     s3 \<leftarrow> update_mark_price (f_market f) (fill_price f) (stamp_trade f s2);
     let s4 = record_fill f s3;
     let s5 = cancel_triggers_if_flat (f_taker f) (f_market f) s4;
     let s6 = cancel_triggers_if_flat (f_maker f) (f_market f) s5;
     Some (e \<lparr> en_state := s6, en_unified := us \<rparr>)
   }"

section \<open>Placing an order\<close>

definition sync_balance :: "address \<Rightarrow> engine \<Rightarrow> engine" where
  "sync_balance a e = (case en_unified e of
       None \<Rightarrow> e
     | Some us \<Rightarrow> upd_state (es_update_account a
         (\<lambda>acc. acc \<lparr> a_balance := d_val (get_core_view us a 0) \<rparr>)) e)"

text \<open>
  After matching, the order map and the account index follow the book for the
  makers of the fills: each maker once, in the order of its first fill; the
  orders that left the book first, then the ones that were reduced.
\<close>

definition sync_makers :: "market_id \<Rightarrow> fill list \<Rightarrow> engine_state \<Rightarrow> engine_state" where
  "sync_makers m fills s = (case get_orderbook s m of
       None \<Rightarrow> s
     | Some book \<Rightarrow>
         let ids = rev (remdups (rev (map f_maker_oid fills)));
             fully = filter (\<lambda>i. book_get i book = None) ids;
             partially = List.map_filter (\<lambda>i. map_option (\<lambda>ord. (i, o_rem ord)) (book_get i book)) ids;
             s1 = fold (\<lambda>i s. snd (remove_order m i s)) fully s
         in fold (\<lambda>(i, r). update_order_remaining m i r) partially s1)"

definition fill_pnl :: "engine_state \<Rightarrow> address \<Rightarrow> market_id \<Rightarrow> fill \<Rightarrow> bool \<Rightarrow> int \<Rightarrow> int option" where
  "fill_pnl s a m f is_buy dflt = (case get_position s a m of
       None \<Rightarrow> Some dflt
     | Some p \<Rightarrow> map_option d_val (calculate_fill_pnl p (fill_amount f) (fill_price f) is_buy))"

definition settle_fill :: "market_config \<Rightarrow> engine_state \<Rightarrow> fill \<Rightarrow> fill option" where
  "settle_fill cfg s f = do {
     pm \<leftarrow> fill_pnl s (f_maker f) (f_market f) f (\<not> f_taker_buy f) (f_pnl_maker f);
     pt \<leftarrow> fill_pnl s (f_taker f) (f_market f) f (f_taker_buy f) (f_pnl_taker f);
     notional \<leftarrow> dec_mul (fill_amount f) (fill_price f);
     notional_usdc \<leftarrow> to_decimals notional USDC_DECIMALS;
     mf \<leftarrow> maker_fee cfg notional_usdc;
     tf \<leftarrow> taker_fee cfg notional_usdc;
     Some (f \<lparr> f_pnl_maker := pm, f_pnl_taker := pt, f_maker_fee := d_val mf,
               f_taker_fee := wrap_u128 (d_val tf) \<rparr>)
   }"

definition apply_fills :: "market_config \<Rightarrow> fill list \<Rightarrow> engine \<Rightarrow> (engine \<times> fill list) option" where
  "apply_fills cfg fills e = ofold (\<lambda>f (e, settled). do {
      f' \<leftarrow> settle_fill cfg (en_state e) f;
      e' \<leftarrow> en_apply_fill f' e;
      Some (e', settled @ [f'])
    }) fills (e, [])"

text \<open>
  Order placement and trigger activation call each other: a fill moves the mark
  price, which can activate waiting orders, which are placed in turn.  Both are
  written with the placement function as an argument; the recursion is closed
  below.
\<close>

type_synonym placement =
  "address \<Rightarrow> order_request \<Rightarrow> timestamp \<Rightarrow> engine \<Rightarrow> ((error + order \<times> fill list) \<times> engine) option"

definition trigger_request :: "order \<Rightarrow> order_request" where
  "trigger_request t =
     \<lparr> q_market = o_market t, q_side = o_side t, q_price = o_price t, q_size = o_rem t,
       q_type = o_type t, q_reduce_only = o_reduce_only t, q_cloid = o_cloid t,
       q_trig_price = None, q_trig_dir = None \<rparr>"

definition activate ::
  "placement \<Rightarrow> timestamp \<Rightarrow> order \<Rightarrow> (order \<times> fill list) list \<times> engine \<Rightarrow> ((order \<times> fill list) list \<times> engine) option"
where
  "activate place ts t st = (case st of (results, e) \<Rightarrow> do {
     (r, e') \<leftarrow> place (o_owner t) (trigger_request t) ts e;
     Some (case r of Inr x \<Rightarrow> results @ [x] | Inl _ \<Rightarrow> results, e')
   })"

definition check_triggers_with ::
  "placement \<Rightarrow> market_id \<Rightarrow> decimal \<Rightarrow> timestamp \<Rightarrow> engine \<Rightarrow> ((order \<times> fill list) list \<times> engine) option" where
  "check_triggers_with place m mark ts e =
    (let (above, s1) = get_triggered_orders_above m mark (en_state e);
         (below, s2) = get_triggered_orders_below m mark s1;
         all_triggered = sort_key o_id (above @ below)
     in ofold (activate place ts) all_triggered ([], e \<lparr> en_state := s2 \<rparr>))"

text \<open>After the fills: the remainder rests, and the new mark price activates waiting orders.\<close>

definition finish_order ::
  "placement \<Rightarrow> market_id \<Rightarrow> timestamp \<Rightarrow> order \<Rightarrow> fill list \<Rightarrow> engine \<Rightarrow>
   ((error + order \<times> fill list) \<times> engine) option" where
  "finish_order place m ts ord settled e =
    (let e1 = (if \<not> is_filled ord \<and> should_rest ord then upd_state (add_order ord) e else e);
         mark = (case get_market (en_state e1) m of
                   Some mk \<Rightarrow> ms_mark_price (m_state mk) | None \<Rightarrow> Decimal 0 0)
     in if settled \<noteq> [] \<and> \<not> is_zero mark
        then map_option (\<lambda>(_, e2). (Inr (ord, settled), e2)) (check_triggers_with place m mark ts e1)
        else Some (Inr (ord, settled), e1))"

text \<open>The part of the placement after the checks: match, settle, rest, activate.\<close>

definition execute_order ::
  "placement \<Rightarrow> market \<Rightarrow> order \<Rightarrow> timestamp \<Rightarrow> engine \<Rightarrow> ((error + order \<times> fill list) \<times> engine) option" where
  "execute_order place mk ord ts e = (let m = o_market ord in
     case get_orderbook (en_state e) m of
       None \<Rightarrow> Some (Inl (MarketNotFound m), e)
     | Some book \<Rightarrow> do {
         (r, book') \<leftarrow> process_order ord book;
         let e1 = upd_state (es_set_orderbook m book') e;
         (case r of
            Inl err \<Rightarrow> Some (Inl err, e1)
          | Inr (ord', fills) \<Rightarrow> do {
              (e2, settled) \<leftarrow> apply_fills (m_config mk) fills (upd_state (sync_makers m fills) e1);
              finish_order place m ts ord' settled e2
            })
       })"

definition check_account ::
  "address \<Rightarrow> order_request \<Rightarrow> market \<Rightarrow> engine_state \<Rightarrow> (error + unit) option" where
  "check_account a q mk s = do {
     acc \<leftarrow> es_get_account s a;
     let p = (case get_position s a (q_market q) of Some p \<Rightarrow> p | None \<Rightarrow> position_new);
     if q_reduce_only q then Some (validate_reduce_only q p)
     else check_order_margin q acc p mk (get_leverage s a (q_market q))
   }"

text \<open>The account and its position exist and the balance is that of the shared ledger.\<close>

definition check_in :: "address \<Rightarrow> market_id \<Rightarrow> engine \<Rightarrow> engine" where
  "check_in a m e =
     upd_state (get_or_create_position a m) (sync_balance a (upd_state (get_or_create_account a) e))"

definition take_order_id :: "engine \<Rightarrow> order_id \<times> engine" where
  "take_order_id e = (let (i, s) = es_take_order_id (en_state e) in (i, e \<lparr> en_state := s \<rparr>))"

definition place_order_body :: "placement \<Rightarrow> placement" where
  "place_order_body place a q ts e = (let m = q_market q in
     case get_market (en_state e) m of
       None \<Rightarrow> Some (Inl (MarketNotFound m), e)
     | Some mk \<Rightarrow>
         if \<not> is_tradeable (m_state mk) then Some (Inl (MarketPaused (mc_symbol (m_config mk))), e)
         else do {
           v \<leftarrow> validate_order q (m_config mk);
           (case v of
              Inl err \<Rightarrow> Some (Inl err, e)
            | Inr _ \<Rightarrow> do {
                let e2 = check_in a m e;
                c \<leftarrow> check_account a q mk (en_state e2);
                (case c of
                   Inl err \<Rightarrow> Some (Inl err, e2)
                 | Inr _ \<Rightarrow>
                     let (i, e3) = take_order_id e2;
                         ord = order_new i a q ts
                     in if o_trig_price ord \<noteq> None
                        then Some (Inr (ord, []), upd_state (add_trigger_order ord) e3)
                        else execute_order place mk ord ts e3)
              })
         })"

text \<open>
  The closed recursion: every activation removes at least one trigger price level
  from the state, so one more unfolding than there are levels is enough, whatever
  the innermost call would do.
\<close>

definition trigger_levels :: "engine_state \<Rightarrow> nat" where
  "trigger_levels s = hm_sum (\<lambda>_ bm. length bm) (es_triggers_above s) + hm_sum (\<lambda>_ bm. length bm) (es_triggers_below s)"

definition place_order_fuel :: "nat \<Rightarrow> placement \<Rightarrow> placement" where
  "place_order_fuel n bottom = (place_order_body ^^ n) bottom"

definition place_order :: placement where
  "place_order a q ts e = place_order_fuel (Suc (trigger_levels (en_state e))) (\<lambda>_ _ _ _. None) a q ts e"

definition check_triggers ::
  "market_id \<Rightarrow> decimal \<Rightarrow> timestamp \<Rightarrow> engine \<Rightarrow> ((order \<times> fill list) list \<times> engine) option" where
  "check_triggers = check_triggers_with place_order"

section \<open>Cancellation, leverage, margin mode\<close>

definition cancel_order :: "address \<Rightarrow> market_id \<Rightarrow> order_id \<Rightarrow> engine \<Rightarrow> (error + order) \<times> engine" where
  "cancel_order a m i e = (case get_order (en_state e) m i of
       None \<Rightarrow> (Inl (OrderNotFound i), e)
     | Some ord \<Rightarrow>
         if o_owner ord \<noteq> a then (Inl OrderNotOwned, e)
         else let e1 = upd_state (\<lambda>s. snd (remove_order m i s)) e;
                  (r, me) = remove_from_book m ord (en_matching e1);
                  e2 = e1 \<lparr> en_matching := me \<rparr>
              in (case r of Inl err \<Rightarrow> (Inl err, e2) | Inr _ \<Rightarrow> (Inr (order_cancel ord), e2)))"

fun cancel_orders :: "market_id \<Rightarrow> order list \<Rightarrow> order list \<Rightarrow> engine \<Rightarrow> (error + order list) \<times> engine" where
  "cancel_orders m [] acc e = (Inr acc, e)"
| "cancel_orders m (ord # os) acc e =
    (let e1 = upd_state (\<lambda>s. snd (remove_order m (o_id ord) s)) e;
         (r, me) = remove_from_book m ord (en_matching e1);
         e2 = e1 \<lparr> en_matching := me \<rparr>
     in (case r of Inl err \<Rightarrow> (Inl err, e2) | Inr _ \<Rightarrow> cancel_orders m os (acc @ [order_cancel ord]) e2))"

definition cancel_all_orders :: "address \<Rightarrow> market_id \<Rightarrow> engine \<Rightarrow> (error + order list) \<times> engine" where
  "cancel_all_orders a m e = cancel_orders m (get_orders_by_account (en_state e) a m) [] e"

definition update_leverage :: "address \<Rightarrow> market_id \<Rightarrow> nat \<Rightarrow> engine \<Rightarrow> ((error + unit) \<times> engine) option" where
  "update_leverage a m lev e = (case get_market (en_state e) m of
       None \<Rightarrow> Some (Inl (MarketNotFound m), e)
     | Some mk \<Rightarrow>
         if lev < 1 \<or> lev > mc_max_leverage (m_config mk)
         then Some (Inl (InvalidLeverage lev (mc_max_leverage (m_config mk))), e)
         else do {
           c \<leftarrow> (case get_position (en_state e) a m of
                   None \<Rightarrow> Some (Inr ())
                 | Some p \<Rightarrow>
                     if pos_is_empty p then Some (Inr ())
                     else (case es_get_account (en_state e) a of
                             None \<Rightarrow> Some (Inl (Internal ''Account not found''))
                           | Some acc \<Rightarrow> check_leverage_change acc p mk lev));
           (case c of
              Inl err \<Rightarrow> Some (Inl err, e)
            | Inr _ \<Rightarrow> Some (Inr (), upd_state (set_leverage a m lev) e))
         })"

definition set_margin_mode :: "address \<Rightarrow> margin_mode \<Rightarrow> engine \<Rightarrow> (error + unit) \<times> engine" where
  "set_margin_mode a mode e =
    (if list_ex (\<lambda>(_, p). \<not> pos_is_empty p) (get_all_positions (en_state e) a)
     then (Inl (Internal ''Cannot change margin mode with open positions''), e)
     else (Inr (), upd_state (es_set_margin_mode a mode) e))"

section \<open>Funding\<close>

definition funding_rates ::
  "timestamp \<Rightarrow> market_id \<Rightarrow> engine \<times> (market_id \<times> decimal) list \<Rightarrow> (engine \<times> (market_id \<times> decimal) list) option" where
  "funding_rates ts m st = (case st of (e, rates) \<Rightarrow> (case get_market (en_state e) m of
       None \<Rightarrow> Some st
     | Some mk \<Rightarrow>
         if ts \<ge> ms_next_funding_time (m_state mk) then do {
           rate \<leftarrow> calculate_funding_rate (en_funding e) (m_state mk) (ms_index_price (m_state mk));
           mk' \<leftarrow> fe_settle_funding (en_funding e) rate ts mk;
           Some (upd_state (es_set_market m mk') e, rates @ [(m, rate)])
         } else Some st))"

definition funding_accounts :: "market_id \<Rightarrow> engine_state \<Rightarrow> address list" where
  "funding_accounts m s = sort (List.map_filter (\<lambda>(a, mp). case hm_get mp m of
       Some p \<Rightarrow> if pos_is_empty p then None else Some a
     | None \<Rightarrow> None) (es_positions s))"

definition apply_payment :: "address \<Rightarrow> decimal \<Rightarrow> engine \<Rightarrow> engine option" where
  "apply_payment a payment e = (let amount = dec_abs payment in do {
     us \<leftarrow> (case en_unified e of
              None \<Rightarrow> Some None
            | Some us \<Rightarrow> map_option Some
                (if is_positive payment then map_option snd (debit_core a 0 amount us)
                 else credit a 0 amount us));
     Some ((upd_state (es_update_account a (\<lambda>acc. acc \<lparr> a_balance :=
         wrap_i128 (if is_positive payment then a_balance acc - d_val amount
                    else a_balance acc + d_val amount) \<rparr>)) e) \<lparr> en_unified := us \<rparr>)
   })"

definition settle_account ::
  "market_id \<Rightarrow> decimal \<Rightarrow> decimal \<Rightarrow> timestamp \<Rightarrow> address \<Rightarrow> engine \<Rightarrow> engine option" where
  "settle_account m rate accumulator ts a e = (case get_position (en_state e) a m of
       None \<Rightarrow> Some e
     | Some p \<Rightarrow>
         if pos_is_empty p then Some e
         else do {
           (payment, p') \<leftarrow> settle_funding p accumulator;
           let e1 = upd_state (set_position a m p') e;
           if is_zero payment then Some e1
           else do {
             e2 \<leftarrow> apply_payment a payment e1;
             Some (upd_state (record_funding_payment
               \<lparr> fp_market = m, fp_account = a, fp_payment = d_val payment,
                 fp_position_size = d_val (p_size p), fp_funding_rate = d_val rate, fp_ts = ts \<rparr>) e2)
           }
         })"

definition settle_market :: "timestamp \<Rightarrow> market_id \<times> decimal \<Rightarrow> engine \<Rightarrow> engine option" where
  "settle_market ts mr e = (case mr of (m, rate) \<Rightarrow> (case get_market (en_state e) m of
       None \<Rightarrow> Some e
     | Some mk \<Rightarrow> do {
         e' \<leftarrow> ofold (settle_account m rate (ms_funding_accumulator (m_state mk)) ts)
                 (funding_accounts m (en_state e)) e;
         Some (upd_state (record_market_funding m ts (d_val rate)) e')
       }))"

definition process_funding :: "timestamp \<Rightarrow> engine \<Rightarrow> ((market_id \<times> decimal) list \<times> engine) option" where
  "process_funding ts e = do {
     (e1, rates) \<leftarrow> ofold (funding_rates ts) (get_market_ids (en_state e)) (e, []);
     e2 \<leftarrow> ofold (settle_market ts) rates e1;
     Some (rates, e2)
   }"

section \<open>Finding accounts under water\<close>

type_synonym candidate = "address \<times> market_id \<times> position \<times> market"

definition liquidation_candidates :: "engine_state \<Rightarrow> candidate list" where
  "liquidation_candidates s = concat (map (\<lambda>(a, _).
     List.map_filter (\<lambda>(m, p). if pos_is_empty p then None
        else map_option (\<lambda>mk. (a, m, p, mk)) (get_market s m)) (get_all_positions s a)) (es_accounts s))"

fun chunks64 :: "'a list \<Rightarrow> 'a list list" where
  "chunks64 xs = (if xs = [] then [] else take 64 xs # chunks64 (drop 64 xs))"

declare chunks64.simps [simp del]

definition candidate_row :: "engine_state \<Rightarrow> candidate \<Rightarrow> (int \<times> int \<times> int \<times> int \<times> int) option" where
  "candidate_row s c = (case c of (a, m, p, mk) \<Rightarrow> do {
     mark \<leftarrow> to_decimals (ms_mark_price (m_state mk)) PRICE_DECIMALS;
     ep \<leftarrow> entry_price p;
     entry \<leftarrow> to_decimals (case ep of Some x \<Rightarrow> x | None \<Rightarrow> ms_mark_price (m_state mk)) PRICE_DECIMALS;
     sz \<leftarrow> to_decimals (p_size p) PRICE_DECIMALS;
     balance \<leftarrow> (case es_get_account s a of
                   Some acc \<Rightarrow> map_option d_val (to_decimals (Decimal (a_balance acc) USDC_DECIMALS) PRICE_DECIMALS)
                 | None \<Rightarrow> Some 0);
     maint \<leftarrow> to_decimals (mc_maintenance_margin_rate (m_config mk)) PRICE_DECIMALS;
     Some (d_val mark, d_val entry, d_val sz, balance, d_val maint)
   })"

definition find_worst_position :: "(position \<times> market) list \<Rightarrow> market_id option" where
  "find_worst_position ps = do {
     rows \<leftarrow> omap (\<lambda>(p, mk). do {
         v \<leftarrow> unrealized_pnl p (ms_mark_price (m_state mk));
         Some (d_val v, mc_id (m_config mk))
       }) (filter (\<lambda>(p, _). \<not> pos_is_empty p) ps);
     Some (case rows of [] \<Rightarrow> 0 | r # rs \<Rightarrow> snd (foldl (\<lambda>b x. if fst x < fst b then x else b) r rs))
   }"

definition confirm_candidate ::
  "engine_state \<Rightarrow> candidate \<times> bool \<Rightarrow> (address \<times> market_id) list \<times> address list \<Rightarrow>
   ((address \<times> market_id) list \<times> address list) option" where
  "confirm_candidate s cf st = (case cf of ((a, m, p, mk), flagged) \<Rightarrow> (case st of (result, confirmed) \<Rightarrow>
     if \<not> flagged then Some st
     else (case get_margin_mode s a of
         Isolated \<Rightarrow> (case es_get_account s a of
             None \<Rightarrow> Some st
           | Some acc \<Rightarrow> do {
               l \<leftarrow> is_liquidatable acc p mk;
               Some (if l then (result @ [(a, m)], confirmed) else st)
             })
       | Cross \<Rightarrow>
           if a \<in> set confirmed then Some st
           else let all_positions = List.map_filter (\<lambda>(m', p'). map_option (Pair p') (get_market s m'))
                      (get_all_positions s a)
                in (case es_get_account s a of
                      None \<Rightarrow> Some st
                    | Some acc \<Rightarrow> do {
                        l \<leftarrow> is_account_liquidatable acc all_positions;
                        if l then do {
                          w \<leftarrow> find_worst_position all_positions;
                          Some (result @ [(a, w)], a # confirmed)
                        } else Some st
                      }))))"

definition screen_chunk ::
  "engine_state \<Rightarrow> candidate list \<Rightarrow> (address \<times> market_id) list \<times> address list \<Rightarrow>
   ((address \<times> market_id) list \<times> address list) option" where
  "screen_chunk s chunk st = do {
     rows \<leftarrow> omap (candidate_row s) chunk;
     flags \<leftarrow> batch_liquidation_check (map fst rows) (map (fst \<circ> snd) rows) (map (fst \<circ> snd \<circ> snd) rows)
               (map (fst \<circ> snd \<circ> snd \<circ> snd) rows) (map (snd \<circ> snd \<circ> snd \<circ> snd) rows) (pow10 PRICE_DECIMALS);
     ofold (confirm_candidate s) (zip chunk flags) st
   }"

definition find_underwater_accounts :: "engine_state \<Rightarrow> (address \<times> market_id) list option" where
  "find_underwater_accounts s = do {
     (result, _) \<leftarrow> ofold (screen_chunk s) (chunks64 (liquidation_candidates s)) ([], []);
     Some (sort result)
   }"

section \<open>Liquidation and auto-deleveraging\<close>

definition adl_candidates :: "market_id \<Rightarrow> engine_state \<Rightarrow> (address \<times> decimal) list option" where
  "adl_candidates m s = map_option (\<lambda>rows. sort_key (\<lambda>(_, score). - d_val score) (List.map_filter (\<lambda>r. r) rows))
     (omap (\<lambda>(a, mp). case hm_get mp m of
        None \<Rightarrow> Some None
      | Some p \<Rightarrow>
          if pos_is_empty p then Some None
          else (case get_market s m of
                  None \<Rightarrow> Some None
                | Some mk \<Rightarrow> do {
                    score \<leftarrow> calculate_adl_score p mk (get_leverage s a m);
                    Some (if is_positive score then Some (a, score) else None)
                  })) (es_positions s))"

text \<open>One turn of the loop; once the deficit is covered the remaining turns do nothing (the \<open>break\<close>).\<close>

definition adl_step ::
  "market_id \<Rightarrow> decimal \<Rightarrow> address \<times> decimal \<Rightarrow> engine_state \<times> decimal \<Rightarrow> (engine_state \<times> decimal) option" where
  "adl_step m price c st = (case st of (s, deficit) \<Rightarrow>
     if is_zero deficit \<or> \<not> is_positive deficit then Some st
     else (case get_position s (fst c) m of
         None \<Rightarrow> Some st
       | Some p \<Rightarrow>
           if pos_is_empty p then Some st
           else do {
             notional \<leftarrow> notional_value p price;
             notional_usdc \<leftarrow> to_decimals notional USDC_DECIMALS;
             let adl_notional = dec_min deficit notional_usdc;
             if is_zero notional_usdc then Some st
             else do {
               ratio \<leftarrow> dec_div adl_notional notional_usdc;
               ratio' \<leftarrow> to_decimals ratio (d_dec (abs_size p));
               adl_size \<leftarrow> dec_mul (abs_size p) ratio';
               if is_zero adl_size then Some st
               else do {
                 s' \<leftarrow> upd_position (fst c) m (\<lambda>p'. pos_apply_fill p' adl_size price (is_short p)) s;
                 deficit' \<leftarrow> dec_sub deficit adl_notional;
                 Some (s', deficit')
               }
             }
           }))"

definition trigger_adl :: "market_id \<Rightarrow> decimal \<Rightarrow> decimal \<Rightarrow> engine_state \<Rightarrow> engine_state option" where
  "trigger_adl m deficit price s = do {
     cs \<leftarrow> adl_candidates m s;
     (s', _) \<leftarrow> ofold (adl_step m price) cs (s, deficit);
     Some s'
   }"

text \<open>The surplus or deficit against the bankruptcy price: to or from the insurance fund, then ADL.\<close>

definition settle_residual ::
  "market_id \<Rightarrow> decimal \<Rightarrow> decimal \<Rightarrow> bool \<Rightarrow> decimal \<Rightarrow> engine_state \<Rightarrow> engine_state option" where
  "settle_residual m sz price is_buy bankruptcy s = do {
     per_unit \<leftarrow> (if is_buy then dec_sub bankruptcy price else dec_sub price bankruptcy);
     residual \<leftarrow> dec_mul per_unit sz;
     usdc \<leftarrow> to_decimals residual USDC_DECIMALS;
     if is_positive usdc then Some (add_to_insurance_fund (d_val usdc) s)
     else if is_negative usdc then
       (let deficit = d_val (dec_neg usdc); (ok, s1) = use_insurance_fund deficit s
        in if ok then Some s1 else trigger_adl m (Decimal deficit USDC_DECIMALS) price s1)
     else Some s
   }"

definition apply_liquidation ::
  "address \<Rightarrow> market_id \<Rightarrow> decimal \<Rightarrow> decimal \<Rightarrow> engine_state \<Rightarrow> engine_state option" where
  "apply_liquidation a m sz price s = (case get_position s a m of
       None \<Rightarrow> Some s
     | Some p \<Rightarrow> do {
         b \<leftarrow> calculate_bankruptcy_price p (es_get_balance s a);
         s1 \<leftarrow> (case b of
                  None \<Rightarrow> Some s
                | Some bankruptcy \<Rightarrow> settle_residual m sz price (is_short p) bankruptcy s);
         s2 \<leftarrow> upd_position a m (\<lambda>p'. pos_apply_fill p' sz price (is_short p)) s1;
         Some (cancel_trigger_orders_for_position a m s2)
       })"

definition liquidate_one ::
  "liquidation_engine \<Rightarrow> address \<times> market_id \<Rightarrow> engine_state \<times> (address \<times> market_id \<times> decimal) list \<Rightarrow>
   (engine_state \<times> (address \<times> market_id \<times> decimal) list) option" where
  "liquidate_one le am st = (case am of (a, m) \<Rightarrow> (case st of (s, ls) \<Rightarrow>
     (case (get_market s m, get_position s a m) of
        (Some mk, Some p) \<Rightarrow> do {
          r \<leftarrow> process_liquidation le p mk;
          (case r of
             None \<Rightarrow> Some st
           | Some (sz, price) \<Rightarrow> do {
               s' \<leftarrow> apply_liquidation a m sz price s;
               Some (s', ls @ [(a, m, sz)])
             })
        }
      | _ \<Rightarrow> Some st)))"

definition process_liquidations :: "engine \<Rightarrow> ((address \<times> market_id \<times> decimal) list \<times> engine) option" where
  "process_liquidations e = do {
     accounts \<leftarrow> find_underwater_accounts (en_state e);
     (s', ls) \<leftarrow> ofold (liquidate_one (en_liquidation e)) accounts (en_state e, []);
     Some (ls, e \<lparr> en_state := s' \<rparr>)
   }"

end
