(* ===== verification/Engine_Facts.thy ===== *)
theory Engine_Facts
  imports Engine
begin

text \<open>
  Properties of the perpetuals engine: the recursion between order placement and
  trigger activation ends, the checks of an order are exact, cancellation removes
  the order everywhere, a fill moves open interest as it moves the positions, and
  the insurance fund is never overdrawn.
\<close>

section \<open>The recursion through trigger orders ends\<close>

lemma hm_sum_insert_balance:
  fixes f :: "'k \<Rightarrow> 'v \<Rightarrow> nat"
  shows "hm_get m k = Some w \<Longrightarrow> hm_sum f (hm_insert k v m) + f k w = hm_sum f m + f k v"
  by (induction m) (auto simp: hm_sum_def hm_insert_def hm_get_def split: if_splits)

named_theorems level_simps \<open>operations and the number of trigger price levels\<close>

lemma length_bt_remove_le: "length (bt_remove k m) \<le> length m"
  by (induction k m rule: bt_remove.induct) auto

lemma length_bt_remove_less: "bt_get m k \<noteq> None \<Longrightarrow> length (bt_remove k m) < length m"
  by (induction k m rule: bt_remove.induct) (auto simp: bt_get_def)

lemma length_bt_set [simp]: "length (bt_set k v m) = length m"
  by (simp add: bt_set_def)

lemma trigger_levels_set_map:
  assumes "hm_get (trigger_map_of d s) m = Some bm"
  shows "trigger_levels (set_trigger_map d (hm_insert m bm' (trigger_map_of d s)) s) + length bm
    = trigger_levels s + length bm'"
  using hm_sum_insert_balance [OF assms, of "\<lambda>_. length" bm']
  by (cases d) (simp_all add: trigger_levels_def trigger_map_of_def set_trigger_map_def)

lemma trigger_levels_index [simp, level_simps]:
  "trigger_levels (s \<lparr> es_trigger_index := x \<rparr>) = trigger_levels s"
  by (simp add: trigger_levels_def)

lemma remove_trigger_order_levels: "trigger_levels (snd (remove_trigger_order i s)) \<le> trigger_levels s"
proof -
  have "trigger_levels (set_trigger_map d (hm_insert m (if rest = [] then bt_remove raw bm else bt_set raw rest bm)
      (trigger_map_of d s)) s) \<le> trigger_levels s"
    if "hm_get (trigger_map_of d s) m = Some bm" for d m bm rest raw and s :: engine_state
    using trigger_levels_set_map [OF that, of "if rest = [] then bt_remove raw bm else bt_set raw rest bm"]
      length_bt_remove_le [of raw bm] by (auto split: if_splits)
  from this [where s = "s \<lparr> es_trigger_index := hm_remove i (es_trigger_index s) \<rparr>"] show ?thesis
    by (auto simp: remove_trigger_order_def Let_def simp del: trigger_map_of_set split: option.split)
qed

lemma cancel_triggers_levels:
  "trigger_levels (cancel_trigger_orders_for_position a m s) \<le> trigger_levels s"
proof -
  have "trigger_levels (fold (\<lambda>i s. snd (remove_trigger_order i s)) ids s) \<le> trigger_levels s" for ids
    by (induction ids arbitrary: s) (auto intro: order_trans [OF _ remove_trigger_order_levels])
  then show ?thesis unfolding cancel_trigger_orders_for_position_def Let_def by blast
qed

lemma fold_drain_levels:
  "fold drain_key ks (bm, idx, res) = (bm', idx', res') \<Longrightarrow>
    length bm' \<le> length bm \<and> (res' \<noteq> res \<longrightarrow> length bm' < length bm)"
proof (induction ks arbitrary: bm idx res)
  case (Cons k ks)
  show ?case
  proof (cases "bt_get bm k")
    case None
    then show ?thesis using Cons by (simp add: drain_key_def)
  next
    case (Some os)
    let ?idx = "fold (\<lambda>ord. hm_remove (o_id ord)) os idx"
    have "drain_key k (bm, idx, res) = (bt_remove k bm, ?idx, res @ os)" using Some by (simp add: drain_key_def)
    then show ?thesis
      using Cons.IH [of "bt_remove k bm" ?idx "res @ os"] Cons.prems length_bt_remove_less [of bm k] Some by simp
  qed
qed simp

lemma get_triggered_levels:
  assumes "get_triggered d hit m s = (res, s')"
  shows "trigger_levels s' \<le> trigger_levels s" "res \<noteq> [] \<Longrightarrow> trigger_levels s' < trigger_levels s"
proof -
  have "trigger_levels s' \<le> trigger_levels s \<and> (res \<noteq> [] \<longrightarrow> trigger_levels s' < trigger_levels s)"
  proof (cases "hm_get (trigger_map_of d s) m")
    case None
    then show ?thesis using assms by (simp add: get_triggered_def)
  next
    case (Some bm)
    obtain bm' idx' res' where f: "fold drain_key (filter hit (map fst bm)) (bm, es_trigger_index s, []) = (bm', idx', res')"
      by (meson prod_cases3)
    then show ?thesis
      using assms Some fold_drain_levels [OF f] trigger_levels_set_map [OF Some, of bm']
      by (auto simp: get_triggered_def Let_def)
  qed
  then show "trigger_levels s' \<le> trigger_levels s" "res \<noteq> [] \<Longrightarrow> trigger_levels s' < trigger_levels s" by auto
qed

text \<open>Everything else that placing an order does leaves the trigger maps alone.\<close>

definition same_triggers :: "engine_state \<Rightarrow> engine_state \<Rightarrow> bool" where
  "same_triggers s s' = (es_triggers_above s' = es_triggers_above s \<and> es_triggers_below s' = es_triggers_below s)"

lemma same_triggers_levels: "same_triggers s s' \<Longrightarrow> trigger_levels s' = trigger_levels s"
  by (simp add: same_triggers_def trigger_levels_def)

lemma same_triggers_refl [simp]: "same_triggers s s"
  by (simp add: same_triggers_def)

lemma same_triggers_trans [trans]: "same_triggers s t \<Longrightarrow> same_triggers t u \<Longrightarrow> same_triggers s u"
  by (simp add: same_triggers_def)

lemma same_triggers_fold: "(\<And>x s. same_triggers s (f x s)) \<Longrightarrow> same_triggers s (fold f xs s)"
  by (induction xs arbitrary: s) (auto intro: same_triggers_trans)

lemma same_triggers_ops [simp]:
  "same_triggers s (es_update_account a f s)" "same_triggers s (get_or_create_account a s)"
  "same_triggers s (set_position a m p s)" "same_triggers s (get_or_create_position a m s)"
  "same_triggers s (es_set_market m mk s)" "same_triggers s (es_set_orderbook m b s)"
  "same_triggers s (index_push a m i s)" "same_triggers s (snd (remove_order m i s))"
  "same_triggers s (update_order_remaining m i r s)" "same_triggers s (record_fill fl s)"
  "same_triggers s (snd (es_take_order_id s))"
  by (auto simp: same_triggers_def es_update_account_def get_or_create_account_def set_position_def
      get_or_create_position_def es_set_market_def es_set_orderbook_def index_push_def remove_order_def
      update_order_remaining_def record_fill_def es_take_order_id_def Let_def split: option.split)

lemma same_triggers_add_order [simp]: "same_triggers s (add_order ord s)"
  by (auto simp: same_triggers_def add_order_def index_push_def es_set_orderbook_def Let_def split: option.split)

lemma same_triggers_sync_makers [simp]: "same_triggers s (sync_makers m fills s)"
proof -
  have "same_triggers s (fold (\<lambda>i s. snd (remove_order m i s)) ids s)"
    "same_triggers s (fold (\<lambda>(i, r). update_order_remaining m i r) ps s)" for s ids ps
    by (auto intro: same_triggers_fold)
  then have "same_triggers s (fold (\<lambda>(i, r). update_order_remaining m i r) ps
      (fold (\<lambda>i s. snd (remove_order m i s)) ids s))" for ids ps
    by (meson same_triggers_trans)
  then show ?thesis unfolding sync_makers_def Let_def by (simp split: option.split)
qed

lemma same_triggers_bookkeeping [simp]: "same_triggers s (book_fees f s)" "same_triggers s (stamp_trade f s)"
  by (auto simp: book_fees_def stamp_trade_def split: option.split
      intro: same_triggers_trans [OF same_triggers_ops(1) same_triggers_ops(1)])

lemma same_triggers_upd_position: "upd_position a m f s = Some s' \<Longrightarrow> same_triggers s s'"
  by (auto simp: upd_position_def Option.bind_eq_Some_conv split: option.splits)

lemma same_triggers_update_mark_price: "update_mark_price m p s = Some s' \<Longrightarrow> same_triggers s s'"
  by (auto simp: update_mark_price_def Option.bind_eq_Some_conv split: option.splits)

lemma same_triggers_apply_fill_positions:
  assumes "apply_fill_positions f s = Some s'" shows "same_triggers s s'"
proof -
  obtain s1 s2 where "upd_position (f_maker f) (f_market f)
        (\<lambda>p. pos_apply_fill p (fill_amount f) (fill_price f) (\<not> f_taker_buy f)) s = Some s1"
    "upd_position (f_taker f) (f_market f)
        (\<lambda>p. pos_apply_fill p (fill_amount f) (fill_price f) (f_taker_buy f)) s1 = Some s2"
    "same_triggers s2 s'"
    using assms by (auto simp: apply_fill_positions_def Let_def Option.bind_eq_Some_conv split: option.splits)
  then show ?thesis by (meson same_triggers_trans same_triggers_upd_position)
qed

lemma cancel_triggers_if_flat_levels: "trigger_levels (cancel_triggers_if_flat a m s) \<le> trigger_levels s"
  by (auto simp: cancel_triggers_if_flat_def cancel_triggers_levels split: option.split)

lemma en_apply_fill_levels:
  assumes "en_apply_fill f e = Some e'"
  shows "trigger_levels (en_state e') \<le> trigger_levels (en_state e)"
proof -
  obtain s1 s3 where s: "apply_fill_positions f (en_state e) = Some s1"
    "update_mark_price (f_market f) (fill_price f) (stamp_trade f (book_fees f s1)) = Some s3"
    "en_state e' = cancel_triggers_if_flat (f_maker f) (f_market f)
       (cancel_triggers_if_flat (f_taker f) (f_market f) (record_fill f s3))"
    using assms by (auto simp: en_apply_fill_def Let_def Option.bind_eq_Some_conv)
  have "same_triggers (en_state e) (record_fill f s3)"
    using same_triggers_apply_fill_positions [OF s(1)] same_triggers_update_mark_price [OF s(2)]
    by (meson same_triggers_bookkeeping same_triggers_ops(10) same_triggers_trans)
  then show ?thesis
    unfolding s(3) using cancel_triggers_if_flat_levels same_triggers_levels by (metis order_trans)
qed

lemma apply_fills_levels:
  "apply_fills cfg fills e = Some (e', fs) \<Longrightarrow> trigger_levels (en_state e') \<le> trigger_levels (en_state e)"
  unfolding apply_fills_def
  by (drule ofold_invariant [where P = "\<lambda>(x, _). trigger_levels (en_state x) \<le> trigger_levels (en_state e)"])
     (auto simp: Option.bind_eq_Some_conv dest!: en_apply_fill_levels)

text \<open>
  A placement is quiet below \<open>n\<close> when an order without trigger price adds no
  trigger level; two placements agree below \<open>n\<close> when they have the same result in
  states with fewer than \<open>n\<close> levels.
\<close>

definition quiet :: "nat \<Rightarrow> placement \<Rightarrow> bool" where
  "quiet n place = (\<forall>a q ts e r e'. q_trig_price q = None \<longrightarrow> trigger_levels (en_state e) < n \<longrightarrow>
     place a q ts e = Some (r, e') \<longrightarrow> trigger_levels (en_state e') \<le> trigger_levels (en_state e))"

definition agree :: "nat \<Rightarrow> placement \<Rightarrow> placement \<Rightarrow> bool" where
  "agree n place place' = (\<forall>a q ts e. trigger_levels (en_state e) < n \<longrightarrow> place a q ts e = place' a q ts e)"

lemma trigger_request_trig [simp]: "q_trig_price (trigger_request t) = None"
  by (simp add: trigger_request_def)

lemma activate_loop:
  assumes "quiet n place" "agree n place place'" "trigger_levels (en_state e) < n"
  shows "ofold (activate place ts) os (res, e) = ofold (activate place' ts) os (res, e) \<and>
    (\<forall>res' e'. ofold (activate place ts) os (res, e) = Some (res', e') \<longrightarrow>
       trigger_levels (en_state e') \<le> trigger_levels (en_state e))"
  using assms(3)
proof (induction os arbitrary: res e)
  case (Cons t os)
  have same: "activate place ts t (res, e) = activate place' ts t (res, e)"
    using assms(2) Cons.prems by (simp add: activate_def agree_def)
  show ?case
  proof (cases "activate place ts t (res, e)")
    case (Some st)
    obtain res1 e1 where st: "st = (res1, e1)" by fastforce
    obtain r where "place (o_owner t) (trigger_request t) ts e = Some (r, e1)"
      using Some st by (auto simp: activate_def Option.bind_eq_Some_conv)
    then have "trigger_levels (en_state e1) \<le> trigger_levels (en_state e)"
      using assms(1) Cons.prems trigger_request_trig [of t] unfolding quiet_def by blast
    with Cons.IH [of e1 res1] Cons.prems Some st same show ?thesis by fastforce
  qed (use same in simp)
qed simp

lemma check_triggers_loop:
  assumes "quiet n place" "agree n place place'" "trigger_levels (en_state e) \<le> n"
  shows "check_triggers_with place m mark ts e = check_triggers_with place' m mark ts e \<and>
    (\<forall>res' e'. check_triggers_with place m mark ts e = Some (res', e') \<longrightarrow>
       trigger_levels (en_state e') \<le> trigger_levels (en_state e))"
proof -
  obtain above s1 where a: "get_triggered_orders_above m mark (en_state e) = (above, s1)" by fastforce
  obtain below s2 where b: "get_triggered_orders_below m mark s1 = (below, s2)" by fastforce
  note levels = get_triggered_levels [OF a [unfolded get_triggered_orders_above_def]]
    get_triggered_levels [OF b [unfolded get_triggered_orders_below_def]]
  let ?os = "sort_key o_id (above @ below)" and ?e = "e \<lparr> en_state := s2 \<rparr>"
  have le: "trigger_levels s2 \<le> trigger_levels (en_state e)" using levels(1,3) by linarith
  have run: "check_triggers_with p m mark ts e = ofold (activate p ts) ?os ([], ?e)" for p
    using a b by (simp add: check_triggers_with_def)
  show ?thesis
  proof (cases "above @ below = []")
    case True
    then have "?os = []" by simp
    then show ?thesis unfolding run using le by simp
  next
    case False
    then have "trigger_levels s2 < trigger_levels (en_state e)" using levels by fastforce
    then show ?thesis
      unfolding run using activate_loop [OF assms(1,2), of ?e ts ?os "[]"] assms(3) le by fastforce
  qed
qed

lemma upd_state_sel [simp]: "en_state (upd_state f e) = f (en_state e)"
  by (simp add: upd_state_def)

lemma finish_order_loop:
  assumes "quiet n place" "agree n place place'" "trigger_levels (en_state e) \<le> n"
  shows "finish_order place m ts ord fs e = finish_order place' m ts ord fs e \<and>
    (\<forall>r e'. finish_order place m ts ord fs e = Some (r, e') \<longrightarrow>
       trigger_levels (en_state e') \<le> trigger_levels (en_state e))"
proof -
  let ?e1 = "if \<not> is_filled ord \<and> should_rest ord then upd_state (add_order ord) e else e"
  have "trigger_levels (en_state ?e1) = trigger_levels (en_state e)"
    by (simp add: same_triggers_levels [OF same_triggers_add_order])
  then show ?thesis
    using check_triggers_loop [OF assms(1,2), of ?e1 m _ ts] assms(3)
    unfolding finish_order_def Let_def by (auto simp del: if_split_asm split: if_split)
qed

lemma execute_order_loop:
  assumes "quiet n place" "agree n place place'" "trigger_levels (en_state e) \<le> n"
  shows "execute_order place mk ord ts e = execute_order place' mk ord ts e"
    and "execute_order place mk ord ts e = Some (r, e') \<Longrightarrow>
       trigger_levels (en_state e') \<le> trigger_levels (en_state e)"
proof -
  let ?m = "o_market ord"
  let ?e1 = "\<lambda>book'. upd_state (es_set_orderbook ?m book') e"
  have book: "trigger_levels (es_set_orderbook ?m book' (en_state e)) = trigger_levels (en_state e)" for book'
    by (rule same_triggers_levels) simp
  have fills: "trigger_levels (en_state e2) \<le> trigger_levels (en_state e)"
    if "apply_fills (m_config mk) fills (upd_state (sync_makers ?m fills) (?e1 book')) = Some (e2, fs)"
    for fills book' e2 fs
    using apply_fills_levels [OF that] book by (simp add: same_triggers_levels [OF same_triggers_sync_makers])
  then have fin: "finish_order place ?m ts ord' fs e2 = finish_order place' ?m ts ord' fs e2"
    "finish_order place ?m ts ord' fs e2 = Some (r, e') \<Longrightarrow>
      trigger_levels (en_state e') \<le> trigger_levels (en_state e)"
    if "apply_fills (m_config mk) fills (upd_state (sync_makers ?m fills) (?e1 book')) = Some (e2, fs)"
    for fills book' e2 fs ord'
    using finish_order_loop [OF assms(1,2), of e2 ?m ts ord' fs] assms(3) that by (meson order_trans)+
  show "execute_order place mk ord ts e = execute_order place' mk ord ts e"
    unfolding execute_order_def Let_def
    by (intro option.case_cong refl Option.bind_cong) (auto intro!: Option.bind_cong fin(1) split: sum.split)
  show "trigger_levels (en_state e') \<le> trigger_levels (en_state e)"
    if run: "execute_order place mk ord ts e = Some (r, e')"
  proof (cases "get_orderbook (en_state e) ?m")
    case (Some b)
    obtain x book' where px: "process_order ord b = Some (x, book')"
      using run Some by (auto simp: execute_order_def Let_def Option.bind_eq_Some_conv)
    show ?thesis
      using run Some px fin(2)
      by (cases x) (auto simp: execute_order_def Let_def Option.bind_eq_Some_conv book)
  qed (use run in \<open>simp add: execute_order_def\<close>)
qed

lemma same_triggers_check_in: "same_triggers (en_state e) (en_state (check_in a m e))"
proof -
  have "same_triggers (en_state e) (en_state (sync_balance a (upd_state (get_or_create_account a) e)))"
    using same_triggers_trans [OF same_triggers_ops(2) same_triggers_ops(1)]
    by (auto simp: sync_balance_def split: option.split)
  then show ?thesis
    unfolding check_in_def by (metis same_triggers_ops(4) same_triggers_trans upd_state_sel)
qed

lemma same_triggers_take_order_id: "same_triggers (en_state e) (en_state (snd (take_order_id e)))"
  by (simp add: take_order_id_def es_take_order_id_def same_triggers_def)

lemma checked_cases:
  fixes x :: "(error + unit) option"
  obtains (panic) "x = None" | (error) err where "x = Some (Inl err)" | (ok) "x = Some (Inr ())"
  by (cases x; cases "the x") auto

text \<open>The branches of a placement: everything up to the matching is independent of the recursive call.\<close>

lemma place_order_body_cases:
  fixes a q ts e
  obtains (panic) "\<And>place. place_order_body place a q ts e = None"
  | (refused) err e1 where "\<And>place. place_order_body place a q ts e = Some (Inl err, e1)"
      "e1 = e \<or> e1 = check_in a (q_market q) e"
  | (stored) i e3 where "take_order_id (check_in a (q_market q) e) = (i, e3)" "q_trig_price q \<noteq> None"
      "\<And>place. place_order_body place a q ts e =
        Some (Inr (order_new i a q ts, []), upd_state (add_trigger_order (order_new i a q ts)) e3)"
  | (match) mk i e3 where "take_order_id (check_in a (q_market q) e) = (i, e3)" "q_trig_price q = None"
      "get_market (en_state e) (q_market q) = Some mk" "validate_order q (m_config mk) = Some (Inr ())"
      "check_account a q mk (en_state (check_in a (q_market q) e)) = Some (Inr ())"
      "\<And>place. place_order_body place a q ts e = execute_order place mk (order_new i a q ts) ts e3"
proof (cases "get_market (en_state e) (q_market q)")
  case None
  then show thesis using refused [of "MarketNotFound (q_market q)" e] by (simp add: place_order_body_def)
next
  case (Some mk)
  let ?e2 = "check_in a (q_market q) e"
  let ?v = "validate_order q (m_config mk)" and ?c = "check_account a q mk (en_state ?e2)"
  obtain i e3 where id: "take_order_id ?e2 = (i, e3)" by fastforce
  show thesis
  proof (cases "is_tradeable (m_state mk)")
    case True
    note body = place_order_body_def Let_def Some True id
    show thesis
    proof (cases ?v rule: checked_cases)
      case ok
      show thesis
      proof (cases ?c rule: checked_cases)
        case ok2: ok
        show thesis
        proof (cases "q_trig_price q")
          case None
          then show thesis using match [OF id] Some ok ok2 True by (simp add: body order_new_def)
        next
          case (Some tp)
          then show thesis using stored [OF id] ok ok2 by (simp add: body order_new_def)
        qed
      qed (use panic refused ok in \<open>auto simp: body\<close>)
    qed (use panic refused in \<open>auto simp: body\<close>)
  next
    case False
    then show thesis
      using refused [of "MarketPaused (mc_symbol (m_config mk))" e] Some by (simp add: place_order_body_def)
  qed
qed

lemma place_order_body_loop:
  assumes "quiet n place" "agree n place place'" "trigger_levels (en_state e) \<le> n"
  shows "place_order_body place a q ts e = place_order_body place' a q ts e"
    and "q_trig_price q = None \<Longrightarrow> place_order_body place a q ts e = Some (r, e') \<Longrightarrow>
      trigger_levels (en_state e') \<le> trigger_levels (en_state e)"
proof -
  have lv: "trigger_levels (en_state (check_in a m e)) = trigger_levels (en_state e)"
    "take_order_id (check_in a m e) = (i, e3) \<Longrightarrow> trigger_levels (en_state e3) = trigger_levels (en_state e)" for m i e3
    using same_triggers_levels [OF same_triggers_check_in [of e a m]]
      same_triggers_levels [OF same_triggers_take_order_id [of "check_in a m e"]] by simp_all
  have "place_order_body place a q ts e = place_order_body place' a q ts e \<and>
    (q_trig_price q = None \<longrightarrow> place_order_body place a q ts e = Some (r, e') \<longrightarrow>
      trigger_levels (en_state e') \<le> trigger_levels (en_state e))"
  proof (cases rule: place_order_body_cases [of a q ts e])
    case (match mk i e3)
    then show ?thesis using execute_order_loop(1) [OF assms(1,2), of e3 mk "order_new i a q ts" ts]
        execute_order_loop(2) [OF assms(1,2), of e3 mk "order_new i a q ts" ts r e'] assms(3) lv by auto
  qed (use lv in auto)
  then show "place_order_body place a q ts e = place_order_body place' a q ts e"
    "q_trig_price q = None \<Longrightarrow> place_order_body place a q ts e = Some (r, e') \<Longrightarrow>
      trigger_levels (en_state e') \<le> trigger_levels (en_state e)" by auto
qed

lemma place_order_fuel_quiet: "quiet n (place_order_fuel n bottom)"
proof (induction n)
  case (Suc n)
  have "agree n (place_order_fuel n bottom) (place_order_fuel n bottom)" by (simp add: agree_def)
  from place_order_body_loop(2) [OF Suc this] show ?case
    by (fastforce simp: quiet_def place_order_fuel_def)
qed (simp add: quiet_def)

lemma place_order_fuel_agree: "agree n (place_order_fuel n bottom) (place_order_fuel n bottom')"
proof (induction n)
  case (Suc n)
  from place_order_body_loop(1) [OF place_order_fuel_quiet this] show ?case
    by (simp add: agree_def place_order_fuel_def)
qed (simp add: agree_def)

lemma place_order_fuel_add: "place_order_fuel (n + k) bottom = place_order_fuel n (place_order_fuel k bottom)"
  by (simp add: place_order_fuel_def funpow_add)

lemma place_order_fuel_enough:
  assumes "trigger_levels (en_state e) < n"
  shows "place_order_fuel n bottom a q ts e = place_order a q ts e"
proof -
  let ?k = "Suc (trigger_levels (en_state e))"
  have "place_order_fuel n bottom = place_order_fuel ?k (place_order_fuel (n - ?k) bottom)"
    using place_order_fuel_add [of ?k "n - ?k" bottom] assms by simp
  then show ?thesis
    using place_order_fuel_agree [of ?k] by (simp add: place_order_def agree_def)
qed

lemma place_order_rec: "place_order a q ts e = place_order_body place_order a q ts e"
proof -
  let ?n = "trigger_levels (en_state e)"
  have "agree ?n (place_order_fuel ?n (\<lambda>_ _ _ _. None)) place_order"
    by (simp add: agree_def place_order_fuel_enough)
  from place_order_body_loop(1) [OF place_order_fuel_quiet this order_refl] show ?thesis
    by (simp add: place_order_def place_order_fuel_def)
qed

text \<open>
  (C8) The mutual recursion of order placement and trigger activation always ends.
  The model of \<open>place_order\<close>, cut off after one unfolding more than there are
  trigger price levels, satisfies the recursion of the source, and its result does
  not depend on what happens at the cut-off nor on further unfoldings.
\<close>

theorem place_order_unfolds:
  "place_order a q ts e = place_order_body place_order a q ts e \<and>
   place_order_fuel (Suc (trigger_levels (en_state e) + k)) bottom a q ts e = place_order a q ts e"
  using place_order_rec place_order_fuel_enough by simp

section \<open>Checks of a new order\<close>

lemma i128_rem_grid:
  assumes "0 < y"
  shows "i128_rem x y = Some (x smod y)" "x smod y = 0 \<longleftrightarrow> y dvd x"
  using assms by (auto simp: i128_rem_def smod_pos_divisor)

text \<open>
  (C23) An order passes validation exactly when its price is on the tick grid, its
  size on the lot grid and within the limits of the market; a size below the
  minimum is always reported as an invalid size, so the error \<open>SizeTooSmall\<close>
  cannot occur.
\<close>

theorem validate_order_exact:
  assumes "d_val (mc_tick_size c) > 0" "d_val (mc_lot_size c) > 0"
  shows "(validate_order q c = Some (Inr ()) \<longleftrightarrow>
      d_val (mc_tick_size c) dvd d_val (q_price q) \<and> d_val (mc_lot_size c) dvd d_val (q_size q) \<and>
      mc_min_order_size c \<le> q_size q \<and> q_size q \<le> mc_max_order_size c) \<and>
    (\<forall>a b. validate_order q c \<noteq> Some (Inl (SizeTooSmall a b))) \<and> validate_order q c \<noteq> None"
  using assms
  by (auto simp: validate_order_def validate_price_def validate_size_def i128_rem_grid not_less not_le)

theorem validate_order_exact_witness:
  "validate_order (limit_request Buy 5000010000000 100000 Gtc) btc_perp = Some (Inr ()) \<and>
   validate_order (limit_request Buy 5000010000000 100 Gtc) btc_perp \<noteq> Some (Inr ()) \<and>
   validate_order (limit_request Buy 5000010000000 100 Gtc) btc_perp \<noteq>
     Some (Inl (SizeTooSmall (Decimal 100 8) (Decimal 100000 8)))"
  using validate_order_exact [of btc_perp "limit_request Buy 5000010000000 100000 Gtc"]
    validate_order_exact [of btc_perp "limit_request Buy 5000010000000 100 Gtc"]
  by (simp add: btc_perp_def limit_request_def decimal_ord_defs)

section \<open>Rejected orders\<close>

text \<open>What a rejection may not touch: books, orders, the account index, positions of others, the ledger.\<close>

definition market_untouched :: "address \<Rightarrow> engine \<Rightarrow> engine \<Rightarrow> bool" where
  "market_untouched a e e' =
    (es_orderbooks (en_state e') = es_orderbooks (en_state e) \<and> es_orders (en_state e') = es_orders (en_state e) \<and>
     es_account_orders (en_state e') = es_account_orders (en_state e) \<and>
     es_markets (en_state e') = es_markets (en_state e) \<and> same_triggers (en_state e) (en_state e') \<and>
     es_insurance_fund (en_state e') = es_insurance_fund (en_state e) \<and> en_unified e' = en_unified e \<and>
     en_matching e' = en_matching e \<and>
     (\<forall>b m. b = a \<or> get_position (en_state e') b m = get_position (en_state e) b m) \<and>
     (\<forall>m. size_or_zero (en_state e') a m = size_or_zero (en_state e) a m))"

lemma position_new_size: "p_size position_new = Decimal 0 SIZE_DECIMALS"
  by (simp add: position_new_def)

lemma market_untouched_check_in: "market_untouched a e (check_in a m e)"
  by (auto simp: check_in_def market_untouched_def same_triggers_def upd_state_def sync_balance_def
      get_or_create_account_def get_or_create_position_def es_update_account_def set_position_def get_position_def
      size_or_zero_def position_new_size split: option.split)

lemma market_untouched_take_order_id:
  "market_untouched a e e1 \<Longrightarrow> take_order_id e1 = (i, e2) \<Longrightarrow> market_untouched a e e2"
  by (auto simp: take_order_id_def market_untouched_def es_take_order_id_def same_triggers_def get_position_def
      size_or_zero_def)

lemma process_order_errors:
  "process_order ord b = Some (Inl err, b') \<Longrightarrow> err = PostOnlyWouldCross \<or> err = FokNotFilled"
  by (auto simp: process_order_def handle_unfilled_def Option.bind_eq_Some_conv split: if_splits)

lemma finish_order_Inr: "finish_order place m ts ord fs e = Some (r, e') \<Longrightarrow> r = Inr (ord, fs)"
  by (auto simp: finish_order_def Let_def split: if_splits)

lemma execute_order_error:
  assumes "execute_order place mk ord ts e = Some (Inl err, e')"
  shows "e' = e \<or> err = PostOnlyWouldCross \<or> err = FokNotFilled"
proof (cases "get_orderbook (en_state e) (o_market ord)")
  case (Some b)
  then obtain x b' where x: "process_order ord b = Some (x, b')"
    using assms by (auto simp: execute_order_def Let_def Option.bind_eq_Some_conv)
  show ?thesis
  proof (cases x)
    case (Inl err')
    then show ?thesis using assms Some x process_order_errors by (auto simp: execute_order_def Let_def)
  next
    case (Inr r)
    then show ?thesis
      using assms Some x by (cases r) (auto simp: execute_order_def Let_def Option.bind_eq_Some_conv dest: finish_order_Inr)
  qed
qed (use assms in \<open>simp add: execute_order_def\<close>)

text \<open>
  (C16) An order that is refused before it reaches the book (unknown or paused
  market, off-grid price or size, reduce-only or margin check) leaves books,
  orders, trigger orders, markets, the insurance fund, the shared ledger and every
  position size as they were; at most the account and an empty position are
  created.  The only errors that can come with a changed book are the two raised
  after matching.
\<close>

theorem rejected_order_harmless:
  assumes "place_order a q ts e = Some (Inl err, e')" "err \<noteq> PostOnlyWouldCross" "err \<noteq> FokNotFilled"
  shows "market_untouched a e e'"
proof -
  have refl: "market_untouched a e e" by (simp add: market_untouched_def)
  show ?thesis
  proof (cases rule: place_order_body_cases [of a q ts e])
    case (refused err' e1)
    then show ?thesis using assms(1) refl market_untouched_check_in by (auto simp: place_order_rec [of a q ts e])
  next
    case (match mk i e3)
    then have "e' = e3"
      using assms execute_order_error by (metis place_order_rec)
    then show ?thesis using match(1) market_untouched_check_in market_untouched_take_order_id by blast
  qed (use assms(1) in \<open>simp_all add: place_order_rec [of a q ts e]\<close>)
qed

text \<open>An engine with the BTC market, where account 7 has no collateral.\<close>

definition sample_engine :: engine where
  "sample_engine = add_market btc_perp (Decimal 5000000000000 8) 0 (engine_new engine_config_default)"

theorem rejected_order_harmless_witness:
  "\<exists>e'. place_order 7 (limit_request Buy 15 100000 Gtc) 0 sample_engine =
      Some (Inl (InvalidPrice (Decimal 15 8) (Decimal 10000000 8)), e') \<and> market_untouched 7 sample_engine e'"
proof -
  have "place_order 7 (limit_request Buy 15 100000 Gtc) 0 sample_engine =
      Some (Inl (InvalidPrice (Decimal 15 8) (Decimal 10000000 8)), sample_engine)"
    by (simp add: place_order_rec place_order_body_def sample_engine_def add_market_def upd_state_def engine_new_def
        es_add_market_def get_market_def market_new_def market_state_new_def is_tradeable_def validate_order_def
        validate_price_def i128_rem_grid btc_perp_def limit_request_def engine_state_new_def Let_def hm_insert_def
        hm_get_def smod_pos_divisor)
  with rejected_order_harmless [OF this] show ?thesis by simp
qed

section \<open>Cancellation\<close>

lemma remove_order_order:
  assumes "get_order s m i = Some ord"
  shows "get_order (snd (remove_order m i s)) m' j = (if m' = m \<and> j = i then None else get_order s m' j)"
  using assms
  by (auto simp: get_order_def remove_order_def nget_def Let_def index_push_def es_set_orderbook_def get_orderbook_def
      split: option.splits if_splits)

lemma remove_order_book:
  assumes "get_order s m i = Some ord"
  shows "get_orderbook (snd (remove_order m i s)) m' =
    (if m' = m then map_option (\<lambda>b. snd (book_remove i b)) (get_orderbook s m) else get_orderbook s m')"
  using assms
  by (auto simp: get_order_def remove_order_def nget_def Let_def es_set_orderbook_def get_orderbook_def
      split: option.splits if_splits)

lemma remove_order_ids:
  assumes "get_order s m i = Some ord"
  shows "account_order_ids (snd (remove_order m i s)) a m' =
    (if a = o_owner ord \<and> m' = m then filter (\<lambda>j. j \<noteq> i) (account_order_ids s a m') else account_order_ids s a m')"
proof -
  obtain mo where "hm_get (es_orders s) m = Some mo" "hm_get mo i = Some ord"
    using assms by (auto simp: get_order_def nget_def Option.bind_eq_Some_conv)
  then show ?thesis
    by (simp add: remove_order_def account_order_ids_def Let_def es_set_orderbook_def split: option.split)
qed


definition engine_with_order :: engine where
  "engine_with_order = upd_state (add_order (limit_order 1 7 Buy 100 5 Gtc)) sample_engine"

lemma engine_with_order_state:
  "get_order (en_state engine_with_order) 0 1 = Some (limit_order 1 7 Buy 100 5 Gtc)"
  "get_orderbook (en_state engine_with_order) 0 = Some (book_insert (limit_order 1 7 Buy 100 5 Gtc) book_new)"
  "me_get_orderbook (en_matching engine_with_order) 0 \<noteq> None"
  by (simp_all add: engine_with_order_def sample_engine_def add_market_def upd_state_def engine_new_def
      es_add_market_def add_order_def index_push_def get_order_def get_orderbook_def me_get_orderbook_def
      add_orderbook_def es_set_orderbook_def engine_state_new_def matching_engine_new_def market_new_def btc_perp_def
      nget_def limit_order_defs Let_def)


section \<open>Open interest\<close>

text \<open>The sum over all accounts of a function of the position size in a market.\<close>

definition position_sum :: "(int \<Rightarrow> int) \<Rightarrow> market_id \<Rightarrow> engine_state \<Rightarrow> int" where
  "position_sum f m s = hm_sum (\<lambda>_ mp. case hm_get mp m of Some p \<Rightarrow> f (d_val (p_size p)) | None \<Rightarrow> 0) (es_positions s)"

definition long_part :: "int \<Rightarrow> int" where "long_part n = max n 0"
definition short_part :: "int \<Rightarrow> int" where "short_part n = max (- n) 0"

definition oi_inv :: "market_id \<Rightarrow> engine_state \<Rightarrow> bool" where
  "oi_inv m s =
    ((\<forall>a p. get_position s a m = Some p \<longrightarrow> d_dec (p_size p) = 8) \<and>
     (\<exists>mk. get_market s m = Some mk \<and> ms_oi_long (m_state mk) = Decimal (position_sum long_part m s) 8 \<and>
        ms_oi_short (m_state mk) = Decimal (position_sum short_part m s) 8) \<and>
     position_sum (\<lambda>n. n) m s = 0)"

lemma position_sum_set:
  assumes "f 0 = 0"
  shows "position_sum f m (set_position a m p s) =
    position_sum f m s - f (d_val (size_or_zero s a m)) + f (d_val (p_size p))"
proof -
  let ?g = "\<lambda>_ mp. case hm_get mp m of Some p \<Rightarrow> f (d_val (p_size p)) | None \<Rightarrow> 0"
  have "hm_sum ?g (es_positions (set_position a m p s)) = hm_sum ?g (es_positions s)
      - ?g a (hm_get_or [] (es_positions s) a) + f (d_val (p_size p))"
    by (simp add: set_position_def nput_def hm_sum_insert_or [where d = "[]"])
  moreover have "?g a (hm_get_or [] (es_positions s) a) = f (d_val (size_or_zero s a m))"
    using assms by (auto simp: size_or_zero_def get_position_def nget_def hm_get_or_def split: option.splits)
  ultimately show ?thesis by (simp add: position_sum_def)
qed

lemma long_short_parts: "long_part n - short_part n = n" "long_part 0 = 0" "short_part 0 = 0"
  by (simp_all add: long_part_def short_part_def)

lemma get_position_set [simp]:
  "get_position (set_position a m p s) a' m' = (if a' = a \<and> m' = m then Some p else get_position s a' m')"
  by (simp add: get_position_def set_position_def)

lemma get_market_set_position [simp]: "get_market (set_position a m p s) m' = get_market s m'"
  by (simp add: get_market_def set_position_def)

lemma oi_delta_8:
  assumes "d_dec b = 8" "d_dec a = 8" "oi_delta b a = Some (l, sh)" "\<bar>d_val b\<bar> \<le> i128_max" "\<bar>d_val a\<bar> \<le> i128_max"
  shows "l = Decimal (long_part (d_val a) - long_part (d_val b)) 8 \<and>
    sh = Decimal (short_part (d_val a) - short_part (d_val b)) 8"
proof -
  have "wrap_i128 (- n) = - n" if "\<bar>n\<bar> \<le> i128_max" for n
    using that by (intro wrap_i128_id) (auto simp: i128_defs)
  then show ?thesis
    using assms
    by (cases b; cases a) (auto simp: oi_delta_def Let_def Option.bind_eq_Some_conv dec_sub_eq_Some is_positive_def
        is_negative_def dec_neg_def long_part_def short_part_def SIZE_DECIMALS_def split: if_splits)
qed

lemma pos_apply_fill_size:
  assumes "pos_apply_fill p sz price buy = Some p'" "0 \<le> d_val sz" "d_val sz \<le> i128_max"
  shows "p_size p' = Decimal (d_val (p_size p) + (if buy then d_val sz else - d_val sz)) (d_dec (p_size p))"
proof -
  obtain n where n: "dec_add (p_size p) (if buy then sz else dec_neg sz) = Some n"
    using assms(1) unfolding pos_apply_fill_def Let_def Option.bind_eq_Some_conv by blast
  have "p_size p' = n"
    using assms(1) n by (auto simp: pos_apply_fill_def Let_def Option.bind_eq_Some_conv split: if_splits)
  moreover have "wrap_i128 (- d_val sz) = - d_val sz"
    using assms(2,3) by (intro wrap_i128_id) (auto simp: i128_defs)
  ultimately show ?thesis using n by (auto simp: dec_add_eq_Some dec_neg_def)
qed

lemma dec_add_8: "dec_add (Decimal x 8) (Decimal y d) = Some z \<Longrightarrow> z = Decimal (x + y) 8"
  by (simp add: dec_add_eq_Some)

text \<open>The two sides of a fill, with open interest updated by the change of the long and the short sizes.\<close>

lemma apply_fill_positions_Some:
  assumes "apply_fill_positions f s = Some s'" "f_maker f \<noteq> f_taker f" "0 \<le> f_size f" "f_size f \<le> i128_max"
    and pm: "get_position s (f_maker f) (f_market f) = Some pm" and pt: "get_position s (f_taker f) (f_market f) = Some pt"
    and mk: "get_market s (f_market f) = Some mk"
  obtains pm' pt' ms dl1 ds1 dl2 ds2 l1 sh1 l2 sh2 where
    "s' = es_set_market (f_market f) (mk \<lparr> m_state := ms \<rparr>)
       (set_position (f_taker f) (f_market f) pt' (set_position (f_maker f) (f_market f) pm' s))"
    "p_size pm' = Decimal (d_val (p_size pm) + (if f_taker_buy f then - f_size f else f_size f)) (d_dec (p_size pm))"
    "p_size pt' = Decimal (d_val (p_size pt) + (if f_taker_buy f then f_size f else - f_size f)) (d_dec (p_size pt))"
    "oi_delta (p_size pm) (p_size pm') = Some (dl1, ds1)" "oi_delta (p_size pt) (p_size pt') = Some (dl2, ds2)"
    "dec_add (Decimal 0 8) dl1 = Some l1" "dec_add (Decimal 0 8) ds1 = Some sh1"
    "dec_add l1 dl2 = Some l2" "dec_add sh1 ds2 = Some sh2" "update_open_interest l2 sh2 (m_state mk) = Some ms"
proof -
  have w: "wrap_i128 (f_size f) = f_size f" using assms(3,4) by (intro wrap_i128_id) (auto simp: i128_defs)
  let ?m = "f_market f" and ?a = "fill_amount f"
  obtain pm' pt' where p: "pos_apply_fill pm ?a (fill_price f) (\<not> f_taker_buy f) = Some pm'"
      "pos_apply_fill pt ?a (fill_price f) (f_taker_buy f) = Some pt'"
    and rest: "(case oi_delta (p_size pm) (p_size pm') of None \<Rightarrow> None | Some (dl1, ds1) \<Rightarrow>
       Option.bind (dec_add (Decimal 0 SIZE_DECIMALS) dl1) (\<lambda>l1.
       Option.bind (dec_add (Decimal 0 SIZE_DECIMALS) ds1) (\<lambda>sh1.
       Option.bind (oi_delta (p_size pt) (p_size pt')) (\<lambda>(dl2, ds2).
       Option.bind (dec_add l1 dl2) (\<lambda>l2. Option.bind (dec_add sh1 ds2) (\<lambda>sh2.
       Option.bind (update_open_interest l2 sh2 (m_state mk)) (\<lambda>ms. Some (es_set_market ?m (mk \<lparr> m_state := ms \<rparr>)
         (set_position (f_taker f) ?m pt' (set_position (f_maker f) ?m pm' s)))))))))) = Some s'"
    using assms(1,2) pm pt mk
    by (auto simp: apply_fill_positions_def Let_def upd_position_def size_or_zero_def Option.bind_eq_Some_conv
        split: option.splits)
  have val: "0 \<le> d_val ?a" "d_val ?a \<le> i128_max" "d_val ?a = f_size f"
    using assms(3,4) w by (simp_all add: fill_amount_def)
  have sizes: "p_size pm' = Decimal (d_val (p_size pm) + (if f_taker_buy f then - f_size f else f_size f)) (d_dec (p_size pm))"
    "p_size pt' = Decimal (d_val (p_size pt) + (if f_taker_buy f then f_size f else - f_size f)) (d_dec (p_size pt))"
    using pos_apply_fill_size [OF p(1) val(1,2)] pos_apply_fill_size [OF p(2) val(1,2)] val(3) by simp_all
  show thesis
    using rest unfolding SIZE_DECIMALS_def
    by (auto simp: Option.bind_eq_Some_conv split: option.splits intro: that [OF _ sizes])
qed

text \<open>
  (C6) A fill between two accounts moves the open interest exactly as it moves the
  positions: if before it the long and short open interest of the market were the
  sums of the long and of the short sizes and all sizes added up to zero, the same
  holds after it.
\<close>

theorem fill_keeps_open_interest:
  assumes run: "apply_fill_positions f s = Some s'" and inv: "oi_inv (f_market f) s"
    and ne: "f_maker f \<noteq> f_taker f" and sz: "0 \<le> f_size f"
    and pos: "get_position s (f_maker f) (f_market f) = Some pm" "get_position s (f_taker f) (f_market f) = Some pt"
    and room: "\<bar>d_val (p_size pm)\<bar> + f_size f \<le> i128_max" "\<bar>d_val (p_size pt)\<bar> + f_size f \<le> i128_max"
  shows "oi_inv (f_market f) s'"
proof -
  let ?m = "f_market f"
  obtain mk where mk: "get_market s ?m = Some mk" "ms_oi_long (m_state mk) = Decimal (position_sum long_part ?m s) 8"
      "ms_oi_short (m_state mk) = Decimal (position_sum short_part ?m s) 8"
    and zero: "position_sum (\<lambda>n. n) ?m s = 0" and dec: "\<And>a p. get_position s a ?m = Some p \<Longrightarrow> d_dec (p_size p) = 8"
    using inv by (auto simp: oi_inv_def)
  have le: "f_size f \<le> i128_max" using room(1) by linarith
  obtain pm' pt' ms dl1 ds1 dl2 ds2 l1 sh1 l2 sh2 where
    s': "s' = es_set_market ?m (mk \<lparr> m_state := ms \<rparr>) (set_position (f_taker f) ?m pt' (set_position (f_maker f) ?m pm' s))"
    and pm': "p_size pm' = Decimal (d_val (p_size pm) + (if f_taker_buy f then - f_size f else f_size f)) (d_dec (p_size pm))"
    and pt': "p_size pt' = Decimal (d_val (p_size pt) + (if f_taker_buy f then f_size f else - f_size f)) (d_dec (p_size pt))"
    and oi: "oi_delta (p_size pm) (p_size pm') = Some (dl1, ds1)" "oi_delta (p_size pt) (p_size pt') = Some (dl2, ds2)"
      "dec_add (Decimal 0 8) dl1 = Some l1" "dec_add (Decimal 0 8) ds1 = Some sh1"
      "dec_add l1 dl2 = Some l2" "dec_add sh1 ds2 = Some sh2" "update_open_interest l2 sh2 (m_state mk) = Some ms"
    by (rule apply_fill_positions_Some [OF run ne sz le pos mk(1)]) (rule that)
  let ?s2 = "set_position (f_taker f) ?m pt' (set_position (f_maker f) ?m pm' s)"
  have sum: "position_sum g ?m ?s2 = position_sum g ?m s - g (d_val (p_size pm)) + g (d_val (p_size pm'))
      - g (d_val (p_size pt)) + g (d_val (p_size pt'))" if "g 0 = 0" for g
    using ne pos by (simp add: position_sum_set [of g, OF that] size_or_zero_def)
  have "position_sum (\<lambda>n. n) ?m ?s2 = 0" using zero by (simp add: sum pm' pt')
  moreover have "d_dec (p_size pm') = 8" "d_dec (p_size pt') = 8" using dec pos pm' pt' by auto
  moreover have d: "dl1 = Decimal (long_part (d_val (p_size pm')) - long_part (d_val (p_size pm))) 8"
      "ds1 = Decimal (short_part (d_val (p_size pm')) - short_part (d_val (p_size pm))) 8"
      "dl2 = Decimal (long_part (d_val (p_size pt')) - long_part (d_val (p_size pt))) 8"
      "ds2 = Decimal (short_part (d_val (p_size pt')) - short_part (d_val (p_size pt))) 8"
    using oi_delta_8 [OF dec [OF pos(1)] _ oi(1)] oi_delta_8 [OF dec [OF pos(2)] _ oi(2)] dec pos room sz
    by (auto simp: pm' pt')
  then have "ms_oi_long ms = Decimal (position_sum long_part ?m ?s2) 8"
    "ms_oi_short ms = Decimal (position_sum short_part ?m ?s2) 8"
    using oi(3-7) mk(2,3)
    by (auto simp: update_open_interest_def Option.bind_eq_Some_conv sum long_short_parts dec_add_eq_Some)
  moreover have "position_sum g ?m s' = position_sum g ?m ?s2" for g
    by (simp add: s' position_sum_def es_set_market_def)
  ultimately show ?thesis
    using dec ne
    by (auto simp: oi_inv_def s' es_set_market_def get_market_def get_position_def set_position_def split: if_splits)
qed

text \<open>Two flat accounts trade one contract at 50,000.\<close>

definition flat_pair :: engine_state where
  "flat_pair = set_position 8 0 position_new (set_position 7 0 position_new (en_state sample_engine))"

definition first_fill :: fill where
  "first_fill = \<lparr> f_market = 0, f_maker = 7, f_taker = 8, f_maker_oid = 1, f_taker_oid = 2,
     f_price = 5000000000000, f_size = 100000000, f_maker_fee = 0, f_taker_fee = 0, f_ts = 0, f_taker_buy = True,
     f_pnl_maker = 0, f_pnl_taker = 0 \<rparr>"

lemmas flat_pair_eval = flat_pair_def sample_engine_def add_market_def upd_state_def engine_new_def
  es_add_market_def engine_state_new_def market_new_def market_state_new_def btc_perp_def get_market_def
  position_new_def

lemma get_flat_market:
  "get_market flat_pair 0 = Some (market_new btc_perp (Decimal 5000000000000 8) 28800000)"
  by (simp add: flat_pair_eval set_position_def nput_def engine_config_default_def wrap_u64_def Let_def)

theorem fill_keeps_open_interest_witness:
  "\<exists>s'. apply_fill_positions first_fill flat_pair = Some s' \<and> oi_inv 0 s'"
proof -
  have pos: "get_position flat_pair (f_maker first_fill) (f_market first_fill) = Some position_new"
    "get_position flat_pair (f_taker first_fill) (f_market first_fill) = Some position_new"
    by (simp_all add: flat_pair_def first_fill_def)
  have "oi_inv (f_market first_fill) flat_pair"
    by (auto simp: oi_inv_def flat_pair_eval first_fill_def set_position_def nput_def get_position_def
        nget_def hm_get_or_def position_sum_def hm_sum_def hm_insert_def hm_get_def long_short_parts
        SIZE_DECIMALS_def Let_def split: if_splits)
  moreover obtain s' where s': "apply_fill_positions first_fill flat_pair = Some s'"
  proof -
    have sz: "fill_amount first_fill = Decimal 100000000 8" "fill_price first_fill = Decimal 5000000000000 8"
      by (simp_all add: fill_amount_def fill_price_def first_fill_def wrap_i128_def SIZE_DECIMALS_def PRICE_DECIMALS_def)
    have fill: "pos_apply_fill position_new (Decimal 100000000 8) (Decimal 5000000000000 8) buy =
        Some (position_new \<lparr> p_size := Decimal (if buy then 100000000 else -100000000) 8,
          p_entry_notional := Decimal 5000000000000 8 \<rparr>)" for buy
      by (cases buy) (simp_all add: pos_apply_fill_def position_new_def risk_eval dec_neg_def SIZE_DECIMALS_def Let_def)
    have add: "dec_add (Decimal x 8) (Decimal y 8) = Some (Decimal (x + y) 8)"
      if "x \<in> {0, 100000000}" "y \<in> {0, 100000000}" for x y
      using that by (auto simp: dec_add_eq_Some i128_defs)
    have oi: "oi_delta (Decimal 0 8) (Decimal (-100000000) 8) = Some (Decimal 0 8, Decimal 100000000 8)"
      "oi_delta (Decimal 0 8) (Decimal 100000000 8) = Some (Decimal 100000000 8, Decimal 0 8)"
      by (simp_all add: oi_delta_def is_positive_def is_negative_def dec_neg_def wrap_i128_def dec_defs i128_checked_def
          i128_defs SIZE_DECIMALS_def Let_def)
    have f: "f_market first_fill = 0" "f_maker first_fill = 7" "f_taker first_fill = 8" "f_taker_buy first_fill"
      by (simp_all add: first_fill_def)
    have s0: "size_or_zero flat_pair 7 0 = Decimal 0 8" "size_or_zero flat_pair 8 0 = Decimal 0 8"
      using pos unfolding f by (simp_all add: size_or_zero_def position_new_size SIZE_DECIMALS_def)
    have "apply_fill_positions first_fill flat_pair \<noteq> None"
      using pos unfolding f
      by (simp add: apply_fill_positions_def sz upd_position_def fill f s0)
         (simp add: size_or_zero_def oi add get_flat_market update_open_interest_def market_new_def market_state_new_def
          SIZE_DECIMALS_def)
    then show thesis using that by blast
  qed
  ultimately have "oi_inv (f_market first_fill) s'"
    by (intro fill_keeps_open_interest [OF s' _ _ _ pos]) (simp_all add: first_fill_def position_new_def i128_defs)
  with s' show ?thesis by (auto simp: first_fill_def)
qed

section \<open>Screening in batches\<close>

text \<open>The reference: each candidate is screened and confirmed on its own.\<close>

definition screen_one ::
  "engine_state \<Rightarrow> candidate \<Rightarrow> (address \<times> market_id) list \<times> address list \<Rightarrow>
   ((address \<times> market_id) list \<times> address list) option" where
  "screen_one s c st = do {
     (mark, entry, sz, balance, maint) \<leftarrow> candidate_row s c;
     flagged \<leftarrow> liquidation_check_one (pow10 PRICE_DECIMALS) mark entry sz balance maint;
     confirm_candidate s (c, flagged) st
   }"

lemma batch_check_rows:
  "batch_liquidation_check (map fst rows) (map (fst \<circ> snd) rows) (map (fst \<circ> snd \<circ> snd) rows)
     (map (fst \<circ> snd \<circ> snd \<circ> snd) rows) (map (snd \<circ> snd \<circ> snd \<circ> snd) rows) scale
   = omap (\<lambda>(mark, entry, sz, balance, maint). liquidation_check_one scale mark entry sz balance maint) rows"
  unfolding batch_liquidation_check_def by (induction rows) (auto simp: case_prod_beta)

lemma screen_chunk_one: "screen_chunk s cs st = ofold (screen_one s) cs st"
proof (induction cs arbitrary: st)
  case Nil
  then show ?case by (simp add: screen_chunk_def batch_check_rows)
next
  case (Cons c cs)
  then show ?case
    unfolding screen_chunk_def screen_one_def batch_check_rows
    by (cases "candidate_row s c"; cases "omap (candidate_row s) cs") (fastforce split: Option.bind_splits)+
qed

lemma ofold_concat: "ofold (\<lambda>xs. ofold f xs) xss st = ofold f (concat xss) st"
  by (induction xss arbitrary: st) (auto split: Option.bind_splits)

lemma concat_chunks64: "concat (chunks64 xs) = xs"
  by (induction xs rule: chunks64.induct) (simp add: chunks64.simps)

text \<open>
  Collecting positions in batches of 64 and screening a batch at a time finds
  exactly the accounts that screening the positions one by one finds, on every
  state; the batch boundaries are not observable.
\<close>

theorem batched_screening_equivalent:
  "find_underwater_accounts s =
     Option.bind (ofold (screen_one s) (liquidation_candidates s) ([], [])) (\<lambda>(result, _). Some (sort result))"
  unfolding find_underwater_accounts_def screen_chunk_one ofold_concat concat_chunks64 ..

section \<open>Liquidation and the insurance fund\<close>

lemma insurance_upd_position: "upd_position a m f s = Some s' \<Longrightarrow> es_insurance_fund s' = es_insurance_fund s"
  by (auto simp: upd_position_def set_position_def Option.bind_eq_Some_conv split: option.splits)

lemma insurance_trigger_adl: "trigger_adl m deficit price s = Some s' \<Longrightarrow> es_insurance_fund s' = es_insurance_fund s"
proof -
  have step: "es_insurance_fund (fst st') = es_insurance_fund (fst st)" if "adl_step m price c st = Some st'" for c st st'
    using that
    by (cases st) (auto simp: adl_step_def Let_def Option.bind_eq_Some_conv split: option.splits if_splits
        dest!: insurance_upd_position)
  assume "trigger_adl m deficit price s = Some s'"
  then obtain cs d where "ofold (adl_step m price) cs (s, deficit) = Some (s', d)"
    by (auto simp: trigger_adl_def Option.bind_eq_Some_conv)
  then have "es_insurance_fund (fst (s', d)) = es_insurance_fund s"
    by (rule ofold_invariant [where P = "\<lambda>st. es_insurance_fund (fst st) = es_insurance_fund s"]) (simp, metis step)
  then show ?thesis by simp
qed

lemma insurance_cancel_triggers:
  "es_insurance_fund (cancel_trigger_orders_for_position a m s) = es_insurance_fund s"
proof -
  have rm: "es_insurance_fund (snd (remove_trigger_order i s)) = es_insurance_fund s" for i s
    by (auto simp: remove_trigger_order_def Let_def set_trigger_map_def split: option.split trigger_direction.split)
  have "es_insurance_fund (fold (\<lambda>i s. snd (remove_trigger_order i s)) ids s) = es_insurance_fund s" for ids
    by (induction ids arbitrary: s) (auto simp: rm)
  then show ?thesis unfolding cancel_trigger_orders_for_position_def Let_def by blast
qed

text \<open>
  (C22) A liquidation books the residual against the bankruptcy price in the
  insurance fund exactly: a surplus is added, a deficit the fund can cover is
  taken out, and a deficit it cannot cover leaves the fund as it is.  So a
  nonnegative fund stays nonnegative as long as the surplus does not overflow.
\<close>

theorem liquidation_insurance_accounting:
  assumes "apply_liquidation a m sz price s = Some s'" "get_position s a m = Some p"
    and "calculate_bankruptcy_price p (es_get_balance s a) = Some (Some b)"
    and "(if is_short p then dec_sub b price else dec_sub price b) = Some unit_residual"
    and "dec_mul unit_residual sz = Some residual" "to_decimals residual USDC_DECIMALS = Some usdc"
    and "0 \<le> es_insurance_fund s" "es_insurance_fund s + \<bar>d_val usdc\<bar> \<le> i128_max"
  shows "es_insurance_fund s' =
      (if 0 \<le> es_insurance_fund s + d_val usdc then es_insurance_fund s + d_val usdc else es_insurance_fund s) \<and>
    0 \<le> es_insurance_fund s'"
proof -
  obtain s1 where s1: "settle_residual m sz price (is_short p) b s = Some s1" "es_insurance_fund s' = es_insurance_fund s1"
    using assms(1-3)
    by (auto simp: apply_liquidation_def Option.bind_eq_Some_conv insurance_cancel_triggers dest: insurance_upd_position)
  have "wrap_i128 (- d_val usdc) = - d_val usdc" "wrap_i128 (es_insurance_fund s + d_val usdc) = es_insurance_fund s + d_val usdc"
    using assms(7,8) by (intro wrap_i128_id; auto simp: i128_defs)+
  then have "es_insurance_fund s1 =
      (if 0 \<le> es_insurance_fund s + d_val usdc then es_insurance_fund s + d_val usdc else es_insurance_fund s)"
    using s1(1) assms(4-7)
    by (auto simp: settle_residual_def add_to_insurance_fund_def use_insurance_fund_def is_positive_def is_negative_def
        dec_neg_def Let_def insurance_trigger_adl split: if_splits)
  then show ?thesis using s1(2) assms(7) by auto
qed

text \<open>A long of one contract from 50,000 with 1,000 USDC, a quarter of it liquidated at 49,500.\<close>

definition long_one :: position where
  "long_one = position_new \<lparr> p_size := Decimal 100000000 8, p_entry_notional := Decimal 5000000000000 8 \<rparr>"

definition thin_account :: engine_state where
  "thin_account = set_position 7 0 long_one (deposit 7 1000000000 (en_state sample_engine))"

theorem liquidation_insurance_accounting_witness:
  "\<exists>s'. apply_liquidation 7 0 (Decimal 25000000 8) (Decimal 4950000000000 8) thin_account = Some s' \<and>
     es_insurance_fund s' = 125000000"
proof -
  have pos: "get_position thin_account 7 0 = Some long_one" by (simp add: thin_account_def)
  have fund: "es_insurance_fund thin_account = 0" and bal: "es_get_balance thin_account 7 = Decimal 1000000000 6"
    by (simp_all add: thin_account_def set_position_def deposit_def es_update_account_def get_or_create_account_def
        sample_engine_def add_market_def upd_state_def engine_new_def es_add_market_def engine_state_new_def
        es_get_balance_def account_default_def wrap_i128_def USDC_DECIMALS_def Let_def split: option.split)
  have long: "\<not> is_short long_one" by (simp add: long_one_def is_short_def is_negative_def)
  have bk: "calculate_bankruptcy_price long_one (es_get_balance thin_account 7) = Some (Some (Decimal 4900000000000 8))"
    by (simp add: bal calculate_bankruptcy_price_def long_one_def entry_price_def pos_is_empty_def risk_eval Let_def)
  have res: "dec_sub (Decimal 4950000000000 8) (Decimal 4900000000000 8) = Some (Decimal 50000000000 8)"
    "dec_mul (Decimal 50000000000 8) (Decimal 25000000 8) = Some (Decimal 12500000000 8)"
    "to_decimals (Decimal 12500000000 8) USDC_DECIMALS = Some (Decimal 125000000 6)"
    by (simp_all add: risk_eval)
  have fill: "pos_apply_fill long_one (Decimal 25000000 8) (Decimal 4950000000000 8) False \<noteq> None"
    by (simp add: pos_apply_fill_def long_one_def reducing_pnl_def entry_price_def risk_eval dec_neg_def SIZE_DECIMALS_def
        is_negative_def Let_def)
  then obtain s' where run: "apply_liquidation 7 0 (Decimal 25000000 8) (Decimal 4950000000000 8) thin_account = Some s'"
    using pos bk long res
    by (auto simp: apply_liquidation_def settle_residual_def is_positive_def upd_position_def add_to_insurance_fund_def
        get_position_def)
  from liquidation_insurance_accounting [OF this pos bk _ res(2,3)] show ?thesis
    using run long res(1) fund by (simp add: i128_defs)
qed

end
