(* ===== verification/Merkle.thy ===== *)
theory Merkle
  imports Prelude "HOL-Library.Word"
begin

text \<open>
  The binary Merkle tree that commits to the state, from
  \<open>crates/chain/src/merkle.rs\<close>: building the levels, inclusion proofs, their
  verification and their byte format.  Keccak-256 is a third-party function and a
  parameter of the definitions (\<open>keccak\<close>, from byte strings to byte strings); the
  theorems that need a property of it name it as a hypothesis.
\<close>

type_synonym byte = "8 word"
type_synonym digest = "byte list"
type_synonym hash_fn = "byte list \<Rightarrow> digest"

section \<open>Hashing\<close>

definition hash_pair :: "hash_fn \<Rightarrow> digest \<Rightarrow> digest \<Rightarrow> digest" where
  "hash_pair keccak l r = keccak (l @ r)"

definition hash_entry :: "hash_fn \<Rightarrow> byte list \<Rightarrow> byte list \<Rightarrow> digest" where
  "hash_entry keccak key val = keccak (key @ val)"

definition hash_bytes :: "hash_fn \<Rightarrow> byte list \<Rightarrow> digest" where
  "hash_bytes keccak bs = keccak bs"

definition compute_leaf_hash :: "hash_fn \<Rightarrow> byte list \<Rightarrow> byte list \<Rightarrow> digest" where
  "compute_leaf_hash keccak key val = hash_entry keccak key val"

section \<open>Proofs\<close>

datatype proof_direction = SibLeft | SibRight

record merkle_proof =
  mp_leaf_hash :: digest
  mp_siblings :: "digest list"
  mp_directions :: "proof_direction list"
  mp_leaf_index :: nat

definition climb :: "hash_fn \<Rightarrow> digest \<Rightarrow> digest \<times> proof_direction \<Rightarrow> digest" where
  "climb keccak cur sd = (case sd of
       (s, SibLeft) \<Rightarrow> hash_pair keccak s cur
     | (s, SibRight) \<Rightarrow> hash_pair keccak cur s)"

definition compute_root :: "hash_fn \<Rightarrow> merkle_proof \<Rightarrow> digest" where
  "compute_root keccak p = foldl (climb keccak) (mp_leaf_hash p) (zip (mp_siblings p) (mp_directions p))"

definition mp_verify :: "hash_fn \<Rightarrow> merkle_proof \<Rightarrow> digest \<Rightarrow> bool" where
  "mp_verify keccak p root = (compute_root keccak p = root)"

section \<open>The byte format\<close>

text \<open>\<open>u32::to_le_bytes\<close>, \<open>u64::to_le_bytes\<close> and \<open>u32::from_le_bytes\<close>\<close>

definition u32_le :: "nat \<Rightarrow> byte list" where
  "u32_le n = map (\<lambda>i. word_of_nat (n div 256 ^ i)) [0, 1, 2, 3]"

definition u64_le :: "nat \<Rightarrow> byte list" where
  "u64_le n = map (\<lambda>i. word_of_nat (n div 256 ^ i)) [0..<8]"

definition u32_of_le :: "byte list \<Rightarrow> nat" where
  "u32_of_le bs = foldr (\<lambda>b acc. unat b + 256 * acc) bs 0"

definition direction_byte :: "proof_direction \<Rightarrow> byte" where
  "direction_byte d = (case d of SibLeft \<Rightarrow> 0 | SibRight \<Rightarrow> 1)"

definition mp_to_bytes :: "merkle_proof \<Rightarrow> byte list" where
  "mp_to_bytes p = mp_leaf_hash p @ u32_le (mp_leaf_index p) @ u32_le (length (mp_siblings p)) @
     concat (map (\<lambda>(s, d). s @ [direction_byte d]) (zip (mp_siblings p) (mp_directions p)))"

fun read_siblings :: "nat \<Rightarrow> byte list \<Rightarrow> (digest \<times> proof_direction) list option" where
  "read_siblings 0 bs = Some []"
| "read_siblings (Suc n) bs =
    (if length bs < 33 then None
     else let s = take 32 bs; b = bs ! 32 in
       if b = 0 then map_option ((#) (s, SibLeft)) (read_siblings n (drop 33 bs))
       else if b = 1 then map_option ((#) (s, SibRight)) (read_siblings n (drop 33 bs))
       else None)"

definition mp_from_bytes :: "byte list \<Rightarrow> merkle_proof option" where
  "mp_from_bytes bs =
    (if length bs < 40 then None
     else let leaf = take 32 bs; idx = u32_of_le (take 4 (drop 32 bs)); n = u32_of_le (take 4 (drop 36 bs)) in
       map_option (\<lambda>sds. \<lparr> mp_leaf_hash = leaf, mp_siblings = map fst sds, mp_directions = map snd sds,
         mp_leaf_index = idx \<rparr>) (read_siblings n (drop 40 bs)))"

section \<open>The tree\<close>

record merkle_tree =
  levels :: "digest list list"

definition mt_empty :: merkle_tree where
  "mt_empty = \<lparr> levels = [[]] \<rparr>"

text \<open>One level from the one below; an odd last node is paired with itself.\<close>

fun next_level :: "hash_fn \<Rightarrow> digest list \<Rightarrow> digest list" where
  "next_level keccak [] = []"
| "next_level keccak [x] = [hash_pair keccak x x]"
| "next_level keccak (x # y # xs) = hash_pair keccak x y # next_level keccak xs"

lemma length_next_level: "length (next_level keccak xs) = (length xs + 1) div 2"
  by (induction keccak xs rule: next_level.induct) auto

lemma next_level_shrinks: "xs \<noteq> [] \<Longrightarrow> length (next_level keccak xs) \<noteq> 1 \<Longrightarrow> length (next_level keccak xs) < length xs"
  by (cases xs; cases "tl xs") (auto simp: length_next_level)

text \<open>
  The levels above a given one.  The loop is entered with at least one node
  (\<open>from_leaves\<close> treats the empty list apart), so the first guard only makes the
  function total.
\<close>

function build_levels :: "hash_fn \<Rightarrow> bool \<Rightarrow> digest list \<Rightarrow> digest list list" where
  "build_levels keccak bottom level =
    (if level = [] then []
     else if length level = 1 \<and> \<not> bottom then []
     else let nl = next_level keccak level in
       if length nl = 1 then [nl] else nl # build_levels keccak False nl)"
  by pat_completeness auto
termination
  by (relation "measure (\<lambda>(_, _, level). length level)") (auto dest: next_level_shrinks)

declare build_levels.simps [simp del]

definition from_leaves :: "hash_fn \<Rightarrow> digest list \<Rightarrow> merkle_tree" where
  "from_leaves keccak leaves =
    (if leaves = [] then \<lparr> levels = [[], [hash_bytes keccak []]] \<rparr>
     else \<lparr> levels = leaves # build_levels keccak True leaves \<rparr>)"

definition from_entries :: "hash_fn \<Rightarrow> (byte list \<times> byte list) list \<Rightarrow> merkle_tree" where
  "from_entries keccak es = from_leaves keccak (map (\<lambda>(k, v). hash_entry keccak k v) es)"

definition mt_root :: "hash_fn \<Rightarrow> merkle_tree \<Rightarrow> digest" where
  "mt_root keccak t =
    (if levels t = [] \<or> last (levels t) = [] then hash_bytes keccak [] else hd (last (levels t)))"

definition leaf_count :: "merkle_tree \<Rightarrow> nat" where
  "leaf_count t = (if levels t = [] then 0 else length (hd (levels t)))"

definition sibling_index :: "nat \<Rightarrow> nat \<Rightarrow> nat" where
  "sibling_index n i = (if i mod 2 = 1 then i - 1 else if i + 1 \<ge> n then i else i + 1)"

fun prove_levels :: "digest list list \<Rightarrow> nat \<Rightarrow> (digest \<times> proof_direction) list" where
  "prove_levels [] i = []"
| "prove_levels (level # ls) i =
     (level ! sibling_index (length level) i, if i mod 2 = 1 then SibLeft else SibRight) # prove_levels ls (i div 2)"

definition mt_prove :: "merkle_tree \<Rightarrow> nat \<Rightarrow> merkle_proof option" where
  "mt_prove t i =
    (if levels t = [] \<or> i \<ge> length (hd (levels t)) then None
     else let sds = prove_levels (butlast (levels t)) i in
       Some \<lparr> mp_leaf_hash = hd (levels t) ! i, mp_siblings = map fst sds, mp_directions = map snd sds,
              mp_leaf_index = i \<rparr>)"

definition mt_verify_proof :: "hash_fn \<Rightarrow> merkle_tree \<Rightarrow> merkle_proof \<Rightarrow> bool" where
  "mt_verify_proof keccak t p = mp_verify keccak p (mt_root keccak t)"

section \<open>Completeness of proofs\<close>

lemma next_level_nth:
  "i < length xs \<Longrightarrow> next_level keccak xs ! (i div 2) =
     climb keccak (xs ! i) (xs ! sibling_index (length xs) i, if i mod 2 = 1 then SibLeft else SibRight)"
proof (induction keccak xs arbitrary: i rule: next_level.induct)
  case (3 keccak x y xs)
  show ?case
  proof (cases "i < 2")
    case True
    then have "i = 0 \<or> i = 1" by auto
    then show ?thesis by (auto simp: climb_def sibling_index_def)
  next
    case False
    then obtain j where i: "i = Suc (Suc j)" by (metis less_2_cases not0_implies_Suc not_less numeral_2_eq_2 less_Suc_eq_0_disj)
    with 3 have "next_level keccak xs ! (j div 2) =
        climb keccak (xs ! j) (xs ! sibling_index (length xs) j, if j mod 2 = 1 then SibLeft else SibRight)" by simp
    moreover have "(x # y # xs) ! sibling_index (length (x # y # xs)) i = xs ! sibling_index (length xs) j"
      unfolding i by (cases j) (auto simp: sibling_index_def mod_Suc nth_Cons')
    ultimately show ?thesis unfolding i by simp
  qed
qed (auto simp: climb_def sibling_index_def)

lemma build_levels_ne: "level \<noteq> [] \<Longrightarrow> bottom \<or> length level \<noteq> 1 \<Longrightarrow> build_levels keccak bottom level \<noteq> []"
  by (subst build_levels.simps) (auto simp: Let_def)

lemma next_level_ne: "xs \<noteq> [] \<Longrightarrow> next_level keccak xs \<noteq> []"
  by (cases xs; cases "tl xs") auto

lemma climb_to_root:
  "i < length level \<Longrightarrow> bottom \<or> length level \<noteq> 1 \<Longrightarrow>
   foldl (climb keccak) (level ! i) (prove_levels (butlast (level # build_levels keccak bottom level)) i) =
     hd (last (build_levels keccak bottom level)) \<and> last (build_levels keccak bottom level) \<noteq> []"
proof (induction keccak bottom level arbitrary: i rule: build_levels.induct)
  case (1 keccak bottom level)
  let ?nl = "next_level keccak level"
  have ne: "level \<noteq> []" using 1(2) by auto
  have step: "?nl ! (i div 2) = climb keccak (level ! i)
      (level ! sibling_index (length level) i, if i mod 2 = 1 then SibLeft else SibRight)"
    using next_level_nth [OF 1(2)] .
  have lt: "i div 2 < length ?nl" using 1(2) by (simp add: length_next_level)
  show ?case
  proof (cases "length ?nl = 1")
    case True
    then have b: "build_levels keccak bottom level = [?nl]"
      using ne 1(3) by (subst build_levels.simps) (auto simp: Let_def)
    have "i div 2 = 0" using lt True by simp
    then show ?thesis using True step b by (cases ?nl) auto
  next
    case False
    then have b: "build_levels keccak bottom level = ?nl # build_levels keccak False ?nl"
      using ne 1(3) by (subst build_levels.simps) (auto simp: Let_def)
    have ne2: "build_levels keccak False ?nl \<noteq> []"
      using build_levels_ne next_level_ne ne False by blast
    have "foldl (climb keccak) (?nl ! (i div 2)) (prove_levels (butlast (?nl # build_levels keccak False ?nl)) (i div 2)) =
        hd (last (build_levels keccak False ?nl)) \<and> last (build_levels keccak False ?nl) \<noteq> []"
      using 1(1) [OF ne _ refl False lt] False 1(3) by blast
    then show ?thesis using ne2 step unfolding b by simp
  qed
qed

lemma mt_prove_leaf:
  assumes "i < length leaves"
  obtains p where "mt_prove (from_leaves keccak leaves) i = Some p" "mp_leaf_hash p = leaves ! i"
    "mp_leaf_index p = i" "mt_verify_proof keccak (from_leaves keccak leaves) p"
proof -
  from assms have ne: "leaves \<noteq> []" by auto
  then have ne2: "build_levels keccak True leaves \<noteq> []" by (simp add: build_levels_ne)
  show ?thesis
    using assms ne ne2 climb_to_root [OF assms, of True keccak] that
    by (auto simp: mt_prove_def from_leaves_def mt_verify_proof_def mp_verify_def compute_root_def mt_root_def Let_def
        zip_map_fst_snd)
qed

text \<open>
  Every leaf of a tree has a proof and the proof verifies against the root;
  an index past the last leaf has none.
\<close>

theorem merkle_proofs_complete:
  "if i < length leaves
   then \<exists>p. mt_prove (from_leaves keccak leaves) i = Some p \<and> mp_leaf_hash p = leaves ! i \<and> mp_leaf_index p = i \<and>
     mt_verify_proof keccak (from_leaves keccak leaves) p
   else mt_prove (from_leaves keccak leaves) i = None"
  using mt_prove_leaf [of i leaves keccak] by (auto simp: mt_prove_def from_leaves_def)

section \<open>The byte format round trips\<close>

lemma length_u32_le [simp]: "length (u32_le n) = 4"
  by (simp add: u32_le_def)

lemma u32_of_le_le: "n < 2 ^ 32 \<Longrightarrow> u32_of_le (u32_le n) = n"
proof -
  assume "n < 2 ^ 32"
  then have small: "n div 256 div 256 div 256 < 256" by (simp add: div_mult2_eq [symmetric] div_less_iff_less_mult)
  have "n div 65536 = n div 256 div 256" "n div 16777216 = n div 256 div 256 div 256"
    by (simp_all add: div_mult2_eq [symmetric])
  then show ?thesis
    using small by (simp add: u32_of_le_def u32_le_def unsigned_of_nat take_bit_eq_mod del: div_mult2_eq)
qed

lemma read_siblings_concat:
  "\<forall>(s, d) \<in> set sds. length s = 32 \<Longrightarrow>
   read_siblings (length sds) (concat (map (\<lambda>(s, d). s @ [direction_byte d]) sds)) = Some sds"
proof (induction sds)
  case (Cons sd sds)
  obtain s d where sd: "sd = (s, d)" by fastforce
  then have "length s = 32" using Cons.prems by simp
  moreover have "drop 33 (s @ direction_byte d # rest) = rest" if "length s = 32" for rest using that by simp
  ultimately show ?case
    using Cons sd by (cases d) (simp_all add: direction_byte_def nth_append)
qed simp

definition mp_ok :: "merkle_proof \<Rightarrow> bool" where
  "mp_ok p = (length (mp_leaf_hash p) = 32 \<and> (\<forall>s \<in> set (mp_siblings p). length s = 32) \<and>
     length (mp_directions p) = length (mp_siblings p))"

text \<open>
  A proof written to bytes reads back as the same proof, as long as its index
  and its length fit in 32 bits.
\<close>

theorem merkle_proof_bytes_roundtrip:
  assumes "mp_ok p" "mp_leaf_index p < 2 ^ 32" "length (mp_siblings p) < 2 ^ 32"
  shows "mp_from_bytes (mp_to_bytes p) = Some p"
proof -
  let ?sds = "zip (mp_siblings p) (mp_directions p)"
  have "\<forall>(s, d) \<in> set ?sds. length s = 32" using assms(1) by (auto simp: mp_ok_def dest: set_zip_leftD)
  note rd = read_siblings_concat [OF this]
  have "length ?sds = length (mp_siblings p)" using assms(1) by (simp add: mp_ok_def)
  with rd have rd': "read_siblings (length (mp_siblings p))
      (concat (map (\<lambda>(s, d). s @ [direction_byte d]) ?sds)) = Some ?sds" by simp
  have "length (mp_leaf_hash p) = 32" using assms(1) by (simp add: mp_ok_def)
  then show ?thesis
    using assms rd' by (simp add: mp_from_bytes_def mp_to_bytes_def u32_of_le_le mp_ok_def Let_def)
qed

section \<open>Binding\<close>

text \<open>The byte strings that are hashed on the way from a leaf to the root.\<close>

definition climb_input :: "digest \<Rightarrow> digest \<times> proof_direction \<Rightarrow> byte list" where
  "climb_input cur sd = (case sd of (s, SibLeft) \<Rightarrow> s @ cur | (s, SibRight) \<Rightarrow> cur @ s)"

fun path_inputs :: "hash_fn \<Rightarrow> digest \<Rightarrow> (digest \<times> proof_direction) list \<Rightarrow> byte list list" where
  "path_inputs keccak cur [] = []"
| "path_inputs keccak cur (sd # sds) = climb_input cur sd # path_inputs keccak (climb keccak cur sd) sds"

lemma climb_input: "climb keccak cur sd = keccak (climb_input cur sd)"
  by (cases sd; cases "snd sd") (auto simp: climb_def climb_input_def hash_pair_def)

lemma path_inputs_snoc:
  "path_inputs keccak cur (sds @ [sd]) =
     path_inputs keccak cur sds @ [climb_input (foldl (climb keccak) cur sds) sd]"
  by (induction sds arbitrary: cur) auto

lemma length_foldl_climb:
  "(\<And>x. length (keccak x) = 32) \<Longrightarrow> length cur = 32 \<Longrightarrow> length (foldl (climb keccak) cur sds) = 32"
  by (induction sds arbitrary: cur) (auto simp: climb_input)

lemma paths_binding:
  assumes "\<And>x. length (keccak x) = 32" "length c1 = 32" "length c2 = 32"
  shows "length sds1 = length sds2 \<Longrightarrow> map snd sds1 = map snd sds2 \<Longrightarrow>
    \<forall>s \<in> fst ` set sds1 \<union> fst ` set sds2. length s = 32 \<Longrightarrow>
    inj_on keccak (set (path_inputs keccak c1 sds1) \<union> set (path_inputs keccak c2 sds2)) \<Longrightarrow>
    foldl (climb keccak) c1 sds1 = foldl (climb keccak) c2 sds2 \<Longrightarrow> c1 = c2 \<and> sds1 = sds2"
proof (induction sds1 sds2 rule: rev_induct2)
  case (4 x xs y ys)
  let ?a = "foldl (climb keccak) c1 xs" and ?b = "foldl (climb keccak) c2 ys"
  have len: "length ?a = 32" "length ?b = 32" using length_foldl_climb assms by auto
  have "keccak (climb_input ?a x) = keccak (climb_input ?b y)" 
    using 4(6) climb_input [of keccak ?a x] climb_input [of keccak ?b y] by simp
  then have "climb_input ?a x = climb_input ?b y"
    by (rule inj_onD [OF 4(5)]) (simp_all add: path_inputs_snoc)
  moreover have "snd x = snd y" "length (fst x) = length (fst y)" using 4(3,4) by auto
  ultimately have "?a = ?b" "x = y"
    using len by (cases x; cases y; cases "snd x"; simp add: climb_input_def)+
  moreover have "inj_on keccak (set (path_inputs keccak c1 xs) \<union> set (path_inputs keccak c2 ys))"
    using 4(5) by (rule inj_on_subset) (auto simp: path_inputs_snoc)
  ultimately show ?case using 4 by auto
qed auto

lemma mp_verify_binds:
  assumes digest: "\<And>x. length (keccak x) = 32" and ok: "mp_ok p" "mp_ok q"
    and shape: "mp_directions p = mp_directions q"
    and verify: "mp_verify keccak p root" "mp_verify keccak q root"
    and collision_free: "inj_on keccak
      (set (path_inputs keccak (mp_leaf_hash p) (zip (mp_siblings p) (mp_directions p))) \<union>
       set (path_inputs keccak (mp_leaf_hash q) (zip (mp_siblings q) (mp_directions q))))"
  shows "mp_leaf_hash p = mp_leaf_hash q \<and> mp_siblings p = mp_siblings q"
proof -
  let ?P = "zip (mp_siblings p) (mp_directions p)" and ?Q = "zip (mp_siblings q) (mp_directions q)"
  have len: "length (mp_siblings p) = length (mp_directions p)" "length (mp_siblings q) = length (mp_directions p)"
    using ok shape by (auto simp: mp_ok_def)
  then have "mp_leaf_hash p = mp_leaf_hash q \<and> ?P = ?Q"
    using ok shape verify collision_free
    by (intro paths_binding [OF digest]) (auto simp: mp_ok_def mp_verify_def compute_root_def dest: set_zip_leftD)
  then show ?thesis using len shape by (metis map_fst_zip)
qed

text \<open>
  A root binds the leaf at a position: when Keccak has no collision among the
  strings hashed on the two paths and its digests have 32 bytes, two proofs of the
  same shape that verify against the same root are proofs of the same leaf with
  the same siblings.
\<close>

theorem merkle_root_binds_leaf:
  assumes digest: "\<And>x. length (keccak x) = 32" and ok: "mp_ok p" "mp_ok q"
    and shape: "mp_directions p = mp_directions q"
    and verify: "mp_verify keccak p root" "mp_verify keccak q root"
    and collision_free: "inj_on keccak
      (set (path_inputs keccak (mp_leaf_hash p) (zip (mp_siblings p) (mp_directions p))) \<union>
       set (path_inputs keccak (mp_leaf_hash q) (zip (mp_siblings q) (mp_directions q))))"
  shows "mp_leaf_hash p = mp_leaf_hash q \<and> mp_siblings p = mp_siblings q"
  using assms by (rule mp_verify_binds)

text \<open>A toy digest: the first 32 bytes of the padded input, enough to show the hypotheses can hold.\<close>

definition pad_hash :: hash_fn where
  "pad_hash bs = take 32 (bs @ replicate 32 0)"

definition leaf_proof :: "byte \<Rightarrow> merkle_proof" where
  "leaf_proof b = \<lparr> mp_leaf_hash = replicate 32 b, mp_siblings = [], mp_directions = [], mp_leaf_index = 0 \<rparr>"

theorem merkle_proof_bytes_roundtrip_witness: "mp_from_bytes (mp_to_bytes (leaf_proof 7)) = Some (leaf_proof 7)"
  using merkle_proof_bytes_roundtrip [of "leaf_proof 7"] by (simp add: leaf_proof_def mp_ok_def)

definition pair_proof :: "byte \<Rightarrow> byte \<Rightarrow> merkle_proof" where
  "pair_proof a b = \<lparr> mp_leaf_hash = replicate 32 a, mp_siblings = [replicate 32 b],
     mp_directions = [SibRight], mp_leaf_index = 0 \<rparr>"

theorem merkle_root_binds_leaf_witness:
  "mp_verify pad_hash (pair_proof 1 2) (compute_root pad_hash (pair_proof 1 2 \<lparr> mp_leaf_index := 5 \<rparr>)) \<and>
   mp_leaf_hash (pair_proof 1 2) = mp_leaf_hash (pair_proof 1 2 \<lparr> mp_leaf_index := 5 \<rparr>)"
proof -
  let ?q = "pair_proof 1 2 \<lparr> mp_leaf_index := 5 \<rparr>"
  have "compute_root pad_hash (pair_proof 1 2) = compute_root pad_hash ?q"
    by (simp add: compute_root_def pair_proof_def)
  then show ?thesis
    using merkle_root_binds_leaf [of pad_hash "pair_proof 1 2" ?q "compute_root pad_hash (pair_proof 1 2)"]
    by (simp add: mp_ok_def pair_proof_def mp_verify_def pad_hash_def)
qed

text \<open>
  The root does not determine the list of leaves: a tree over three leaves has
  the root of the tree over these leaves with the last one repeated, and a single
  leaf the root of the pair of it with itself.
\<close>

theorem merkle_root_ambiguous:
  "mt_root keccak (from_leaves keccak [a, b, c]) = mt_root keccak (from_leaves keccak [a, b, c, c]) \<and>
   mt_root keccak (from_leaves keccak [a]) = mt_root keccak (from_leaves keccak [a, a]) \<and>
   hash_entry keccak (key @ [x]) val = hash_entry keccak key (x # val)"
  by (simp add: mt_root_def from_leaves_def build_levels.simps Let_def hash_entry_def)

end
