(* ===== verification/Hyper_Bft.thy ===== *)
theory Hyper_Bft
  imports Engine_History Merkle
begin

text \<open>
  The HyperBFT consensus layer: configuration, leader rotation, vote collection,
  message handling and the per-height view of the runner
  (\<open>crates/chain/src/hyperbft/\<close>), and the optimistic executor of
  \<open>crates/chain/src/consensus.rs\<close>.  The hasher of the standard library
  (\<open>DefaultHasher\<close>, whose algorithm is unspecified) and the block producer are
  parameters; the message channel is the list of messages sent; what arrives in a
  view is a list of events.
\<close>

section \<open>Configuration and messages\<close>

record bft_config =
  bc_max_wait_ms :: nat
  bc_num_validators :: nat
  bc_fault_tolerance :: nat
  bc_validator_index :: nat

definition bft_config_default :: bft_config where
  "bft_config_default = \<lparr> bc_max_wait_ms = 5, bc_num_validators = 4, bc_fault_tolerance = 1, bc_validator_index = 0 \<rparr>"

definition quorum_size :: "bft_config \<Rightarrow> nat" where
  "quorum_size c = 2 * bc_fault_tolerance c + 1"

definition min_validators :: "bft_config \<Rightarrow> nat" where
  "min_validators c = 3 * bc_fault_tolerance c + 1"

datatype bft_phase = Idle | ProposePhase | VotePhase | Committed

record block_proposal =
  bp_height :: nat
  bp_proposer :: nat
  bp_tx_hashes :: "digest list"
  bp_parent_hash :: digest
  bp_timestamp :: nat
  bp_signature :: "byte list"

record vote =
  v_height :: nat
  v_voter :: nat
  v_block_hash :: digest
  v_signature :: "byte list"

record commit_certificate =
  cc_height :: nat
  cc_block_hash :: digest
  cc_votes :: "vote list"

definition has_quorum :: "commit_certificate \<Rightarrow> nat \<Rightarrow> bool" where
  "has_quorum c q = (length (cc_votes c) \<ge> q)"

datatype bft_message =
    Propose block_proposal
  | VoteMsg vote
  | Commit commit_certificate
  | SyncRequest nat
  | SyncResponse nat block_proposal commit_certificate

fun msg_height :: "bft_message \<Rightarrow> nat" where
  "msg_height (Propose p) = bp_height p"
| "msg_height (VoteMsg v) = v_height v"
| "msg_height (Commit c) = cc_height c"
| "msg_height (SyncRequest h) = h"
| "msg_height (SyncResponse h _ _) = h"

section \<open>Leader rotation\<close>

text \<open>The remainder by zero validators panics.\<close>

definition leader_for_height :: "bft_config \<Rightarrow> nat \<Rightarrow> nat option" where
  "leader_for_height c h = (if bc_num_validators c = 0 then None else Some (h mod bc_num_validators c))"

definition is_leader :: "bft_config \<Rightarrow> nat \<Rightarrow> bool option" where
  "is_leader c h = map_option (\<lambda>l. l = bc_validator_index c) (leader_for_height c h)"

definition next_leader :: "bft_config \<Rightarrow> nat \<Rightarrow> nat option" where
  "next_leader c h = leader_for_height c (h + 1)"

section \<open>Vote collection\<close>

record vote_collector =
  vc_config :: bft_config
  vc_votes :: "(nat \<times> digest, vote list) hash_map"
  vc_voted :: "(nat, nat list) hash_map"

definition vote_collector_new :: "bft_config \<Rightarrow> vote_collector" where
  "vote_collector_new c = \<lparr> vc_config = c, vc_votes = [], vc_voted = [] \<rparr>"

definition add_vote :: "vote \<Rightarrow> vote_collector \<Rightarrow> commit_certificate option \<times> vote_collector" where
  "add_vote v vc =
    (let voted = hm_get_or [] (vc_voted vc) (v_height v) in
     if v_voter v \<in> set voted
     then (None, vc \<lparr> vc_voted := hm_insert (v_height v) voted (vc_voted vc) \<rparr>)
     else
       let vc1 = vc \<lparr> vc_voted := hm_insert (v_height v) (v_voter v # voted) (vc_voted vc) \<rparr>;
           key = (v_height v, v_block_hash v);
           vs = hm_get_or [] (vc_votes vc1) key @ [v];
           vc2 = vc1 \<lparr> vc_votes := hm_insert key vs (vc_votes vc1) \<rparr>
       in (if length vs \<ge> quorum_size (vc_config vc)
           then Some \<lparr> cc_height = v_height v, cc_block_hash = v_block_hash v, cc_votes = vs \<rparr> else None, vc2))"

definition vote_count :: "vote_collector \<Rightarrow> nat \<Rightarrow> digest \<Rightarrow> nat" where
  "vote_count vc h b = length (hm_get_or [] (vc_votes vc) (h, b))"

definition vc_prune :: "nat \<Rightarrow> vote_collector \<Rightarrow> vote_collector" where
  "vc_prune mn vc = vc \<lparr> vc_votes := filter (\<lambda>((h, _), _). h \<ge> mn) (vc_votes vc),
     vc_voted := filter (\<lambda>(h, _). h \<ge> mn) (vc_voted vc) \<rparr>"

section \<open>Optimistic execution\<close>

record optimistic_executor =
  oe_snapshot_height :: "nat option"
  oe_is_speculative :: bool
  oe_engine_snapshot :: "engine_snapshot option"
  oe_app_hash :: "digest option"

definition oe_new :: optimistic_executor where
  "oe_new = \<lparr> oe_snapshot_height = None, oe_is_speculative = False, oe_engine_snapshot = None, oe_app_hash = None \<rparr>"

definition begin_speculative_with_snapshot ::
  "nat \<Rightarrow> engine_snapshot \<Rightarrow> digest \<Rightarrow> optimistic_executor \<Rightarrow> optimistic_executor" where
  "begin_speculative_with_snapshot h sn ah e =
     e \<lparr> oe_snapshot_height := Some h, oe_is_speculative := True, oe_engine_snapshot := Some sn, oe_app_hash := Some ah \<rparr>"

definition begin_speculative :: "nat \<Rightarrow> optimistic_executor \<Rightarrow> optimistic_executor" where
  "begin_speculative h e = e \<lparr> oe_snapshot_height := Some h, oe_is_speculative := True \<rparr>"

definition oe_confirm :: "optimistic_executor \<Rightarrow> optimistic_executor" where
  "oe_confirm e = e \<lparr> oe_snapshot_height := None, oe_is_speculative := False, oe_engine_snapshot := None, oe_app_hash := None \<rparr>"

definition oe_rollback :: "optimistic_executor \<Rightarrow> (engine_snapshot \<times> digest) option \<times> optimistic_executor" where
  "oe_rollback e =
    (case (oe_engine_snapshot e, oe_app_hash e) of (Some s, Some h) \<Rightarrow> Some (s, h) | _ \<Rightarrow> None,
     e \<lparr> oe_snapshot_height := None, oe_is_speculative := False, oe_engine_snapshot := None, oe_app_hash := None \<rparr>)"

definition needs_rollback :: "optimistic_executor \<Rightarrow> bool" where
  "needs_rollback e = oe_is_speculative e"

definition has_snapshot :: "optimistic_executor \<Rightarrow> bool" where
  "has_snapshot e = (oe_engine_snapshot e \<noteq> None)"

section \<open>The runner\<close>

datatype consensus_error =
    ProductionFailed string
  | FinalizationFailed string
  | NotReady
  | Halted
  | InternalError string

record bft_node =
  bn_config :: bft_config
  bn_collector :: vote_collector
  bn_phase :: bft_phase
  bn_height :: nat
  bn_optimistic :: optimistic_executor
  bn_running :: bool

definition bft_node_new :: "bft_config \<Rightarrow> bft_node" where
  "bft_node_new c = \<lparr> bn_config = c, bn_collector = vote_collector_new c, bn_phase = Idle, bn_height = 0,
     bn_optimistic = oe_new, bn_running = False \<rparr>"

text \<open>The eight bytes of the hasher, little-endian, four times.\<close>

type_synonym hasher = "nat \<Rightarrow> nat \<Rightarrow> digest \<Rightarrow> nat \<Rightarrow> digest list \<Rightarrow> nat"

definition compute_proposal_hash :: "hasher \<Rightarrow> block_proposal \<Rightarrow> digest" where
  "compute_proposal_hash hs p = concat (replicate 4
     (u64_le (hs (bp_height p) (bp_proposer p) (bp_parent_hash p) (bp_timestamp p) (bp_tx_hashes p))))"

definition commit_block :: "nat \<Rightarrow> commit_certificate \<Rightarrow> bft_node \<Rightarrow> bft_node \<times> bft_message list" where
  "commit_block h cert n =
    (n \<lparr> bn_optimistic := oe_confirm (bn_optimistic n), bn_height := h, bn_phase := Committed,
         bn_collector := vc_prune (h - 10) (bn_collector n) \<rparr>, [Commit cert])"

text \<open>Count a vote and commit when it completes a quorum.\<close>

definition count_vote :: "nat \<Rightarrow> vote \<Rightarrow> bft_node \<Rightarrow> bool \<times> bft_node \<times> bft_message list" where
  "count_vote h v n = (let (cert, vc) = add_vote v (bn_collector n); n1 = n \<lparr> bn_collector := vc \<rparr> in
     (case cert of
        None \<Rightarrow> (False, n1, [])
      | Some c \<Rightarrow> let (n2, ms) = commit_block h c n1 in (True, n2, ms)))"

fun handle_message ::
  "hasher \<Rightarrow> bft_message \<Rightarrow> nat \<Rightarrow> bft_node \<Rightarrow> (consensus_error + bool) \<times> bft_node \<times> bft_message list" where
  "handle_message hs (Propose p) h n =
    (if bp_height p \<noteq> h then (Inr False, n, [])
     else let v = \<lparr> v_height = bp_height p, v_voter = bc_validator_index (bn_config n),
                    v_block_hash = compute_proposal_hash hs p, v_signature = [] \<rparr>;
              n1 = n \<lparr> bn_optimistic := begin_speculative h (bn_optimistic n), bn_phase := VotePhase \<rparr>;
              (c, n2, ms) = count_vote h v n1
          in (Inr c, n2, VoteMsg v # ms))"
| "handle_message hs (VoteMsg v) h n =
    (if v_height v \<noteq> h then (Inr False, n, [])
     else let (c, n1, ms) = count_vote h v n in (Inr c, n1, ms))"
| "handle_message hs (Commit cert) h n =
    (if cc_height cert \<noteq> h then (Inr False, n, [])
     else if \<not> has_quorum cert (quorum_size (bn_config n))
     then (Inl (InternalError ''Commit certificate has insufficient votes''), n, [])
     else (Inr True, n \<lparr> bn_optimistic := oe_confirm (bn_optimistic n), bn_height := h, bn_phase := Committed \<rparr>, []))"
| "handle_message hs (SyncRequest _) h n = (Inr False, n, [])"
| "handle_message hs (SyncResponse _ _ _) h n = (Inr False, n, [])"

definition propose_block_internal ::
  "bft_config \<Rightarrow> nat \<Rightarrow> string + digest \<Rightarrow> nat \<Rightarrow> consensus_error + block_proposal" where
  "propose_block_internal c h produced now = (case produced of
       Inl e \<Rightarrow> Inl (ProductionFailed e)
     | Inr app_hash \<Rightarrow> Inr \<lparr> bp_height = h, bp_proposer = bc_validator_index c, bp_tx_hashes = [],
         bp_parent_hash = app_hash, bp_timestamp = now, bp_signature = [] \<rparr>)"

text \<open>
  What a node waits for in a view: a message, the end of the channel, or the
  deadline (also the end of the list of events).
\<close>

datatype view_event = Recv bft_message | Closed | Timeout

datatype view_result = CommittedView | ExpiredView | ClosedView

fun view_loop ::
  "hasher \<Rightarrow> nat \<Rightarrow> view_event list \<Rightarrow> bft_node \<Rightarrow> bft_message list \<Rightarrow> view_result \<times> bft_node \<times> bft_message list" where
  "view_loop hs h [] n out = (ExpiredView, n, out)"
| "view_loop hs h (Timeout # es) n out = (ExpiredView, n, out)"
| "view_loop hs h (Closed # es) n out = (ClosedView, n \<lparr> bn_running := False \<rparr>, out)"
| "view_loop hs h (Recv m # es) n out =
    (let (r, n1, ms) = handle_message hs m h n in
     if r = Inr True then (CommittedView, n1, out @ ms) else view_loop hs h es n1 (out @ ms))"

text \<open>The leader's part of a view.\<close>

definition lead_view ::
  "bool \<Rightarrow> nat \<Rightarrow> string + digest \<Rightarrow> nat \<Rightarrow> bft_node \<Rightarrow> bft_node \<times> bft_message list" where
  "lead_view leads h produced now n =
    (if leads then
       (case propose_block_internal (bn_config n) h produced now of
          Inr p \<Rightarrow> (n \<lparr> bn_phase := ProposePhase \<rparr>, [Propose p])
        | Inl _ \<Rightarrow> (n, []))
     else (n, []))"

text \<open>One turn of the outer loop; a closed channel ends the run without the rollback.\<close>

definition run_view ::
  "hasher \<Rightarrow> string + digest \<Rightarrow> nat \<Rightarrow> view_event list \<Rightarrow> bft_node \<Rightarrow> (view_result \<times> bft_node \<times> bft_message list) option" where
  "run_view hs produced now es n = (let h = bn_height n + 1 in
     map_option (\<lambda>leads.
       let (n1, out) = lead_view leads h produced now n;
           (r, n2, out2) = view_loop hs h es n1 out
       in (r, if r = ExpiredView \<and> needs_rollback (bn_optimistic n2)
              then n2 \<lparr> bn_optimistic := snd (oe_rollback (bn_optimistic n2)) \<rparr> else n2, out2))
     (is_leader (bn_config n) h))"

definition bft_finalize_block :: "nat \<Rightarrow> string + digest \<Rightarrow> bft_node \<Rightarrow> consensus_error + digest" where
  "bft_finalize_block h produced n =
    (if h \<noteq> bn_height n then Inl (FinalizationFailed
       (''Height mismatch: expected '' @ show_nat (bn_height n) @ '', got '' @ show_nat h))
     else (case produced of Inl e \<Rightarrow> Inl (FinalizationFailed e) | Inr app_hash \<Rightarrow> Inr app_hash))"

section \<open>Certificates of the collector\<close>

definition ballots :: "vote_collector \<Rightarrow> nat \<Rightarrow> digest \<Rightarrow> vote list" where
  "ballots vc h b = hm_get_or [] (vc_votes vc) (h, b)"

definition counted :: "vote_collector \<Rightarrow> nat \<Rightarrow> digest \<Rightarrow> nat set" where
  "counted vc h b = v_voter ` set (ballots vc h b)"

definition vc_inv :: "vote_collector \<Rightarrow> bool" where
  "vc_inv vc = (\<forall>h b. distinct (map v_voter (ballots vc h b)) \<and>
     (\<forall>v \<in> set (ballots vc h b). v_height v = h \<and> v_block_hash v = b) \<and>
     counted vc h b \<subseteq> set (hm_get_or [] (vc_voted vc) h) \<and>
     (\<forall>b'. b' \<noteq> b \<longrightarrow> counted vc h b \<inter> counted vc h b' = {}))"

lemma hm_get_filter_key: "hm_get (filter (\<lambda>(k, _). P k) m) k = (if P k then hm_get m k else None)"
  by (induction m) (auto simp: hm_get_def)

lemma ballots_add_vote:
  "ballots (snd (add_vote v vc)) h b =
    (if v_voter v \<notin> set (hm_get_or [] (vc_voted vc) (v_height v)) \<and> h = v_height v \<and> b = v_block_hash v
     then ballots vc h b @ [v] else ballots vc h b)"
  by (simp add: ballots_def add_vote_def Let_def)

lemma voted_add_vote:
  "set (hm_get_or [] (vc_voted (snd (add_vote v vc))) h) =
    (if h = v_height v then insert (v_voter v) (set (hm_get_or [] (vc_voted vc) h)) else set (hm_get_or [] (vc_voted vc) h))"
  by (auto simp: add_vote_def Let_def)

lemma ballots_prune: "ballots (vc_prune mn vc) h b = (if mn \<le> h then ballots vc h b else [])"
proof -
  have "filter (\<lambda>((h, _), _). mn \<le> h) (vc_votes vc) = filter (\<lambda>(k, _). mn \<le> fst k) (vc_votes vc)"
    by (rule filter_cong) auto
  then show ?thesis by (simp add: ballots_def vc_prune_def hm_get_or_def hm_get_filter_key)
qed

lemma voted_prune:
  "hm_get_or [] (vc_voted (vc_prune mn vc)) h = (if mn \<le> h then hm_get_or [] (vc_voted vc) h else [])"
  by (simp add: vc_prune_def hm_get_or_def hm_get_filter_key)

lemma vc_inv_new: "vc_inv (vote_collector_new c)"
  by (simp add: vc_inv_def vote_collector_new_def ballots_def counted_def hm_get_or_def)

lemma vc_inv_add_vote: "vc_inv vc \<Longrightarrow> vc_inv (snd (add_vote v vc))"
  unfolding vc_inv_def counted_def ballots_add_vote voted_add_vote
  by (auto split: if_splits)

lemma vc_inv_prune: "vc_inv vc \<Longrightarrow> vc_inv (vc_prune mn vc)"
  unfolding vc_inv_def counted_def ballots_prune voted_prune by auto

lemma add_vote_config [simp]: "vc_config (snd (add_vote v vc)) = vc_config vc"
  by (simp add: add_vote_def Let_def)

lemma vc_prune_config [simp]: "vc_config (vc_prune mn vc) = vc_config vc"
  by (simp add: vc_prune_def)

lemma add_vote_certificate:
  assumes "add_vote v vc = (Some c, vc')"
  shows "cc_height c = v_height v" "cc_block_hash c = v_block_hash v"
    "cc_votes c = ballots vc' (v_height v) (v_block_hash v)" "quorum_size (vc_config vc) \<le> length (cc_votes c)"
  using assms by (auto simp: add_vote_def Let_def ballots_def split: if_splits)

text \<open>Steps of a collector, and the collectors a node can reach.\<close>

inductive vc_step :: "vote_collector \<Rightarrow> vote_collector \<Rightarrow> bool" where
  add: "vc_step vc (snd (add_vote v vc))"
| prune: "vc_step vc (vc_prune mn vc)"

inductive_cases vc_stepE: "vc_step vc vc'"

lemma vc_inv_reachable:
  assumes "vc_step\<^sup>*\<^sup>* (vote_collector_new c) vc"
  shows "vc_inv vc \<and> vc_config vc = c"
  using assms
proof (induction rule: rtranclp_induct)
  case base
  then show ?case by (simp add: vc_inv_new) (simp add: vote_collector_new_def)
next
  case (step vc vc')
  then show ?case using vc_inv_add_vote vc_inv_prune by (auto elim!: vc_stepE)
qed

text \<open>
  (C29) Whatever votes arrive in whatever order, and however often old heights are
  pruned, a certificate the collector issues holds at least a quorum of votes from
  distinct validators, all of them for its height and its block.
\<close>

theorem vote_certificates_sound:
  assumes "vc_step\<^sup>*\<^sup>* (vote_collector_new cfg) vc" "add_vote v vc = (Some cert, vc')"
  shows "has_quorum cert (quorum_size cfg) \<and> distinct (map v_voter (cc_votes cert)) \<and>
    card (v_voter ` set (cc_votes cert)) \<ge> quorum_size cfg \<and>
    (\<forall>w \<in> set (cc_votes cert). v_height w = cc_height cert \<and> v_block_hash w = cc_block_hash cert)"
proof -
  have inv: "vc_inv vc'" and cfg: "vc_config vc = cfg"
    using vc_inv_reachable [OF assms(1)] vc_inv_add_vote [of vc v] assms(2) by simp_all
  note cert = add_vote_certificate [OF assms(2)]
  have "distinct (map v_voter (cc_votes cert))" using inv cert by (simp add: vc_inv_def)
  moreover from this have "card (v_voter ` set (cc_votes cert)) = length (cc_votes cert)"
    by (metis distinct_card length_map set_map)
  ultimately show ?thesis using inv cert cfg by (simp add: vc_inv_def has_quorum_def)
qed

text \<open>Three of the four validators vote for one block.\<close>

definition sample_vote :: "nat \<Rightarrow> digest \<Rightarrow> vote" where
  "sample_vote i b = \<lparr> v_height = 1, v_voter = i, v_block_hash = b, v_signature = [] \<rparr>"

definition two_votes :: vote_collector where
  "two_votes = snd (add_vote (sample_vote 1 [7]) (snd (add_vote (sample_vote 0 [7]) (vote_collector_new bft_config_default))))"

lemma two_votes_reachable: "vc_step\<^sup>*\<^sup>* (vote_collector_new bft_config_default) two_votes"
  unfolding two_votes_def by (meson vc_step.add rtranclp.rtrancl_into_rtrancl rtranclp.rtrancl_refl)

theorem vote_certificates_sound_witness:
  "\<exists>cert vc'. add_vote (sample_vote 2 [7]) two_votes = (Some cert, vc') \<and> has_quorum cert 3 \<and>
     card (v_voter ` set (cc_votes cert)) \<ge> 3"
proof -
  obtain cert vc' where run: "add_vote (sample_vote 2 [7]) two_votes = (Some cert, vc')"
    by (simp add: two_votes_def add_vote_def sample_vote_def vote_collector_new_def quorum_size_def
        bft_config_default_def hm_get_or_def Let_def)
  from vote_certificates_sound [OF two_votes_reachable this] run show ?thesis
    by (simp add: quorum_size_def bft_config_default_def)
qed

section \<open>One block per height\<close>

text \<open>
  The interface a tally offers to an agreement argument: ballots come from the
  members, nobody is counted for two blocks of a height, and a quorum is more than
  half of the members.
\<close>

locale tally =
  fixes wf :: "'c \<Rightarrow> bool"
    and members :: "'c \<Rightarrow> nat set"
    and supporters :: "'c \<Rightarrow> nat \<Rightarrow> 'h \<Rightarrow> nat set"
    and quorum :: "'c \<Rightarrow> nat"
  assumes supporters_members: "wf c \<Longrightarrow> supporters c h b \<subseteq> members c"
    and one_ballot: "wf c \<Longrightarrow> b \<noteq> b' \<Longrightarrow> supporters c h b \<inter> supporters c h b' = {}"
    and majority: "wf c \<Longrightarrow> finite (members c) \<and> card (members c) < 2 * quorum c"
begin

lemma single_winner:
  assumes "wf c" "quorum c \<le> card (supporters c h b)" "quorum c \<le> card (supporters c h b')"
  shows "b = b'"
proof (rule ccontr)
  assume "b \<noteq> b'"
  note fin = finite_subset [OF supporters_members [OF assms(1)]]
  have "card (supporters c h b \<union> supporters c h b') = card (supporters c h b) + card (supporters c h b')"
    using one_ballot [OF assms(1) \<open>b \<noteq> b'\<close>] fin majority [OF assms(1)] by (intro card_Un_disjoint) auto
  moreover have "card (supporters c h b \<union> supporters c h b') \<le> card (members c)"
    using supporters_members [OF assms(1)] majority [OF assms(1)] by (intro card_mono) auto
  ultimately show False using assms(2,3) majority [OF assms(1)] by linarith
qed

end

definition well_staffed :: "vote_collector \<Rightarrow> bool" where
  "well_staffed vc = (vc_inv vc \<and> bc_num_validators (vc_config vc) \<le> min_validators (vc_config vc) \<and>
     (\<forall>h b. counted vc h b \<subseteq> {..<bc_num_validators (vc_config vc)}))"

interpretation collector: tally well_staffed "\<lambda>vc. {..<bc_num_validators (vc_config vc)}" counted
  "\<lambda>vc. quorum_size (vc_config vc)"
  by unfold_locales (auto simp: well_staffed_def vc_inv_def min_validators_def quorum_size_def)



section \<open>Views\<close>

lemma count_vote_height:
  "count_vote h v n = (c, n', ms) \<Longrightarrow>
    bn_config n' = bn_config n \<and> bn_height n' = (if c then h else bn_height n) \<and>
    (c \<longrightarrow> \<not> oe_is_speculative (bn_optimistic n'))"
  by (auto simp: count_vote_def commit_block_def oe_confirm_def Let_def split: prod.splits option.splits)

lemma handle_message_height:
  "handle_message hs m h n = (r, n', ms) \<Longrightarrow>
    bn_config n' = bn_config n \<and> bn_height n' = (if r = Inr True then h else bn_height n) \<and>
    (r = Inr True \<longrightarrow> \<not> oe_is_speculative (bn_optimistic n'))"
  by (cases m) (auto simp: oe_confirm_def Let_def split: if_splits prod.splits dest!: count_vote_height)

lemma view_loop_height:
  "view_loop hs h es n out = (r, n', out') \<Longrightarrow>
    bn_config n' = bn_config n \<and> bn_height n' = (if r = CommittedView then h else bn_height n) \<and>
    (r = CommittedView \<longrightarrow> \<not> oe_is_speculative (bn_optimistic n'))"
proof (induction hs h es n out rule: view_loop.induct)
  case (4 hs h m es n out)
  obtain x n1 ms where hm: "handle_message hs m h n = (x, n1, ms)" by (meson prod_cases3)
  show ?case
    using 4(2) handle_message_height [OF hm] 4(1) [OF hm [symmetric] refl] by (auto simp: hm split: if_splits)
qed auto

text \<open>
  A view either commits exactly the next height or leaves the height alone,
  keeps the configuration, and ends with no speculative execution pending unless
  the message channel was closed.
\<close>

theorem view_advances_height:
  assumes "run_view hs produced now es n = Some (r, n', out)"
  shows "bn_config n' = bn_config n \<and>
    bn_height n' = (if r = CommittedView then bn_height n + 1 else bn_height n) \<and>
    (r = ClosedView \<or> \<not> needs_rollback (bn_optimistic n'))"
proof -
  obtain leads where l: "is_leader (bn_config n) (bn_height n + 1) = Some leads"
    using assms by (auto simp: run_view_def Let_def)
  obtain n1 o1 where n1: "lead_view leads (bn_height n + 1) produced now n = (n1, o1)" by fastforce
  obtain r2 n2 o2 where v: "view_loop hs (bn_height n + 1) es n1 o1 = (r2, n2, o2)" by (meson prod_cases3)
  have n': "r2 = r" "n' = (if r = ExpiredView \<and> needs_rollback (bn_optimistic n2)
       then n2 \<lparr> bn_optimistic := snd (oe_rollback (bn_optimistic n2)) \<rparr> else n2)"
    using assms l n1 v by (auto simp: run_view_def Let_def)
  have n1': "bn_config n1 = bn_config n" "bn_height n1 = bn_height n"
    using n1 by (auto simp: lead_view_def split: if_splits sum.splits)
  show ?thesis
    using view_loop_height [OF v] n1' n'(1) by (cases r) (auto simp: n'(2) needs_rollback_def oe_rollback_def)
qed

theorem view_advances_height_witness:
  "\<exists>n' out. run_view (\<lambda>_ _ _ _ _. 5) (Inr [7]) 0
      [Recv (VoteMsg (sample_vote 0 [7])), Recv (VoteMsg (sample_vote 1 [7])), Recv (VoteMsg (sample_vote 2 [7]))]
      (bft_node_new bft_config_default) = Some (CommittedView, n', out) \<and> bn_height n' = 1"
proof -
  obtain n' out where run: "run_view (\<lambda>_ _ _ _ _. 5) (Inr [7]) 0
      [Recv (VoteMsg (sample_vote 0 [7])), Recv (VoteMsg (sample_vote 1 [7])), Recv (VoteMsg (sample_vote 2 [7]))]
      (bft_node_new bft_config_default) = Some (CommittedView, n', out)"
    by (simp add: run_view_def lead_view_def bft_node_new_def bft_config_default_def is_leader_def leader_for_height_def
        sample_vote_def count_vote_def add_vote_def vote_collector_new_def hm_get_or_def quorum_size_def
        commit_block_def Let_def)
  from view_advances_height [OF this] run show ?thesis by (simp add: bft_node_new_def)
qed

text \<open>
  Leadership rotates fairly: among any \<open>n\<close> consecutive heights every one of
  the \<open>n\<close> validators leads exactly once.
\<close>

theorem leader_rotation_fair:
  assumes "i < bc_num_validators c"
  shows "\<exists>!h. start \<le> h \<and> h < start + bc_num_validators c \<and> leader_for_height c h = Some i"
proof -
  let ?n = "bc_num_validators c"
  let ?h = "start + (i + ?n - start mod ?n) mod ?n"
  have n: "0 < ?n" using assms by simp
  have "start mod ?n < ?n" using n by simp
  then have "?h mod ?n = (start mod ?n + (i + ?n - start mod ?n)) mod ?n"
    by (metis mod_add_left_eq mod_add_right_eq)
  also have "start mod ?n + (i + ?n - start mod ?n) = i + ?n"
    using \<open>start mod ?n < ?n\<close> by (intro le_add_diff_inverse) linarith
  also have "(i + ?n) mod ?n = i" using assms by simp
  finally have lead: "?h mod ?n = i" .
  have uniq: "h = h'" if "start \<le> h" "h \<le> h'" "h' < start + ?n" "h mod ?n = h' mod ?n" for h h'
  proof -
    have "?n dvd h' - h" using that by (metis mod_eq_dvd_iff_nat)
    moreover have "h' - h < ?n" using that by simp
    ultimately show ?thesis using that(2) n by (metis dvd_imp_le le_antisym not_less zero_less_diff diff_is_0_eq gr0I)
  qed
  show ?thesis
  proof (rule ex1I [of _ ?h])
    show "start \<le> ?h \<and> ?h < start + ?n \<and> leader_for_height c ?h = Some i"
      using lead n by (simp add: leader_for_height_def)
    fix h assume "start \<le> h \<and> h < start + ?n \<and> leader_for_height c h = Some i"
    then have h: "start \<le> h" "h < start + ?n" "h mod ?n = ?h mod ?n" using lead n by (auto simp: leader_for_height_def)
    have "?h < start + ?n" using n by simp
    then show "h = ?h" using uniq [of h ?h] uniq [of ?h h] h by (metis le_add1 nat_le_linear)
  qed
qed

theorem leader_rotation_fair_witness:
  "\<exists>!h. 10 \<le> h \<and> h < 14 \<and> leader_for_height bft_config_default h = Some 3"
  using leader_rotation_fair [of 3 bft_config_default 10] by (simp add: bft_config_default_def)

section \<open>What the runner does not check\<close>

text \<open>
  Two proposals for one height, in either order and from anyone, make a validator
  send a vote for each of them; the collector only refuses to count the second one
  locally.
\<close>

theorem validator_votes_for_every_proposal:
  assumes "bp_height p = h" "bp_height p' = h" "handle_message hs (Propose p) h n = (r, n1, ms)"
    "handle_message hs (Propose p') h n1 = (r', n2, ms')"
  shows "\<exists>v v'. VoteMsg v \<in> set ms \<and> VoteMsg v' \<in> set ms' \<and> v_voter v = v_voter v' \<and> v_height v = v_height v' \<and>
    v_block_hash v = compute_proposal_hash hs p \<and> v_block_hash v' = compute_proposal_hash hs p'"
proof -
  have "bn_config n1 = bn_config n" using handle_message_height [OF assms(3)] by simp
  moreover define v where "v x = \<lparr> v_height = h, v_voter = bc_validator_index (bn_config n),
    v_block_hash = compute_proposal_hash hs x, v_signature = [] \<rparr>" for x
  ultimately have "VoteMsg (v p) \<in> set ms" "VoteMsg (v p') \<in> set ms'"
    using assms by (auto simp: Let_def split: prod.splits)
  then show ?thesis by (intro exI [of _ "v p"] exI [of _ "v p'"]) (simp add: v_def)
qed

text \<open>A commit certificate made of copies of one vote is accepted.\<close>

theorem single_voter_certificate_accepted:
  "fst (handle_message hs (Commit \<lparr> cc_height = h, cc_block_hash = b,
     cc_votes = replicate (quorum_size (bn_config n)) v \<rparr>) h n) = Inr True"
  by (simp add: has_quorum_def)

end
