(* ===== verification/Spot.thy ===== *)
theory Spot
  imports Order Merkle Unified_State
begin

text \<open>
  Spot tokens, balances and markets, from \<open>crates/primitives/src/spot.rs\<close>.  The
  system address of a token is a Keccak digest, so the hash function is a
  parameter of its derivation.  Token indices and market ids are bytes and wrap
  around as in a release build.
\<close>

section \<open>Tokens\<close>

datatype token_type = Native | Erc20 address

record spot_token =
  st_index :: nat
  st_name :: string
  st_symbol :: string
  st_wei_decimals :: nat
  st_sz_decimals :: nat
  st_max_supply :: decimal
  st_circulating_supply :: decimal
  st_token_type :: token_type
  st_system_address :: address
  st_deployer :: address
  st_deployer_fee_share :: decimal
  st_created_at :: timestamp

definition string_bytes :: "string \<Rightarrow> byte list" where
  "string_bytes s = map (\<lambda>c. word_of_nat (of_char c)) s"

definition address_of_bytes :: "byte list \<Rightarrow> address" where
  "address_of_bytes bs = foldl (\<lambda>acc b. 256 * acc + unat b) 0 bs"

definition derive_system_address :: "hash_fn \<Rightarrow> nat \<Rightarrow> address" where
  "derive_system_address keccak index =
     address_of_bytes (drop 12 (keccak (string_bytes ''HyperCore.SpotToken.SystemAddress'' @ [word_of_nat index])))"

text \<open>The two assertions of the constructor panic.\<close>

definition spot_token_new ::
  "hash_fn \<Rightarrow> nat \<Rightarrow> string \<Rightarrow> string \<Rightarrow> nat \<Rightarrow> nat \<Rightarrow> decimal \<Rightarrow> address \<Rightarrow> spot_token option" where
  "spot_token_new keccak index name symbol wei sz max_supply deployer =
    (if wrap_u8 (sz + 5) \<le> wei \<and> length symbol \<le> 6 then
       Some \<lparr> st_index = index, st_name = name, st_symbol = symbol, st_wei_decimals = wei, st_sz_decimals = sz,
         st_max_supply = max_supply, st_circulating_supply = max_supply, st_token_type = Native,
         st_system_address = derive_system_address keccak index, st_deployer = deployer,
         st_deployer_fee_share = Decimal 10000000000 10, st_created_at = 0 \<rparr>
     else None)"

definition spot_token_usdc :: "hash_fn \<Rightarrow> spot_token" where
  "spot_token_usdc keccak =
     \<lparr> st_index = 0, st_name = ''USD Coin'', st_symbol = ''USDC'', st_wei_decimals = 6, st_sz_decimals = 0,
       st_max_supply = Decimal (2 ^ 64 - 1) 6, st_circulating_supply = Decimal 0 6, st_token_type = Native,
       st_system_address = derive_system_address keccak 0, st_deployer = 0,
       st_deployer_fee_share = Decimal 0 10, st_created_at = 0 \<rparr>"

text \<open>\<open>10u128.pow((wei_decimals - sz_decimals) as u32)\<close>, the subtraction in \<open>u8\<close>\<close>

definition st_lot_size :: "spot_token \<Rightarrow> int" where
  "st_lot_size t = wrap_u128 (10 ^ wrap_u8 (st_wei_decimals t + 256 - st_sz_decimals t))"

definition link_erc20 :: "address \<Rightarrow> spot_token \<Rightarrow> spot_token" where
  "link_erc20 a t = t \<lparr> st_token_type := Erc20 a \<rparr>"

definition is_erc20_linked :: "spot_token \<Rightarrow> bool" where
  "is_erc20_linked t = (case st_token_type t of Erc20 _ \<Rightarrow> True | Native \<Rightarrow> False)"

definition erc20_address :: "spot_token \<Rightarrow> address option" where
  "erc20_address t = (case st_token_type t of Erc20 a \<Rightarrow> Some a | Native \<Rightarrow> None)"

section \<open>Balances\<close>

record spot_balance =
  sb_total :: decimal
  sb_reserved :: decimal

definition spot_balance_new :: "decimal \<Rightarrow> spot_balance" where
  "spot_balance_new t = \<lparr> sb_total = t, sb_reserved = Decimal 0 (d_dec t) \<rparr>"

definition available :: "spot_balance \<Rightarrow> decimal option" where
  "available b = dec_sub (sb_total b) (sb_reserved b)"

definition sb_reserve :: "decimal \<Rightarrow> spot_balance \<Rightarrow> (bool \<times> spot_balance) option" where
  "sb_reserve amount b = do {
     av \<leftarrow> available b;
     if av \<ge> amount then do { r \<leftarrow> dec_add (sb_reserved b) amount; Some (True, b \<lparr> sb_reserved := r \<rparr>) }
     else Some (False, b)
   }"

definition sb_release :: "decimal \<Rightarrow> spot_balance \<Rightarrow> spot_balance option" where
  "sb_release amount b = do {
     r \<leftarrow> dec_sub (sb_reserved b) (dec_min amount (sb_reserved b));
     Some (b \<lparr> sb_reserved := r \<rparr>)
   }"

definition sb_credit :: "decimal \<Rightarrow> spot_balance \<Rightarrow> spot_balance option" where
  "sb_credit amount b = do { t \<leftarrow> dec_add (sb_total b) amount; Some (b \<lparr> sb_total := t \<rparr>) }"

definition sb_debit :: "decimal \<Rightarrow> spot_balance \<Rightarrow> (bool \<times> spot_balance) option" where
  "sb_debit amount b = do {
     av \<leftarrow> available b;
     if av \<ge> amount then do { t \<leftarrow> dec_sub (sb_total b) amount; Some (True, b \<lparr> sb_total := t \<rparr>) }
     else Some (False, b)
   }"

section \<open>Markets\<close>

record spot_market_config =
  sc_id :: nat
  sc_symbol :: string
  sc_base_token :: nat
  sc_quote_token :: nat
  sc_tick_size :: decimal
  sc_lot_size :: decimal
  sc_min_order_size :: decimal
  sc_max_order_size :: decimal
  sc_maker_fee_rate :: decimal
  sc_taker_fee_rate :: decimal
  sc_is_active :: bool

definition saturating_mul_i128 :: "int \<Rightarrow> int \<Rightarrow> int" where
  "saturating_mul_i128 a b = max i128_min (min i128_max (a * b))"

definition new_usdc_pair :: "spot_token \<Rightarrow> nat \<Rightarrow> spot_market_config" where
  "new_usdc_pair t i =
    (let lot_raw = wrap_i128 (st_lot_size t); max_raw = saturating_mul_i128 lot_raw 1000000000000 in
     \<lparr> sc_id = i, sc_symbol = st_symbol t @ ''-USDC'', sc_base_token = st_index t, sc_quote_token = 0,
       sc_tick_size = Decimal 10000 8, sc_lot_size = Decimal lot_raw (st_wei_decimals t),
       sc_min_order_size = Decimal lot_raw (st_wei_decimals t),
       sc_max_order_size = Decimal max_raw (st_wei_decimals t),
       sc_maker_fee_rate = Decimal (-2000000) 10, sc_taker_fee_rate = Decimal 5000000 10, sc_is_active = True \<rparr>)"

definition sc_validate_price :: "spot_market_config \<Rightarrow> decimal \<Rightarrow> bool option" where
  "sc_validate_price c price =
    (if d_val (sc_tick_size c) = 0 then Some True
     else map_option (\<lambda>r. r = 0) (i128_rem (d_val price) (d_val (sc_tick_size c))))"

definition sc_validate_size :: "spot_market_config \<Rightarrow> decimal \<Rightarrow> bool option" where
  "sc_validate_size c sz =
    (if d_val (sc_lot_size c) = 0 then Some True
     else do {
       n \<leftarrow> to_decimals sz (d_dec (sc_lot_size c));
       r \<leftarrow> i128_rem (d_val n) (d_val (sc_lot_size c));
       Some (r = 0 \<and> d_val n \<ge> d_val (sc_min_order_size c))
     })"

definition sc_maker_fee :: "spot_market_config \<Rightarrow> decimal \<Rightarrow> decimal option" where
  "sc_maker_fee c notional = do { r \<leftarrow> to_decimals (sc_maker_fee_rate c) (d_dec notional); dec_mul notional r }"

definition sc_taker_fee :: "spot_market_config \<Rightarrow> decimal \<Rightarrow> decimal option" where
  "sc_taker_fee c notional = do { r \<leftarrow> to_decimals (sc_taker_fee_rate c) (d_dec notional); dec_mul notional r }"

record spot_market_state =
  ss_best_bid :: "decimal option"
  ss_best_ask :: "decimal option"
  ss_last_price :: "decimal option"
  ss_volume_24h :: decimal
  ss_base_volume_24h :: decimal
  ss_trades_24h :: nat
  ss_last_trade_time :: timestamp

definition spot_market_state_default :: spot_market_state where
  "spot_market_state_default = \<lparr> ss_best_bid = None, ss_best_ask = None, ss_last_price = None,
     ss_volume_24h = Decimal 0 0, ss_base_volume_24h = Decimal 0 0, ss_trades_24h = 0, ss_last_trade_time = 0 \<rparr>"

definition ss_mid_price :: "spot_market_state \<Rightarrow> decimal option option" where
  "ss_mid_price s = (case (ss_best_bid s, ss_best_ask s) of
       (Some bid, Some ask) \<Rightarrow> do { t \<leftarrow> dec_add bid ask; m \<leftarrow> div_int t 2; Some (Some m) }
     | _ \<Rightarrow> Some (ss_last_price s))"

definition ss_spread :: "spot_market_state \<Rightarrow> decimal option option" where
  "ss_spread s = (case (ss_best_bid s, ss_best_ask s) of
       (Some bid, Some ask) \<Rightarrow> map_option Some (dec_sub ask bid)
     | _ \<Rightarrow> Some None)"

record spot_market =
  sm_config :: spot_market_config
  sm_state :: spot_market_state

definition spot_market_new :: "spot_market_config \<Rightarrow> spot_market" where
  "spot_market_new c = \<lparr> sm_config = c, sm_state = spot_market_state_default \<rparr>"

record spot_fill =
  sf_market :: nat
  sf_maker :: address
  sf_taker :: address
  sf_maker_oid :: order_id
  sf_taker_oid :: order_id
  sf_price :: decimal
  sf_base_size :: decimal
  sf_quote_size :: decimal
  sf_maker_fee :: decimal
  sf_taker_fee :: decimal
  sf_ts :: timestamp
  sf_taker_buy :: bool

record deploy_params =
  dp_name :: string
  dp_symbol :: string
  dp_wei_decimals :: nat
  dp_sz_decimals :: nat
  dp_max_supply :: decimal
  dp_genesis_allocations :: "(address \<times> decimal) list"
  dp_erc20_address :: "address option"

section \<open>Balances keep their reserve covered\<close>

definition sb_inv :: "spot_balance \<Rightarrow> bool" where
  "sb_inv b = (d_dec (sb_total b) = d_dec (sb_reserved b) \<and> 0 \<le> d_val (sb_reserved b) \<and>
     d_val (sb_reserved b) \<le> d_val (sb_total b))"

text \<open>
  Reserving, releasing, crediting and debiting a spot balance keep the reserved
  amount between zero and the total; reserving and debiting succeed exactly when
  the available amount covers them, and a failed one changes nothing.
\<close>

theorem spot_balance_operations_covered:
  assumes "sb_inv b" "0 \<le> d_val amount" "d_dec amount = d_dec (sb_total b)"
  shows "(\<forall>ok b'. sb_reserve amount b = Some (ok, b') \<longrightarrow> sb_inv b' \<and> sb_total b' = sb_total b \<and>
        (ok \<longleftrightarrow> d_val amount \<le> d_val (sb_total b) - d_val (sb_reserved b)) \<and> (\<not> ok \<longrightarrow> b' = b)) \<and>
    (\<forall>b'. sb_release amount b = Some b' \<longrightarrow> sb_inv b' \<and> d_val (sb_reserved b') = max 0 (d_val (sb_reserved b) - d_val amount)) \<and>
    (\<forall>b'. sb_credit amount b = Some b' \<longrightarrow> sb_inv b') \<and>
    (\<forall>ok b'. sb_debit amount b = Some (ok, b') \<longrightarrow> sb_inv b' \<and> sb_reserved b' = sb_reserved b \<and>
        (ok \<longleftrightarrow> d_val amount \<le> d_val (sb_total b) - d_val (sb_reserved b)) \<and> (\<not> ok \<longrightarrow> b' = b))"
  using assms
  by (cases "sb_total b"; cases "sb_reserved b"; cases amount)
     (auto simp: sb_inv_def sb_reserve_def sb_release_def sb_credit_def sb_debit_def available_def
      Option.bind_eq_Some_conv dec_sub_eq_Some dec_add_eq_Some less_eq_decimal_def dec_min_def split: if_splits)

theorem spot_balance_operations_covered_witness:
  "\<exists>b'. sb_reserve (Decimal 3 6) (spot_balance_new (Decimal 5 6)) = Some (True, b') \<and> sb_inv b'"
proof -
  obtain b' where run: "sb_reserve (Decimal 3 6) (spot_balance_new (Decimal 5 6)) = Some (True, b')"
    by (simp add: sb_reserve_def spot_balance_new_def available_def dec_defs i128_checked_def i128_defs
        less_eq_decimal_def)
  then show ?thesis
    using spot_balance_operations_covered [of "spot_balance_new (Decimal 5 6)" "Decimal 3 6"]
    by (auto simp: sb_inv_def spot_balance_new_def)
qed

end
