(* ===== verification/Spot_Engine.thy ===== *)
theory Spot_Engine
  imports Spot Matching Engine_State
begin

text \<open>
  The spot trading engine, from \<open>crates/engine/src/spot_engine.rs\<close>: token
  deployment, reserved balances, order placement and matching, settlement against
  the shared ledger, cancellation, view transfers, and the snapshot used for
  re-organisations.  The shared ledger is a component of the state (the lock around
  it serialises its uses).  A handler returns its Rust result with the state it
  leaves, on error branches too; the outer option is the panic.
\<close>

section \<open>State\<close>

record spot_state =
  sp_tokens :: "(nat, spot_token) hash_map"
  sp_markets :: "(nat, spot_market) hash_map"
  sp_orderbooks :: "(nat, order_book) hash_map"
  sp_unified :: unified_state
  sp_reserved :: "(address \<times> nat, decimal) hash_map"
  sp_orders :: "(nat, order_id, order) nested_map"
  sp_account_orders :: "(address, nat, order_id list) nested_map"
  sp_next_token_index :: nat
  sp_next_order_id :: order_id
  sp_next_market_id :: nat

definition sp_with_unified_state :: "hash_fn \<Rightarrow> unified_state \<Rightarrow> spot_state" where
  "sp_with_unified_state keccak us =
     \<lparr> sp_tokens = [(0, spot_token_usdc keccak)], sp_markets = [], sp_orderbooks = [], sp_unified = us,
       sp_reserved = [], sp_orders = [], sp_account_orders = [], sp_next_token_index = 1,
       sp_next_order_id = 1000000, sp_next_market_id = 128 \<rparr>"

section \<open>Balances\<close>

definition sp_get_balance :: "spot_state \<Rightarrow> address \<Rightarrow> nat \<Rightarrow> spot_balance" where
  "sp_get_balance s a t = (let cv = get_core_view (sp_unified s) a t in
     \<lparr> sb_total = cv, sb_reserved = hm_get_or (Decimal 0 (d_dec cv)) (sp_reserved s) (a, t) \<rparr>)"

definition sp_get_all_balances :: "spot_state \<Rightarrow> address \<Rightarrow> (nat \<times> spot_balance) list" where
  "sp_get_all_balances s a = map (\<lambda>(t, ub). (t, \<lparr> sb_total = ub_core ub,
     sb_reserved = hm_get_or (Decimal 0 (d_dec (ub_core ub))) (sp_reserved s) (a, t) \<rparr>))
     (get_all_balances (sp_unified s) a)"

definition credit_balance :: "address \<Rightarrow> nat \<Rightarrow> decimal \<Rightarrow> spot_state \<Rightarrow> spot_state option" where
  "credit_balance a t amount s = map_option (\<lambda>us. s \<lparr> sp_unified := us \<rparr>) (credit a t amount (sp_unified s))"

definition debit_balance :: "address \<Rightarrow> nat \<Rightarrow> decimal \<Rightarrow> spot_state \<Rightarrow> (bool \<times> spot_state) option" where
  "debit_balance a t amount s =
     map_option (\<lambda>(ok, us). (ok, s \<lparr> sp_unified := us \<rparr>)) (debit_core a t amount (sp_unified s))"

definition reserve_balance :: "address \<Rightarrow> nat \<Rightarrow> decimal \<Rightarrow> spot_state \<Rightarrow> (bool \<times> spot_state) option" where
  "reserve_balance a t amount s = do {
     av \<leftarrow> available (sp_get_balance s a t);
     if av < amount then Some (False, s)
     else do {
       r \<leftarrow> dec_add (hm_get_or (Decimal 0 (d_dec amount)) (sp_reserved s) (a, t)) amount;
       Some (True, s \<lparr> sp_reserved := hm_insert (a, t) r (sp_reserved s) \<rparr>)
     }
   }"

definition release_balance :: "address \<Rightarrow> nat \<Rightarrow> decimal \<Rightarrow> spot_state \<Rightarrow> spot_state option" where
  "release_balance a t amount s = (case hm_get (sp_reserved s) (a, t) of
       None \<Rightarrow> Some s
     | Some r \<Rightarrow> do {
         r' \<leftarrow> dec_sub r (dec_min amount r);
         Some (s \<lparr> sp_reserved := hm_insert (a, t) r' (sp_reserved s) \<rparr>)
       })"

definition set_reserved :: "address \<Rightarrow> nat \<Rightarrow> decimal \<Rightarrow> spot_state \<Rightarrow> spot_state" where
  "set_reserved a t amount s =
    (if is_zero amount then s \<lparr> sp_reserved := hm_remove (a, t) (sp_reserved s) \<rparr>
     else s \<lparr> sp_reserved := hm_insert (a, t) amount (sp_reserved s) \<rparr>)"

section \<open>Tokens and markets\<close>

definition invalid_input :: "string \<Rightarrow> error" where
  "invalid_input msg = Internal (''Invalid input: '' @ msg)"

definition add_spot_market :: "spot_token \<Rightarrow> spot_state \<Rightarrow> spot_state" where
  "add_spot_market token s = (let i = sp_next_market_id s in
     s \<lparr> sp_next_market_id := wrap_u8 (i + 1),
         sp_markets := hm_insert i (spot_market_new (new_usdc_pair token i)) (sp_markets s),
         sp_orderbooks := hm_insert i book_new (sp_orderbooks s),
         sp_orders := hm_insert i [] (sp_orders s) \<rparr>)"

definition deploy_token ::
  "hash_fn \<Rightarrow> deploy_params \<Rightarrow> address \<Rightarrow> timestamp \<Rightarrow> spot_state \<Rightarrow> ((error + spot_token) \<times> spot_state) option" where
  "deploy_token keccak p deployer ts s =
    (if length (dp_symbol p) > 6 then Some (Inl (invalid_input ''Symbol must be <= 6 characters''), s)
     else if wrap_u8 (dp_sz_decimals p + 5) > dp_wei_decimals p
     then Some (Inl (invalid_input ''szDecimals + 5 must be <= weiDecimals''), s)
     else let i = sp_next_token_index s; s1 = s \<lparr> sp_next_token_index := wrap_u8 (i + 1) \<rparr> in do {
       t0 \<leftarrow> spot_token_new keccak i (dp_name p) (dp_symbol p) (dp_wei_decimals p) (dp_sz_decimals p)
               (dp_max_supply p) deployer;
       let t1 = t0 \<lparr> st_created_at := ts \<rparr>;
       let token = (case dp_erc20_address p of Some a \<Rightarrow> link_erc20 a t1 | None \<Rightarrow> t1);
       s2 \<leftarrow> ofold (\<lambda>(a, amount). credit_balance a i amount) (dp_genesis_allocations p) s1;
       s3 \<leftarrow> (if dp_genesis_allocations p = [] then credit_balance deployer i (dp_max_supply p) s2 else Some s2);
       Some (Inr token, add_spot_market token (s3 \<lparr> sp_tokens := hm_insert i token (sp_tokens s3) \<rparr>))
     })"

definition find_token_by_symbol :: "spot_state \<Rightarrow> string \<Rightarrow> spot_token option" where
  "find_token_by_symbol s name = List.find (\<lambda>t. st_symbol t = name) (hm_values (sp_tokens s))"

definition find_market_by_symbol :: "spot_state \<Rightarrow> string \<Rightarrow> spot_market option" where
  "find_market_by_symbol s name = List.find (\<lambda>m. sc_symbol (sm_config m) = name) (hm_values (sp_markets s))"

section \<open>Orders\<close>

definition sp_take_order_id :: "spot_state \<Rightarrow> order_id \<times> spot_state" where
  "sp_take_order_id s = (sp_next_order_id s, s \<lparr> sp_next_order_id := wrap_u64 (sp_next_order_id s + 1) \<rparr>)"

definition sp_index_push :: "address \<Rightarrow> nat \<Rightarrow> order_id \<Rightarrow> spot_state \<Rightarrow> spot_state" where
  "sp_index_push a m i s = s \<lparr> sp_account_orders := nput a m
     ((case nget (sp_account_orders s) a m of Some l \<Rightarrow> l | None \<Rightarrow> []) @ [i]) (sp_account_orders s) \<rparr>"

definition sp_upd_book :: "nat \<Rightarrow> (order_book \<Rightarrow> order_book) \<Rightarrow> spot_state \<Rightarrow> spot_state" where
  "sp_upd_book m f s = (case hm_get (sp_orderbooks s) m of
       Some b \<Rightarrow> s \<lparr> sp_orderbooks := hm_insert m (f b) (sp_orderbooks s) \<rparr>
     | None \<Rightarrow> s)"

definition sp_add_order :: "order \<Rightarrow> spot_state \<Rightarrow> spot_state" where
  "sp_add_order ord s =
    (let m = o_market ord;
         s1 = (case hm_get (sp_orders s) m of
                 Some mo \<Rightarrow> s \<lparr> sp_orders := hm_insert m (hm_insert (o_id ord) ord mo) (sp_orders s) \<rparr>
               | None \<Rightarrow> s)
     in sp_index_push (o_owner ord) m (o_id ord) (sp_upd_book m (book_insert ord) s1))"

definition sp_get_order :: "spot_state \<Rightarrow> nat \<Rightarrow> order_id \<Rightarrow> order option" where
  "sp_get_order s m i = nget (sp_orders s) m i"

definition sp_remove_order :: "nat \<Rightarrow> order_id \<Rightarrow> spot_state \<Rightarrow> spot_state" where
  "sp_remove_order m i s = (case hm_get (sp_orders s) m of
       None \<Rightarrow> s
     | Some mo \<Rightarrow> (case hm_get mo i of
         None \<Rightarrow> s
       | Some ord \<Rightarrow>
           let s1 = sp_upd_book m (\<lambda>b. snd (book_remove i b)) (s \<lparr> sp_orders := hm_insert m (hm_remove i mo) (sp_orders s) \<rparr>)
           in (case nget (sp_account_orders s1) (o_owner ord) m of
                 Some ids \<Rightarrow> s1 \<lparr> sp_account_orders :=
                   nput (o_owner ord) m (filter (\<lambda>j. j \<noteq> i) ids) (sp_account_orders s1) \<rparr>
               | None \<Rightarrow> s1)))"

definition sp_orders_by_account :: "spot_state \<Rightarrow> address \<Rightarrow> nat \<Rightarrow> order list" where
  "sp_orders_by_account s a m = List.map_filter (sp_get_order s m)
     (case nget (sp_account_orders s) a m of Some l \<Rightarrow> l | None \<Rightarrow> [])"

section \<open>Persistence and snapshots\<close>

definition sp_restore_token :: "spot_token \<Rightarrow> spot_state \<Rightarrow> spot_state" where
  "sp_restore_token t s = s \<lparr> sp_tokens := hm_insert (st_index t) t (sp_tokens s) \<rparr>"

definition sp_restore_market :: "spot_market_config \<Rightarrow> spot_state \<Rightarrow> spot_state" where
  "sp_restore_market c s = (let i = sc_id c in
     s \<lparr> sp_markets := hm_insert i (spot_market_new c) (sp_markets s),
         sp_orderbooks := (case hm_get (sp_orderbooks s) i of
            Some _ \<Rightarrow> sp_orderbooks s | None \<Rightarrow> hm_insert i book_new (sp_orderbooks s)),
         sp_orders := (case hm_get (sp_orders s) i of
            Some _ \<Rightarrow> sp_orders s | None \<Rightarrow> hm_insert i [] (sp_orders s)) \<rparr>)"

definition sp_restore_order :: "nat \<Rightarrow> order \<Rightarrow> spot_state \<Rightarrow> spot_state" where
  "sp_restore_order m ord s =
    (let s1 = s \<lparr> sp_orders := nput m (o_id ord) ord (sp_orders s) \<rparr>
     in sp_index_push (o_owner ord) m (o_id ord) (sp_upd_book m (restore_order ord) s1))"

record spot_snapshot =
  zn_tokens :: "(nat, spot_token) hash_map"
  zn_markets :: "(nat, spot_market) hash_map"
  zn_reserved :: "(address \<times> nat, decimal) hash_map"
  zn_orders :: "(nat, order_id, order) nested_map"
  zn_account_orders :: "(address, nat, order_id list) nested_map"
  zn_next_token_index :: nat
  zn_next_order_id :: order_id
  zn_next_market_id :: nat

definition sp_snapshot :: "spot_state \<Rightarrow> spot_snapshot" where
  "sp_snapshot s =
     \<lparr> zn_tokens = sp_tokens s, zn_markets = sp_markets s, zn_reserved = sp_reserved s, zn_orders = sp_orders s,
       zn_account_orders = sp_account_orders s, zn_next_token_index = sp_next_token_index s,
       zn_next_order_id = sp_next_order_id s, zn_next_market_id = sp_next_market_id s \<rparr>"

definition rebuild_books ::
  "(nat, spot_market) hash_map \<Rightarrow> (nat, order_id, order) nested_map \<Rightarrow> (nat, order_book) hash_map" where
  "rebuild_books markets os =
    (let empty = fold (\<lambda>(m, _). hm_insert m book_new) markets []
     in fold (\<lambda>(m, mo) bs. case hm_get bs m of
          None \<Rightarrow> bs
        | Some b \<Rightarrow> hm_insert m (fold book_insert (hm_values mo) b) bs) os empty)"

definition sp_restore :: "spot_snapshot \<Rightarrow> spot_state \<Rightarrow> spot_state" where
  "sp_restore z s =
     s \<lparr> sp_tokens := zn_tokens z, sp_markets := zn_markets z, sp_reserved := zn_reserved z, sp_orders := zn_orders z,
         sp_account_orders := zn_account_orders z, sp_next_token_index := zn_next_token_index z,
         sp_next_order_id := zn_next_order_id z, sp_next_market_id := zn_next_market_id z,
         sp_orderbooks := rebuild_books (zn_markets z) (zn_orders z) \<rparr>"

section \<open>Placing an order\<close>

definition sp_validate_order :: "order_request \<Rightarrow> spot_market_config \<Rightarrow> (error + unit) option" where
  "sp_validate_order q c = do {
     vp \<leftarrow> sc_validate_price c (q_price q);
     if \<not> vp then Some (Inl (InvalidPrice (q_price q) (sc_tick_size c)))
     else do {
       vs \<leftarrow> sc_validate_size c (q_size q);
       if \<not> vs then Some (Inl (InvalidSize (q_size q) (sc_lot_size c)))
       else do {
         n \<leftarrow> to_decimals (q_size q) (d_dec (sc_lot_size c));
         Some (if d_val n < d_val (sc_min_order_size c) then Inl (SizeTooSmall (q_size q) (sc_min_order_size c))
               else if d_val n > d_val (sc_max_order_size c) then Inl (SizeTooLarge (q_size q) (sc_max_order_size c))
               else Inr ())
       }
     }
   }"

text \<open>Token and amount to reserve for an order: quote for a buy, base for a sell.\<close>

definition reserve_for :: "spot_market_config \<Rightarrow> side \<Rightarrow> decimal \<Rightarrow> decimal \<Rightarrow> (nat \<times> decimal) option" where
  "reserve_for c sd sz price = (case sd of
       Buy \<Rightarrow> do {
         q \<leftarrow> dec_mul sz price;
         u \<leftarrow> to_decimals q USDC_DECIMALS;
         Some (sc_quote_token c, u)
       }
     | Sell \<Rightarrow> Some (sc_base_token c, sz))"

record spot_matching =
  sx_order :: order
  sx_book :: order_book
  sx_fills :: "spot_fill list"
  sx_filled :: "order_id list"
  sx_partial :: "(order_id \<times> decimal) list"

definition sp_crosses :: "side \<Rightarrow> decimal \<Rightarrow> decimal \<Rightarrow> bool" where
  "sp_crosses sd lim price = (case sd of Buy \<Rightarrow> lim \<ge> price | Sell \<Rightarrow> lim \<le> price)"

text \<open>One match against the best resting order of the other side.\<close>

definition sp_match_one ::
  "nat \<Rightarrow> spot_market_config \<Rightarrow> side \<Rightarrow> timestamp \<Rightarrow> order \<Rightarrow> spot_matching \<Rightarrow> spot_matching option" where
  "sp_match_one m c sd ts mo x = (let ord = sx_order x; sz = dec_min (o_rem ord) (o_rem mo) in do {
     quote \<leftarrow> dec_mul sz (o_price mo);
     mf \<leftarrow> sc_maker_fee c quote;
     tf \<leftarrow> sc_taker_fee c quote;
     let fl = \<lparr> sf_market = m, sf_maker = o_owner mo, sf_taker = o_owner ord, sf_maker_oid = o_id mo,
        sf_taker_oid = o_id ord, sf_price = o_price mo, sf_base_size = sz, sf_quote_size = quote,
        sf_maker_fee = mf, sf_taker_fee = tf, sf_ts = ts, sf_taker_buy = (sd = Buy) \<rparr>;
     rem \<leftarrow> dec_sub (o_rem ord) sz;
     let ord' = ord \<lparr> o_rem := rem, o_status := (if is_zero rem then Filled else PartiallyFilled) \<rparr>;
     let x1 = x \<lparr> sx_order := ord', sx_fills := sx_fills x @ [fl],
                  sx_book := snd (book_remove (o_id mo) (sx_book x)) \<rparr>;
     if o_rem mo \<le> sz then Some (x1 \<lparr> sx_filled := sx_filled x1 @ [o_id mo] \<rparr>)
     else do {
       r \<leftarrow> dec_sub (o_rem mo) sz;
       let mo' = mo \<lparr> o_rem := r \<rparr>;
       Some (if \<not> is_filled mo'
             then x1 \<lparr> sx_book := book_insert mo' (sx_book x1), sx_partial := sx_partial x1 @ [(o_id mo, r)] \<rparr>
             else x1 \<lparr> sx_filled := sx_filled x1 @ [o_id mo] \<rparr>)
     }
   })"

partial_function (option) sp_match_loop ::
  "nat \<Rightarrow> spot_market_config \<Rightarrow> side \<Rightarrow> timestamp \<Rightarrow> spot_matching \<Rightarrow> spot_matching option" where
  "sp_match_loop m c sd ts x =
    (if is_filled (sx_order x) then Some x
     else case (case sd of Buy \<Rightarrow> best_ask (sx_book x) | Sell \<Rightarrow> best_bid (sx_book x)) of
       None \<Rightarrow> Some x
     | Some mo \<Rightarrow>
         if \<not> sp_crosses sd (o_price (sx_order x)) (o_price mo) then Some x
         else Option.bind (sp_match_one m c sd ts mo x) (sp_match_loop m c sd ts))"

definition sp_sync_makers :: "nat \<Rightarrow> order_id list \<Rightarrow> (order_id \<times> decimal) list \<Rightarrow> spot_state \<Rightarrow> spot_state" where
  "sp_sync_makers m filled partially s =
    (let s1 = fold (sp_remove_order m) filled s
     in fold (\<lambda>(i, r) s. case nget (sp_orders s) m i of
          None \<Rightarrow> s
        | Some ord \<Rightarrow> s \<lparr> sp_orders := nput m i (ord \<lparr> o_rem := r, o_status := PartiallyFilled \<rparr>) (sp_orders s) \<rparr>)
        partially s1)"

definition record_spot_trade :: "spot_fill \<Rightarrow> spot_state \<Rightarrow> spot_state option" where
  "record_spot_trade f s = (case hm_get (sp_markets s) (sf_market f) of
       None \<Rightarrow> Some s
     | Some mk \<Rightarrow> (let st = sm_state mk; bd = d_dec (sf_base_size f) in do {
         add \<leftarrow> to_decimals (sf_quote_size f) USDC_DECIMALS;
         vol \<leftarrow> to_decimals (ss_volume_24h st) USDC_DECIMALS;
         badd \<leftarrow> to_decimals (sf_base_size f) bd;
         bvol \<leftarrow> to_decimals (ss_base_volume_24h st) bd;
         Some (s \<lparr> sp_markets := hm_insert (sf_market f) (mk \<lparr> sm_state := st \<lparr>
           ss_last_price := Some (sf_price f), ss_last_trade_time := sf_ts f,
           ss_volume_24h := Decimal (wrap_i128 (d_val vol + d_val add)) USDC_DECIMALS,
           ss_base_volume_24h := Decimal (wrap_i128 (d_val bvol + d_val badd)) bd,
           ss_trades_24h := wrap_u64 (ss_trades_24h st + 1) \<rparr> \<rparr>) (sp_markets s) \<rparr>)
       }))"

definition sp_apply_fill ::
  "spot_market_config \<Rightarrow> spot_fill \<Rightarrow> spot_state \<Rightarrow> ((error + unit) \<times> spot_state) option" where
  "sp_apply_fill c f s =
    (let (buyer, seller) = (if sf_taker_buy f then (sf_taker f, sf_maker f) else (sf_maker f, sf_taker f));
         (buyer_fee, seller_fee) =
           (if sf_taker_buy f then (sf_taker_fee f, sf_maker_fee f) else (sf_maker_fee f, sf_taker_fee f))
     in do {
       quote \<leftarrow> to_decimals (sf_quote_size f) USDC_DECIMALS;
       bf \<leftarrow> to_decimals buyer_fee USDC_DECIMALS;
       sfee \<leftarrow> to_decimals seller_fee USDC_DECIMALS;
       let pays = Decimal (wrap_i128 (d_val quote + d_val bf)) USDC_DECIMALS;
       s1 \<leftarrow> release_balance buyer (sc_quote_token c) pays s;
       s2 \<leftarrow> release_balance seller (sc_base_token c) (sf_base_size f) s1;
       (ok, s3) \<leftarrow> debit_balance buyer (sc_quote_token c) pays s2;
       if \<not> ok then Some (Inl (InsufficientBalance pays (Decimal 0 0)), s3)
       else do {
         s4 \<leftarrow> credit_balance buyer (sc_base_token c) (sf_base_size f) s3;
         let receives = Decimal (wrap_i128 (d_val quote - d_val sfee)) USDC_DECIMALS;
         (ok2, s5) \<leftarrow> debit_balance seller (sc_base_token c) (sf_base_size f) s4;
         if \<not> ok2 then Some (Inl (InsufficientBalance (sf_base_size f) (Decimal 0 0)), s5)
         else do {
           s6 \<leftarrow> credit_balance seller (sc_quote_token c) receives s5;
           s7 \<leftarrow> record_spot_trade f s6;
           Some (Inr (), s7)
         }
       }
     })"

text \<open>The loop over the fills stops at the first error.\<close>

fun sp_apply_fills ::
  "spot_market_config \<Rightarrow> spot_fill list \<Rightarrow> spot_state \<Rightarrow> ((error + unit) \<times> spot_state) option" where
  "sp_apply_fills c [] s = Some (Inr (), s)"
| "sp_apply_fills c (f # fs) s = do {
     (r, s1) \<leftarrow> sp_apply_fill c f s;
     (case r of Inl err \<Rightarrow> Some (Inl err, s1) | Inr _ \<Rightarrow> sp_apply_fills c fs s1)
   }"

definition remaining_reserve :: "side \<Rightarrow> decimal \<Rightarrow> spot_fill list \<Rightarrow> decimal option" where
  "remaining_reserve sd amount fs = do {
     used \<leftarrow> ofold (\<lambda>f acc. do {
         v \<leftarrow> to_decimals (case sd of Buy \<Rightarrow> sf_quote_size f | Sell \<Rightarrow> sf_base_size f) (d_dec amount);
         dec_add acc v
       }) fs (Decimal 0 (d_dec amount));
     if d_val used \<ge> d_val amount then Some (Decimal 0 (d_dec amount)) else dec_sub amount used
   }"

text \<open>Settle after matching: sync the makers, move the balances, rest or release.\<close>

definition sp_settle ::
  "nat \<Rightarrow> spot_market_config \<Rightarrow> address \<Rightarrow> side \<Rightarrow> nat \<Rightarrow> decimal \<Rightarrow> spot_matching \<Rightarrow> spot_state \<Rightarrow>
   ((error + order \<times> spot_fill list) \<times> spot_state) option" where
  "sp_settle m c a sd tok amount x s =
    (let s1 = sp_sync_makers m (sx_filled x) (sx_partial x) (sp_upd_book m (\<lambda>_. sx_book x) s) in do {
       (r, s2) \<leftarrow> sp_apply_fills c (sx_fills x) s1;
       (case r of
          Inl err \<Rightarrow> Some (Inl err, s2)
        | Inr _ \<Rightarrow> do {
            rr \<leftarrow> remaining_reserve sd amount (sx_fills x);
            let ord = sx_order x;
            s3 \<leftarrow>
              (if \<not> is_filled ord \<and> should_rest ord then Some (sp_add_order ord s2)
               else if \<not> is_filled ord \<and> d_val rr > 0 then release_balance a tok rr s2
               else Some s2);
            Some (Inr (ord, sx_fills x), s3)
          })
     })"

definition sp_place_order ::
  "address \<Rightarrow> nat \<Rightarrow> order_request \<Rightarrow> timestamp \<Rightarrow> spot_state \<Rightarrow>
   ((error + order \<times> spot_fill list) \<times> spot_state) option" where
  "sp_place_order a m q ts s = (case hm_get (sp_markets s) m of
       None \<Rightarrow> Some (Inl (MarketNotFound m), s)
     | Some mk \<Rightarrow> (let c = sm_config mk in
         if \<not> sc_is_active c then Some (Inl (MarketPaused (sc_symbol c)), s)
         else do {
           v \<leftarrow> sp_validate_order q c;
           (case v of
              Inl err \<Rightarrow> Some (Inl err, s)
            | Inr _ \<Rightarrow> do {
                (tok, amount) \<leftarrow> reserve_for c (q_side q) (q_size q) (q_price q);
                av \<leftarrow> available (sp_get_balance s a tok);
                if av < amount then Some (Inl (InsufficientBalance amount av), s)
                else do {
                  (ok, s1) \<leftarrow> reserve_balance a tok amount s;
                  if \<not> ok then Some (Inl (InsufficientBalance amount av), s1)
                  else let (i, s2) = sp_take_order_id s1; ord = order_new i a q ts in
                    (case hm_get (sp_orderbooks s2) m of
                       None \<Rightarrow> Some (Inl (MarketNotFound m), s2)
                     | Some b \<Rightarrow> do {
                         x \<leftarrow> sp_match_loop m c (q_side q) ts
                               \<lparr> sx_order = ord, sx_book = b, sx_fills = [], sx_filled = [], sx_partial = [] \<rparr>;
                         sp_settle m c a (q_side q) tok amount x s2
                       })
                }
              })
         }))"

section \<open>Cancellation and transfers\<close>

definition sp_cancel_order ::
  "address \<Rightarrow> nat \<Rightarrow> order_id \<Rightarrow> spot_state \<Rightarrow> ((error + order) \<times> spot_state) option" where
  "sp_cancel_order a m i s = (case sp_get_order s m i of
       None \<Rightarrow> Some (Inl (OrderNotFound i), s)
     | Some ord \<Rightarrow>
         if o_owner ord \<noteq> a then Some (Inl OrderNotOwned, s)
         else (case hm_get (sp_markets s) m of
             None \<Rightarrow> Some (Inl (MarketNotFound m), s)
           | Some mk \<Rightarrow> do {
               (tok, amount) \<leftarrow> reserve_for (sm_config mk) (o_side ord) (o_rem ord) (o_price ord);
               s1 \<leftarrow> release_balance a tok amount s;
               Some (Inr (order_cancel ord), sp_remove_order m i s1)
             }))"

definition sp_cancel_all_orders :: "address \<Rightarrow> nat \<Rightarrow> spot_state \<Rightarrow> (order list \<times> spot_state) option" where
  "sp_cancel_all_orders a m s = ofold (\<lambda>ord (acc, s). do {
      (r, s1) \<leftarrow> sp_cancel_order a m (o_id ord) s;
      Some (case r of Inr x \<Rightarrow> acc @ [x] | Inl _ \<Rightarrow> acc, s1)
    }) (sp_orders_by_account s a m) ([], s)"

definition vte_to_string :: "view_transfer_error \<Rightarrow> string option" where
  "vte_to_string e = (case e of
       NoBalance \<Rightarrow> Some ''No balance found for user/token''
     | InsufficientCoreView av req \<Rightarrow> do {
         x \<leftarrow> to_string_trimmed av; y \<leftarrow> to_string_trimmed req;
         Some (''Insufficient Core view balance: available '' @ x @ '', requested '' @ y) }
     | InsufficientEvmView av req \<Rightarrow> do {
         x \<leftarrow> to_string_trimmed av; y \<leftarrow> to_string_trimmed req;
         Some (''Insufficient EVM view balance: available '' @ x @ '', requested '' @ y) }
     | InvalidAmount msg \<Rightarrow> Some (''Invalid amount: '' @ msg))"

definition view_result ::
  "(view_transfer_error + unit) \<times> unified_state \<Rightarrow> spot_state \<Rightarrow> ((error + unit) \<times> spot_state) option" where
  "view_result r s = (case r of
       (Inr _, us) \<Rightarrow> Some (Inr (), s \<lparr> sp_unified := us \<rparr>)
     | (Inl e, us) \<Rightarrow> map_option (\<lambda>msg. (Inl (Internal msg), s \<lparr> sp_unified := us \<rparr>)) (vte_to_string e))"

definition view_transfer ::
  "address \<Rightarrow> nat \<Rightarrow> decimal \<Rightarrow> bool \<Rightarrow> spot_state \<Rightarrow> ((error + unit) \<times> spot_state) option" where
  "view_transfer a t amount to_evm s =
    (if to_evm then do {
       av \<leftarrow> available (sp_get_balance s a t);
       if av < amount then Some (Inl (InsufficientBalance amount av), s)
       else do { r \<leftarrow> transfer_to_evm_view a t amount (sp_unified s); view_result r s }
     } else do { r \<leftarrow> transfer_to_core_view a t amount (sp_unified s); view_result r s })"

definition bridge_transfer ::
  "nat \<Rightarrow> address \<Rightarrow> address \<Rightarrow> decimal \<Rightarrow> bool \<Rightarrow> spot_state \<Rightarrow> ((error + unit) \<times> spot_state) option" where
  "bridge_transfer t frm dest amount is_to_core s = (case hm_get (sp_tokens s) t of
       None \<Rightarrow> Some (Inl (Internal (''Token '' @ show_nat t @ '' not found'')), s)
     | Some token \<Rightarrow>
         if is_to_core then
           (if frm \<noteq> st_system_address token
            then Some (Inl (invalid_input ''Bridge transfer must come from system address''), s)
            else map_option (\<lambda>s1. (Inr (), s1)) (credit_balance dest t amount s))
         else
           (if dest \<noteq> st_system_address token
            then Some (Inl (invalid_input ''Bridge transfer must go to system address''), s)
            else do {
              (ok, s1) \<leftarrow> debit_balance frm t amount s;
              if ok then Some (Inr (), s1)
              else do { av \<leftarrow> available (sp_get_balance s1 frm t); Some (Inl (InsufficientBalance amount av), s1) }
            }))"


section \<open>Matching a spot order\<close>

text \<open>
  The fee schedule that \<open>SpotMarketConfig::new_usdc_pair\<close> installs, and the
  condition under which the products of one match stay within 128 bits.
\<close>

definition default_fees :: "spot_market_config \<Rightarrow> bool" where
  "default_fees c = (sc_maker_fee_rate c = Decimal (-2000000) 10 \<and> sc_taker_fee_rate c = Decimal 5000000 10)"

lemma default_fees_usdc_pair: "default_fees (new_usdc_pair t i)"
  by (simp add: default_fees_def new_usdc_pair_def Let_def)

definition trade_fits :: "order \<Rightarrow> order \<Rightarrow> bool" where
  "trade_fits t r = (d_val (o_rem t) * d_val (o_price r) \<le> i128_max)"

lemma trade_fits_reduce:
  assumes "trade_fits t r" "0 \<le> n" "order_ok r"
  shows "trade_fits (reduce t n) r"
proof -
  have "(d_val (o_rem t) - n) * d_val (o_price r) \<le> d_val (o_rem t) * d_val (o_price r)"
    using assms by (intro mult_right_mono) (auto simp: order_ok_def pos_amount_def)
  then show ?thesis using assms(1) by (simp add: trade_fits_def)
qed

lemma default_fees_total:
  assumes "default_fees c" "0 \<le> v" "v * 50000 \<le> i128_max"
  shows "\<exists>mf tf. sc_maker_fee c (Decimal v 8) = Some mf \<and> sc_taker_fee c (Decimal v 8) = Some tf"
proof -
  have "in_i128 (v * -20000)" "in_i128 (v * 50000)" using assms by (auto simp: i128_defs)
  moreover have "to_decimals (Decimal (-2000000) 10) 8 = Some (Decimal (-20000) 8)"
    "to_decimals (Decimal 5000000 10) 8 = Some (Decimal 50000 8)"
    by (simp_all add: to_decimals_down signed_divide_int_def)
  ultimately show ?thesis
    using assms(1) by (simp add: default_fees_def sc_maker_fee_def sc_taker_fee_def dec_mul_small)
qed

lemma quote_and_fees_total:
  assumes "default_fees c" "0 \<le> n" "n \<le> d_val (o_rem t)" "trade_fits t r" "pos_amount (o_price r)"
  shows "\<exists>q mf tf. dec_mul (Decimal n 8) (o_price r) = Some q \<and> sc_maker_fee c q = Some mf \<and>
    sc_taker_fee c q = Some tf"
proof -
  let ?v = "n * d_val (o_price r) sdiv 100000000"
  have p: "0 < d_val (o_price r)" "d_dec (o_price r) = 8" using assms(5) by (simp_all add: pos_amount_def)
  have fits: "0 \<le> n * d_val (o_price r)" "n * d_val (o_price r) \<le> i128_max"
    using p assms(2,4) order_trans [OF mult_right_mono [OF assms(3), of "d_val (o_price r)"]]
    by (simp_all add: trade_fits_def)
  then have "?v = n * d_val (o_price r) div 100000000" by (simp add: sdiv_pos_divisor)
  then have v: "0 \<le> ?v" "?v * 50000 \<le> i128_max" using fits by (auto simp: i128_defs)
  have "dec_mul (Decimal n 8) (o_price r) = Some (Decimal ?v 8)"
    using fits p by (simp add: dec_mul_small i128_defs)
  then show ?thesis using default_fees_total [OF assms(1) v] by blast
qed


text \<open>Re-inserting the head of a side with a smaller size puts it back in front.\<close>

lemma book_reinsert_head:
  assumes inv: "book_inv b" and hd: "side_map s b = (k, r) # rest" and ok: "order_ok r'"
    and same: "o_id r' = o_id r" "o_side r' = o_side r" "order_key_of r' = order_key_of r"
  defines "b' \<equiv> book_insert r' (snd (book_remove (o_id r) b))"
  shows "book_inv b'" "side_map s' b' = (if s' = s then (k, r') # rest else side_map s' b)"
proof -
  let ?d = "snd (book_remove (o_id r) b)"
  note head = index_of_resting [OF inv, of k r s, unfolded hd, OF list.set_intros(1)]
  have gone: "hm_get (order_index ?d) (o_id r) = None"
    using book_get_None_iff [OF book_inv_remove [OF inv]] book_get_remove [OF inv] by metis
  then show "book_inv b'"
    unfolding b'_def using same ok by (intro book_inv_insert book_inv_remove inv) (simp_all add: fresh_for_def)
  have "bt_inv ((k, r) # rest)" using side_inv_bt [OF book_inv_side [OF inv, of s]] hd by simp
  then have "bt_insert k r' rest = (k, r') # rest" by (cases rest) (auto simp: bt_inv_Cons)
  then show "side_map s' b' = (if s' = s then (k, r') # rest else side_map s' b)"
    unfolding b'_def using head same by (simp add: book_insert_sides book_remove_head [OF inv hd])
qed

text \<open>One match: the taker is reduced, the maker at the head leaves or is reduced.\<close>

lemma sp_match_one_step:
  assumes inv: "book_inv (sx_book x)" and hd: "side_map s (sx_book x) = (k, r) # rest"
    and t: "taker_ok (sx_order x)" "d_val (o_rem (sx_order x)) \<noteq> 0"
    and fees: "default_fees c" "trade_fits (sx_order x) r"
  defines "n \<equiv> min (d_val (o_rem (sx_order x))) (d_val (o_rem r))"
  obtains x1 f where "sp_match_one m c sd ts r x = Some x1" "sx_order x1 = reduce (sx_order x) n"
    "sx_fills x1 = sx_fills x @ [f]" "sf_base_size f = Decimal n 8" "sf_price f = o_price r"
    "sf_maker f = o_owner r" "sf_maker_oid f = o_id r" "book_inv (sx_book x1)"
    "\<forall>s'. s' \<noteq> s \<longrightarrow> side_map s' (sx_book x1) = side_map s' (sx_book x)"
    "side_orders s (sx_book x1) = (if n = d_val (o_rem r) then map snd rest
       else r \<lparr> o_rem := Decimal (d_val (o_rem r) - n) 8 \<rparr> # map snd rest)"
proof -
  let ?t = "sx_order x" and ?r' = "r \<lparr> o_rem := Decimal (d_val (o_rem r) - n) 8 \<rparr>"
  have r: "order_ok r" using index_of_resting(4) [OF inv, of k r s] hd by simp
  have n: "0 < n" "n \<le> d_val (o_rem ?t)" "n \<le> d_val (o_rem r)"
    using t r by (auto simp: n_def taker_ok_def order_ok_def pos_amount_def)
  have dec: "d_dec (o_rem ?t) = 8" "d_dec (o_rem r) = 8"
    using t r by (auto simp: taker_ok_def order_ok_def pos_amount_def)
  have sz: "dec_min (o_rem ?t) (o_rem r) = Decimal n 8"
    using dec by (cases "o_rem ?t"; cases "o_rem r") (auto simp: dec_min_def n_def)
  have range: "in_i128 (d_val (o_rem ?t) - n)" "in_i128 (d_val (o_rem r) - n)"
    using n t r by (auto simp: taker_ok_def order_ok_def pos_amount_def intro!: in_i128_diff)
  have subs: "dec_sub (o_rem ?t) (Decimal n 8) = Some (Decimal (d_val (o_rem ?t) - n) 8)"
    "dec_sub (o_rem r) (Decimal n 8) = Some (Decimal (d_val (o_rem r) - n) 8)"
    using range dec by (simp_all add: dec_sub_eq_Some)
  obtain q mf tf where fee: "dec_mul (Decimal n 8) (o_price r) = Some q" "sc_maker_fee c q = Some mf"
    "sc_taker_fee c q = Some tf"
    using quote_and_fees_total [OF fees(1) _ n(2) fees(2)] n r by (auto simp: order_ok_def)
  have le: "o_rem r \<le> Decimal n 8 \<longleftrightarrow> n = d_val (o_rem r)"
    using n(3) dec by (cases "o_rem r") (auto simp: less_eq_decimal_def)
  let ?f = "\<lparr> sf_market = m, sf_maker = o_owner r, sf_taker = o_owner ?t, sf_maker_oid = o_id r,
    sf_taker_oid = o_id ?t, sf_price = o_price r, sf_base_size = Decimal n 8, sf_quote_size = q,
    sf_maker_fee = mf, sf_taker_fee = tf, sf_ts = ts, sf_taker_buy = (sd = Buy) \<rparr>"
  let ?x = "x \<lparr> sx_order := reduce ?t n, sx_fills := sx_fills x @ [?f],
    sx_book := snd (book_remove (o_id r) (sx_book x)) \<rparr>"
  have run: "sp_match_one m c sd ts r x = Some
     (if n = d_val (o_rem r) \<or> is_filled ?r' then ?x \<lparr> sx_filled := sx_filled x @ [o_id r] \<rparr>
      else ?x \<lparr> sx_book := book_insert ?r' (sx_book ?x),
             sx_partial := sx_partial x @ [(o_id r, Decimal (d_val (o_rem r) - n) 8)] \<rparr>)"
    unfolding sp_match_one_def Let_def sz
    by (auto simp: fee subs le reduce_def is_zero_def)
  show thesis
  proof (cases "n = d_val (o_rem r)")
    case True
    show thesis
      by (rule that [OF run, of ?f]) (simp_all add: True book_remove_head [OF inv hd] side_orders_def book_inv_remove inv)
  next
    case False
    then have part: "order_ok ?r'" "\<not> is_filled ?r'"
      using n r range by (auto simp: order_ok_def pos_amount_def is_filled_def is_zero_def)
    have key: "order_key_of ?r' = order_key_of r" by (cases "o_side r") (simp_all add: order_key_of_def)
    note re = book_reinsert_head [OF inv hd part(1) _ _ key, simplified]
    show thesis
      by (rule that [OF run, of ?f]) (simp_all add: False part re side_orders_def)
  qed
qed


definition spot_base_total :: "spot_fill list \<Rightarrow> int" where
  "spot_base_total fs = (\<Sum>f\<leftarrow>fs. d_val (sf_base_size f))"

definition side_total :: "side \<Rightarrow> order_book \<Rightarrow> int" where
  "side_total s b = (\<Sum>r\<leftarrow>side_orders s b. d_val (o_rem r))"

lemma sp_crosses_accepts: "sp_crosses = accepts"
  by (simp add: fun_eq_iff sp_crosses_def accepts_def split: side.splits)

lemma sp_match_loop_step:
  "sp_match_loop m c s ts x =
    (if is_filled (sx_order x) then Some x
     else case side_best (opposite s) (sx_book x) of
       None \<Rightarrow> Some x
     | Some r \<Rightarrow>
         if \<not> accepts s (o_price (sx_order x)) (o_price r) then Some x
         else Option.bind (sp_match_one m c s ts r x) (sp_match_loop m c s ts))"
  unfolding sp_match_loop.simps [of m c s ts x] sp_crosses_accepts side_best_eq by (cases s) simp_all

text \<open>What matching establishes between the state before and after, with the new fills.\<close>

definition spot_match_post :: "side \<Rightarrow> spot_matching \<Rightarrow> spot_matching \<Rightarrow> spot_fill list \<Rightarrow> bool" where
  "spot_match_post s x x' fs = (
    sx_fills x' = sx_fills x @ fs \<and>
    taker_ok (sx_order x') \<and> book_inv (sx_book x') \<and> side_map s (sx_book x') = side_map s (sx_book x) \<and>
    spot_base_total fs + d_val (o_rem (sx_order x')) = d_val (o_rem (sx_order x)) \<and>
    spot_base_total fs + side_total (opposite s) (sx_book x') = side_total (opposite s) (sx_book x) \<and>
    (\<forall>f \<in> set fs. 0 < d_val (sf_base_size f) \<and> accepts s (o_price (sx_order x)) (sf_price f)) \<and>
    (is_filled (sx_order x') \<or> (case side_best (opposite s) (sx_book x') of None \<Rightarrow> True
       | Some r \<Rightarrow> \<not> accepts s (o_price (sx_order x')) (o_price r))))"

lemma sp_match_loop_post:
  assumes "taker_ok (sx_order x)" "book_inv (sx_book x)" "default_fees c"
    and "\<forall>r \<in> set (side_orders (opposite s) (sx_book x)). trade_fits (sx_order x) r"
  shows "\<exists>x' fs. sp_match_loop m c s ts x = Some x' \<and> spot_match_post s x x' fs"
  using assms
proof (induction "length (side_orders (opposite s) (sx_book x))" arbitrary: x rule: less_induct)
  case less
  let ?t = "sx_order x" and ?b = "sx_book x"
  show ?case
  proof (cases "is_filled ?t \<or> (case side_best (opposite s) ?b of None \<Rightarrow> True
       | Some r \<Rightarrow> \<not> accepts s (o_price ?t) (o_price r))")
    case True
    then have "sp_match_loop m c s ts x = Some x"
      by (subst sp_match_loop_step) (auto split: option.splits)
    then show ?thesis using True less.prems by (intro exI [of _ x] exI [of _ "[]"]) (simp add: spot_match_post_def spot_base_total_def)
  next
    case False
    then obtain r where best: "side_best (opposite s) ?b = Some r" "accepts s (o_price ?t) (o_price r)"
      and open_t: "\<not> is_filled ?t" by (auto split: option.splits)
    then obtain k rest where hd: "side_map (opposite s) ?b = (k, r) # rest"
      by (auto simp: side_best_def first_value_def split: list.splits)
    define n where "n = min (d_val (o_rem ?t)) (d_val (o_rem r))"
    have nz: "d_val (o_rem ?t) \<noteq> 0" using open_t by (simp add: is_filled_def is_zero_def)
    have r: "order_ok r" using index_of_resting(4) [OF less.prems(2), of k r "opposite s"] hd by simp
    have n: "0 < n" "n \<le> d_val (o_rem ?t)"
      using less.prems(1) nz r by (auto simp: n_def taker_ok_def order_ok_def pos_amount_def)
    have fit: "trade_fits ?t r" using less.prems(4) hd by (simp add: side_orders_def)
    obtain x1 f where one: "sp_match_one m c s ts r x = Some x1" "sx_order x1 = reduce ?t n"
      "sx_fills x1 = sx_fills x @ [f]" "sf_base_size f = Decimal n 8" "sf_price f = o_price r"
      "book_inv (sx_book x1)" "\<forall>s'. s' \<noteq> opposite s \<longrightarrow> side_map s' (sx_book x1) = side_map s' ?b"
      "side_orders (opposite s) (sx_book x1) = (if n = d_val (o_rem r) then map snd rest
         else r \<lparr> o_rem := Decimal (d_val (o_rem r) - n) 8 \<rparr> # map snd rest)"
      using sp_match_one_step [OF less.prems(2) hd less.prems(1) nz less.prems(3) fit, of m s ts]
      unfolding n_def by metis
    have step: "sp_match_loop m c s ts x = sp_match_loop m c s ts x1"
      using best open_t one(1) by (subst sp_match_loop_step) simp
    have ords: "side_orders (opposite s) ?b = r # map snd rest" using hd by (simp add: side_orders_def)
    have total: "n + side_total (opposite s) (sx_book x1) = side_total (opposite s) ?b"
      using one(8) hd by (simp add: side_total_def side_orders_def)
    have t1: "taker_ok (reduce ?t n)" using less.prems(1) n by (intro reduce_taker_ok) auto
    show ?thesis
    proof (cases "n = d_val (o_rem r)")
      case True
      have "\<forall>q \<in> set (map snd rest). trade_fits (reduce ?t n) q"
        using less.prems(4) side_orders_ok [OF less.prems(2), of "opposite s"] hd n
        by (auto simp: side_orders_def intro!: trade_fits_reduce)
      then obtain x' fs where ih: "sp_match_loop m c s ts x1 = Some x'" "spot_match_post s x1 x' fs"
        using less.hyps [of x1] one(2,6,8) True t1 less.prems(3) ords by auto
      have "spot_match_post s x x' (f # fs)"
        using ih(2) one(2-5,7) total n best(2) by (auto simp: spot_match_post_def spot_base_total_def)
      then show ?thesis using step ih(1) by auto
    next
      case False
      then have "n = d_val (o_rem ?t)" by (auto simp: n_def min_def split: if_splits)
      then have "sp_match_loop m c s ts x1 = Some x1" "is_filled (sx_order x1)"
        using one(2) by (simp_all add: sp_match_loop_step [of m c s ts x1] is_filled_def is_zero_def)
      then show ?thesis
        using step one t1 total n best(2) \<open>n = d_val (o_rem ?t)\<close>
        by (intro exI [of _ x1] exI [of _ "[f]"]) (auto simp: spot_match_post_def spot_base_total_def)
    qed
  qed
qed



definition sample_spot_config :: spot_market_config where
  "sample_spot_config = \<lparr> sc_id = 128, sc_symbol = ''HYPE-USDC'', sc_base_token = 1, sc_quote_token = 0,
     sc_tick_size = Decimal 10000 8, sc_lot_size = Decimal 1000000 8, sc_min_order_size = Decimal 1000000 8,
     sc_max_order_size = Decimal 1000000000000000000 8, sc_maker_fee_rate = Decimal (-2000000) 10,
     sc_taker_fee_rate = Decimal 5000000 10, sc_is_active = True \<rparr>"


section \<open>Settlement\<close>

lemma release_balance_frame: "release_balance a t amount s = Some s' \<Longrightarrow> \<exists>r. s' = s \<lparr> sp_reserved := r \<rparr>"
  by (auto simp: release_balance_def panic_simps split: option.splits intro: exI [of _ "sp_reserved s"])

lemma credit_balance_Some:
  "credit_balance a t amount s = Some s' \<longleftrightarrow>
   (\<exists>us. credit a t amount (sp_unified s) = Some us \<and> s' = s \<lparr> sp_unified := us \<rparr>)"
  by (auto simp: credit_balance_def)

lemma debit_balance_Some:
  "debit_balance a t amount s = Some (ok, s') \<longleftrightarrow>
   (\<exists>us. debit_core a t amount (sp_unified s) = Some (ok, us) \<and> s' = s \<lparr> sp_unified := us \<rparr>)"
  by (auto simp: debit_balance_def)

lemma record_spot_trade_frame: "record_spot_trade f s = Some s' \<Longrightarrow> \<exists>ms. s' = s \<lparr> sp_markets := ms \<rparr>"
  by (auto simp: record_spot_trade_def Let_def Option.bind_eq_Some_conv split: option.splits
      intro: exI [of _ "sp_markets s"])

text \<open>The successful path of the settlement of a fill, through the shared ledger.\<close>

lemma sp_apply_fill_ledger:
  assumes "sp_apply_fill c f s = Some (Inr (), s')"
    and "to_decimals (sf_quote_size f) USDC_DECIMALS = Some q"
    and "to_decimals (if sf_taker_buy f then sf_taker_fee f else sf_maker_fee f) USDC_DECIMALS = Some bf"
    and "to_decimals (if sf_taker_buy f then sf_maker_fee f else sf_taker_fee f) USDC_DECIMALS = Some sf"
  obtains buyer seller u1 u2 u3 ms rs where
    "debit_core buyer (sc_quote_token c) (Decimal (wrap_i128 (d_val q + d_val bf)) USDC_DECIMALS) (sp_unified s) = Some (True, u1)"
    "credit buyer (sc_base_token c) (sf_base_size f) u1 = Some u2"
    "debit_core seller (sc_base_token c) (sf_base_size f) u2 = Some (True, u3)"
    "credit seller (sc_quote_token c) (Decimal (wrap_i128 (d_val q - d_val sf)) USDC_DECIMALS) u3 = Some (sp_unified s')"
    "s' = s \<lparr> sp_reserved := rs, sp_unified := sp_unified s', sp_markets := ms \<rparr>"
proof -
  define buyer where "buyer = (if sf_taker_buy f then sf_taker f else sf_maker f)"
  define seller where "seller = (if sf_taker_buy f then sf_maker f else sf_taker f)"
  define pays where "pays = Decimal (wrap_i128 (d_val q + d_val bf)) USDC_DECIMALS"
  define receives where "receives = Decimal (wrap_i128 (d_val q - d_val sf)) USDC_DECIMALS"
  have "\<exists>s1 s2 s3 s4 s5 s6. release_balance buyer (sc_quote_token c) pays s = Some s1 \<and>
      release_balance seller (sc_base_token c) (sf_base_size f) s1 = Some s2 \<and>
      debit_balance buyer (sc_quote_token c) pays s2 = Some (True, s3) \<and>
      credit_balance buyer (sc_base_token c) (sf_base_size f) s3 = Some s4 \<and>
      debit_balance seller (sc_base_token c) (sf_base_size f) s4 = Some (True, s5) \<and>
      credit_balance seller (sc_quote_token c) receives s5 = Some s6 \<and> record_spot_trade f s6 = Some s'"
    using assms unfolding sp_apply_fill_def buyer_def seller_def pays_def receives_def
    by (cases "sf_taker_buy f") (auto simp: Let_def Option.bind_eq_Some_conv split: if_splits)
  then obtain s1 s2 s3 s4 s5 s6 where run: "release_balance buyer (sc_quote_token c) pays s = Some s1"
      "release_balance seller (sc_base_token c) (sf_base_size f) s1 = Some s2"
      "debit_balance buyer (sc_quote_token c) pays s2 = Some (True, s3)"
      "credit_balance buyer (sc_base_token c) (sf_base_size f) s3 = Some s4"
      "debit_balance seller (sc_base_token c) (sf_base_size f) s4 = Some (True, s5)"
      "credit_balance seller (sc_quote_token c) receives s5 = Some s6" "record_spot_trade f s6 = Some s'"
    by blast
  show thesis
    using that [of buyer _ _ seller] run release_balance_frame [OF run(1)] release_balance_frame [OF run(2)]
      record_spot_trade_frame [OF run(7)]
    by (auto simp: debit_balance_Some credit_balance_Some pays_def receives_def)
qed




text \<open>A ledger with a buyer of 5 USDC and a seller of base token 1, and one fill between them.\<close>

definition sample_spot_state :: spot_state where
  "sample_spot_state = \<lparr> sp_tokens = [], sp_markets = [(128, spot_market_new sample_spot_config)],
     sp_orderbooks = [(128, book_new)],
     sp_unified = [((7, 0), \<lparr> ub_total = Decimal 5000000 6, ub_core = Decimal 5000000 6, ub_evm = Decimal 0 6 \<rparr>),
       ((8, 1), \<lparr> ub_total = Decimal 900 8, ub_core = Decimal 900 8, ub_evm = Decimal 0 8 \<rparr>)],
     sp_reserved = [((7, 0), Decimal 5000000 6)], sp_orders = [(128, [])], sp_account_orders = [],
     sp_next_token_index = 2, sp_next_order_id = 1000000, sp_next_market_id = 129 \<rparr>"

definition sample_spot_fill :: spot_fill where
  "sample_spot_fill = \<lparr> sf_market = 128, sf_maker = 8, sf_taker = 7, sf_maker_oid = 1, sf_taker_oid = 2,
     sf_price = Decimal 100000000 8, sf_base_size = Decimal 100 8, sf_quote_size = Decimal 100000000 8,
     sf_maker_fee = Decimal (-20000) 8, sf_taker_fee = Decimal 50000 8, sf_ts = 4, sf_taker_buy = True \<rparr>"

lemma sample_conversions:
  "to_decimals (Decimal 100000000 8) 6 = Some (Decimal 1000000 6)"
  "to_decimals (Decimal 50000 8) 6 = Some (Decimal 500 6)"
  "to_decimals (Decimal (-20000) 8) 6 = Some (Decimal (-200) 6)"
  "to_decimals (Decimal 100 8) 8 = Some (Decimal 100 8)"
  "to_decimals (Decimal 0 0) 6 = Some (Decimal 0 6)" "to_decimals (Decimal 0 0) 8 = Some (Decimal 0 8)"
  by (simp_all add: to_decimals_down to_decimals_up signed_divide_int_def i128_defs)

lemma sample_settles: "\<exists>s'. sp_apply_fill sample_spot_config sample_spot_fill sample_spot_state = Some (Inr (), s')"
  by (simp add: sp_apply_fill_def sample_spot_fill_def sample_spot_config_def sample_spot_state_def
      sample_conversions USDC_DECIMALS_def Let_def wrap_i128_id i128_defs release_balance_def debit_balance_def
      credit_balance_def debit_core_def credit_def record_spot_trade_def spot_market_new_def
      spot_market_state_default_def dec_min_def ledger_eval)


section \<open>Reserved balances and transfers\<close>

text \<open>
  A move from the Core to the EVM view through the spot engine never touches
  reserved funds: it succeeds only when the unreserved part of the Core view covers
  the amount, moves exactly the amount, and leaves the reserve covered; a refused
  move changes nothing.
\<close>

theorem view_transfer_respects_reserve:
  assumes "view_transfer a t amount True s = Some (r, s')" "d_dec amount = d_dec (get_core_view (sp_unified s) a t)"
  shows "sp_reserved s' = sp_reserved s \<and>
    (case r of
       Inl e \<Rightarrow> sp_unified s' = sp_unified s
     | Inr _ \<Rightarrow>
         d_val (get_core_view (sp_unified s') a t) = d_val (get_core_view (sp_unified s) a t) - d_val amount \<and>
         d_val (get_evm_view (sp_unified s') a t) = d_val (get_evm_view (sp_unified s) a t) + d_val amount \<and>
         d_val (sb_reserved (sp_get_balance s a t)) \<le> d_val (sb_total (sp_get_balance s' a t)))"
proof -
  obtain av where av: "available (sp_get_balance s a t) = Some av"
    and run: "if av < amount then Some (Inl (InsufficientBalance amount av), s) = Some (r, s')
      else Option.bind (transfer_to_evm_view a t amount (sp_unified s)) (\<lambda>v. view_result v s) = Some (r, s')"
    using assms(1) by (auto simp: view_transfer_def Option.bind_eq_Some_conv split: if_splits)
  show ?thesis
  proof (cases "av < amount")
    case True
    then show ?thesis using run by auto
  next
    case False
    then obtain v us where move: "transfer_to_evm_view a t amount (sp_unified s) = Some (v, us)"
      and res: "view_result (v, us) s = Some (r, s')" using run by (auto simp: Option.bind_eq_Some_conv)
    have s': "s' = s \<lparr> sp_unified := us \<rparr>" "(r = Inr ()) = (v = Inr ())"
      using res by (auto simp: view_result_def split: sum.splits)
    have "d_val (sb_reserved (sp_get_balance s a t)) \<le> d_val (get_core_view (sp_unified s) a t) - d_val amount"
      using False av assms(2)
      by (cases amount) (auto simp: available_def sp_get_balance_def Let_def dec_sub_eq_Some less_decimal_def not_less)
    then show ?thesis
      using transfer_to_evm_view_exact [OF move] s'
      by (cases r; cases v) (auto simp: sp_get_balance_def Let_def)
  qed
qed


theorem view_transfer_respects_reserve_witness:
  "\<exists>s'. view_transfer 8 1 (Decimal 400 8) True sample_spot_state = Some (Inr (), s') \<and>
     sp_reserved s' = sp_reserved sample_spot_state \<and> d_val (get_evm_view (sp_unified s') 8 1) = 400"
proof -
  obtain s' where run: "view_transfer 8 1 (Decimal 400 8) True sample_spot_state = Some (Inr (), s')"
    by (simp add: view_transfer_def view_result_def available_def sp_get_balance_def sample_spot_state_def
        get_core_view_def transfer_to_evm_view_def ledger_eval)
  show ?thesis
    using run view_transfer_respects_reserve [OF run]
    by (simp add: sample_spot_state_def get_core_view_def get_evm_view_def hm_get_def)
qed

text \<open>
  The bridge does not respect the reserve: an account all of whose USDC is reserved
  for resting orders can bridge all of it out, leaving the reserve uncovered.
\<close>

theorem bridge_ignores_reserve:
  "let s = sample_spot_state \<lparr> sp_tokens := [(0, spot_token_usdc keccak)] \<rparr> in
   available (sp_get_balance s 7 0) = Some (Decimal 0 6) \<and>
   (\<exists>s'. bridge_transfer 0 7 (st_system_address (spot_token_usdc keccak)) (Decimal 5000000 6) False s = Some (Inr (), s') \<and>
      available (sp_get_balance s' 7 0) = Some (Decimal (-5000000) 6))"
  by (simp add: bridge_transfer_def debit_balance_def debit_core_def available_def sp_get_balance_def
      sample_spot_state_def get_core_view_def ledger_eval)

end
