(* ===== verification/Eip712.thy ===== *)
theory Eip712
  imports Spot
begin

text \<open>
  The EIP-712 encoding shared by the gateway and the chain, from
  \<open>crates/primitives/src/eip712.rs\<close>, and signatures, from
  \<open>crates/primitives/src/types.rs\<close>.  Keccak-256, the decoder of the \<open>hex\<close> crate and
  the elliptic-curve operations of \<open>k256\<close> are third-party code and parameters.
  Every item of an encoding is a block of 32 bytes, which makes the encodings
  injective up to collisions of the hash function.
\<close>

section \<open>Encoding\<close>

definition DEFAULT_CHAIN_ID :: nat where
  "DEFAULT_CHAIN_ID = 1337"

definition DOMAIN_TYPE_HASH :: "byte list" where
  "DOMAIN_TYPE_HASH =
    [0x8b, 0x73, 0xc3, 0xc6, 0x9b, 0xb8, 0xfe, 0x3d, 0x51, 0x2e, 0xcc, 0x4c, 0xf7, 0x59, 0xcc, 0x79,
     0x23, 0x9f, 0x7b, 0x17, 0x9b, 0x0f, 0xfa, 0xca, 0xa9, 0xa7, 0x5d, 0x52, 0x2b, 0x39, 0x40, 0x0f]"

text \<open>Big-endian bytes of a number, as many as the type has.\<close>

definition be_bytes :: "nat \<Rightarrow> nat \<Rightarrow> byte list" where
  "be_bytes w n = map (\<lambda>i. word_of_nat (n div 256 ^ i)) (rev [0..<w])"

definition encode_string :: "hash_fn \<Rightarrow> string \<Rightarrow> digest" where
  "encode_string keccak s = keccak (string_bytes s)"

definition encode_uint8 :: "nat \<Rightarrow> digest" where
  "encode_uint8 v = replicate 31 0 @ [word_of_nat v]"

definition encode_uint64 :: "nat \<Rightarrow> digest" where
  "encode_uint64 v = replicate 24 0 @ be_bytes 8 v"

definition encode_bool :: "bool \<Rightarrow> digest" where
  "encode_bool v = replicate 31 0 @ [if v then 1 else 0]"

definition encode_address_bytes :: "byte list \<Rightarrow> digest" where
  "encode_address_bytes addr = replicate 12 0 @ addr"

definition strip_0x :: "string \<Rightarrow> string" where
  "strip_0x s = (if take 2 s = ''0x'' then drop 2 s else s)"

definition encode_address_str :: "(string \<Rightarrow> byte list option) \<Rightarrow> string \<Rightarrow> digest" where
  "encode_address_str hex_decode addr = (case hex_decode (strip_0x addr) of
       Some bs \<Rightarrow> if length bs = 20 then replicate 12 0 @ bs else replicate 32 0
     | None \<Rightarrow> replicate 32 0)"

text \<open>A hasher that is updated with several pieces and finalised hashes their concatenation.\<close>

definition hash_pieces :: "hash_fn \<Rightarrow> byte list list \<Rightarrow> digest" where
  "hash_pieces keccak ps = keccak (concat ps)"

definition encode_array :: "hash_fn \<Rightarrow> digest list \<Rightarrow> digest" where
  "encode_array keccak hs = hash_pieces keccak hs"

definition type_hash :: "hash_fn \<Rightarrow> string \<Rightarrow> digest" where
  "type_hash keccak s = keccak (string_bytes s)"

definition compute_domain_separator :: "hash_fn \<Rightarrow> nat \<Rightarrow> digest" where
  "compute_domain_separator keccak chain_id = hash_pieces keccak
     [DOMAIN_TYPE_HASH, encode_string keccak ''HyperCore'', encode_string keccak ''1'', encode_uint64 chain_id,
      replicate 32 0]"

definition compute_typed_data_hash :: "hash_fn \<Rightarrow> digest \<Rightarrow> digest \<Rightarrow> digest" where
  "compute_typed_data_hash keccak domain_separator struct_hash =
     hash_pieces keccak [[0x19, 0x01], domain_separator, struct_hash]"

section \<open>Signatures\<close>

record signature =
  sig_r :: "byte list"
  sig_s :: "byte list"
  sig_v :: nat

definition signature_zero :: signature where
  "signature_zero = \<lparr> sig_r = replicate 32 0, sig_s = replicate 32 0, sig_v = 27 \<rparr>"

definition sig_to_bytes :: "signature \<Rightarrow> byte list" where
  "sig_to_bytes g = sig_r g @ sig_s g @ [word_of_nat (sig_v g)]"

definition sig_from_bytes :: "byte list \<Rightarrow> signature" where
  "sig_from_bytes bs = \<lparr> sig_r = take 32 bs, sig_s = take 32 (drop 32 bs), sig_v = unat (bs ! 64) \<rparr>"

datatype signature_error = InvalidSignature | InvalidRecoveryId | RecoveryFailed

text \<open>
  The operations of \<open>k256\<close>: whether 64 bytes are a signature, and the recovered public
  key as an uncompressed point (65 bytes, a tag first) for a digest, a signature and
  a recovery id.
\<close>

record ecdsa =
  ec_from_slice :: "byte list \<Rightarrow> bool"
  ec_recover :: "digest \<Rightarrow> byte list \<Rightarrow> nat \<Rightarrow> byte list option"

definition address_of_key :: "hash_fn \<Rightarrow> byte list \<Rightarrow> address" where
  "address_of_key keccak point = address_of_bytes (drop 12 (keccak (tl point)))"

text \<open>The recovery id of \<open>Signature::recover\<close>: parity only, from the three conventions for \<open>v\<close>.\<close>

definition recovery_id :: "nat \<Rightarrow> nat option" where
  "recovery_id v = (if v = 0 \<or> v = 27 then Some 0 else if v = 1 \<or> v = 28 then Some 1
     else if v \<ge> 35 then Some ((v - 35) mod 2) else None)"

definition sig_recover :: "ecdsa \<Rightarrow> hash_fn \<Rightarrow> digest \<Rightarrow> signature \<Rightarrow> signature_error + address" where
  "sig_recover ec keccak msg g =
    (let bs = sig_r g @ sig_s g in
     if \<not> ec_from_slice ec bs then Inl InvalidSignature
     else case recovery_id (sig_v g) of
       None \<Rightarrow> Inl InvalidRecoveryId
     | Some i \<Rightarrow> (case ec_recover ec msg bs i of
         None \<Rightarrow> Inl RecoveryFailed
       | Some point \<Rightarrow> Inr (address_of_key keccak point)))"

definition sig_verify :: "ecdsa \<Rightarrow> hash_fn \<Rightarrow> digest \<Rightarrow> address \<Rightarrow> signature \<Rightarrow> bool" where
  "sig_verify ec keccak msg signer g = (case sig_recover ec keccak msg g of
       Inr a \<Rightarrow> a = signer
     | Inl _ \<Rightarrow> False)"

section \<open>The encodings are injective\<close>

lemma length_be_bytes [simp]: "length (be_bytes w n) = w"
  by (simp add: be_bytes_def)

lemma length_encodings [simp]:
  "length (encode_uint8 n) = 32" "length (encode_uint64 n) = 32" "length (encode_bool b) = 32"
  "length addr = 20 \<Longrightarrow> length (encode_address_bytes addr) = 32"
  by (simp_all add: encode_uint8_def encode_uint64_def encode_bool_def encode_address_bytes_def)

lemma inj_of_char: "(of_char c :: nat) = of_char d \<longleftrightarrow> c = d"
  by (metis char_of_char)

lemma word_of_nat_byte: "(word_of_nat m :: byte) = word_of_nat n \<longleftrightarrow> m mod 256 = n mod 256"
  by (simp add: word_of_nat_eq_iff take_bit_eq_mod)

lemma of_char_less: "(of_char c :: nat) < 256"
  by (cases c) (simp add: of_char_def horner_sum_eq_sum_funpow)

lemma inj_string_bytes: "string_bytes s = string_bytes t \<longleftrightarrow> s = t"
proof -
  have "inj (\<lambda>c. word_of_nat (of_char c) :: byte)"
    by (rule injI) (simp add: word_of_nat_byte mod_less [OF of_char_less] inj_of_char)
  then show ?thesis unfolding string_bytes_def by (simp add: inj_map_eq_map)
qed

lemma be_bytes_Suc: "be_bytes (Suc w) n = word_of_nat (n div 256 ^ w) # be_bytes w n"
  by (simp add: be_bytes_def)

lemma be_bytes_mod: "be_bytes w (n mod 256 ^ w) = be_bytes w n"
proof -
  have "(word_of_nat (n mod 256 ^ w div 256 ^ i) :: byte) = word_of_nat (n div 256 ^ i)" if "i < w" for i
  proof -
    obtain d where w: "w = Suc (i + d)" using \<open>i < w\<close> less_iff_Suc_add by blast
    have "n mod 256 ^ w div 256 ^ i = n div 256 ^ i mod 256 ^ (Suc d)"
    proof -
      have "(256::nat) ^ w = 256 ^ i * 256 ^ Suc d" by (simp add: w power_add)
      then show ?thesis by (simp only: mod_mult2_eq) simp
    qed
    then show ?thesis unfolding word_of_nat_byte by (simp add: mod_mod_cancel)
  qed
  then show ?thesis by (simp add: be_bytes_def)
qed

lemma be_bytes_inject:
  "m < 256 ^ w \<Longrightarrow> n < 256 ^ w \<Longrightarrow> be_bytes w m = be_bytes w n \<longleftrightarrow> m = n"
proof (induction w arbitrary: m n)
  case (Suc w)
  have "m = n" if eq: "be_bytes (Suc w) m = be_bytes (Suc w) n"
  proof -
    have "m div 256 ^ w < 256" "n div 256 ^ w < 256"
      using Suc.prems by (simp_all add: less_mult_imp_div_less)
    then have hi: "m div 256 ^ w = n div 256 ^ w"
      using eq by (simp add: be_bytes_Suc word_of_nat_byte)
    have "be_bytes w (m mod 256 ^ w) = be_bytes w (n mod 256 ^ w)"
      using eq by (simp add: be_bytes_Suc be_bytes_mod)
    then have "m mod 256 ^ w = n mod 256 ^ w" by (subst (asm) Suc.IH) simp_all
    then show ?thesis using hi by (metis div_mult_mod_eq)
  qed
  then show ?case by auto
qed (simp add: be_bytes_def)

lemma encode_uint64_inject: "m < 2 ^ 64 \<Longrightarrow> n < 2 ^ 64 \<Longrightarrow> encode_uint64 m = encode_uint64 n \<longleftrightarrow> m = n"
  unfolding encode_uint64_def same_append_eq using be_bytes_inject [of m 8 n] by simp

lemma encode_uint8_inject: "a < 256 \<Longrightarrow> b < 256 \<Longrightarrow> encode_uint8 a = encode_uint8 b \<longleftrightarrow> a = b"
  unfolding encode_uint8_def same_append_eq by (simp add: word_of_nat_byte)

lemma encode_bool_inject: "encode_bool p = encode_bool q \<longleftrightarrow> p = q"
  unfolding encode_bool_def same_append_eq by (cases p; cases q) simp_all

lemma encode_address_bytes_inject: "encode_address_bytes x = encode_address_bytes y \<longleftrightarrow> x = y"
  unfolding encode_address_bytes_def same_append_eq ..

lemmas encodings_inject = encode_uint64_inject encode_uint8_inject encode_bool_inject encode_address_bytes_inject

text \<open>Pieces of equal length can be read back from their concatenation.\<close>

lemma concat_pieces_inject:
  assumes "\<forall>p \<in> set ps. length p = k" "\<forall>q \<in> set qs. length q = k" "0 < k" "concat ps = concat qs"
  shows "ps = qs"
  using assms
proof (induction ps arbitrary: qs)
  case Nil
  then show ?case by (cases qs) auto
next
  case (Cons p ps)
  then have "p \<noteq> []" "p @ concat ps = concat qs" by auto
  then obtain q qs' where qs: "qs = q # qs'" by (cases qs) auto
  then have "p = q \<and> concat ps = concat qs'"
    using Cons.prems append_eq_append_conv [of p q "concat ps" "concat qs'"] by simp
  then show ?case using Cons.IH [of qs'] Cons.prems qs by simp
qed

end
