(* ===== verification/Transaction.thy ===== *)
theory Transaction
  imports Eip712
begin

text \<open>
  Transactions of the chain, from \<open>crates/chain/src/tx.rs\<close>: the wire formats, the
  hash that a user signs, the recovery of the signer, and the conversion of an order
  on the wire into an order request.  The JSON serialisation of an action
  (\<open>serde_json\<close>) is a parameter of the transaction hash.
\<close>

section \<open>Wire formats\<close>

record trigger_order =
  tg_is_market :: bool
  tg_trigger_px :: string
  tg_tpsl :: string

datatype order_type_wire = LimitWire string | TriggerWire trigger_order

datatype order_grouping = Na | NormalTpsl | PositionTpsl

record order_wire =
  ow_a :: market_id
  ow_b :: bool
  ow_p :: string
  ow_s :: string
  ow_r :: bool
  ow_t :: order_type_wire
  ow_c :: "string option"

record cancel_wire =
  cw_a :: market_id
  cw_o :: order_id

record cancel_by_cloid_wire =
  cc_asset :: market_id
  cc_cloid :: string

datatype transaction_type =
    TxOrder "order_wire list" order_grouping
  | TxCancel "cancel_wire list"
  | TxCancelByCloid "cancel_by_cloid_wire list"
  | TxCancelAll
  | TxUpdateLeverage market_id bool nat
  | TxUsdTransfer address string
  | TxWithdraw address string
  | TxEvmAction nat "byte list"
  | TxSpotOrder "order_wire list" order_grouping
  | TxSpotCancelAll "nat option"
  | TxViewTransfer nat string bool
  | TxSetMarginMode margin_mode
  | TxCancelTrigger market_id order_id

datatype transaction_error =
    TxInvalidSignature
  | TxInvalidNonce nat nat
  | TxInvalidPrice
  | TxInvalidSize
  | TxInvalidTimeInForce
  | TxSerializationError string
  | TxUnknownMarket market_id
  | TxInsufficientBalance
  | TxSignatureRecoveryFailed

record transaction =
  tx_action :: transaction_type
  tx_nonce :: nat
  tx_signature :: signature
  tx_hash :: "digest option"

definition compute_hash :: "(transaction_type \<Rightarrow> byte list) \<Rightarrow> hash_fn \<Rightarrow> transaction \<Rightarrow> digest" where
  "compute_hash json keccak tx = hash_pieces keccak [json (tx_action tx), u64_le (tx_nonce tx)]"

text \<open>The hash, and the transaction with the hash cached.\<close>

definition get_hash :: "(transaction_type \<Rightarrow> byte list) \<Rightarrow> hash_fn \<Rightarrow> transaction \<Rightarrow> digest \<times> transaction" where
  "get_hash json keccak tx = (case tx_hash tx of
       Some h \<Rightarrow> (h, tx)
     | None \<Rightarrow> let h = compute_hash json keccak tx in (h, tx \<lparr> tx_hash := Some h \<rparr>))"

section \<open>The signed hash\<close>

definition ascii_lower :: "char \<Rightarrow> char" where
  "ascii_lower c = (let n = of_char c :: nat in if 65 \<le> n \<and> n \<le> 90 then char_of (n + 32) else c)"

definition to_lowercase :: "string \<Rightarrow> string" where
  "to_lowercase s = map ascii_lower s"

definition to_tif_string :: "order_type_wire \<Rightarrow> string" where
  "to_tif_string t = (case t of LimitWire tif \<Rightarrow> to_lowercase tif | TriggerWire _ \<Rightarrow> ''trigger'')"

definition grouping_str :: "order_grouping \<Rightarrow> string" where
  "grouping_str g = (case g of Na \<Rightarrow> ''na'' | NormalTpsl \<Rightarrow> ''normalTpsl'' | PositionTpsl \<Rightarrow> ''positionTpsl'')"

definition address_bytes :: "address \<Rightarrow> byte list" where
  "address_bytes a = be_bytes 20 a"

definition encode_address :: "address \<Rightarrow> digest" where
  "encode_address a = encode_address_bytes (address_bytes a)"

definition order_pieces :: "hash_fn \<Rightarrow> order_wire \<Rightarrow> byte list list" where
  "order_pieces keccak w =
     [type_hash keccak ''Order(uint8 a,bool b,string p,string s,bool r,string t)'',
      encode_uint8 (ow_a w), encode_bool (ow_b w), encode_string keccak (ow_p w), encode_string keccak (ow_s w),
      encode_bool (ow_r w), encode_string keccak (to_tif_string (ow_t w))]"

definition order_hash_eip712 :: "hash_fn \<Rightarrow> order_wire \<Rightarrow> digest" where
  "order_hash_eip712 keccak w = hash_pieces keccak (order_pieces keccak w)"

definition spot_order_pieces :: "hash_fn \<Rightarrow> order_wire \<Rightarrow> byte list list" where
  "spot_order_pieces keccak w =
     [type_hash keccak ''SpotOrder(uint8 a,bool b,string p,string s,string t)'',
      encode_uint8 (ow_a w), encode_bool (ow_b w), encode_string keccak (ow_p w), encode_string keccak (ow_s w),
      encode_string keccak (to_tif_string (ow_t w))]"

definition order_hash_eip712_spot :: "hash_fn \<Rightarrow> order_wire \<Rightarrow> digest" where
  "order_hash_eip712_spot keccak w = hash_pieces keccak (spot_order_pieces keccak w)"

definition cancel_pieces :: "hash_fn \<Rightarrow> cancel_wire \<Rightarrow> byte list list" where
  "cancel_pieces keccak w =
     [type_hash keccak ''Cancel(uint8 a,uint64 o)'', encode_uint8 (cw_a w), encode_uint64 (cw_o w)]"

definition cancel_hash_eip712 :: "hash_fn \<Rightarrow> cancel_wire \<Rightarrow> digest" where
  "cancel_hash_eip712 keccak w = hash_pieces keccak (cancel_pieces keccak w)"

definition cloid_pieces :: "hash_fn \<Rightarrow> cancel_by_cloid_wire \<Rightarrow> byte list list" where
  "cloid_pieces keccak w =
     [type_hash keccak ''CancelByCloid(uint8 asset,string cloid)'', encode_uint8 (cc_asset w),
      encode_string keccak (cc_cloid w)]"

definition cloid_hash_eip712 :: "hash_fn \<Rightarrow> cancel_by_cloid_wire \<Rightarrow> digest" where
  "cloid_hash_eip712 keccak w = hash_pieces keccak (cloid_pieces keccak w)"

text \<open>The pieces that \<open>compute_struct_hash\<close> feeds the hasher, in order.\<close>

definition struct_pieces :: "hash_fn \<Rightarrow> transaction_type \<Rightarrow> nat \<Rightarrow> byte list list" where
  "struct_pieces keccak act nonce = (case act of
       TxOrder orders grouping \<Rightarrow>
         [type_hash keccak ''Action(string type,Order[] orders,string grouping,uint64 nonce)Order(uint8 a,bool b,string p,string s,bool r,string t)'',
          encode_string keccak ''order'', encode_array keccak (map (order_hash_eip712 keccak) orders),
          encode_string keccak (grouping_str grouping), encode_uint64 nonce]
     | TxCancel cancels \<Rightarrow>
         [type_hash keccak ''Action(string type,Cancel[] cancels,uint64 nonce)Cancel(uint8 a,uint64 o)'',
          encode_string keccak ''cancel'', encode_array keccak (map (cancel_hash_eip712 keccak) cancels),
          encode_uint64 nonce]
     | TxCancelByCloid cancels \<Rightarrow>
         [type_hash keccak ''Action(string type,CancelByCloid[] cancels,uint64 nonce)CancelByCloid(uint8 asset,string cloid)'',
          encode_string keccak ''cancelByCloid'', encode_array keccak (map (cloid_hash_eip712 keccak) cancels),
          encode_uint64 nonce]
     | TxCancelAll \<Rightarrow>
         [type_hash keccak ''Action(string type,uint64 nonce)'', encode_string keccak ''cancelAll'', encode_uint64 nonce]
     | TxUpdateLeverage asset is_cross leverage \<Rightarrow>
         [type_hash keccak ''Action(string type,uint8 asset,bool isCross,uint8 leverage,uint64 nonce)'',
          encode_string keccak ''updateLeverage'', encode_uint8 asset, encode_bool is_cross, encode_uint8 leverage,
          encode_uint64 nonce]
     | TxUsdTransfer destination amount \<Rightarrow>
         [type_hash keccak ''Action(string type,address destination,string amount,uint64 nonce)'',
          encode_string keccak ''usdTransfer'', encode_address destination, encode_string keccak amount,
          encode_uint64 nonce]
     | TxWithdraw destination amount \<Rightarrow>
         [type_hash keccak ''Action(string type,address destination,string amount,uint64 nonce)'',
          encode_string keccak ''withdraw'', encode_address destination, encode_string keccak amount,
          encode_uint64 nonce]
     | TxEvmAction action_type bytes \<Rightarrow> [encode_uint8 action_type, bytes, encode_uint64 nonce]
     | TxSpotOrder orders grouping \<Rightarrow>
         [type_hash keccak ''Action(string type,SpotOrder[] orders,string grouping,uint64 nonce)SpotOrder(uint8 a,bool b,string p,string s,string t)'',
          encode_string keccak ''spotOrder'', encode_array keccak (map (order_hash_eip712_spot keccak) orders),
          encode_string keccak (grouping_str grouping), encode_uint64 nonce]
     | TxSpotCancelAll market \<Rightarrow>
         [type_hash keccak ''Action(string type,uint64 nonce)'', encode_string keccak ''spotCancelAll'',
          encode_uint64 nonce]
     | TxViewTransfer token amount to_evm \<Rightarrow>
         [type_hash keccak ''Action(string type,uint8 token,string amount,bool toEvm,uint64 nonce)'',
          encode_string keccak ''viewTransfer'', encode_uint8 token, encode_string keccak amount, encode_bool to_evm,
          encode_uint64 nonce]
     | TxSetMarginMode mode \<Rightarrow>
         [type_hash keccak ''Action(string type,bool isCross,uint64 nonce)'', encode_string keccak ''setMarginMode'',
          encode_bool (mode = Cross), encode_uint64 nonce]
     | TxCancelTrigger asset order_id \<Rightarrow>
         [type_hash keccak ''Action(string type,uint8 asset,uint64 orderId,uint64 nonce)'',
          encode_string keccak ''cancelTrigger'', encode_uint8 asset, encode_uint64 order_id, encode_uint64 nonce])"

definition compute_struct_hash :: "hash_fn \<Rightarrow> transaction_type \<Rightarrow> nat \<Rightarrow> digest" where
  "compute_struct_hash keccak act nonce = hash_pieces keccak (struct_pieces keccak act nonce)"

definition compute_eip712_hash :: "hash_fn \<Rightarrow> transaction \<Rightarrow> digest" where
  "compute_eip712_hash keccak tx = hash_pieces keccak
     [[0x19, 0x01], compute_domain_separator keccak DEFAULT_CHAIN_ID, compute_struct_hash keccak (tx_action tx) (tx_nonce tx)]"

section \<open>The signer\<close>

text \<open>\<open>(signature.v - 27) as u8\<close> wraps, and \<open>RecoveryId::try_from\<close> accepts 0 to 3.\<close>

definition recover_address :: "ecdsa \<Rightarrow> hash_fn \<Rightarrow> digest \<Rightarrow> signature \<Rightarrow> transaction_error + address" where
  "recover_address ec keccak msg g =
    (let bs = sig_r g @ sig_s g; i = wrap_u8 (sig_v g + 256 - 27) in
     if \<not> ec_from_slice ec bs then Inl TxInvalidSignature
     else if i > 3 then Inl TxInvalidSignature
     else case ec_recover ec msg bs i of
       None \<Rightarrow> Inl TxSignatureRecoveryFailed
     | Some point \<Rightarrow> Inr (address_of_key keccak point))"

definition recover_signer :: "ecdsa \<Rightarrow> hash_fn \<Rightarrow> transaction \<Rightarrow> transaction_error + address" where
  "recover_signer ec keccak tx = recover_address ec keccak (compute_eip712_hash keccak tx) (tx_signature tx)"

definition tx_sender :: "ecdsa \<Rightarrow> hash_fn \<Rightarrow> transaction \<Rightarrow> transaction_error + address" where
  "tx_sender ec keccak tx = recover_signer ec keccak tx"

section \<open>From the wire to an order request\<close>

definition to_order_type :: "order_type_wire \<Rightarrow> transaction_error + order_type" where
  "to_order_type t = (case t of
       LimitWire tif \<Rightarrow>
         if tif = ''Gtc'' then Inr (Limit Gtc) else if tif = ''Ioc'' then Inr (Limit Ioc)
         else if tif = ''Fok'' then Inr (Limit Fok) else if tif = ''Alo'' then Inr (Limit Alo)
         else Inl TxInvalidTimeInForce
     | TriggerWire tg \<Rightarrow> Inr (if tg_is_market tg then Market else Limit Gtc))"

definition trigger_fields ::
  "bool \<Rightarrow> order_type_wire \<Rightarrow> transaction_error + decimal option \<times> trigger_direction option" where
  "trigger_fields buy t = (case t of
       LimitWire _ \<Rightarrow> Inr (None, None)
     | TriggerWire tg \<Rightarrow> (case from_str_exact (tg_trigger_px tg) PRICE_DECIMALS of
         None \<Rightarrow> Inl TxInvalidPrice
       | Some tp \<Rightarrow> Inr (Some tp, Some
           (if tg_tpsl tg = ''tp'' then Above else if tg_tpsl tg = ''sl'' then Below
            else if buy then Below else Above))))"

definition to_order_request :: "order_wire \<Rightarrow> transaction_error + order_request" where
  "to_order_request w = (case from_str_exact (ow_p w) PRICE_DECIMALS of
       None \<Rightarrow> Inl TxInvalidPrice
     | Some price \<Rightarrow> (case from_str_exact (ow_s w) PRICE_DECIMALS of
         None \<Rightarrow> Inl TxInvalidSize
       | Some sz \<Rightarrow> (case to_order_type (ow_t w) of
           Inl e \<Rightarrow> Inl e
         | Inr ty \<Rightarrow> (case trigger_fields (ow_b w) (ow_t w) of
             Inl e \<Rightarrow> Inl e
           | Inr (tp, dir) \<Rightarrow> Inr
               \<lparr> q_market = ow_a w, q_side = (if ow_b w then Buy else Sell), q_price = price, q_size = sz,
                 q_type = ty, q_reduce_only = ow_r w, q_cloid = ow_c w, q_trig_price = tp, q_trig_dir = dir \<rparr>))))"


section \<open>What a signature binds\<close>

text \<open>
  The part of an action that the signed hash depends on: the type of an order only
  through its lower-case name, no trigger details and no client id; for spot orders
  no reduce-only flag; no market for a spot cancel-all.
\<close>

definition signed_order :: "order_wire \<Rightarrow> order_wire" where
  "signed_order w = w \<lparr> ow_t := LimitWire (to_tif_string (ow_t w)), ow_c := None \<rparr>"

definition signed_spot_order :: "order_wire \<Rightarrow> order_wire" where
  "signed_spot_order w = (signed_order w) \<lparr> ow_r := False \<rparr>"

definition signed_part :: "transaction_type \<Rightarrow> transaction_type" where
  "signed_part act = (case act of
       TxOrder ws g \<Rightarrow> TxOrder (map signed_order ws) g
     | TxSpotOrder ws g \<Rightarrow> TxSpotOrder (map signed_spot_order ws) g
     | TxSpotCancelAll _ \<Rightarrow> TxSpotCancelAll None
     | _ \<Rightarrow> act)"

text \<open>Numbers within the Rust types of the fields.\<close>

definition typed_action :: "transaction_type \<Rightarrow> bool" where
  "typed_action act = (case act of
       TxOrder ws _ \<Rightarrow> \<forall>w \<in> set ws. ow_a w < 256
     | TxSpotOrder ws _ \<Rightarrow> \<forall>w \<in> set ws. ow_a w < 256
     | TxCancel ws \<Rightarrow> \<forall>w \<in> set ws. cw_a w < 256 \<and> cw_o w < 2 ^ 64
     | TxCancelByCloid ws \<Rightarrow> \<forall>w \<in> set ws. cc_asset w < 256
     | TxUpdateLeverage a _ l \<Rightarrow> a < 256 \<and> l < 256
     | TxUsdTransfer d _ \<Rightarrow> d < 2 ^ 160
     | TxWithdraw d _ \<Rightarrow> d < 2 ^ 160
     | TxViewTransfer t _ _ \<Rightarrow> t < 256
     | TxCancelTrigger a i \<Rightarrow> a < 256 \<and> i < 2 ^ 64
     | _ \<Rightarrow> True)"

definition is_evm_action :: "transaction_type \<Rightarrow> bool" where
  "is_evm_action act = (case act of TxEvmAction _ _ \<Rightarrow> True | _ \<Rightarrow> False)"

definition action_name :: "transaction_type \<Rightarrow> string" where
  "action_name act = (case act of
       TxOrder _ _ \<Rightarrow> ''order'' | TxCancel _ \<Rightarrow> ''cancel'' | TxCancelByCloid _ \<Rightarrow> ''cancelByCloid''
     | TxCancelAll \<Rightarrow> ''cancelAll'' | TxUpdateLeverage _ _ _ \<Rightarrow> ''updateLeverage''
     | TxUsdTransfer _ _ \<Rightarrow> ''usdTransfer'' | TxWithdraw _ _ \<Rightarrow> ''withdraw'' | TxEvmAction _ _ \<Rightarrow> ''''
     | TxSpotOrder _ _ \<Rightarrow> ''spotOrder'' | TxSpotCancelAll _ \<Rightarrow> ''spotCancelAll''
     | TxViewTransfer _ _ _ \<Rightarrow> ''viewTransfer'' | TxSetMarginMode _ \<Rightarrow> ''setMarginMode''
     | TxCancelTrigger _ _ \<Rightarrow> ''cancelTrigger'')"

text \<open>Strings and encodings that are hashed on the way to the signed hash of an action.\<close>

definition action_strings :: "transaction_type \<Rightarrow> string list" where
  "action_strings act = action_name act # (case act of
       TxOrder ws g \<Rightarrow> grouping_str g # concat (map (\<lambda>w. [ow_p w, ow_s w, to_tif_string (ow_t w)]) ws)
     | TxSpotOrder ws g \<Rightarrow> grouping_str g # concat (map (\<lambda>w. [ow_p w, ow_s w, to_tif_string (ow_t w)]) ws)
     | TxCancelByCloid ws \<Rightarrow> map cc_cloid ws
     | TxUsdTransfer _ amount \<Rightarrow> [amount]
     | TxWithdraw _ amount \<Rightarrow> [amount]
     | TxViewTransfer _ amount _ \<Rightarrow> [amount]
     | _ \<Rightarrow> [])"

definition item_pieces :: "hash_fn \<Rightarrow> transaction_type \<Rightarrow> byte list list list" where
  "item_pieces keccak act = (case act of
       TxOrder ws _ \<Rightarrow> map (order_hash_eip712 keccak) ws # map (order_pieces keccak) ws
     | TxSpotOrder ws _ \<Rightarrow> map (order_hash_eip712_spot keccak) ws # map (spot_order_pieces keccak) ws
     | TxCancel ws \<Rightarrow> map (cancel_hash_eip712 keccak) ws # map (cancel_pieces keccak) ws
     | TxCancelByCloid ws \<Rightarrow> map (cloid_hash_eip712 keccak) ws # map (cloid_pieces keccak) ws
     | _ \<Rightarrow> [])"

definition hashed_inputs :: "hash_fn \<Rightarrow> transaction_type \<Rightarrow> nat \<Rightarrow> byte list list" where
  "hashed_inputs keccak act nonce =
     map string_bytes (action_strings act) @ map concat (struct_pieces keccak act nonce # item_pieces keccak act)"


lemma map_eq_map_imp:
  assumes "map h xs = map h ys" "\<And>x y. x \<in> set xs \<Longrightarrow> y \<in> set ys \<Longrightarrow> h x = h y \<Longrightarrow> g x = g y"
  shows "map g xs = map g ys"
proof -
  have "length xs = length ys" using assms(1) map_eq_imp_length_eq by blast
  then show ?thesis using assms by (induction xs ys rule: list_induct2) auto
qed

lemma hash_pieces_inject:
  assumes "inj_on keccak S" "concat ps \<in> S" "concat qs \<in> S" "\<forall>p \<in> set ps. length p = 32" "\<forall>q \<in> set qs. length q = 32"
    "hash_pieces keccak ps = hash_pieces keccak qs"
  shows "ps = qs"
  using assms concat_pieces_inject [of ps 32 qs] by (auto simp: hash_pieces_def dest: inj_onD)

lemma encode_string_inject:
  "inj_on keccak S \<Longrightarrow> string_bytes s \<in> S \<Longrightarrow> string_bytes t \<in> S \<Longrightarrow>
   encode_string keccak s = encode_string keccak t \<longleftrightarrow> s = t"
  by (auto simp: encode_string_def inj_on_eq_iff inj_string_bytes)

lemma grouping_str_inject: "grouping_str g = grouping_str h \<longleftrightarrow> g = h"
  by (cases g; cases h) (simp_all add: grouping_str_def)

lemma encode_address_inject: "a < 2 ^ 160 \<Longrightarrow> b < 2 ^ 160 \<Longrightarrow> encode_address a = encode_address b \<longleftrightarrow> a = b"
  using be_bytes_inject [of a 20 b] by (simp add: encode_address_def address_bytes_def encode_address_bytes_inject)

lemma length_encode_address [simp]: "length (encode_address a) = 32"
  by (simp add: encode_address_def address_bytes_def)

lemmas pieces_defs = order_pieces_def spot_order_pieces_def cancel_pieces_def cloid_pieces_def

lemma digest_lengths:
  assumes "\<And>x. length (keccak x) = 32"
  shows "length (encode_string keccak s) = 32" "length (type_hash keccak s) = 32" "length (hash_pieces keccak ps) = 32"
    "length (encode_array keccak ps) = 32"
  using assms by (simp_all add: encode_string_def type_hash_def hash_pieces_def encode_array_def)

lemma item_lengths:
  assumes "\<And>x. length (keccak x) = 32"
  shows "\<forall>p \<in> set (order_pieces keccak w). length p = 32" "\<forall>p \<in> set (spot_order_pieces keccak w). length p = 32"
    "\<forall>p \<in> set (cancel_pieces keccak c). length p = 32" "\<forall>p \<in> set (cloid_pieces keccak d). length p = 32"
    "\<not> is_evm_action act \<Longrightarrow> \<forall>p \<in> set (struct_pieces keccak act n). length p = 32"
  by (simp_all add: pieces_defs digest_lengths [OF assms])
     (cases act; simp add: struct_pieces_def is_evm_action_def digest_lengths [OF assms])

text \<open>The items of a batch.\<close>

lemma order_hash_binds:
  assumes digest: "\<And>x. length (keccak x) = 32" and inj: "inj_on keccak S"
    and "order_hash_eip712 keccak v = order_hash_eip712 keccak w" "ow_a v < 256" "ow_a w < 256"
    and "concat (order_pieces keccak v) \<in> S" "concat (order_pieces keccak w) \<in> S"
    and "string_bytes ` {ow_p v, ow_s v, to_tif_string (ow_t v), ow_p w, ow_s w, to_tif_string (ow_t w)} \<subseteq> S"
  shows "signed_order v = signed_order w"
proof -
  have "order_pieces keccak v = order_pieces keccak w"
    using assms item_lengths(1) [OF digest] by (intro hash_pieces_inject [OF inj]) (auto simp: order_hash_eip712_def)
  then show ?thesis
    using assms by (cases v; cases w) (simp add: order_pieces_def signed_order_def encodings_inject encode_string_inject [OF inj])
qed

lemma spot_order_hash_binds:
  assumes digest: "\<And>x. length (keccak x) = 32" and inj: "inj_on keccak S"
    and "order_hash_eip712_spot keccak v = order_hash_eip712_spot keccak w" "ow_a v < 256" "ow_a w < 256"
    and "concat (spot_order_pieces keccak v) \<in> S" "concat (spot_order_pieces keccak w) \<in> S"
    and "string_bytes ` {ow_p v, ow_s v, to_tif_string (ow_t v), ow_p w, ow_s w, to_tif_string (ow_t w)} \<subseteq> S"
  shows "signed_spot_order v = signed_spot_order w"
proof -
  have "spot_order_pieces keccak v = spot_order_pieces keccak w"
    using assms item_lengths(2) [OF digest] by (intro hash_pieces_inject [OF inj]) (auto simp: order_hash_eip712_spot_def)
  then show ?thesis
    using assms
    by (cases v; cases w) (simp add: spot_order_pieces_def signed_spot_order_def signed_order_def encodings_inject
        encode_string_inject [OF inj])
qed

lemma cancel_hash_binds:
  assumes digest: "\<And>x. length (keccak x) = 32" and inj: "inj_on keccak S"
    and "cancel_hash_eip712 keccak v = cancel_hash_eip712 keccak w"
    "cw_a v < 256" "cw_a w < 256" "cw_o v < 2 ^ 64" "cw_o w < 2 ^ 64"
    and "concat (cancel_pieces keccak v) \<in> S" "concat (cancel_pieces keccak w) \<in> S"
  shows "v = w"
proof -
  have "cancel_pieces keccak v = cancel_pieces keccak w"
    using assms item_lengths(3) [OF digest] by (intro hash_pieces_inject [OF inj]) (auto simp: cancel_hash_eip712_def)
  then show ?thesis using assms(4-7) by (cases v; cases w) (simp add: cancel_pieces_def encodings_inject)
qed

lemma cloid_hash_binds:
  assumes digest: "\<And>x. length (keccak x) = 32" and inj: "inj_on keccak S"
    and "cloid_hash_eip712 keccak v = cloid_hash_eip712 keccak w" "cc_asset v < 256" "cc_asset w < 256"
    and "concat (cloid_pieces keccak v) \<in> S" "concat (cloid_pieces keccak w) \<in> S"
    and "string_bytes ` {cc_cloid v, cc_cloid w} \<subseteq> S"
  shows "v = w"
proof -
  have "cloid_pieces keccak v = cloid_pieces keccak w"
    using assms item_lengths(4) [OF digest] by (intro hash_pieces_inject [OF inj]) (auto simp: cloid_hash_eip712_def)
  then show ?thesis
    using assms(4-) by (cases v; cases w) (simp add: cloid_pieces_def encodings_inject encode_string_inject [OF inj])
qed


text \<open>The second piece names the action.\<close>

lemma struct_pieces_name:
  "\<not> is_evm_action act \<Longrightarrow> struct_pieces keccak act n ! 1 = encode_string keccak (action_name act)"
  by (cases act) (simp_all add: struct_pieces_def action_name_def is_evm_action_def)

lemma encode_array_binds:
  assumes "\<And>x. length (keccak x) = 32" "inj_on keccak S" "encode_array keccak hs = encode_array keccak ks"
    "concat hs \<in> S" "concat ks \<in> S" "\<forall>h \<in> set hs. length h = 32" "\<forall>k \<in> set ks. length k = 32"
  shows "hs = ks"
  using assms by (intro hash_pieces_inject [of keccak S]) (simp_all add: encode_array_def)

lemma item_hash_lengths:
  assumes "\<And>x. length (keccak x) = 32"
  shows "length (order_hash_eip712 keccak w) = 32" "length (order_hash_eip712_spot keccak w) = 32"
    "length (cancel_hash_eip712 keccak c) = 32" "length (cloid_hash_eip712 keccak d) = 32"
  by (simp_all add: order_hash_eip712_def order_hash_eip712_spot_def cancel_hash_eip712_def cloid_hash_eip712_def
      digest_lengths [OF assms])

lemma struct_hash_binds:
  assumes digest: "\<And>x. length (keccak x) = 32" and inj: "inj_on keccak S"
    and S: "set (hashed_inputs keccak a n) \<subseteq> S" "set (hashed_inputs keccak b m) \<subseteq> S"
    and typed: "typed_action a" "typed_action b" "n < 2 ^ 64" "m < 2 ^ 64"
    and no_evm: "\<not> is_evm_action a" "\<not> is_evm_action b"
    and eq: "compute_struct_hash keccak a n = compute_struct_hash keccak b m"
  shows "signed_part a = signed_part b \<and> n = m"
proof -
  have pieces: "struct_pieces keccak a n = struct_pieces keccak b m"
    using eq S item_lengths(5) [OF digest] no_evm
    by (intro hash_pieces_inject [OF inj]) (auto simp: compute_struct_hash_def hashed_inputs_def)
  have str: "string_bytes s \<in> S" if "s \<in> set (action_strings a) \<union> set (action_strings b)" for s
    using that S by (auto simp: hashed_inputs_def)
  have items: "concat ps \<in> S" if "ps \<in> set (item_pieces keccak a) \<union> set (item_pieces keccak b)" for ps
    using that S by (auto simp: hashed_inputs_def)
  have "encode_string keccak (action_name a) = encode_string keccak (action_name b)"
    using pieces struct_pieces_name no_evm by metis
  then have name: "action_name a = action_name b"
    using str by (subst (asm) encode_string_inject [OF inj]) (auto simp: action_strings_def)
  note binds = encodings_inject encode_address_inject encode_string_inject [OF inj] grouping_str_inject
  note array = encode_array_binds [OF digest inj]
  show ?thesis
  proof (cases a)
    case (TxOrder ws g)
    then obtain vs h where b: "b = TxOrder vs h" using name by (cases b) (auto simp: action_name_def)
    have "map (order_hash_eip712 keccak) ws = map (order_hash_eip712 keccak) vs"
      using pieces TxOrder b items by (intro array) (auto simp: struct_pieces_def item_pieces_def item_hash_lengths [OF digest])
    moreover have "signed_order x = signed_order y" if "x \<in> set ws" "y \<in> set vs" "order_hash_eip712 keccak x = order_hash_eip712 keccak y" for x y
      using that TxOrder b items str typed
      by (intro order_hash_binds [OF digest inj]) (auto simp: item_pieces_def action_strings_def typed_action_def)
    ultimately have "map signed_order ws = map signed_order vs" by (rule map_eq_map_imp)
    then show ?thesis using pieces TxOrder b str typed by (simp add: struct_pieces_def signed_part_def binds action_strings_def)
  next
    case (TxSpotOrder ws g)
    then obtain vs h where b: "b = TxSpotOrder vs h" using name by (cases b) (auto simp: action_name_def)
    have "map (order_hash_eip712_spot keccak) ws = map (order_hash_eip712_spot keccak) vs"
      using pieces TxSpotOrder b items
      by (intro array) (auto simp: struct_pieces_def item_pieces_def item_hash_lengths [OF digest])
    moreover have "signed_spot_order x = signed_spot_order y" if "x \<in> set ws" "y \<in> set vs" "order_hash_eip712_spot keccak x = order_hash_eip712_spot keccak y" for x y
      using that TxSpotOrder b items str typed
      by (intro spot_order_hash_binds [OF digest inj]) (auto simp: item_pieces_def action_strings_def typed_action_def)
    ultimately have "map signed_spot_order ws = map signed_spot_order vs" by (rule map_eq_map_imp)
    then show ?thesis
      using pieces TxSpotOrder b str typed by (simp add: struct_pieces_def signed_part_def binds action_strings_def)
  next
    case (TxCancel ws)
    then obtain vs where b: "b = TxCancel vs" using name by (cases b) (auto simp: action_name_def)
    have "map (cancel_hash_eip712 keccak) ws = map (cancel_hash_eip712 keccak) vs"
      using pieces TxCancel b items by (intro array) (auto simp: struct_pieces_def item_pieces_def item_hash_lengths [OF digest])
    moreover have "id x = id y" if "x \<in> set ws" "y \<in> set vs" "cancel_hash_eip712 keccak x = cancel_hash_eip712 keccak y" for x y
      using that TxCancel b items typed unfolding id_apply
      by (intro cancel_hash_binds [OF digest inj]) (auto simp: item_pieces_def action_strings_def typed_action_def)
    ultimately have "map id ws = map id vs" by (rule map_eq_map_imp)
    then show ?thesis using pieces TxCancel b typed by (simp add: struct_pieces_def signed_part_def binds)
  next
    case (TxCancelByCloid ws)
    then obtain vs where b: "b = TxCancelByCloid vs" using name by (cases b) (auto simp: action_name_def)
    have "map (cloid_hash_eip712 keccak) ws = map (cloid_hash_eip712 keccak) vs"
      using pieces TxCancelByCloid b items
      by (intro array) (auto simp: struct_pieces_def item_pieces_def item_hash_lengths [OF digest])
    moreover have "id x = id y" if "x \<in> set ws" "y \<in> set vs" "cloid_hash_eip712 keccak x = cloid_hash_eip712 keccak y" for x y
      using that TxCancelByCloid b items str typed unfolding id_apply
      by (intro cloid_hash_binds [OF digest inj]) (auto simp: item_pieces_def action_strings_def typed_action_def)
    ultimately have "map id ws = map id vs" by (rule map_eq_map_imp)
    then show ?thesis using pieces TxCancelByCloid b typed by (simp add: struct_pieces_def signed_part_def binds)
  next
    case (TxEvmAction x y)
    then show ?thesis using no_evm by (simp add: is_evm_action_def)
  next
    case TxCancelAll
    then have b: "b = TxCancelAll" using name by (cases b) (auto simp: action_name_def)
    then show ?thesis
      using pieces TxCancelAll str typed by (simp add: struct_pieces_def signed_part_def typed_action_def action_strings_def binds)
  next
    case (TxUpdateLeverage x y z)
    then obtain x' y' z' where b: "b = TxUpdateLeverage x' y' z'" using name by (cases b) (auto simp: action_name_def)
    then show ?thesis
      using pieces TxUpdateLeverage str typed by (simp add: struct_pieces_def signed_part_def typed_action_def action_strings_def binds)
  next
    case (TxUsdTransfer x y)
    then obtain x' y' where b: "b = TxUsdTransfer x' y'" using name by (cases b) (auto simp: action_name_def)
    then show ?thesis
      using pieces TxUsdTransfer str typed by (simp add: struct_pieces_def signed_part_def typed_action_def action_strings_def binds)
  next
    case (TxWithdraw x y)
    then obtain x' y' where b: "b = TxWithdraw x' y'" using name by (cases b) (auto simp: action_name_def)
    then show ?thesis
      using pieces TxWithdraw str typed by (simp add: struct_pieces_def signed_part_def typed_action_def action_strings_def binds)
  next
    case (TxSpotCancelAll x)
    then obtain x' where b: "b = TxSpotCancelAll x'" using name by (cases b) (auto simp: action_name_def)
    then show ?thesis
      using pieces TxSpotCancelAll str typed by (simp add: struct_pieces_def signed_part_def typed_action_def action_strings_def binds)
  next
    case (TxViewTransfer x y z)
    then obtain x' y' z' where b: "b = TxViewTransfer x' y' z'" using name by (cases b) (auto simp: action_name_def)
    then show ?thesis
      using pieces TxViewTransfer str typed by (simp add: struct_pieces_def signed_part_def typed_action_def action_strings_def binds)
  next
    case (TxSetMarginMode x)
    then obtain x' where b: "b = TxSetMarginMode x'" using name by (cases b) (auto simp: action_name_def)
    have "(x = Cross) = (x' = Cross) \<and> n = m" using pieces TxSetMarginMode b typed by (simp add: struct_pieces_def binds)
    then show ?thesis using TxSetMarginMode b by (cases x; cases x') (simp_all add: signed_part_def)
  next
    case (TxCancelTrigger x y)
    then obtain x' y' where b: "b = TxCancelTrigger x' y'" using name by (cases b) (auto simp: action_name_def)
    then show ?thesis
      using pieces TxCancelTrigger str typed by (simp add: struct_pieces_def signed_part_def typed_action_def action_strings_def binds)
  qed
qed


text \<open>All strings hashed on the way to the digest that a user signs.\<close>

definition signing_inputs :: "hash_fn \<Rightarrow> transaction \<Rightarrow> byte list list" where
  "signing_inputs keccak tx =
     concat [[0x19, 0x01], compute_domain_separator keccak DEFAULT_CHAIN_ID,
       compute_struct_hash keccak (tx_action tx) (tx_nonce tx)]
     # hashed_inputs keccak (tx_action tx) (tx_nonce tx)"

text \<open>
  (C26) A signature binds the action: when Keccak digests have 32 bytes and no two of
  the strings hashed for two transactions collide, transactions with the same signed
  digest have the same nonce and the same signed part of the action.  In particular
  a signature for one kind of action is never one for another kind.  Actions that the
  EVM forwards are excluded: their encoding carries no type.
\<close>

theorem signed_digest_binds_action:
  assumes digest: "\<And>x. length (keccak x) = 32"
    and inj: "inj_on keccak (set (signing_inputs keccak tx) \<union> set (signing_inputs keccak ty))"
    and "typed_action (tx_action tx)" "typed_action (tx_action ty)" "tx_nonce tx < 2 ^ 64" "tx_nonce ty < 2 ^ 64"
    and "\<not> is_evm_action (tx_action tx)" "\<not> is_evm_action (tx_action ty)"
    and eq: "compute_eip712_hash keccak tx = compute_eip712_hash keccak ty"
  shows "signed_part (tx_action tx) = signed_part (tx_action ty) \<and> tx_nonce tx = tx_nonce ty"
proof -
  have "concat [[0x19, 0x01], compute_domain_separator keccak DEFAULT_CHAIN_ID,
        compute_struct_hash keccak (tx_action tx) (tx_nonce tx)] =
      concat [[0x19, 0x01], compute_domain_separator keccak DEFAULT_CHAIN_ID,
        compute_struct_hash keccak (tx_action ty) (tx_nonce ty)]"
    (is "?x = ?y")
  proof (rule inj_onD [OF inj])
    show "keccak ?x = keccak ?y" using eq by (simp add: compute_eip712_hash_def hash_pieces_def)
  qed (simp_all add: signing_inputs_def)
  then have "compute_struct_hash keccak (tx_action tx) (tx_nonce tx) = compute_struct_hash keccak (tx_action ty) (tx_nonce ty)"
    by simp
  then show ?thesis
    by (intro struct_hash_binds [OF digest inj _ _ assms(3-8)]) (auto simp: signing_inputs_def)
qed

text \<open>A toy digest, injective on strings of different lengths.\<close>

definition length_hash :: hash_fn where
  "length_hash bs = replicate 31 0 @ [word_of_nat (length bs)]"

definition sample_tx :: "transaction_type \<Rightarrow> transaction" where
  "sample_tx act = \<lparr> tx_action = act, tx_nonce = 5, tx_signature = signature_zero, tx_hash = None \<rparr>"

theorem signed_digest_binds_action_witness:
  "compute_eip712_hash length_hash (sample_tx (TxSpotCancelAll (Some 1))) =
     compute_eip712_hash length_hash (sample_tx (TxSpotCancelAll (Some 2))) \<and>
   signed_part (TxSpotCancelAll (Some 1)) = signed_part (TxSpotCancelAll (Some 2))"
proof -
  let ?t = "\<lambda>m. sample_tx (TxSpotCancelAll (Some m))"
  have len: "length (length_hash x) = 32" for x by (simp add: length_hash_def)
  have inputs: "map length (signing_inputs length_hash (?t m)) = [66, 13, 96]" for m
    by (simp add: signing_inputs_def hashed_inputs_def action_strings_def item_pieces_def struct_pieces_def sample_tx_def
        action_name_def compute_domain_separator_def compute_struct_hash_def hash_pieces_def digest_lengths [OF len] len
        string_bytes_def)
  have "signing_inputs length_hash (?t 1) = signing_inputs length_hash (?t 2)"
    by (simp add: signing_inputs_def hashed_inputs_def action_strings_def item_pieces_def struct_pieces_def sample_tx_def
        action_name_def compute_struct_hash_def)
  moreover have "inj_on length_hash (set (signing_inputs length_hash (?t 1)))"
    using inputs [of 1] unfolding inj_on_def length_hash_def same_append_eq by (auto simp: word_of_nat_byte Cons_eq_map_conv)
  ultimately have inj: "inj_on length_hash (set (signing_inputs length_hash (?t 1)) \<union> set (signing_inputs length_hash (?t 2)))"
    by simp
  have eq: "compute_eip712_hash length_hash (?t 1) = compute_eip712_hash length_hash (?t 2)"
    by (simp add: compute_eip712_hash_def compute_struct_hash_def struct_pieces_def sample_tx_def)
  show ?thesis
    using signed_digest_binds_action [OF len inj _ _ _ _ _ _ eq] eq
    by (simp add: typed_action_def is_evm_action_def sample_tx_def)
qed

definition stop_order :: "bool \<Rightarrow> string \<Rightarrow> string \<Rightarrow> string option \<Rightarrow> order_wire" where
  "stop_order is_market px tpsl c = \<lparr> ow_a = 0, ow_b = False, ow_p = ''100'', ow_s = ''1'', ow_r = True,
     ow_t = TriggerWire \<lparr> tg_is_market = is_market, tg_trigger_px = px, tg_tpsl = tpsl \<rparr>, ow_c = c \<rparr>"

lemma sample_decimals:
  "from_str_exact ''100'' PRICE_DECIMALS = Some (Decimal 10000000000 8)"
  "from_str_exact ''1'' PRICE_DECIMALS = Some (Decimal 100000000 8)"
  "from_str_exact ''90'' PRICE_DECIMALS = Some (Decimal 9000000000 8)"
  by code_simp+

text \<open>
  The signature of an order does not cover its trigger: two stop orders that
  differ in the trigger price, in the direction, in being a market order and in the
  client order id are signed by the same digest, for every hash function, and both
  convert to order requests, with different triggers.
\<close>

theorem signature_ignores_trigger:
  "compute_struct_hash keccak (TxOrder [stop_order False ''90'' ''sl'' None] g) nonce =
     compute_struct_hash keccak (TxOrder [stop_order True ''100'' ''tp'' (Some ''x'')] g) nonce \<and>
   (\<exists>q. to_order_request (stop_order False ''90'' ''sl'' None) = Inr q \<and>
      q_trig_price q = Some (Decimal 9000000000 8) \<and> q_trig_dir q = Some Below \<and> q_type q = Limit Gtc) \<and>
   (\<exists>q. to_order_request (stop_order True ''100'' ''tp'' (Some ''x'')) = Inr q \<and>
      q_trig_price q = Some (Decimal 10000000000 8) \<and> q_trig_dir q = Some Above \<and> q_type q = Market)"
  by (simp add: stop_order_def compute_struct_hash_def struct_pieces_def order_hash_eip712_def order_pieces_def
      to_tif_string_def to_order_request_def trigger_fields_def to_order_type_def sample_decimals)

end
