(* ===== verification/Gateway_Signing.thy ===== *)
theory Gateway_Signing
  imports Transaction
begin

text \<open>
  The gateway's side of signed requests, from \<open>crates/gateway/src/api.rs\<close> (wire types),
  \<open>crates/gateway/src/eip712.rs\<close> (the digest of a request) and
  \<open>crates/gateway/src/handlers.rs\<close> (signature verification and the conversion of a
  request into a chain transaction), with the agreement of the two digests.  The
  decoder of the \<open>hex\<close> crate is a parameter.
\<close>

section \<open>Requests\<close>

record trigger_wire =
  tw_is_market :: bool
  tw_trigger_px :: string
  tw_tpsl :: string

datatype api_order_type = ApiLimit string | ApiTrigger trigger_wire

record api_order_wire =
  ao_a :: market_id
  ao_b :: bool
  ao_p :: string
  ao_s :: string
  ao_r :: bool
  ao_t :: api_order_type
  ao_c :: "string option"

record api_cancel_wire =
  ac_a :: market_id
  ac_o :: order_id

record api_cloid_wire =
  al_asset :: market_id
  al_cloid :: string

datatype exchange_action =
    ExOrder "api_order_wire list" string
  | ExCancel "api_cancel_wire list"
  | ExCancelByCloid "api_cloid_wire list"
  | ExCancelAll
  | ExUpdateLeverage market_id bool nat
  | ExUsdTransfer string string
  | ExWithdraw string string
  | ExSpotOrder "api_order_wire list" string
  | ExSpotCancel "api_cancel_wire list"
  | ExSpotCancelAll "nat option"
  | ExViewTransfer nat string bool

record signature_wire =
  sw_r :: string
  sw_s :: string
  sw_v :: nat

record exchange_request =
  xr_action :: exchange_action
  xr_nonce :: nat
  xr_signature :: signature_wire

datatype handler_error =
    HInvalidSignature
  | HInvalidAddress string
  | HMarketNotFound string
  | HInvalidParameter string
  | HOrderNotFound nat
  | HInternal string

section \<open>The digest of a request\<close>

definition order_type_to_tif :: "api_order_type \<Rightarrow> string" where
  "order_type_to_tif t = (case t of ApiLimit tif \<Rightarrow> to_lowercase tif | ApiTrigger _ \<Rightarrow> ''trigger'')"

definition hash_order :: "hash_fn \<Rightarrow> api_order_wire \<Rightarrow> digest" where
  "hash_order keccak w = hash_pieces keccak
     [type_hash keccak ''Order(uint8 a,bool b,string p,string s,bool r,string t)'',
      encode_uint8 (ao_a w), encode_bool (ao_b w), encode_string keccak (ao_p w), encode_string keccak (ao_s w),
      encode_bool (ao_r w), encode_string keccak (order_type_to_tif (ao_t w))]"

definition hash_cancel :: "hash_fn \<Rightarrow> api_cancel_wire \<Rightarrow> digest" where
  "hash_cancel keccak w = hash_pieces keccak
     [type_hash keccak ''Cancel(uint8 a,uint64 o)'', encode_uint8 (ac_a w), encode_uint64 (ac_o w)]"

definition hash_cancel_by_cloid :: "hash_fn \<Rightarrow> api_cloid_wire \<Rightarrow> digest" where
  "hash_cancel_by_cloid keccak w = hash_pieces keccak
     [type_hash keccak ''CancelByCloid(uint8 asset,string cloid)'', encode_uint8 (al_asset w),
      encode_string keccak (al_cloid w)]"

definition hash_spot_order :: "hash_fn \<Rightarrow> api_order_wire \<Rightarrow> digest" where
  "hash_spot_order keccak w = hash_pieces keccak
     [type_hash keccak ''SpotOrder(uint8 a,bool b,string p,string s,string t)'',
      encode_uint8 (ao_a w), encode_bool (ao_b w), encode_string keccak (ao_p w), encode_string keccak (ao_s w),
      encode_string keccak (order_type_to_tif (ao_t w))]"

definition hash_spot_cancel :: "hash_fn \<Rightarrow> api_cancel_wire \<Rightarrow> digest" where
  "hash_spot_cancel keccak w = hash_pieces keccak
     [type_hash keccak ''SpotCancel(uint8 a,uint64 o)'', encode_uint8 (ac_a w), encode_uint64 (ac_o w)]"

definition compute_action_struct_hash ::
  "hash_fn \<Rightarrow> (string \<Rightarrow> byte list option) \<Rightarrow> exchange_action \<Rightarrow> nat \<Rightarrow> digest" where
  "compute_action_struct_hash keccak hex act nonce = hash_pieces keccak (case act of
       ExOrder orders grouping \<Rightarrow>
         [type_hash keccak ''Action(string type,Order[] orders,string grouping,uint64 nonce)Order(uint8 a,bool b,string p,string s,bool r,string t)'',
          encode_string keccak ''order'', encode_array keccak (map (hash_order keccak) orders),
          encode_string keccak grouping, encode_uint64 nonce]
     | ExCancel cancels \<Rightarrow>
         [type_hash keccak ''Action(string type,Cancel[] cancels,uint64 nonce)Cancel(uint8 a,uint64 o)'',
          encode_string keccak ''cancel'', encode_array keccak (map (hash_cancel keccak) cancels), encode_uint64 nonce]
     | ExCancelByCloid cancels \<Rightarrow>
         [type_hash keccak ''Action(string type,CancelByCloid[] cancels,uint64 nonce)CancelByCloid(uint8 asset,string cloid)'',
          encode_string keccak ''cancelByCloid'', encode_array keccak (map (hash_cancel_by_cloid keccak) cancels),
          encode_uint64 nonce]
     | ExCancelAll \<Rightarrow>
         [type_hash keccak ''Action(string type,uint64 nonce)'', encode_string keccak ''cancelAll'', encode_uint64 nonce]
     | ExUpdateLeverage asset is_cross leverage \<Rightarrow>
         [type_hash keccak ''Action(string type,uint8 asset,bool isCross,uint8 leverage,uint64 nonce)'',
          encode_string keccak ''updateLeverage'', encode_uint8 asset, encode_bool is_cross, encode_uint8 leverage,
          encode_uint64 nonce]
     | ExUsdTransfer destination amount \<Rightarrow>
         [type_hash keccak ''Action(string type,address destination,string amount,uint64 nonce)'',
          encode_string keccak ''usdTransfer'', encode_address_str hex destination, encode_string keccak amount,
          encode_uint64 nonce]
     | ExWithdraw destination amount \<Rightarrow>
         [type_hash keccak ''Action(string type,address destination,string amount,uint64 nonce)'',
          encode_string keccak ''withdraw'', encode_address_str hex destination, encode_string keccak amount,
          encode_uint64 nonce]
     | ExSpotOrder orders grouping \<Rightarrow>
         [type_hash keccak ''Action(string type,SpotOrder[] orders,string grouping,uint64 nonce)SpotOrder(uint8 a,bool b,string p,string s,string t)'',
          encode_string keccak ''spotOrder'', encode_array keccak (map (hash_spot_order keccak) orders),
          encode_string keccak grouping, encode_uint64 nonce]
     | ExSpotCancel cancels \<Rightarrow>
         [type_hash keccak ''Action(string type,SpotCancel[] cancels,uint64 nonce)SpotCancel(uint8 a,uint64 o)'',
          encode_string keccak ''spotCancel'', encode_array keccak (map (hash_spot_cancel keccak) cancels),
          encode_uint64 nonce]
     | ExSpotCancelAll market \<Rightarrow>
         [type_hash keccak ''Action(string type,uint64 nonce)'', encode_string keccak ''spotCancelAll'',
          encode_uint64 nonce]
     | ExViewTransfer token amount to_evm \<Rightarrow>
         [type_hash keccak ''Action(string type,uint8 token,string amount,bool toEvm,uint64 nonce)'',
          encode_string keccak ''viewTransfer'', encode_uint8 token, encode_string keccak amount, encode_bool to_evm,
          encode_uint64 nonce])"

definition request_digest :: "hash_fn \<Rightarrow> (string \<Rightarrow> byte list option) \<Rightarrow> exchange_request \<Rightarrow> nat \<Rightarrow> digest" where
  "request_digest keccak hex q chain_id = hash_pieces keccak
     [[0x19, 0x01], compute_domain_separator keccak chain_id,
      compute_action_struct_hash keccak hex (xr_action q) (xr_nonce q)]"

section \<open>Signature verification\<close>

definition verify_signature ::
  "ecdsa \<Rightarrow> hash_fn \<Rightarrow> (string \<Rightarrow> byte list option) \<Rightarrow> nat \<Rightarrow> exchange_request \<Rightarrow> handler_error + address" where
  "verify_signature ec keccak hex chain_id q =
    (let g = xr_signature q; r_hex = strip_0x (sw_r g); s_hex = strip_0x (sw_s g) in
     if length r_hex \<noteq> 64 \<or> length s_hex \<noteq> 64 then Inl HInvalidSignature
     else case (hex r_hex, hex s_hex) of
       (Some r, Some s) \<Rightarrow>
         (case sig_recover ec keccak (request_digest keccak hex q chain_id) \<lparr> sig_r = r, sig_s = s, sig_v = sw_v g \<rparr> of
            Inr a \<Rightarrow> Inr a
          | Inl _ \<Rightarrow> Inl HInvalidSignature)
     | _ \<Rightarrow> Inl HInvalidSignature)"

section \<open>From a request to a transaction\<close>

text \<open>Copying into the 20 bytes of an address panics on any other length.\<close>

definition parse_address :: "(string \<Rightarrow> byte list option) \<Rightarrow> string \<Rightarrow> (handler_error + address) option" where
  "parse_address hex s = (let h = strip_0x s in
     if length h \<noteq> 40 then Some (Inl (HInvalidAddress s))
     else case hex h of
       None \<Rightarrow> Some (Inl (HInvalidAddress s))
     | Some bs \<Rightarrow> if length bs = 20 then Some (Inr (address_of_bytes bs)) else None)"

definition convert_order_type_wire :: "api_order_type \<Rightarrow> order_type_wire" where
  "convert_order_type_wire t = (case t of
       ApiLimit tif \<Rightarrow> LimitWire tif
     | ApiTrigger w \<Rightarrow> TriggerWire \<lparr> tg_is_market = tw_is_market w, tg_trigger_px = tw_trigger_px w, tg_tpsl = tw_tpsl w \<rparr>)"

definition convert_order_wire :: "api_order_wire \<Rightarrow> order_wire" where
  "convert_order_wire w = \<lparr> ow_a = ao_a w, ow_b = ao_b w, ow_p = ao_p w, ow_s = ao_s w, ow_r = ao_r w,
     ow_t = convert_order_type_wire (ao_t w), ow_c = ao_c w \<rparr>"

definition convert_cancel_wire :: "api_cancel_wire \<Rightarrow> cancel_wire" where
  "convert_cancel_wire w = \<lparr> cw_a = ac_a w, cw_o = ac_o w \<rparr>"

definition convert_cloid_wire :: "api_cloid_wire \<Rightarrow> cancel_by_cloid_wire" where
  "convert_cloid_wire w = \<lparr> cc_asset = al_asset w, cc_cloid = al_cloid w \<rparr>"

definition convert_grouping :: "string \<Rightarrow> order_grouping" where
  "convert_grouping s = (let l = to_lowercase s in
     if l = ''normalTpsl'' \<or> l = ''normaltpsl'' then NormalTpsl
     else if l = ''positionTpsl'' \<or> l = ''positiontpsl'' then PositionTpsl else Na)"

definition perp_tx_type ::
  "(string \<Rightarrow> byte list option) \<Rightarrow> exchange_action \<Rightarrow> (handler_error + transaction_type) option" where
  "perp_tx_type hex act = (case act of
       ExOrder orders grouping \<Rightarrow> Some (Inr (TxOrder (map convert_order_wire orders) (convert_grouping grouping)))
     | ExCancel cancels \<Rightarrow> Some (Inr (TxCancel (map convert_cancel_wire cancels)))
     | ExCancelByCloid cancels \<Rightarrow> Some (Inr (TxCancelByCloid (map convert_cloid_wire cancels)))
     | ExCancelAll \<Rightarrow> Some (Inr TxCancelAll)
     | ExUsdTransfer destination amount \<Rightarrow>
         map_option (\<lambda>r. case r of Inl e \<Rightarrow> Inl e | Inr a \<Rightarrow> Inr (TxUsdTransfer a amount)) (parse_address hex destination)
     | ExWithdraw destination amount \<Rightarrow>
         map_option (\<lambda>r. case r of Inl e \<Rightarrow> Inl e | Inr a \<Rightarrow> Inr (TxWithdraw a amount)) (parse_address hex destination)
     | ExUpdateLeverage asset is_cross leverage \<Rightarrow> Some (Inr (TxUpdateLeverage asset is_cross leverage))
     | _ \<Rightarrow> Some (Inl (HInternal ''Unsupported action type'')))"

definition spot_tx_type :: "exchange_action \<Rightarrow> handler_error + transaction_type" where
  "spot_tx_type act = (case act of
       ExSpotOrder orders _ \<Rightarrow> Inr (TxSpotOrder (map convert_order_wire orders) Na)
     | ExSpotCancel cancels \<Rightarrow> Inr (TxCancel (map convert_cancel_wire cancels))
     | ExSpotCancelAll market \<Rightarrow> Inr (TxSpotCancelAll market)
     | ExViewTransfer token amount to_evm \<Rightarrow> Inr (TxViewTransfer token amount to_evm)
     | _ \<Rightarrow> Inl (HInternal ''Unsupported spot action type''))"

definition first_32 :: "byte list \<Rightarrow> byte list" where
  "first_32 bs = (if length bs \<ge> 32 then take 32 bs else replicate 32 0)"

definition request_transaction ::
  "(string \<Rightarrow> byte list option) \<Rightarrow> transaction_type \<Rightarrow> exchange_request \<Rightarrow> handler_error + transaction" where
  "request_transaction hex ty q = (case (hex (strip_0x (sw_r (xr_signature q))), hex (strip_0x (sw_s (xr_signature q)))) of
       (Some r, Some s) \<Rightarrow> Inr \<lparr> tx_action = ty, tx_nonce = xr_nonce q,
          tx_signature = \<lparr> sig_r = first_32 r, sig_s = first_32 s, sig_v = sw_v (xr_signature q) \<rparr>, tx_hash = None \<rparr>
     | _ \<Rightarrow> Inl HInvalidSignature)"

text \<open>The transaction that a request becomes on its way to consensus.\<close>

definition is_spot_action :: "exchange_action \<Rightarrow> bool" where
  "is_spot_action act = (case act of
       ExSpotOrder _ _ \<Rightarrow> True | ExSpotCancel _ \<Rightarrow> True | ExSpotCancelAll _ \<Rightarrow> True | ExViewTransfer _ _ _ \<Rightarrow> True
     | _ \<Rightarrow> False)"

definition broadcast_transaction ::
  "(string \<Rightarrow> byte list option) \<Rightarrow> exchange_request \<Rightarrow> (handler_error + transaction) option" where
  "broadcast_transaction hex q = do {
     ty \<leftarrow> (if is_spot_action (xr_action q) then Some (spot_tx_type (xr_action q)) else perp_tx_type hex (xr_action q));
     Some (case ty of Inl e \<Rightarrow> Inl e | Inr t \<Rightarrow> request_transaction hex t q)
   }"


section \<open>The gateway and the chain sign the same digest\<close>

lemma be_bytes_snoc: "be_bytes (Suc w) n = be_bytes w (n div 256) @ [word_of_nat n]"
proof -
  have "rev [0..<Suc w] = map Suc (rev [0..<w]) @ [0]"
    by (metis map_Suc_upt rev.simps(2) rev_map upt_conv_Cons zero_less_Suc)
  then show ?thesis by (simp add: be_bytes_def div_mult2_eq)
qed

lemma address_of_bytes_snoc: "address_of_bytes (bs @ [b]) = 256 * address_of_bytes bs + unat b"
  by (simp add: address_of_bytes_def)

lemma be_bytes_address: "be_bytes (length bs) (address_of_bytes bs) = bs"
proof (induction bs rule: rev_induct)
  case (snoc b bs)
  have "unat b < 256" using unsigned_less [of b] by simp
  then have "(word_of_nat (256 * address_of_bytes bs + unat b) :: byte) = word_of_nat (unat b)"
    "(256 * address_of_bytes bs + unat b) div 256 = address_of_bytes bs"
    by (simp_all only: word_of_nat_byte) simp_all
  then show ?case using snoc by (simp add: be_bytes_snoc address_of_bytes_snoc)
qed (simp add: be_bytes_def)

lemma parse_address_encodes:
  assumes "parse_address hex s = Some (Inr a)"
  shows "encode_address_str hex s = encode_address a"
  using assms be_bytes_address
  by (auto simp: parse_address_def Let_def encode_address_str_def encode_address_def address_bytes_def
      encode_address_bytes_def split: if_splits option.splits) (metis)

lemma order_type_to_tif_convert: "to_tif_string (convert_order_type_wire t) = order_type_to_tif t"
  by (simp add: to_tif_string_def convert_order_type_wire_def order_type_to_tif_def split: api_order_type.splits)

lemma hash_items_convert:
  "order_hash_eip712 keccak (convert_order_wire w) = hash_order keccak w"
  "order_hash_eip712_spot keccak (convert_order_wire w) = hash_spot_order keccak w"
  "cancel_hash_eip712 keccak (convert_cancel_wire c) = hash_cancel keccak c"
  "cloid_hash_eip712 keccak (convert_cloid_wire d) = hash_cancel_by_cloid keccak d"
  by (simp_all add: order_hash_eip712_def order_hash_eip712_spot_def cancel_hash_eip712_def cloid_hash_eip712_def
      pieces_defs hash_order_def hash_spot_order_def hash_cancel_def hash_cancel_by_cloid_def convert_order_wire_def
      convert_cancel_wire_def convert_cloid_wire_def order_type_to_tif_convert)

text \<open>Requests whose conversion keeps the signed content.\<close>

definition canonical_action :: "exchange_action \<Rightarrow> bool" where
  "canonical_action act = (case act of
       ExOrder _ g \<Rightarrow> g \<in> {''na'', ''normalTpsl'', ''positionTpsl''}
     | ExSpotOrder _ g \<Rightarrow> g = ''na''
     | ExSpotCancel _ \<Rightarrow> False
     | _ \<Rightarrow> True)"

lemma lower_groupings:
  "convert_grouping ''na'' = Na" "convert_grouping ''normalTpsl'' = NormalTpsl"
  "convert_grouping ''positionTpsl'' = PositionTpsl"
  by code_simp+

lemma canonical_grouping:
  "g \<in> {''na'', ''normalTpsl'', ''positionTpsl''} \<Longrightarrow> grouping_str (convert_grouping g) = g"
  by (auto simp: lower_groupings grouping_str_def)

lemma case_Inl_eq_Inr:
  "(case y of Inl x \<Rightarrow> Inl x | Inr t \<Rightarrow> f t) = Inr z \<longleftrightarrow> (\<exists>t. y = Inr t \<and> f t = Inr z)"
  by (cases y) auto

lemma struct_hash_converts:
  assumes "(if is_spot_action act then Some (spot_tx_type act) else perp_tx_type hex act) = Some (Inr ty)"
    and "canonical_action act"
  shows "compute_struct_hash keccak ty nonce = compute_action_struct_hash keccak hex act nonce"
proof -
  have "\<exists>r. ty = r \<and> (case act of
      ExUsdTransfer d m \<Rightarrow> \<exists>a. parse_address hex d = Some (Inr a) \<and> ty = TxUsdTransfer a m
    | ExWithdraw d m \<Rightarrow> \<exists>a. parse_address hex d = Some (Inr a) \<and> ty = TxWithdraw a m
    | _ \<Rightarrow> (if is_spot_action act then spot_tx_type act = Inr ty else perp_tx_type hex act = Some (Inr ty)))"
    using assms(1)
    by (cases act) (auto simp: is_spot_action_def perp_tx_type_def case_Inl_eq_Inr)
  then show ?thesis
    using assms(2) canonical_grouping parse_address_encodes [of hex]
    by (cases act)
       (auto simp: is_spot_action_def spot_tx_type_def perp_tx_type_def canonical_action_def compute_struct_hash_def
        struct_pieces_def compute_action_struct_hash_def hash_items_convert o_def grouping_str_def lower_groupings)
qed

lemma recover_address_agrees:
  assumes "sig_recover ec keccak msg g = Inr a" "sig_v g = 27 \<or> sig_v g = 28"
  shows "recover_address ec keccak msg g = Inr a"
  using assms
  by (auto simp: sig_recover_def recover_address_def Let_def recovery_id_def wrap_u8_def split: if_splits option.splits)

text \<open>
  (C27) The chain recovers the account that the gateway has authenticated: a request
  that the gateway accepts on the default chain id, with an Ethereum recovery value,
  a canonical grouping and no spot cancellation, becomes a transaction whose signer
  on the chain is the same account, with the nonce of the request.  The only fact
  used of the hex decoder is that two digits make a byte.
\<close>

theorem gateway_and_chain_agree:
  assumes hex_doc: "\<And>h bs. hex h = Some bs \<Longrightarrow> length h = 2 * length bs"
    and verified: "verify_signature ec keccak hex DEFAULT_CHAIN_ID q = Inr a"
    and sent: "broadcast_transaction hex q = Some (Inr tx)"
    and "canonical_action (xr_action q)" "sw_v (xr_signature q) = 27 \<or> sw_v (xr_signature q) = 28"
  shows "recover_signer ec keccak tx = Inr a \<and> tx_nonce tx = xr_nonce q"
proof -
  let ?r = "strip_0x (sw_r (xr_signature q))" and ?s = "strip_0x (sw_s (xr_signature q))"
  obtain r s where rs: "hex ?r = Some r" "hex ?s = Some s" "length ?r = 64" "length ?s = 64"
    and rec: "sig_recover ec keccak (request_digest keccak hex q DEFAULT_CHAIN_ID)
      \<lparr> sig_r = r, sig_s = s, sig_v = sw_v (xr_signature q) \<rparr> = Inr a"
    using verified by (auto simp: verify_signature_def Let_def split: if_splits option.splits sum.splits)
  have len: "length r = 32" "length s = 32" using hex_doc [OF rs(1)] hex_doc [OF rs(2)] rs by simp_all
  obtain ty where ty: "(if is_spot_action (xr_action q) then Some (spot_tx_type (xr_action q))
      else perp_tx_type hex (xr_action q)) = Some (Inr ty)" "request_transaction hex ty q = Inr tx"
    using sent by (auto simp: broadcast_transaction_def Option.bind_eq_Some_conv case_Inl_eq_Inr)
  have tx: "tx = \<lparr> tx_action = ty, tx_nonce = xr_nonce q,
      tx_signature = \<lparr> sig_r = r, sig_s = s, sig_v = sw_v (xr_signature q) \<rparr>, tx_hash = None \<rparr>"
    using ty(2) rs len by (simp add: request_transaction_def first_32_def)
  have "compute_eip712_hash keccak tx = request_digest keccak hex q DEFAULT_CHAIN_ID"
    using struct_hash_converts [OF ty(1) assms(4)] by (simp add: compute_eip712_hash_def request_digest_def tx)
  then show ?thesis
    using recover_address_agrees [OF rec] assms(5) by (simp add: recover_signer_def tx)
qed


definition sample_hex :: "string \<Rightarrow> byte list option" where
  "sample_hex h = (if even (length h) then Some (replicate (length h div 2) 0) else None)"

definition sample_ecdsa :: ecdsa where
  "sample_ecdsa = \<lparr> ec_from_slice = (\<lambda>_. True), ec_recover = (\<lambda>_ _ _. Some [4, 1]) \<rparr>"

definition sample_request :: exchange_request where
  "sample_request = \<lparr> xr_action = ExCancelAll, xr_nonce = 5,
     xr_signature = \<lparr> sw_r = replicate 64 CHR ''1'', sw_s = replicate 64 CHR ''2'', sw_v = 27 \<rparr> \<rparr>"

theorem gateway_and_chain_agree_witness:
  "\<exists>tx a. broadcast_transaction sample_hex sample_request = Some (Inr tx) \<and>
     verify_signature sample_ecdsa length_hash sample_hex DEFAULT_CHAIN_ID sample_request = Inr a \<and>
     recover_signer sample_ecdsa length_hash tx = Inr a"
proof -
  have strip: "strip_0x (replicate 64 c) = replicate 64 c" if "c \<noteq> CHR ''0''" for c
    using that by (simp add: strip_0x_def numeral_eq_Suc)
  have doc: "\<And>h bs. sample_hex h = Some bs \<Longrightarrow> length h = 2 * length bs"
    by (auto simp: sample_hex_def split: if_splits)
  obtain tx where tx: "broadcast_transaction sample_hex sample_request = Some (Inr tx)"
    by (simp add: broadcast_transaction_def sample_request_def is_spot_action_def perp_tx_type_def
        request_transaction_def strip sample_hex_def)
  obtain a where a: "verify_signature sample_ecdsa length_hash sample_hex DEFAULT_CHAIN_ID sample_request = Inr a"
    by (simp add: verify_signature_def sample_request_def strip sample_hex_def sig_recover_def sample_ecdsa_def
        recovery_id_def)
  show ?thesis
    using tx a gateway_and_chain_agree [OF doc a tx] by (simp add: canonical_action_def sample_request_def)
qed

text \<open>
  A spot cancellation does not survive the trip to consensus: it is rebuilt as a
  cancellation of another action type, so when no two of the four strings involved
  collide the chain hashes another digest than the user signed, for every list of
  cancellations.
\<close>

theorem spot_cancel_digest_differs:
  assumes digest: "\<And>x. length (keccak x) = 32"
    and inj: "inj_on keccak (set (string_bytes ''spotCancel'' # hashed_inputs keccak (TxCancel ws) n) \<union>
      {concat [type_hash keccak ''Action(string type,SpotCancel[] cancels,uint64 nonce)SpotCancel(uint8 a,uint64 o)'',
        encode_string keccak ''spotCancel'', encode_array keccak (map (hash_spot_cancel keccak) cs), encode_uint64 n]})"
    and sent: "spot_tx_type (ExSpotCancel cs) = Inr (TxCancel ws)"
  shows "compute_struct_hash keccak (TxCancel ws) n \<noteq> compute_action_struct_hash keccak hex (ExSpotCancel cs) n"
proof
  assume eq: "compute_struct_hash keccak (TxCancel ws) n = compute_action_struct_hash keccak hex (ExSpotCancel cs) n"
  have "struct_pieces keccak (TxCancel ws) n =
      [type_hash keccak ''Action(string type,SpotCancel[] cancels,uint64 nonce)SpotCancel(uint8 a,uint64 o)'',
        encode_string keccak ''spotCancel'', encode_array keccak (map (hash_spot_cancel keccak) cs), encode_uint64 n]"
    using eq item_lengths(5) [OF digest, of "TxCancel ws"]
    by (intro hash_pieces_inject [OF inj])
       (simp_all add: compute_struct_hash_def compute_action_struct_hash_def is_evm_action_def hashed_inputs_def
        digest_lengths [OF digest])
  then have "encode_string keccak ''cancel'' = encode_string keccak ''spotCancel''" by (simp add: struct_pieces_def)
  then show False
    by (subst (asm) encode_string_inject [OF inj]) (simp_all add: hashed_inputs_def action_strings_def action_name_def)
qed


text \<open>A toy digest that tells strings apart by their length and one byte.\<close>

definition probe_hash :: hash_fn where
  "probe_hash bs = replicate 30 0 @ [word_of_nat (length bs), if 62 < length bs then bs ! 62 else 0]"

theorem spot_cancel_digest_differs_witness:
  "spot_tx_type (ExSpotCancel []) = Inr (TxCancel []) \<and>
   compute_struct_hash probe_hash (TxCancel []) 5 \<noteq> compute_action_struct_hash probe_hash sample_hex (ExSpotCancel []) 5"
proof -
  have len: "length (probe_hash x) = 32" for x by (simp add: probe_hash_def)
  note dl = digest_lengths [OF len]
  let ?ps = "\<lambda>t s. concat [type_hash probe_hash t, encode_string probe_hash s, encode_array probe_hash [], encode_uint64 5]"
  have at: "?ps t s ! 62 = word_of_nat (length s)" for t s
    by (simp add: nth_append dl) (simp add: encode_string_def probe_hash_def nth_append string_bytes_def)
  have lp: "length (?ps t s) = 128" for t s by (simp add: dl)
  have probe: "probe_hash bs = probe_hash cs \<longleftrightarrow> word_of_nat (length bs) = (word_of_nat (length cs) :: byte) \<and>
      (if 62 < length bs then bs ! 62 else 0) = (if 62 < length cs then cs ! 62 else 0)" for bs cs
    unfolding probe_hash_def same_append_eq by simp
  define t1 where "t1 = ''Action(string type,Cancel[] cancels,uint64 nonce)Cancel(uint8 a,uint64 o)''"
  define t2 where "t2 = ''Action(string type,SpotCancel[] cancels,uint64 nonce)SpotCancel(uint8 a,uint64 o)''"
  have "inj_on probe_hash {string_bytes ''spotCancel'', string_bytes ''cancel'', ?ps t1 ''cancel'', [], ?ps t2 ''spotCancel''}"
    unfolding inj_on_def ball_simps insert_iff probe
    by (simp add: at lp word_of_nat_byte string_bytes_def del: concat.simps)
  then have inj: "inj_on probe_hash (set (string_bytes ''spotCancel'' # hashed_inputs probe_hash (TxCancel []) 5) \<union>
      {?ps t2 ''spotCancel''})"
    by (simp add: hashed_inputs_def action_strings_def action_name_def item_pieces_def struct_pieces_def t1_def insert_commute)
  have "spot_tx_type (ExSpotCancel []) = Inr (TxCancel [])" by (simp add: spot_tx_type_def)
  then show ?thesis
    using spot_cancel_digest_differs [of probe_hash "[]" 5 "[]" sample_hex, OF len] inj by (simp add: t2_def)
qed

end
