(* ===== verification/Gateway_Validation.thy ===== *)
theory Gateway_Validation
  imports Gateway_Signing
begin

text \<open>
  Validation of requests at the gateway, from \<open>crates/gateway/src/validation.rs\<close>, and
  the framing of binary messages, from \<open>crates/gateway/src/binary_protocol.rs\<close>: what
  the gateway lets through, and what the chain makes of it.
\<close>

section \<open>Configuration and errors\<close>

record validation_config =
  vc_max_orders :: nat
  vc_max_cancels :: nat
  vc_max_body_size :: nat
  vc_max_address_length :: nat
  vc_max_decimal_length :: nat
  vc_max_price :: decimal
  vc_max_size :: decimal
  vc_min_nonce :: nat
  vc_enabled :: bool

definition validation_default :: validation_config where
  "validation_default = \<lparr> vc_max_orders = 100, vc_max_cancels = 100, vc_max_body_size = 1024 * 1024,
     vc_max_address_length = 42, vc_max_decimal_length = 50, vc_max_price = Decimal 100000000000000000000 8,
     vc_max_size = Decimal 100000000000000000 8, vc_min_nonce = 1, vc_enabled = True \<rparr>"

definition validation_disabled :: validation_config where
  "validation_disabled = validation_default \<lparr> vc_enabled := False \<rparr>"

definition validation_strict :: validation_config where
  "validation_strict = validation_default \<lparr> vc_max_orders := 50, vc_max_cancels := 50, vc_max_body_size := 512 * 1024 \<rparr>"

datatype validation_error =
    VTooManyOrders nat nat
  | VTooManyCancels nat nat
  | VRequestTooLarge nat nat
  | VInvalidAddress string
  | VInvalidPrice string
  | VInvalidSize string
  | VInvalidMarketId string
  | VInvalidTimeInForce string
  | VInvalidNonce string
  | VInvalidOrderType string
  | VInvalidLeverage nat nat
  | VInvalidAmount string
  | VInvalidGrouping string
  | VPriceMustBePositive
  | VSizeMustBePositive
  | VPriceExceedsMax string
  | VSizeExceedsMax string
  | VEmptyOrdersList
  | VEmptyCancelsList

text \<open>The operator \<open>?\<close> on a check, and a loop of checks.\<close>

fun and_then :: "'e + unit \<Rightarrow> 'e + unit \<Rightarrow> 'e + unit" where
  "and_then (Inl e) k = Inl e"
| "and_then (Inr _) k = k"

fun check_each :: "('a \<Rightarrow> 'e + unit) \<Rightarrow> 'a list \<Rightarrow> 'e + unit" where
  "check_each f [] = Inr ()"
| "check_each f (x # xs) = and_then (f x) (check_each f xs)"

lemma and_then_ok [simp]: "and_then a b = Inr () \<longleftrightarrow> a = Inr () \<and> b = Inr ()"
  by (cases a) auto

lemma check_each_ok [simp]: "check_each f xs = Inr () \<longleftrightarrow> (\<forall>x \<in> set xs. f x = Inr ())"
  by (induction xs) auto

section \<open>The checks\<close>

definition too_long :: "string \<Rightarrow> string" where
  "too_long s = ''too long: '' @ show_nat (length s) @ '' chars''"

definition v_price :: "validation_config \<Rightarrow> string \<Rightarrow> validation_error + unit" where
  "v_price cfg s =
    (if length s > vc_max_decimal_length cfg then Inl (VInvalidPrice (too_long s))
     else case from_str_exact s PRICE_DECIMALS of
       None \<Rightarrow> Inl (VInvalidPrice s)
     | Some d \<Rightarrow> if d \<le> ZERO then Inl VPriceMustBePositive
                 else if d > vc_max_price cfg then Inl (VPriceExceedsMax s) else Inr ())"

definition v_size :: "validation_config \<Rightarrow> string \<Rightarrow> validation_error + unit" where
  "v_size cfg s =
    (if length s > vc_max_decimal_length cfg then Inl (VInvalidSize (too_long s))
     else case from_str_exact s PRICE_DECIMALS of
       None \<Rightarrow> Inl (VInvalidSize s)
     | Some d \<Rightarrow> if d \<le> ZERO then Inl VSizeMustBePositive
                 else if d > vc_max_size cfg then Inl (VSizeExceedsMax s) else Inr ())"

definition v_amount :: "validation_config \<Rightarrow> string \<Rightarrow> validation_error + unit" where
  "v_amount cfg s =
    (if length s > vc_max_decimal_length cfg then Inl (VInvalidAmount (too_long s))
     else case from_str_exact s PRICE_DECIMALS of
       None \<Rightarrow> Inl (VInvalidAmount s)
     | Some d \<Rightarrow> if d \<le> ZERO then Inl (VInvalidAmount ''amount must be positive'') else Inr ())"

definition is_hexdigit :: "char \<Rightarrow> bool" where
  "is_hexdigit c = (let n = of_char c :: nat in
     48 \<le> n \<and> n \<le> 57 \<or> 65 \<le> n \<and> n \<le> 70 \<or> 97 \<le> n \<and> n \<le> 102)"

definition is_alphanumeric :: "char \<Rightarrow> bool" where
  "is_alphanumeric c = (let n = of_char c :: nat in
     48 \<le> n \<and> n \<le> 57 \<or> 65 \<le> n \<and> n \<le> 90 \<or> 97 \<le> n \<and> n \<le> 122)"

definition v_address :: "validation_config \<Rightarrow> string \<Rightarrow> validation_error + unit" where
  "v_address cfg s =
    (if \<not> vc_enabled cfg then Inr ()
     else if length s > vc_max_address_length cfg then Inl (VInvalidAddress (too_long s))
     else if take 2 s \<noteq> ''0x'' \<and> take 2 s \<noteq> ''0X'' then Inl (VInvalidAddress ''must start with 0x'')
     else let hex_part = drop 2 s in
       if length hex_part \<noteq> 40 then Inl (VInvalidAddress (''expected 40 hex chars, got '' @ show_nat (length hex_part)))
       else if \<not> list_all is_hexdigit hex_part then Inl (VInvalidAddress ''contains invalid hex characters'')
       else Inr ())"

definition v_nonce :: "validation_config \<Rightarrow> nat \<Rightarrow> validation_error + unit" where
  "v_nonce cfg n =
    (if \<not> vc_enabled cfg then Inr ()
     else if n < vc_min_nonce cfg
     then Inl (VInvalidNonce (''nonce '' @ show_nat n @ '' is below minimum '' @ show_nat (vc_min_nonce cfg)))
     else Inr ())"

definition v_leverage :: "nat \<Rightarrow> validation_error + unit" where
  "v_leverage l = (if l < 1 \<or> l > 50 then Inl (VInvalidLeverage l 50) else Inr ())"

definition v_order_type :: "validation_config \<Rightarrow> api_order_type \<Rightarrow> validation_error + unit" where
  "v_order_type cfg t = (case t of
       ApiLimit tif \<Rightarrow>
         if tif \<in> set [''Gtc'', ''Ioc'', ''Alo'', ''Fok'', ''gtc'', ''ioc'', ''alo'', ''fok''] then Inr ()
         else Inl (VInvalidTimeInForce tif)
     | ApiTrigger w \<Rightarrow> and_then (v_price cfg (tw_trigger_px w))
         (if tw_tpsl w \<in> set [''tp'', ''sl'', ''TP'', ''SL''] then Inr ()
          else Inl (VInvalidOrderType (''invalid tpsl: '' @ tw_tpsl w))))"

definition v_cloid :: "string \<Rightarrow> validation_error + unit" where
  "v_cloid s =
    (if length s > 64
     then Inl (VInvalidOrderType (''client order ID too long: '' @ show_nat (length s) @ '' chars (max 64)''))
     else if \<not> list_all (\<lambda>c. is_alphanumeric c \<or> c = CHR ''-'' \<or> c = CHR ''_'') s
     then Inl (VInvalidOrderType ''client order ID contains invalid characters'')
     else Inr ())"

definition v_market_name :: "string \<Rightarrow> validation_error + unit" where
  "v_market_name s =
    (if length s > 32 then Inl (VInvalidMarketId (''market name '' @ too_long s))
     else if s = [] then Inl (VInvalidMarketId ''market name cannot be empty'') else Inr ())"

definition v_grouping :: "string \<Rightarrow> validation_error + unit" where
  "v_grouping s = (if s \<in> set [''na'', ''Na'', ''NA'', ''normalTpsl'', ''positionTpsl''] then Inr ()
     else Inl (VInvalidGrouping s))"

definition v_orders_count :: "validation_config \<Rightarrow> nat \<Rightarrow> validation_error + unit" where
  "v_orders_count cfg n =
    (if n = 0 then Inl VEmptyOrdersList
     else if n > vc_max_orders cfg then Inl (VTooManyOrders n (vc_max_orders cfg)) else Inr ())"

definition v_cancels_count :: "validation_config \<Rightarrow> nat \<Rightarrow> validation_error + unit" where
  "v_cancels_count cfg n = (if n > vc_max_cancels cfg then Inl (VTooManyCancels n (vc_max_cancels cfg)) else Inr ())"

definition v_order_wire :: "validation_config \<Rightarrow> api_order_wire \<Rightarrow> validation_error + unit" where
  "v_order_wire cfg w = and_then (v_price cfg (ao_p w)) (and_then (v_size cfg (ao_s w))
     (and_then (v_order_type cfg (ao_t w)) (case ao_c w of Some c \<Rightarrow> v_cloid c | None \<Rightarrow> Inr ())))"

definition v_cancels :: "validation_config \<Rightarrow> 'a list \<Rightarrow> validation_error + unit" where
  "v_cancels cfg cs = and_then (v_cancels_count cfg (length cs)) (if cs = [] then Inl VEmptyCancelsList else Inr ())"

definition v_orders :: "validation_config \<Rightarrow> api_order_wire list \<Rightarrow> string \<Rightarrow> validation_error + unit" where
  "v_orders cfg ws g = and_then (v_orders_count cfg (length ws)) (and_then (v_grouping g) (check_each (v_order_wire cfg) ws))"

definition v_exchange_action :: "validation_config \<Rightarrow> exchange_action \<Rightarrow> validation_error + unit" where
  "v_exchange_action cfg act = (case act of
       ExOrder ws g \<Rightarrow> v_orders cfg ws g
     | ExCancel cs \<Rightarrow> v_cancels cfg cs
     | ExCancelByCloid cs \<Rightarrow> v_cancels cfg cs
     | ExCancelAll \<Rightarrow> Inr ()
     | ExUpdateLeverage _ _ l \<Rightarrow> v_leverage l
     | ExUsdTransfer d a \<Rightarrow> and_then (v_address cfg d) (v_amount cfg a)
     | ExWithdraw d a \<Rightarrow> and_then (v_address cfg d) (v_amount cfg a)
     | ExSpotOrder ws g \<Rightarrow> v_orders cfg ws g
     | ExSpotCancel cs \<Rightarrow> v_cancels cfg cs
     | ExSpotCancelAll _ \<Rightarrow> Inr ()
     | ExViewTransfer _ a _ \<Rightarrow> v_amount cfg a)"

definition validate_exchange_request :: "validation_config \<Rightarrow> exchange_request \<Rightarrow> validation_error + unit" where
  "validate_exchange_request cfg q =
    (if \<not> vc_enabled cfg then Inr ()
     else and_then (v_nonce cfg (xr_nonce q)) (v_exchange_action cfg (xr_action q)))"

definition validate_body_size :: "validation_config \<Rightarrow> nat \<Rightarrow> validation_error + unit" where
  "validate_body_size cfg n =
    (if \<not> vc_enabled cfg then Inr ()
     else if n > vc_max_body_size cfg then Inl (VRequestTooLarge n (vc_max_body_size cfg)) else Inr ())"

text \<open>The information requests, by what validation looks at.\<close>

datatype info_request =
    IrMeta | IrAllMids | IrL2Book string nat | IrClearinghouseState string | IrOpenOrders string
  | IrUserFills string "nat option" "nat option" | IrFundingHistory string "nat option" "nat option"
  | IrUserFundingHistory string "nat option" "nat option" | IrRecentTrades string nat
  | IrCandleSnapshot string string "nat option" "nat option" | IrSpotMeta | IrSpotL2Book string nat | IrSpotAllMids
  | IrSpotBalances string | IrSpotOpenOrders string "string option" | IrSpotTokenInfo nat | IrUnifiedBalances string
  | IrEvidenceStatus | IrStateInfo | IrStateProof string nat

definition validate_info_request :: "validation_config \<Rightarrow> info_request \<Rightarrow> validation_error + unit" where
  "validate_info_request cfg q =
    (if \<not> vc_enabled cfg then Inr ()
     else case q of
       IrClearinghouseState u \<Rightarrow> v_address cfg u | IrOpenOrders u \<Rightarrow> v_address cfg u
     | IrSpotBalances u \<Rightarrow> v_address cfg u | IrUnifiedBalances u \<Rightarrow> v_address cfg u
     | IrSpotOpenOrders u _ \<Rightarrow> v_address cfg u
     | IrUserFills u _ _ \<Rightarrow> v_address cfg u | IrUserFundingHistory u _ _ \<Rightarrow> v_address cfg u
     | IrL2Book c _ \<Rightarrow> v_market_name c | IrSpotL2Book c _ \<Rightarrow> v_market_name c | IrRecentTrades c _ \<Rightarrow> v_market_name c
     | IrCandleSnapshot c _ _ _ \<Rightarrow> v_market_name c | IrFundingHistory c _ _ \<Rightarrow> v_market_name c
     | IrStateProof u _ \<Rightarrow> v_address cfg u
     | IrMeta \<Rightarrow> Inr () | IrAllMids \<Rightarrow> Inr () | IrSpotMeta \<Rightarrow> Inr () | IrSpotAllMids \<Rightarrow> Inr ()
     | IrSpotTokenInfo _ \<Rightarrow> Inr () | IrStateInfo \<Rightarrow> Inr () | IrEvidenceStatus \<Rightarrow> Inr ())"

section \<open>The framing of binary messages\<close>

datatype binary_msg_type =
    BmL2BookSnapshot | BmTradeUpdate | BmOrderUpdate | BmFillUpdate | BmPositionUpdate | BmAllMids
  | BmPlaceOrder | BmCancelOrder | BmBatchOrder | BmError | BmPong

fun bm_byte :: "binary_msg_type \<Rightarrow> byte" where
  "bm_byte BmL2BookSnapshot = 0x01" | "bm_byte BmTradeUpdate = 0x02" | "bm_byte BmOrderUpdate = 0x03"
| "bm_byte BmFillUpdate = 0x04" | "bm_byte BmPositionUpdate = 0x05" | "bm_byte BmAllMids = 0x06"
| "bm_byte BmPlaceOrder = 0x10" | "bm_byte BmCancelOrder = 0x11" | "bm_byte BmBatchOrder = 0x12"
| "bm_byte BmError = 0xFE" | "bm_byte BmPong = 0xFF"

definition bm_from_u8 :: "byte \<Rightarrow> binary_msg_type option" where
  "bm_from_u8 v =
    (if v = 0x01 then Some BmL2BookSnapshot else if v = 0x02 then Some BmTradeUpdate else if v = 0x03 then Some BmOrderUpdate
     else if v = 0x04 then Some BmFillUpdate else if v = 0x05 then Some BmPositionUpdate else if v = 0x06 then Some BmAllMids
     else if v = 0x10 then Some BmPlaceOrder else if v = 0x11 then Some BmCancelOrder else if v = 0x12 then Some BmBatchOrder
     else if v = 0xFE then Some BmError else if v = 0xFF then Some BmPong else None)"

datatype binary_protocol_error =
  BpeTooShort | BpeUnknownType byte | BpeIncomplete nat nat | BpeDeserialization string

definition encode_message :: "binary_msg_type \<Rightarrow> byte list \<Rightarrow> byte list" where
  "encode_message t payload = bm_byte t # u32_le (length payload) @ payload"

definition decode_message :: "byte list \<Rightarrow> binary_protocol_error + (binary_msg_type \<times> byte list)" where
  "decode_message data =
    (if length data < 5 then Inl BpeTooShort
     else case bm_from_u8 (data ! 0) of
       None \<Rightarrow> Inl (BpeUnknownType (data ! 0))
     | Some t \<Rightarrow> let n = u32_of_le (take 4 (drop 1 data)) in
         if length data < 5 + n then Inl (BpeIncomplete n (length data - 5))
         else Inr (t, take n (drop 5 data)))"

definition encode_pong :: "byte list" where
  "encode_pong = encode_message BmPong []"

definition encode_error :: "string \<Rightarrow> byte list" where
  "encode_error msg = encode_message BmError (map of_char msg)"


section \<open>Parsing at two precisions\<close>

lemma parse_digits_zeros:
  "parse_digits s = Some n \<Longrightarrow> parse_digits (s @ replicate k (CHR ''0'')) = Some (n * 10 ^ k)"
  by (auto simp: parse_digits_def digits_val_append list_all_iff split: if_splits)

lemma parse_i128_zeros:
  assumes "parse_i128 s = Some x" "parse_i128 (s @ replicate k (CHR ''0'')) = Some y"
  shows "y = x * 10 ^ k"
proof (cases s)
  case (Cons c r)
  show ?thesis
  proof (cases "c = CHR ''-'' \<or> c = CHR ''+''")
    case True
    then obtain n where "parse_digits r = Some n" "x = (if c = CHR ''-'' then - int n else int n)"
      using assms(1) Cons by (auto simp: parse_i128_def Option.bind_eq_Some_conv)
    then show ?thesis using assms(2) Cons True parse_digits_zeros [of r n k]
      by (auto simp: parse_i128_def)
  next
    case False
    then obtain n where "parse_digits s = Some n" "x = int n"
      using assms(1) Cons by (auto simp: parse_i128_def Option.bind_eq_Some_conv)
    then show ?thesis using assms(2) Cons False parse_digits_zeros [of s n k]
      by (auto simp: parse_i128_def)
  qed
qed (use assms(1) in \<open>simp add: parse_i128_def\<close>)

lemma ten_times_not_min: "10 * m \<noteq> i128_min"
proof -
  have "i128_min mod 10 \<noteq> 0" by (simp add: i128_min_def)
  then show ?thesis by (metis mod_mult_self1_is_0)
qed

lemma wrap_neg_scaled:
  assumes "in_i128 v" "in_i128 (v * 10 ^ k)"
  shows "wrap_i128 (- (v * 10 ^ k)) = wrap_i128 (- v) * 10 ^ k"
proof (cases k)
  case (Suc j)
  have "v * 10 ^ k \<noteq> i128_min"
  proof
    assume "v * 10 ^ k = i128_min"
    then have "10 * (v * 10 ^ j) = i128_min" using Suc by simp
    then show False using ten_times_not_min by blast
  qed
  then have "in_i128 (- (v * 10 ^ k))" using assms(2) by (auto simp: i128_defs)
  moreover have "\<bar>v\<bar> * 1 \<le> \<bar>v\<bar> * 10 ^ k" by (intro mult_left_mono) auto
  then have "in_i128 (- v)" using \<open>in_i128 (- (v * 10 ^ k))\<close> assms by (auto simp: i128_defs abs_mult)
  ultimately show ?thesis by (simp add: wrap_i128_id)
qed simp

lemma from_str_exact_scale:
  assumes "from_str_exact s n = Some a" "from_str_exact s (n + k) = Some b" "n + k \<le> 38"
  shows "d_val b = d_val a * 10 ^ k"
proof -
  define s0 where "s0 = str_trim s"
  define neg where "neg = (s0 \<noteq> [] \<and> hd s0 = CHR ''-'')"
  define parts where "parts = split_char (CHR ''.'') (if neg then tl s0 else s0)"
  define frac where "frac dec = (if length parts = 2 then
      if length (parts ! 1) > dec then None else parse_i128 (parts ! 1 @ replicate (dec - length (parts ! 1)) (CHR ''0''))
    else Some 0)" for dec
  have run: "\<exists>ip dp. parse_i128 (hd parts) = Some ip \<and> frac dec = Some dp \<and> in_i128 (ip * pow10 dec + dp) \<and>
      d = Decimal (if neg then wrap_i128 (- (ip * pow10 dec + dp)) else ip * pow10 dec + dp) dec"
    if "from_str_exact s dec = Some d" for dec d
    using that
    by (auto simp: from_str_exact_def Let_def s0_def [symmetric] neg_def [symmetric] parts_def [symmetric] frac_def
        Option.bind_eq_Some_conv i128_checked_defs split: if_splits)
  obtain ip dp where a: "parse_i128 (hd parts) = Some ip" "frac n = Some dp" "in_i128 (ip * pow10 n + dp)"
    "a = Decimal (if neg then wrap_i128 (- (ip * pow10 n + dp)) else ip * pow10 n + dp) n" using run [OF assms(1)] by blast
  obtain ip' dp' where b: "parse_i128 (hd parts) = Some ip'" "frac (n + k) = Some dp'" "in_i128 (ip' * pow10 (n + k) + dp')"
    "b = Decimal (if neg then wrap_i128 (- (ip' * pow10 (n + k) + dp')) else ip' * pow10 (n + k) + dp') (n + k)"
    using run [OF assms(2)] by blast
  have "dp' = dp * 10 ^ k"
  proof (cases "length parts = 2")
    case True
    define ds where "ds = parts ! 1"
    have len: "length ds \<le> n" and at: "parse_i128 (ds @ replicate (n - length ds) (CHR ''0'')) = Some dp"
      "parse_i128 (ds @ replicate (n + k - length ds) (CHR ''0'')) = Some dp'"
      using True a(2) b(2) by (auto simp: frac_def ds_def split: if_splits)
    have "replicate (n + k - length ds) (CHR ''0'') = replicate (n - length ds) (CHR ''0'') @ replicate k (CHR ''0'')"
      using len by (simp flip: replicate_add)
    then show ?thesis using parse_i128_zeros [OF at(1), of k dp'] at(2) by simp
  qed (use a(2) b(2) in \<open>simp add: frac_def\<close>)
  then have "ip' * pow10 (n + k) + dp' = (ip * pow10 n + dp) * 10 ^ k"
    using a(1) b(1) assms(3) by (simp add: pow10_exact power_add algebra_simps)
  then show ?thesis using a(3,4) b(3,4) wrap_neg_scaled [of "ip * pow10 n + dp" k] by simp
qed

section \<open>What validation promises to the chain\<close>

definition canonical_tif :: "string \<Rightarrow> bool" where
  "canonical_tif tif = (tif \<in> set [''Gtc'', ''Ioc'', ''Alo'', ''Fok''])"

lemma from_str_exact_dec: "from_str_exact s n = Some d \<Longrightarrow> d_dec d = n"
  by (auto simp: from_str_exact_def Let_def Option.bind_eq_Some_conv split: if_splits)

lemma positive_parsed: "from_str_exact s PRICE_DECIMALS = Some d \<Longrightarrow> \<not> d \<le> ZERO \<Longrightarrow> 0 < d_val d"
  by (drule from_str_exact_dec) (auto simp: ZERO_def less_eq_decimal_def PRICE_DECIMALS_def)

lemma v_price_ok: "v_price cfg s = Inr () \<Longrightarrow> \<exists>d. from_str_exact s PRICE_DECIMALS = Some d \<and> 0 < d_val d \<and> d \<le> vc_max_price cfg"
  using positive_parsed [of s] by (auto simp: v_price_def split: if_splits option.splits)

lemma v_size_ok: "v_size cfg s = Inr () \<Longrightarrow> \<exists>d. from_str_exact s PRICE_DECIMALS = Some d \<and> 0 < d_val d \<and> d \<le> vc_max_size cfg"
  using positive_parsed [of s] by (auto simp: v_size_def split: if_splits option.splits)

lemma v_amount_ok: "v_amount cfg s = Inr () \<Longrightarrow> \<exists>d. from_str_exact s PRICE_DECIMALS = Some d \<and> 0 < d_val d"
  using positive_parsed [of s] by (auto simp: v_amount_def split: if_splits option.splits)

text \<open>
  (C28) An order that the gateway has validated is readable for the chain, with a
  positive price and size within the limits of the configuration, except for one
  case: the lower-case names of the times in force, which the gateway accepts and
  the chain refuses.
\<close>

theorem validated_order_readable:
  assumes "v_order_wire cfg w = Inr ()"
  shows "case to_order_request (convert_order_wire w) of
      Inr q \<Rightarrow> 0 < d_val (q_price q) \<and> q_price q \<le> vc_max_price cfg \<and> 0 < d_val (q_size q) \<and> q_size q \<le> vc_max_size cfg \<and>
        q_market q = ao_a w \<and> q_reduce_only q = ao_r w \<and> q_cloid q = ao_c w
    | Inl e \<Rightarrow> e = TxInvalidTimeInForce \<and> ao_t w \<in> ApiLimit ` set [''gtc'', ''ioc'', ''alo'', ''fok'']"
proof -
  have ok: "v_price cfg (ao_p w) = Inr ()" "v_size cfg (ao_s w) = Inr ()" "v_order_type cfg (ao_t w) = Inr ()"
    using assms by (simp_all add: v_order_wire_def)
  obtain p where p: "from_str_exact (ao_p w) PRICE_DECIMALS = Some p" "0 < d_val p" "p \<le> vc_max_price cfg"
    using v_price_ok [OF ok(1)] by blast
  obtain z where z: "from_str_exact (ao_s w) PRICE_DECIMALS = Some z" "0 < d_val z" "z \<le> vc_max_size cfg"
    using v_size_ok [OF ok(2)] by blast
  show ?thesis
  proof (cases "ao_t w")
    case (ApiLimit tif)
    then show ?thesis using ok(3) p z
      by (auto simp: v_order_type_def to_order_request_def convert_order_wire_def convert_order_type_wire_def to_order_type_def
          trigger_fields_def split: if_splits)
  next
    case (ApiTrigger t)
    then obtain tp where "from_str_exact (tw_trigger_px t) PRICE_DECIMALS = Some tp"
      using ok(3) v_price_ok [of cfg "tw_trigger_px t"] by (auto simp: v_order_type_def)
    then show ?thesis using ApiTrigger p z
      by (simp add: to_order_request_def convert_order_wire_def convert_order_type_wire_def to_order_type_def trigger_fields_def)
  qed
qed

text \<open>
  What the gateway has validated as an amount is positive for the chain too,
  although the chain reads it with six decimals instead of eight: the negative
  transfers and withdrawals that the chain would execute do not pass the gateway.
\<close>

theorem validated_amount_positive:
  assumes "v_amount cfg amount = Inr ()" "from_str_exact amount USDC_DECIMALS = Some d"
  shows "0 < d_val d"
proof -
  obtain e where "from_str_exact amount PRICE_DECIMALS = Some e" "0 < d_val e" using v_amount_ok [OF assms(1)] by blast
  moreover have "PRICE_DECIMALS = USDC_DECIMALS + 2" "PRICE_DECIMALS \<le> 38" by (simp_all add: PRICE_DECIMALS_def USDC_DECIMALS_def)
  ultimately show ?thesis using from_str_exact_scale [OF assms(2), of 2 e] by simp
qed


section \<open>What validation lets through\<close>

definition wire_of :: "api_order_type \<Rightarrow> api_order_wire" where
  "wire_of t = \<lparr> ao_a = 0, ao_b = True, ao_p = ''5'', ao_s = ''2'', ao_r = False, ao_t = t, ao_c = None \<rparr>"

lemma small_strings:
  "from_str_exact ''5'' 8 = Some (Decimal 500000000 8)" "from_str_exact ''2'' 8 = Some (Decimal 200000000 8)"
  "from_str_exact ''5'' 6 = Some (Decimal 5000000 6)"
  by (simp_all add: from_str_exact_def str_trim_def trim_end_by_def is_ws_def parse_i128_def parse_digits_def is_digit_def
      digits_val_def digit_val_def i128_checked_defs i128_defs pow10_def wrap_i128_def Let_def replicate_unroll)

lemma wire_of_validated:
  "v_order_wire validation_default (wire_of (ApiLimit ''gtc'')) = Inr ()"
  "v_order_wire validation_default (wire_of (ApiLimit ''Gtc'')) = Inr ()"
  "tpsl \<in> set [''tp'', ''TP''] \<Longrightarrow>
     v_order_wire validation_default (wire_of (ApiTrigger \<lparr> tw_is_market = True, tw_trigger_px = ''5'', tw_tpsl = tpsl \<rparr>)) = Inr ()"
  by (auto simp: v_order_wire_def wire_of_def v_price_def v_size_def v_order_type_def small_strings PRICE_DECIMALS_def
      validation_default_def ZERO_def decimal_ord_defs)

text \<open>
  The gateway accepts a time in force in lower case and the chain cannot read it: a
  batch with such an order passes validation and fails on the chain midway.
\<close>

theorem validated_order_unreadable:
  "v_order_wire validation_default (wire_of (ApiLimit ''gtc'')) = Inr () \<and>
   to_order_request (convert_order_wire (wire_of (ApiLimit ''gtc''))) = Inl TxInvalidTimeInForce"
  using wire_of_validated(1)
  by (simp add: to_order_request_def convert_order_wire_def convert_order_type_wire_def to_order_type_def wire_of_def
      small_strings PRICE_DECIMALS_def)

text \<open>
  The gateway accepts \<open>TP\<close> for \<open>tp\<close>, and the chain takes it for neither: a buy order
  with a take-profit trigger in upper case triggers below its price instead of above.
\<close>

theorem upper_case_trigger_reversed:
  "\<exists>q q'. to_order_request (convert_order_wire (wire_of (ApiTrigger \<lparr> tw_is_market = True, tw_trigger_px = ''5'', tw_tpsl = ''tp'' \<rparr>))) = Inr q \<and>
     to_order_request (convert_order_wire (wire_of (ApiTrigger \<lparr> tw_is_market = True, tw_trigger_px = ''5'', tw_tpsl = ''TP'' \<rparr>))) = Inr q' \<and>
     q_trig_dir q = Some Above \<and> q_trig_dir q' = Some Below \<and>
     v_order_wire validation_default (wire_of (ApiTrigger \<lparr> tw_is_market = True, tw_trigger_px = ''5'', tw_tpsl = ''TP'' \<rparr>)) = Inr ()"
  using wire_of_validated(3) [of "''TP''"]
  by (simp add: to_order_request_def convert_order_wire_def convert_order_type_wire_def to_order_type_def trigger_fields_def
      wire_of_def small_strings PRICE_DECIMALS_def)

theorem validated_order_readable_witness:
  "\<exists>q. to_order_request (convert_order_wire (wire_of (ApiLimit ''Gtc''))) = Inr q \<and> d_val (q_price q) = 500000000 \<and>
     q_price q \<le> vc_max_price validation_default"
  using validated_order_readable [OF wire_of_validated(2)]
  by (simp add: to_order_request_def convert_order_wire_def convert_order_type_wire_def to_order_type_def trigger_fields_def
      wire_of_def small_strings PRICE_DECIMALS_def)

theorem validated_amount_positive_witness:
  "v_amount validation_default ''5'' = Inr () \<and> 0 < d_val (the (from_str_exact ''5'' USDC_DECIMALS))"
proof -
  have "v_amount validation_default ''5'' = Inr ()"
    by (simp add: v_amount_def validation_default_def small_strings PRICE_DECIMALS_def ZERO_def decimal_ord_defs)
  moreover have "from_str_exact ''5'' USDC_DECIMALS = Some (Decimal 5000000 6)" by (simp add: small_strings USDC_DECIMALS_def)
  ultimately show ?thesis using validated_amount_positive [of validation_default "''5''"] by simp
qed

section \<open>Frames\<close>

lemma bm_from_byte [simp]: "bm_from_u8 (bm_byte t) = Some t"
  by (cases t) (simp_all add: bm_from_u8_def)

text \<open>
  A framed message is decoded to its type and payload, whatever follows it in the
  buffer, as long as its length fits the 32 bits of the header; and a decoded frame
  is exactly as long as its header says.
\<close>

theorem frame_roundtrip:
  assumes "length payload < 2 ^ 32"
  shows "decode_message (encode_message t payload @ rest) = Inr (t, payload)"
  using assms by (simp add: decode_message_def encode_message_def u32_of_le_le)

theorem frame_roundtrip_witness:
  "decode_message (encode_message BmError [1, 2, 3] @ [9]) = Inr (BmError, [1, 2, 3])"
  by (rule frame_roundtrip) simp

text \<open>A proper prefix of a frame is never decoded: it is too short or incomplete.\<close>

theorem truncated_frame_refused:
  assumes "length payload < 2 ^ 32" "n < 5 + length payload"
  shows "decode_message (take n (encode_message t payload)) =
    Inl (if n < 5 then BpeTooShort else BpeIncomplete (length payload) (n - 5))"
proof (cases "n < 5")
  case True
  then show ?thesis by (simp add: decode_message_def encode_message_def)
next
  case False
  then have "take n (bm_byte t # u32_le (length payload) @ payload) = bm_byte t # u32_le (length payload) @ take (n - 5) payload"
    by (simp add: take_Cons')
  then show ?thesis using assms False by (simp add: decode_message_def encode_message_def u32_of_le_le)
qed

end
