(* ===== verification/Mempool.thy ===== *)
theory Mempool
  imports Transaction
begin

text \<open>
  The mempool, from \<open>crates/chain/src/mempool.rs\<close>: admission with its checks and
  evictions, removal, the pending transactions, expiry, and the queue in front of it.
  The clock is an argument (\<open>now\<close>), as are the JSON serialiser, Keccak and the
  elliptic-curve recovery that the hash and the signer of a transaction need.
\<close>

section \<open>State\<close>

record mempool_entry =
  me_tx :: transaction
  me_sender :: address
  me_received_at :: nat

record mempool_config =
  mc_max_txs_per_account :: nat
  mc_max_total_txs :: nat
  mc_expiry_duration :: nat

definition mempool_config_default :: mempool_config where
  "mempool_config_default = \<lparr> mc_max_txs_per_account = 100, mc_max_total_txs = 10000,
     mc_expiry_duration = 300 * 1000000000 \<rparr>"

record mempool =
  mp_txs :: "(digest, mempool_entry) hash_map"
  mp_by_account :: "(address, (nat, digest) btree) hash_map"
  mp_by_time :: "(nat, digest) btree"
  mp_invalid :: "digest list"
  mp_config :: mempool_config

datatype mempool_error =
    MpAlreadyExists
  | MpKnownInvalid
  | MpAccountLimitReached
  | MpMempoolFull
  | MpNonceTooHigh nat nat
  | MpInvalidTransaction transaction_error

definition mempool_with_config :: "mempool_config \<Rightarrow> mempool" where
  "mempool_with_config c = \<lparr> mp_txs = [], mp_by_account = [], mp_by_time = [], mp_invalid = [], mp_config = c \<rparr>"

definition mempool_new :: mempool where
  "mempool_new = mempool_with_config mempool_config_default"

section \<open>Removal and admission\<close>

definition unindex_account :: "address \<Rightarrow> nat \<Rightarrow> (address, (nat, digest) btree) hash_map \<Rightarrow> (address, (nat, digest) btree) hash_map" where
  "unindex_account a nonce by = (case hm_get by a of
       None \<Rightarrow> by
     | Some txs \<Rightarrow> let txs' = bt_remove nonce txs in if txs' = [] then hm_remove a by else hm_insert a txs' by)"

definition remove_internal :: "digest \<Rightarrow> mempool \<Rightarrow> transaction option \<times> mempool" where
  "remove_internal h m = (case hm_get (mp_txs m) h of
       None \<Rightarrow> (None, m)
     | Some e \<Rightarrow> (Some (me_tx e), m \<lparr> mp_txs := hm_remove h (mp_txs m),
          mp_by_account := unindex_account (me_sender e) (tx_nonce (me_tx e)) (mp_by_account m),
          mp_by_time := filter (\<lambda>(_, h'). h' \<noteq> h) (mp_by_time m) \<rparr>))"

definition mempool_remove :: "digest \<Rightarrow> mempool \<Rightarrow> transaction option \<times> mempool" where
  "mempool_remove h m = remove_internal h m"

lemma remove_internal_time: "length (mp_by_time (snd (remove_internal h m))) \<le> length (mp_by_time m)"
  by (auto simp: remove_internal_def split: option.splits)

lemma remove_internal_config [simp]: "mp_config (snd (remove_internal h m)) = mp_config m"
  by (auto simp: remove_internal_def split: option.splits)

text \<open>The eviction loop of \<open>add\<close>.\<close>

function evict :: "mempool \<Rightarrow> mempool" where
  "evict m =
    (if length (mp_txs m) < mc_max_total_txs (mp_config m) then m
     else case mp_by_time m of
       [] \<Rightarrow> m
     | (_, h) # rest \<Rightarrow> evict (snd (remove_internal h (m \<lparr> mp_by_time := rest \<rparr>))))"
  by pat_completeness auto
termination
proof (relation "measure (\<lambda>m. length (mp_by_time m))")
  show "wf (measure (\<lambda>m. length (mp_by_time m)))" by simp
next
  fix m :: mempool and kh rest k h
  assume "mp_by_time m = kh # rest" "(k, h) = kh"
  then show "(snd (remove_internal h (m \<lparr> mp_by_time := rest \<rparr>)), m) \<in> measure (\<lambda>m. length (mp_by_time m))"
    using remove_internal_time [of h "m \<lparr> mp_by_time := rest \<rparr>"] by simp
qed

declare evict.simps [simp del]

definition account_txs :: "mempool \<Rightarrow> address \<Rightarrow> (nat, digest) btree" where
  "account_txs m a = hm_get_or [] (mp_by_account m) a"

definition admit :: "digest \<Rightarrow> transaction \<Rightarrow> address \<Rightarrow> nat \<Rightarrow> mempool \<Rightarrow> mempool" where
  "admit h tx a now m = m
     \<lparr> mp_txs := hm_insert h \<lparr> me_tx = tx, me_sender = a, me_received_at = now \<rparr> (mp_txs m),
       mp_by_account := hm_insert a (bt_insert (tx_nonce tx) h (account_txs m a)) (mp_by_account m),
       mp_by_time := bt_insert now h (mp_by_time m) \<rparr>"

definition mempool_add ::
  "(transaction_type \<Rightarrow> byte list) \<Rightarrow> hash_fn \<Rightarrow> ecdsa \<Rightarrow> nat \<Rightarrow> transaction \<Rightarrow> mempool \<Rightarrow> (mempool_error + digest) \<times> mempool" where
  "mempool_add json keccak ec now tx0 m = (let (h, tx) = get_hash json keccak tx0 in
     if hm_contains h (mp_txs m) then (Inl MpAlreadyExists, m)
     else if h \<in> set (mp_invalid m) then (Inl MpKnownInvalid, m)
     else case recover_signer ec keccak tx of
       Inl e \<Rightarrow> (Inl (MpInvalidTransaction e), m)
     | Inr a \<Rightarrow>
         if length (account_txs m a) \<ge> mc_max_txs_per_account (mp_config m) \<and> hm_contains a (mp_by_account m)
         then (Inl MpAccountLimitReached, m)
         else let m1 = evict m in
           if account_txs m1 a \<noteq> [] \<and> tx_nonce tx > wrap_u64 (fst (last (account_txs m1 a)) + 1)
           then (Inl (MpNonceTooHigh (wrap_u64 (fst (last (account_txs m1 a)) + 1)) (tx_nonce tx)), m1)
           else (Inr h, admit h tx a now m1))"

section \<open>Queries and maintenance\<close>

definition mempool_get :: "mempool \<Rightarrow> digest \<Rightarrow> transaction option" where
  "mempool_get m h = map_option me_tx (hm_get (mp_txs m) h)"

definition mempool_contains :: "mempool \<Rightarrow> digest \<Rightarrow> bool" where
  "mempool_contains m h = hm_contains h (mp_txs m)"

fun pending_loop :: "mempool \<Rightarrow> nat \<Rightarrow> digest list \<Rightarrow> transaction list \<Rightarrow> transaction list" where
  "pending_loop m limit [] acc = acc"
| "pending_loop m limit (h # hs) acc = (case hm_get (mp_txs m) h of
       None \<Rightarrow> pending_loop m limit hs acc
     | Some e \<Rightarrow> let acc' = acc @ [me_tx e] in if length acc' \<ge> limit then acc' else pending_loop m limit hs acc')"

definition get_pending :: "mempool \<Rightarrow> nat \<Rightarrow> transaction list" where
  "get_pending m limit = pending_loop m limit (concat (map (map snd) (hm_values (mp_by_account m)))) []"

definition get_account_pending :: "mempool \<Rightarrow> address \<Rightarrow> transaction list" where
  "get_account_pending m a = List.map_filter (\<lambda>(_, h). mempool_get m h) (account_txs m a)"

definition mark_invalid :: "digest \<Rightarrow> mempool \<Rightarrow> mempool" where
  "mark_invalid h m = (let m1 = snd (mempool_remove h m) in m1 \<lparr> mp_invalid := List.insert h (mp_invalid m1) \<rparr>)"

text \<open>Subtracting the expiry from an instant before it panics.\<close>

definition prune_expired :: "nat \<Rightarrow> mempool \<Rightarrow> (nat \<times> mempool) option" where
  "prune_expired now m =
    (if now < mc_expiry_duration (mp_config m) then None
     else let cutoff = now - mc_expiry_duration (mp_config m);
              expired = map snd (takeWhile (\<lambda>(t, _). t < cutoff) (mp_by_time m))
          in Some (length expired, fold (\<lambda>h m. snd (remove_internal h m)) expired m))"

definition update_after_commit :: "digest list \<Rightarrow> mempool \<Rightarrow> mempool" where
  "update_after_commit hs m = fold (\<lambda>h m. snd (mempool_remove h m)) hs m"

record mempool_stats =
  ms_total_txs :: nat
  ms_unique_senders :: nat
  ms_invalid_count :: nat

definition mempool_stats_of :: "mempool \<Rightarrow> mempool_stats" where
  "mempool_stats_of m = \<lparr> ms_total_txs = length (mp_txs m), ms_unique_senders = length (mp_by_account m),
     ms_invalid_count = length (mp_invalid m) \<rparr>"

definition clear_invalid_cache :: "mempool \<Rightarrow> mempool" where
  "clear_invalid_cache m = m \<lparr> mp_invalid := [] \<rparr>"

record shared_mempool =
  sh_inner :: mempool
  sh_incoming :: "transaction list"

definition sh_push :: "transaction \<Rightarrow> shared_mempool \<Rightarrow> shared_mempool" where
  "sh_push tx s = s \<lparr> sh_incoming := sh_incoming s @ [tx] \<rparr>"

text \<open>Draining adds the queued transactions in order, one reading of the clock for each.\<close>

fun drain :: "(nat \<Rightarrow> transaction \<Rightarrow> mempool \<Rightarrow> (mempool_error + digest) \<times> mempool) \<Rightarrow> (nat \<Rightarrow> nat) \<Rightarrow> nat \<Rightarrow>
   transaction list \<Rightarrow> mempool \<Rightarrow> mempool" where
  "drain add clock i [] m = m"
| "drain add clock i (tx # txs) m = drain add clock (Suc i) txs (snd (add (clock i) tx m))"

definition drain_into_indexed ::
  "(transaction_type \<Rightarrow> byte list) \<Rightarrow> hash_fn \<Rightarrow> ecdsa \<Rightarrow> (nat \<Rightarrow> nat) \<Rightarrow> shared_mempool \<Rightarrow> shared_mempool" where
  "drain_into_indexed json keccak ec clock s =
     s \<lparr> sh_inner := drain (mempool_add json keccak ec) clock 0 (sh_incoming s) (sh_inner s), sh_incoming := [] \<rparr>"


section \<open>The invariant of the pool\<close>

text \<open>
  The account index points to stored transactions of that account and nonce; the
  time index lists exactly the stored hashes, once each; the bounds hold.
\<close>

definition index_sound :: "mempool \<Rightarrow> bool" where
  "index_sound m = (hm_inv (mp_by_account m) \<and>
     (\<forall>(a, t) \<in> set (mp_by_account m). bt_inv t \<and> (\<forall>(n, h) \<in> set t.
        case hm_get (mp_txs m) h of None \<Rightarrow> False | Some e \<Rightarrow> me_sender e = a \<and> tx_nonce (me_tx e) = n)))"

definition time_covers :: "mempool \<Rightarrow> bool" where
  "time_covers m = (hm_inv (mp_txs m) \<and> bt_inv (mp_by_time m) \<and> distinct (map snd (mp_by_time m)) \<and>
     set (map snd (mp_by_time m)) = fst ` set (mp_txs m))"

definition within_limits :: "mempool \<Rightarrow> bool" where
  "within_limits m = (length (mp_txs m) \<le> mc_max_total_txs (mp_config m) \<and>
     (\<forall>(a, t) \<in> set (mp_by_account m). length t \<le> mc_max_txs_per_account (mp_config m)))"

definition pool_inv :: "mempool \<Rightarrow> bool" where
  "pool_inv m = (index_sound m \<and> time_covers m \<and> within_limits m)"

lemmas pool_inv_defs = pool_inv_def index_sound_def time_covers_def within_limits_def

lemma hm_keys_get: "h \<in> fst ` set m \<longleftrightarrow> hm_get m h \<noteq> None"
  by (auto simp: hm_get_def map_of_eq_None_iff)

lemma hm_remove_filter: "hm_remove k m = filter (\<lambda>(k', _). k \<noteq> k') m"
  by (simp add: hm_remove_def AList.delete_eq)

lemma distinct_snd_filter: "distinct (map snd xs) \<Longrightarrow> distinct (map snd (filter P xs))"
  by (induction xs) auto

lemma hm_in_set_remove: "x \<in> set (hm_remove k m) \<longleftrightarrow> x \<in> set m \<and> fst x \<noteq> k"
  by (auto simp: hm_remove_filter)

lemma set_hm_insert: "hm_inv m \<Longrightarrow> set (hm_insert k v m) = insert (k, v) {x \<in> set m. fst x \<noteq> k}"
  by (induction m) (force simp: hm_insert_def hm_inv_def)+

lemma length_hm_remove_le: "length (hm_remove k m) \<le> length m"
  by (simp add: hm_remove_filter)

lemma remove_internal_time_covers:
  assumes "time_covers m"
  shows "time_covers (snd (remove_internal h m))"
  using assms
  by (auto simp: time_covers_def remove_internal_def distinct_snd_filter hm_in_set_remove bt_inv_def
      sorted_wrt_map sorted_wrt_filter image_iff split: option.splits)
     (force simp: hm_remove_filter)+


text \<open>The account index as a relation of accounts, nonces and hashes.\<close>

definition indexed :: "(address, (nat, digest) btree) hash_map \<Rightarrow> address \<Rightarrow> nat \<Rightarrow> digest \<Rightarrow> bool" where
  "indexed by a n h = (\<exists>t. (a, t) \<in> set by \<and> (n, h) \<in> set t)"

definition index_shape :: "(address, (nat, digest) btree) hash_map \<Rightarrow> bool" where
  "index_shape by = (hm_inv by \<and> (\<forall>(a, t) \<in> set by. bt_inv t))"

lemma index_sound_iff:
  "index_sound m \<longleftrightarrow> index_shape (mp_by_account m) \<and>
    (\<forall>a n h. indexed (mp_by_account m) a n h \<longrightarrow>
       (\<exists>e. hm_get (mp_txs m) h = Some e \<and> me_sender e = a \<and> tx_nonce (me_tx e) = n))"
  by (force simp: index_sound_def index_shape_def indexed_def split: option.splits)

lemma set_unindex:
  assumes "index_shape by"
  shows "(b, u) \<in> set (unindex_account a n by) \<longleftrightarrow>
    (if b = a then u \<noteq> [] \<and> (\<exists>t. (a, t) \<in> set by \<and> u = filter (\<lambda>x. fst x \<noteq> n) t) else (b, u) \<in> set by)"
proof (cases "hm_get by a")
  case None
  then have "(a, t) \<notin> set by" for t using assms by (auto simp: index_shape_def dest: hm_in_set_get)
  then show ?thesis using None by (auto simp: unindex_account_def)
next
  case (Some t)
  have t: "(a, t) \<in> set by" "bt_inv t" "hm_inv by" using Some assms hm_get_in_set [OF Some] by (auto simp: index_shape_def)
  have only: "(a, v) \<in> set by \<longleftrightarrow> v = t" for v using t Some by (auto dest: hm_in_set_get)
  show ?thesis
    using t by (auto simp: unindex_account_def Let_def Some only hm_in_set_remove set_hm_insert bt_remove_filter)
qed

lemma index_shape_unindex:
  assumes "index_shape by"
  shows "index_shape (unindex_account a n by)"
proof -
  have "hm_inv (unindex_account a n by)"
    using assms by (simp add: index_shape_def unindex_account_def Let_def split: option.splits)
  moreover have "bt_inv u" if "(b, u) \<in> set (unindex_account a n by)" for b u
    using that assms
    by (auto simp: set_unindex [OF assms] index_shape_def bt_inv_def sorted_wrt_map sorted_wrt_filter split: if_splits)
  ultimately show ?thesis by (auto simp: index_shape_def)
qed

lemma indexed_unindex:
  "index_shape by \<Longrightarrow> indexed (unindex_account a n by) b k h \<Longrightarrow> indexed by b k h \<and> \<not> (b = a \<and> k = n)"
  by (cases "b = a") (auto simp: indexed_def set_unindex)

lemma remove_internal_index_sound:
  assumes "index_sound m"
  shows "index_sound (snd (remove_internal h m))"
proof (cases "hm_get (mp_txs m) h")
  case (Some e)
  note u = indexed_unindex [of "mp_by_account m" "me_sender e" "tx_nonce (me_tx e)"]
  show ?thesis
    using assms Some u index_shape_unindex
    unfolding index_sound_iff by (simp add: remove_internal_def) fastforce
qed (use assms in \<open>simp add: remove_internal_def\<close>)

lemma unindex_lengths:
  assumes "index_shape by" "\<forall>(a, t) \<in> set by. length t \<le> k"
  shows "\<forall>(a, t) \<in> set (unindex_account b n by). length t \<le> k"
proof -
  have "length u \<le> k" if in_u: "(c, u) \<in> set (unindex_account b n by)" for c u
  proof (cases "c = b")
    case True
    then obtain t where "(b, t) \<in> set by" "u = filter (\<lambda>x. fst x \<noteq> n) t"
      using in_u by (auto simp: set_unindex [OF assms(1)])
    then show ?thesis using assms(2) length_filter_le [of _ t] by (metis (no_types, lifting) case_prodD le_trans)
  qed (use in_u assms in \<open>auto simp: set_unindex\<close>)
  then show ?thesis by auto
qed

lemma remove_internal_within_limits:
  "index_sound m \<Longrightarrow> within_limits m \<Longrightarrow> within_limits (snd (remove_internal h m))"
  using length_hm_remove_le [of h "mp_txs m"] unindex_lengths [of "mp_by_account m" "mc_max_txs_per_account (mp_config m)"]
  by (auto simp: within_limits_def index_sound_iff remove_internal_def split: option.splits)

lemma remove_internal_inv: "pool_inv m \<Longrightarrow> pool_inv (snd (remove_internal h m))"
  by (simp add: pool_inv_def remove_internal_index_sound remove_internal_time_covers remove_internal_within_limits)


text \<open>Eviction frees a place, unless the pool has none.\<close>

lemma pool_size: "time_covers m \<Longrightarrow> length (mp_by_time m) = length (mp_txs m)"
  by (metis time_covers_def hm_inv_def distinct_card length_map list.set_map)

lemma timed_stored:
  assumes "time_covers m" "mp_by_time m = (t, h) # rest"
  obtains e where "hm_get (mp_txs m) h = Some e"
proof -
  have "h \<in> fst ` set (mp_txs m)" using assms by (metis time_covers_def list.set_intros(1) list.simps(9) snd_conv)
  then show thesis using that by (auto simp: hm_keys_get)
qed

lemma evict_step:
  assumes "time_covers m" "mp_by_time m = (t, h) # rest"
  shows "remove_internal h (m \<lparr> mp_by_time := rest \<rparr>) = remove_internal h m"
  by (rule timed_stored [OF assms]) (use assms(2) in \<open>auto simp: remove_internal_def\<close>)

lemma evict_inv:
  assumes "pool_inv m" "0 < mc_max_total_txs (mp_config m)"
  shows "pool_inv (evict m) \<and> length (mp_txs (evict m)) < mc_max_total_txs (mp_config m) \<and>
    mp_config (evict m) = mp_config m \<and> set (mp_by_time (evict m)) \<subseteq> set (mp_by_time m) \<and>
    fst ` set (mp_txs (evict m)) \<subseteq> fst ` set (mp_txs m) \<and>
    (\<forall>a. length (account_txs (evict m) a) \<le> length (account_txs m a)) \<and>
    (\<forall>h. hm_get (mp_txs (evict m)) h \<in> {None, hm_get (mp_txs m) h})"
  using assms
proof (induction "length (mp_by_time m)" arbitrary: m rule: less_induct)
  case less
  have tc: "time_covers m" and shape: "index_shape (mp_by_account m)"
    using less.prems by (simp_all add: pool_inv_def index_sound_iff)
  show ?case
  proof (cases "length (mp_txs m) < mc_max_total_txs (mp_config m)")
    case True
    then show ?thesis using less.prems by (subst (1 2 3 4 5 6 7) evict.simps) simp
  next
    case False
    then obtain t h rest where time: "mp_by_time m = (t, h) # rest"
      using less.prems pool_size [OF tc] by (cases "mp_by_time m") auto
    let ?m = "snd (remove_internal h m)"
    have same: "evict m = evict ?m"
      using False by (subst evict.simps) (simp add: time evict_step [OF tc time])
    have shrinks: "length (mp_by_time ?m) < length (mp_by_time m)" "set (mp_by_time ?m) \<subseteq> set (mp_by_time m)"
      using time by (rule_tac [!] timed_stored [OF tc time]) (auto simp: remove_internal_def less_Suc_eq_le)
    have txs: "fst ` set (mp_txs ?m) \<subseteq> fst ` set (mp_txs m)" "\<forall>h. hm_get (mp_txs ?m) h \<in> {None, hm_get (mp_txs m) h}"
      by (auto simp: remove_internal_def hm_in_set_remove split: option.splits)
    have accounts: "length (account_txs ?m a) \<le> length (account_txs m a)" for a
    proof -
      have "length (bt_remove n t) \<le> length t" for n and t :: "(nat, digest) btree"
        by (induction n t rule: bt_remove.induct) auto
      then show ?thesis
        by (auto simp: account_txs_def remove_internal_def unindex_account_def Let_def hm_get_or_def split: option.splits)
    qed
    note ih = less.hyps [OF shrinks(1) remove_internal_inv [OF less.prems(1), of h], unfolded remove_internal_config,
        OF less.prems(2)]
    show ?thesis
      unfolding same
    proof (intro conjI allI)
      show "length (account_txs (evict ?m) a) \<le> length (account_txs m a)" for a
        using ih accounts [of a] le_trans by blast
      show "hm_get (mp_txs (evict ?m)) k \<in> {None, hm_get (mp_txs m) k}" for k
        using ih txs(2) by (metis empty_iff insert_iff)
    qed (use ih shrinks(2) txs(1) in blast)+
  qed
qed


lemma admit_index_sound:
  assumes "index_sound m" "hm_get (mp_txs m) h = None"
  shows "index_sound (admit h tx a now m)"
proof -
  have shape: "index_shape (mp_by_account m)" using assms(1) by (simp add: index_sound_iff)
  have t: "bt_inv (account_txs m a)" "(n, k) \<in> set (account_txs m a) \<Longrightarrow> indexed (mp_by_account m) a n k" for n k
    using shape hm_get_in_set [of "mp_by_account m" a]
    by (cases "hm_get (mp_by_account m) a"; auto simp: account_txs_def hm_get_or_def index_shape_def indexed_def)+
  have sub: "(n, k) \<in> set (bt_insert (tx_nonce tx) h (account_txs m a)) \<Longrightarrow>
      (n, k) = (tx_nonce tx, h) \<or> (n, k) \<in> set (account_txs m a)" for n k
    using set_bt_insert_subset [of "tx_nonce tx" h "account_txs m a"] by auto
  have "index_shape (mp_by_account (admit h tx a now m))"
    using shape t(1) by (auto simp: admit_def index_shape_def set_hm_insert)
  moreover have "\<exists>e. hm_get (mp_txs (admit h tx a now m)) k = Some e \<and> me_sender e = b \<and> tx_nonce (me_tx e) = n"
    if ix: "indexed (mp_by_account (admit h tx a now m)) b n k" for b n k
  proof -
    have "(b = a \<and> n = tx_nonce tx \<and> k = h) \<or> indexed (mp_by_account m) b n k"
      using ix shape sub t(2) by (auto simp: admit_def indexed_def index_shape_def set_hm_insert)
    then show ?thesis
    proof
      assume old: "indexed (mp_by_account m) b n k"
      then obtain e where e: "hm_get (mp_txs m) k = Some e" "me_sender e = b" "tx_nonce (me_tx e) = n"
        using assms(1) unfolding index_sound_iff by blast
      then have "k \<noteq> h" using assms(2) by auto
      then show ?thesis using e by (simp add: admit_def)
    qed (simp add: admit_def)
  qed
  ultimately show ?thesis by (auto simp: index_sound_iff)
qed

lemma admit_time_covers:
  assumes "time_covers m" "hm_get (mp_txs m) h = None" "now \<notin> fst ` set (mp_by_time m)"
  shows "time_covers (admit h tx a now m)"
proof -
  have "h \<notin> set (map snd (mp_by_time m))" using assms by (auto simp: time_covers_def hm_keys_get)
  moreover have ms: "mset (bt_insert now h (mp_by_time m)) = add_mset (now, h) (mset (mp_by_time m))"
    using assms by (intro bt_insert_fresh_mset) (auto simp: time_covers_def bt_get_eq_None)
  then have hashes: "mset (map snd (bt_insert now h (mp_by_time m))) = add_mset h (mset (map snd (mp_by_time m)))"
    by (metis (no_types, lifting) image_mset_add_mset mset_map snd_conv)
  ultimately have "distinct (map snd (bt_insert now h (mp_by_time m)))"
    using assms(1) by (metis distinct.simps(2) mset.simps(2) mset_eq_imp_distinct_iff time_covers_def)
  moreover have "set (map snd (bt_insert now h (mp_by_time m))) = insert h (set (map snd (mp_by_time m)))"
    using hashes by (metis mset.simps(2) mset_eq_setD list.simps(15))
  ultimately show ?thesis
    using assms(1) by (auto simp: time_covers_def admit_def set_hm_insert)
qed

lemma length_hm_insert: "length (hm_insert k v m) \<le> Suc (length m)"
  by (induction m) (auto simp: hm_insert_def)

lemma length_bt_insert: "length (bt_insert k v t) \<le> Suc (length t)"
  by (induction k v t rule: bt_insert.induct) auto

lemma admit_within_limits:
  assumes "within_limits m" "index_sound m" "length (mp_txs m) < mc_max_total_txs (mp_config m)"
    "length (account_txs m a) < mc_max_txs_per_account (mp_config m)"
  shows "within_limits (admit h tx a now m)"
  using assms length_hm_insert [of h _ "mp_txs m"] length_bt_insert [of "tx_nonce tx" h "account_txs m a"]
  by (fastforce simp: within_limits_def admit_def index_sound_iff index_shape_def set_hm_insert intro: le_trans)

lemma mempool_add_inv:
  assumes inv: "pool_inv m" and now: "now \<notin> fst ` set (mp_by_time m)"
    and config: "0 < mc_max_total_txs (mp_config m)" "0 < mc_max_txs_per_account (mp_config m)"
    and add: "mempool_add json keccak ec now tx m = (r, m')"
  shows "pool_inv m' \<and> mp_config m' = mp_config m"
proof -
  note ev = evict_inv [OF inv config(1)]
  obtain h tx1 where h: "get_hash json keccak tx = (h, tx1)" by fastforce
  have "m' = m \<or> m' = evict m \<or> (\<exists>a. m' = admit h tx1 a now (evict m) \<and> hm_get (mp_txs m) h = None \<and>
      length (account_txs m a) < mc_max_txs_per_account (mp_config m))"
    using add config(2)
    by (auto simp: mempool_add_def h hm_contains_def account_txs_def hm_get_or_def Let_def
        split: if_splits sum.splits option.splits)
  then show ?thesis
  proof (elim disjE exE conjE)
    fix a assume m': "m' = admit h tx1 a now (evict m)" and none: "hm_get (mp_txs m) h = None"
      and room: "length (account_txs m a) < mc_max_txs_per_account (mp_config m)"
    have "pool_inv m'"
      unfolding pool_inv_def m'
    proof (intro conjI)
      show "index_sound (admit h tx1 a now (evict m))"
        using ev none by (intro admit_index_sound) (auto simp: pool_inv_def)
      show "time_covers (admit h tx1 a now (evict m))"
        using ev none now by (intro admit_time_covers) (auto simp: pool_inv_def)
      show "within_limits (admit h tx1 a now (evict m))"
        using ev room by (intro admit_within_limits) (auto simp: pool_inv_def intro: le_less_trans)
    qed
    then show ?thesis using ev m' by (simp add: admit_def)
  qed (use inv ev in auto)
qed


section \<open>The pool as a state machine\<close>

text \<open>One step per operation; a transaction arrives later than every stored one.\<close>

inductive pool_step :: "(transaction_type \<Rightarrow> byte list) \<Rightarrow> hash_fn \<Rightarrow> ecdsa \<Rightarrow> mempool \<Rightarrow> mempool \<Rightarrow> bool"
  for json keccak ec where
  add: "\<forall>t \<in> fst ` set (mp_by_time m). t < now \<Longrightarrow> mempool_add json keccak ec now tx m = (r, m') \<Longrightarrow>
    pool_step json keccak ec m m'"
| remove: "mempool_remove h m = (r, m') \<Longrightarrow> pool_step json keccak ec m m'"
| mark: "pool_step json keccak ec m (mark_invalid h m)"
| prune: "prune_expired now m = Some (n, m') \<Longrightarrow> pool_step json keccak ec m m'"
| commit: "pool_step json keccak ec m (update_after_commit hs m)"
| clear: "pool_step json keccak ec m (clear_invalid_cache m)"

lemma pool_inv_invalid: "pool_inv (m \<lparr> mp_invalid := xs \<rparr>) = pool_inv m"
  by (simp add: pool_inv_defs)

lemma fold_remove_inv:
  "pool_inv m \<Longrightarrow> pool_inv (fold (\<lambda>h m. snd (remove_internal h m)) hs m) \<and>
    mp_config (fold (\<lambda>h m. snd (remove_internal h m)) hs m) = mp_config m"
  by (induction hs arbitrary: m) (simp_all add: remove_internal_inv)

lemma pool_step_inv:
  assumes "pool_step json keccak ec m m'" "pool_inv m" "0 < mc_max_total_txs (mp_config m)"
    "0 < mc_max_txs_per_account (mp_config m)"
  shows "pool_inv m' \<and> mp_config m' = mp_config m"
  using assms
proof (induction rule: pool_step.induct)
  case (add m now tx r m')
  then show ?case by (intro mempool_add_inv [of m now json keccak ec tx r m']) auto
next
  case (remove h m r m')
  then show ?case using remove_internal_inv [of m h] remove_internal_config [of h m] by (simp add: mempool_remove_def)
next
  case (mark m h)
  then show ?case by (simp add: mark_invalid_def mempool_remove_def Let_def pool_inv_invalid remove_internal_inv)
next
  case (prune now m n m')
  then show ?case using fold_remove_inv [of m] by (auto simp: prune_expired_def Let_def split: if_splits)
next
  case (commit m hs)
  then show ?case using fold_remove_inv [of m hs] by (simp add: update_after_commit_def mempool_remove_def)
next
  case (clear m)
  then show ?case by (simp add: clear_invalid_cache_def pool_inv_invalid)
qed


text \<open>A pool that accepts every transaction as signed by one account.\<close>

definition sample_ec :: ecdsa where
  "sample_ec = \<lparr> ec_from_slice = (\<lambda>_. True), ec_recover = (\<lambda>_ _ _. Some [4]) \<rparr>"

lemma sample_recover: "\<exists>a. recover_signer sample_ec keccak (sample_tx act) = Inr a"
  by (simp add: recover_signer_def recover_address_def sample_ec_def sample_tx_def signature_zero_def wrap_u8_def)

definition tiny_config :: mempool_config where
  "tiny_config = \<lparr> mc_max_txs_per_account = 2, mc_max_total_txs = 2, mc_expiry_duration = 10 \<rparr>"

lemma sample_add:
  "\<exists>h m'. mempool_add json keccak sample_ec 1 (sample_tx act) (mempool_with_config tiny_config) = (Inr h, m') \<and>
     length (mp_txs m') = 1"
proof -
  obtain a where a: "recover_signer sample_ec keccak (sample_tx act) = Inr a" using sample_recover by blast
  have "recover_signer sample_ec keccak (sample_tx act \<lparr> tx_hash := h \<rparr>) = Inr a" for h
    using a by (simp add: recover_signer_def compute_eip712_hash_def)
  moreover have "tx_hash (sample_tx act) = None" by (simp add: sample_tx_def)
  moreover have "evict (mempool_with_config tiny_config) = mempool_with_config tiny_config"
    by (subst evict.simps) (simp add: mempool_with_config_def tiny_config_def)
  ultimately show ?thesis
    by (simp add: mempool_add_def get_hash_def Let_def admit_def account_txs_def hm_get_or_def hm_contains_def)
       (simp add: mempool_with_config_def tiny_config_def hm_insert_def)
qed


text \<open>
  The identity of a transaction does not include who signed it: once a pool
  holds a transaction, the same action with the same nonce from any other account is
  refused as already known, whatever its signature, so one account can keep another's
  transaction out.
\<close>

theorem foreign_transaction_blocks:
  assumes "hm_get (mp_txs m) (compute_hash json keccak tx) = Some e" "tx_hash ty = None"
    "tx_action ty = tx_action tx" "tx_nonce ty = tx_nonce tx"
  shows "mempool_add json keccak ec now ty m = (Inl MpAlreadyExists, m)"
  using assms by (simp add: mempool_add_def get_hash_def compute_hash_def Let_def hm_contains_def)


definition stored_entry :: "nat \<Rightarrow> mempool_entry" where
  "stored_entry n = \<lparr> me_tx = sample_tx TxCancelAll \<lparr> tx_nonce := n \<rparr>, me_sender = 7, me_received_at = 0 \<rparr>"

definition twin_pool :: mempool where
  "twin_pool = \<lparr> mp_txs = [([1], stored_entry 5), ([2], stored_entry 5)], mp_by_account = [(7, [(5, [2])])],
     mp_by_time = [(1, [1]), (2, [2])], mp_invalid = [], mp_config = tiny_config \<rparr>"

theorem foreign_transaction_blocks_witness:
  "let m = mempool_with_config tiny_config \<lparr> mp_txs := [(compute_hash (\<lambda>_. []) length_hash (sample_tx TxCancelAll), stored_entry 5)] \<rparr>
   in mempool_add (\<lambda>_. []) length_hash sample_ec 9 (sample_tx TxCancelAll \<lparr> tx_signature := signature_zero \<lparr> sig_v := 28 \<rparr> \<rparr>) m
      = (Inl MpAlreadyExists, m)"
  unfolding Let_def
  by (rule foreign_transaction_blocks [of _ _ _ "sample_tx TxCancelAll" "stored_entry 5"])
     (simp_all add: sample_tx_def hm_get_def)

text \<open>
  Replacing a transaction by another with the same nonce loses the newer one:
  the older one stays stored, and when it leaves the pool (by a commit, an eviction
  or expiry) the index entry that it shares with its replacement goes with it; the
  replacement stays stored and is never again offered for inclusion.
\<close>

theorem replacement_is_orphaned:
  assumes "index_sound m" "hm_get (mp_txs m) old = Some e" "hm_get (mp_txs m) new = Some e'" "old \<noteq> new"
    and "me_sender e = me_sender e'" "tx_nonce (me_tx e) = tx_nonce (me_tx e')"
    and "m' = snd (mempool_remove old m)"
  shows "mempool_contains m' new \<and> (\<forall>a n. (n, new) \<notin> set (account_txs m' a))"
proof -
  have sound: "index_sound m'" using assms(1,7) by (simp add: mempool_remove_def remove_internal_index_sound)
  have stored: "hm_get (mp_txs m') new = Some e'"
    using assms by (auto simp: mempool_remove_def remove_internal_def)
  have "\<not> indexed (mp_by_account m') (me_sender e') (tx_nonce (me_tx e')) new"
    using assms(1,2,5-7) indexed_unindex [of "mp_by_account m" "me_sender e'" "tx_nonce (me_tx e')"]
    by (auto simp: mempool_remove_def remove_internal_def index_sound_iff)
  then have "\<not> indexed (mp_by_account m') a n new" for a n
    using sound stored unfolding index_sound_iff by (metis option.inject)
  then have "(n, new) \<notin> set (account_txs m' a)" for a n
    using hm_get_in_set [of "mp_by_account m'" a]
    by (cases "hm_get (mp_by_account m') a") (auto simp: indexed_def account_txs_def hm_get_or_def)
  then show ?thesis using stored by (simp add: mempool_contains_def hm_contains_def)
qed

theorem replacement_is_orphaned_witness:
  "let m' = snd (mempool_remove [1] twin_pool) in
   mempool_contains m' [2] \<and> get_account_pending m' 7 = [] \<and> get_account_pending twin_pool 7 \<noteq> []"
proof -
  have "index_sound twin_pool"
    by (simp add: index_sound_def twin_pool_def hm_inv_def bt_inv_def hm_get_def stored_entry_def)
  note this' = replacement_is_orphaned [OF this, of "[1]" "stored_entry 5" "[2]" "stored_entry 5"
      "snd (mempool_remove [1] twin_pool)"]
  have "mempool_contains (snd (mempool_remove [1] twin_pool)) [2]"
    using this' by (simp add: twin_pool_def hm_get_def)
  moreover have "get_account_pending (snd (mempool_remove [1] twin_pool)) 7 = []"
    by (simp add: get_account_pending_def account_txs_def mempool_remove_def remove_internal_def twin_pool_def
        unindex_account_def hm_get_def hm_get_or_def hm_remove_def stored_entry_def List.map_filter_def)
  ultimately show ?thesis
    by (simp add: get_account_pending_def account_txs_def twin_pool_def hm_get_or_def hm_get_def mempool_get_def
        List.map_filter_def)
qed

end
