(* ===== verification/Events.thy ===== *)
theory Events
  imports Order
begin

text \<open>
  The block events that the chain emits for indexers and subscribers, from
  \<open>crates/primitives/src/events.rs\<close>.  Their JSON form is serde's.
\<close>

datatype cancel_reason =
    CancelUserRequested
  | CancelSelfTrade
  | CancelIocUnfilled
  | CancelFokNotFilled
  | CancelPostOnlyWouldCross
  | CancelReduceOnlyViolation
  | CancelInsufficientMargin
  | CancelMarketClosed
  | CancelLiquidation
  | CancelPositionClosed

record fill_event =
  fe_trade_id :: nat
  fe_order_id :: order_id
  fe_account :: address
  fe_market :: market_id
  fe_side :: side
  fe_price :: decimal
  fe_size :: decimal
  fe_fee :: decimal
  fe_is_taker :: bool
  fe_realized_pnl :: int
  fe_timestamp :: timestamp

record order_placed_event =
  op_order_id :: order_id
  op_account :: address
  op_market :: market_id
  op_side :: side
  op_price :: decimal
  op_size :: decimal
  op_reduce_only :: bool
  op_cloid :: "string option"
  op_timestamp :: timestamp

record order_canceled_event =
  oc_order_id :: order_id
  oc_account :: address
  oc_market :: market_id
  oc_reason :: cancel_reason
  oc_timestamp :: timestamp

record position_updated_event =
  pu_account :: address
  pu_market :: market_id
  pu_size :: int
  pu_entry_notional :: decimal
  pu_leverage :: nat
  pu_timestamp :: timestamp

record funding_applied_event =
  fa_market :: market_id
  fa_funding_rate :: int
  fa_mark_price :: decimal
  fa_index_price :: decimal
  fa_timestamp :: timestamp

record liquidation_event =
  lq_account :: address
  lq_market :: market_id
  lq_size :: int
  lq_price :: decimal
  lq_pnl :: int
  lq_timestamp :: timestamp

record usd_transfer_event =
  ut_from :: address
  ut_to :: address
  ut_amount :: decimal
  ut_timestamp :: timestamp

record leverage_updated_event =
  lu_account :: address
  lu_market :: market_id
  lu_leverage :: nat
  lu_is_cross :: bool
  lu_timestamp :: timestamp

datatype block_event =
    FillEv fill_event
  | OrderPlacedEv order_placed_event
  | OrderCanceledEv order_canceled_event
  | PositionUpdatedEv position_updated_event
  | FundingAppliedEv funding_applied_event
  | LiquidationEv liquidation_event
  | UsdTransferEv usd_transfer_event
  | LeverageUpdatedEv leverage_updated_event

end
