(* ===== verification/App_State.thy ===== *)
theory App_State
  imports Engine Spot_Engine Transaction Events "HOL-Library.Product_Lexorder" "HOL-Library.List_Lexorder" "HOL-Library.Char_ord"
begin

text \<open>
  The application state of the chain, from \<open>crates/chain/src/state.rs\<close>: nonces, client
  order ids, block bookkeeping, the commitment to the whole state, Merkle proofs, and
  the snapshot for re-organisations.  The shared ledger, which the source reaches
  through reference-counted locks from three places, is one component here; locks
  are held for one operation at a time.
\<close>

section \<open>State\<close>

record block_meta =
  bm_height :: nat
  bm_timestamp :: timestamp
  bm_hash :: digest
  bm_proposer :: "address option"
  bm_tx_count :: nat

record app_state =
  ap_unified :: unified_state
  ap_perp :: "engine option"
  ap_engine :: engine_state
  ap_spot :: "spot_state option"
  ap_evm_root :: "digest option"
  ap_height :: nat
  ap_timestamp :: timestamp
  ap_app_hash :: digest
  ap_nonces :: "(address, nat) hash_map"
  ap_pending_txs :: "transaction list"
  ap_block_hashes :: "(nat, digest) hash_map"
  ap_block_metadata :: "(nat, block_meta) hash_map"
  ap_block_events :: "(nat, block_event list) hash_map"
  ap_cloid_to_oid :: "(address \<times> string, market_id \<times> order_id) hash_map"
  ap_oid_to_cloid :: "(market_id \<times> order_id, address \<times> string) hash_map"
  ap_last_timestamp_nonces :: "(address, nat) hash_map"
  ap_pending_events :: "block_event list"
  ap_next_trade_id :: nat
  ap_unified_tree :: "merkle_tree option"
  ap_nonce_tree :: "merkle_tree option"
  ap_last_evidence_count :: nat
  ap_total_evidence_count :: nat

definition app_state_of :: "unified_state \<Rightarrow> engine option \<Rightarrow> engine_state \<Rightarrow> spot_state option \<Rightarrow> app_state" where
  "app_state_of us perp es spot =
     \<lparr> ap_unified = us, ap_perp = perp, ap_engine = es, ap_spot = spot, ap_evm_root = None, ap_height = 0,
       ap_timestamp = 0, ap_app_hash = replicate 32 0, ap_nonces = [], ap_pending_txs = [], ap_block_hashes = [],
       ap_block_metadata = [], ap_block_events = [], ap_cloid_to_oid = [], ap_oid_to_cloid = [],
       ap_last_timestamp_nonces = [], ap_pending_events = [], ap_next_trade_id = 1, ap_unified_tree = None,
       ap_nonce_tree = None, ap_last_evidence_count = 0, ap_total_evidence_count = 0 \<rparr>"

definition app_state_new :: app_state where
  "app_state_new = app_state_of us_new None engine_state_new None"

definition with_shared_state :: "unified_state \<Rightarrow> engine_state \<Rightarrow> spot_state option \<Rightarrow> app_state" where
  "with_shared_state us es spot = app_state_of us None es spot"

definition with_full_engine :: "unified_state \<Rightarrow> engine \<Rightarrow> spot_state option \<Rightarrow> app_state" where
  "with_full_engine us perp spot = app_state_of us (Some perp) engine_state_new spot"

section \<open>Client order ids, blocks and trade ids\<close>

definition register_cloid :: "address \<Rightarrow> string \<Rightarrow> market_id \<Rightarrow> order_id \<Rightarrow> app_state \<Rightarrow> app_state" where
  "register_cloid a c m i st = st
     \<lparr> ap_cloid_to_oid := hm_insert (a, c) (m, i) (ap_cloid_to_oid st),
       ap_oid_to_cloid := hm_insert (m, i) (a, c) (ap_oid_to_cloid st) \<rparr>"

definition get_order_by_cloid :: "app_state \<Rightarrow> address \<Rightarrow> string \<Rightarrow> (market_id \<times> order_id) option" where
  "get_order_by_cloid st a c = hm_get (ap_cloid_to_oid st) (a, c)"

definition remove_cloid :: "address \<Rightarrow> string \<Rightarrow> app_state \<Rightarrow> app_state" where
  "remove_cloid a c st = (case hm_get (ap_cloid_to_oid st) (a, c) of
       None \<Rightarrow> st
     | Some mi \<Rightarrow> st \<lparr> ap_cloid_to_oid := hm_remove (a, c) (ap_cloid_to_oid st),
         ap_oid_to_cloid := hm_remove mi (ap_oid_to_cloid st) \<rparr>)"

definition remove_cloid_by_order :: "market_id \<Rightarrow> order_id \<Rightarrow> app_state \<Rightarrow> bool \<times> app_state" where
  "remove_cloid_by_order m i st = (case hm_get (ap_oid_to_cloid st) (m, i) of
       None \<Rightarrow> (False, st)
     | Some ac \<Rightarrow> (True, st \<lparr> ap_oid_to_cloid := hm_remove (m, i) (ap_oid_to_cloid st),
         ap_cloid_to_oid := hm_remove ac (ap_cloid_to_oid st) \<rparr>))"

definition store_block_metadata :: "block_meta \<Rightarrow> app_state \<Rightarrow> app_state" where
  "store_block_metadata bm st = st \<lparr> ap_block_metadata := hm_insert (bm_height bm) bm (ap_block_metadata st) \<rparr>"

definition store_block_events :: "nat \<Rightarrow> block_event list \<Rightarrow> app_state \<Rightarrow> app_state" where
  "store_block_events h evs st = st \<lparr> ap_block_events := hm_insert h evs (ap_block_events st) \<rparr>"

definition get_block_events :: "app_state \<Rightarrow> nat \<Rightarrow> block_event list" where
  "get_block_events st h = hm_get_or [] (ap_block_events st) h"

definition add_pending_block_event :: "block_event \<Rightarrow> app_state \<Rightarrow> app_state" where
  "add_pending_block_event ev st = st \<lparr> ap_pending_events := ap_pending_events st @ [ev] \<rparr>"

definition take_pending_block_events :: "app_state \<Rightarrow> block_event list \<times> app_state" where
  "take_pending_block_events st = (ap_pending_events st, st \<lparr> ap_pending_events := [] \<rparr>)"

definition next_trade_id :: "app_state \<Rightarrow> nat \<times> app_state" where
  "next_trade_id st = (ap_next_trade_id st, st \<lparr> ap_next_trade_id := wrap_u64 (ap_next_trade_id st + 1) \<rparr>)"

section \<open>Nonces\<close>

definition TIMESTAMP_THRESHOLD :: nat where
  "TIMESTAMP_THRESHOLD = 1000000000000"

definition get_nonce :: "app_state \<Rightarrow> address \<Rightarrow> nat" where
  "get_nonce st a = hm_get_or 0 (ap_nonces st) a"

definition increment_nonce :: "address \<Rightarrow> app_state \<Rightarrow> app_state" where
  "increment_nonce a st = st \<lparr> ap_nonces := hm_insert a (wrap_u64 (get_nonce st a + 1)) (ap_nonces st) \<rparr>"

text \<open>The sums saturate for timestamps and wrap for sequential nonces.\<close>

definition validate_nonce :: "app_state \<Rightarrow> address \<Rightarrow> nat \<Rightarrow> nat \<Rightarrow> bool" where
  "validate_nonce st a nonce now =
    (if nonce > TIMESTAMP_THRESHOLD
     then nonce > now - 3600000 \<and> nonce < min (now + 3600000) (2 ^ 64 - 1) \<and>
       nonce > hm_get_or 0 (ap_last_timestamp_nonces st) a
     else nonce \<ge> get_nonce st a \<and> nonce < wrap_u64 (get_nonce st a + 100))"

definition update_timestamp_nonce :: "address \<Rightarrow> nat \<Rightarrow> app_state \<Rightarrow> app_state" where
  "update_timestamp_nonce a nonce st =
    (if nonce > TIMESTAMP_THRESHOLD
     then st \<lparr> ap_last_timestamp_nonces := hm_insert a (max nonce (hm_get_or 0 (ap_last_timestamp_nonces st) a))
                (ap_last_timestamp_nonces st) \<rparr>
     else st)"

datatype state_error = StInvalidNonce | StInvalidSignature | StInsufficientBalance | StMarketNotFound | StInternal string

definition validate_tx :: "ecdsa \<Rightarrow> hash_fn \<Rightarrow> transaction \<Rightarrow> nat \<Rightarrow> app_state \<Rightarrow> state_error + unit" where
  "validate_tx ec keccak tx now st = (case tx_sender ec keccak tx of
       Inl _ \<Rightarrow> Inl StInvalidSignature
     | Inr a \<Rightarrow> if validate_nonce st a (tx_nonce tx) now then Inr () else Inl StInvalidNonce)"

definition add_pending_tx :: "transaction \<Rightarrow> app_state \<Rightarrow> app_state" where
  "add_pending_tx tx st = st \<lparr> ap_pending_txs := ap_pending_txs st @ [tx] \<rparr>"

definition st_begin_block :: "nat \<Rightarrow> timestamp \<Rightarrow> app_state \<Rightarrow> app_state" where
  "st_begin_block h ts st = st \<lparr> ap_height := h, ap_timestamp := ts, ap_pending_txs := [] \<rparr>"


section \<open>Ledger operations and restoring\<close>

definition st_credit_balance :: "address \<Rightarrow> nat \<Rightarrow> decimal \<Rightarrow> app_state \<Rightarrow> app_state option" where
  "st_credit_balance a t amount st = map_option (\<lambda>us. st \<lparr> ap_unified := us \<rparr>) (credit a t amount (ap_unified st))"

definition get_core_balance :: "app_state \<Rightarrow> address \<Rightarrow> nat \<Rightarrow> decimal" where
  "get_core_balance st a t = get_core_view (ap_unified st) a t"

definition get_total_balance :: "app_state \<Rightarrow> address \<Rightarrow> nat \<Rightarrow> decimal" where
  "get_total_balance st a t = get_total (ap_unified st) a t"

definition st_view_result ::
  "(view_transfer_error + unit) \<times> unified_state \<Rightarrow> app_state \<Rightarrow> ((state_error + unit) \<times> app_state) option" where
  "st_view_result r st = (case r of
       (Inr u, us) \<Rightarrow> Some (Inr (), st \<lparr> ap_unified := us \<rparr>)
     | (Inl e, us) \<Rightarrow> map_option (\<lambda>msg. (Inl (StInternal msg), st \<lparr> ap_unified := us \<rparr>)) (vte_to_string e))"

definition transfer_to_evm :: "address \<Rightarrow> nat \<Rightarrow> decimal \<Rightarrow> app_state \<Rightarrow> ((state_error + unit) \<times> app_state) option" where
  "transfer_to_evm a t amount st = do { r \<leftarrow> transfer_to_evm_view a t amount (ap_unified st); st_view_result r st }"

definition transfer_to_core :: "address \<Rightarrow> nat \<Rightarrow> decimal \<Rightarrow> app_state \<Rightarrow> ((state_error + unit) \<times> app_state) option" where
  "transfer_to_core a t amount st = do { r \<leftarrow> transfer_to_core_view a t amount (ap_unified st); st_view_result r st }"

definition restore_nonces :: "(address, nat) hash_map \<Rightarrow> app_state \<Rightarrow> app_state" where
  "restore_nonces ns st = st \<lparr> ap_nonces := ns \<rparr>"

definition restore_cloid_mappings ::
  "(address \<times> string, market_id \<times> order_id) hash_map \<Rightarrow> app_state \<Rightarrow> app_state" where
  "restore_cloid_mappings cs st = st
     \<lparr> ap_oid_to_cloid := fold (\<lambda>(ac, mi) m. hm_insert mi ac m) cs [], ap_cloid_to_oid := cs \<rparr>"

definition restore_block_hashes :: "(nat, digest) hash_map \<Rightarrow> app_state \<Rightarrow> app_state" where
  "restore_block_hashes hs st = st \<lparr> ap_block_hashes := hs \<rparr>"

definition restore_block_metadata :: "(nat, block_meta) hash_map \<Rightarrow> app_state \<Rightarrow> app_state" where
  "restore_block_metadata ms st = st \<lparr> ap_block_metadata := ms \<rparr>"

definition restore_chain_state :: "nat \<Rightarrow> timestamp \<Rightarrow> digest \<Rightarrow> app_state \<Rightarrow> app_state" where
  "restore_chain_state h ts ah st = st \<lparr> ap_height := h, ap_timestamp := ts, ap_app_hash := ah \<rparr>"

section \<open>Snapshots for re-organisations\<close>

text \<open>
  The perpetuals part of the snapshot is taken from, and restored to, the field
  \<open>engine\<close>; the engine that executes orders is \<open>perp_engine\<close>.
\<close>

record app_state_snapshot =
  an_unified :: "(nat \<times> nat, unified_balance) hash_map"
  an_engine :: engine_snapshot
  an_spot :: "spot_snapshot option"
  an_height :: nat
  an_timestamp :: timestamp
  an_app_hash :: digest
  an_nonces :: "(address, nat) hash_map"
  an_block_hashes :: "(nat, digest) hash_map"
  an_block_metadata :: "(nat, block_meta) hash_map"
  an_block_events :: "(nat, block_event list) hash_map"
  an_cloid_to_oid :: "(address \<times> string, market_id \<times> order_id) hash_map"
  an_last_timestamp_nonces :: "(address, nat) hash_map"
  an_next_trade_id :: nat

definition snapshot_blocking :: "app_state \<Rightarrow> app_state_snapshot" where
  "snapshot_blocking st =
     \<lparr> an_unified = us_snapshot (ap_unified st), an_engine = es_snapshot (ap_engine st),
       an_spot = map_option sp_snapshot (ap_spot st), an_height = ap_height st, an_timestamp = ap_timestamp st,
       an_app_hash = ap_app_hash st, an_nonces = ap_nonces st, an_block_hashes = ap_block_hashes st,
       an_block_metadata = ap_block_metadata st, an_block_events = ap_block_events st,
       an_cloid_to_oid = ap_cloid_to_oid st, an_last_timestamp_nonces = ap_last_timestamp_nonces st,
       an_next_trade_id = ap_next_trade_id st \<rparr>"

definition restore_blocking :: "app_state_snapshot \<Rightarrow> app_state \<Rightarrow> app_state" where
  "restore_blocking sn st = st
     \<lparr> ap_unified := us_restore (an_unified sn) (ap_unified st), ap_engine := es_restore (an_engine sn) (ap_engine st),
       ap_spot := (case (ap_spot st, an_spot sn) of (Some sp, Some s) \<Rightarrow> Some (sp_restore s sp) | (sp, _) \<Rightarrow> sp),
       ap_height := an_height sn, ap_timestamp := an_timestamp sn, ap_app_hash := an_app_hash sn,
       ap_nonces := an_nonces sn, ap_block_hashes := an_block_hashes sn, ap_block_metadata := an_block_metadata sn,
       ap_block_events := an_block_events sn, ap_cloid_to_oid := an_cloid_to_oid sn,
       ap_last_timestamp_nonces := an_last_timestamp_nonces sn, ap_next_trade_id := an_next_trade_id sn,
       ap_pending_txs := [], ap_pending_events := [], ap_unified_tree := None, ap_nonce_tree := None \<rparr>"

section \<open>Replay protection\<close>

text \<open>
  What happens to the nonces between two transactions: accepting one of any sender,
  or anything else that leaves the record of timestamp nonces alone.
\<close>

definition accept_nonce :: "address \<Rightarrow> nat \<Rightarrow> app_state \<Rightarrow> app_state" where
  "accept_nonce a n st = update_timestamp_nonce a n (increment_nonce a st)"

inductive nonce_step :: "app_state \<Rightarrow> app_state \<Rightarrow> bool" where
  accepted: "validate_nonce st a n now \<Longrightarrow> nonce_step st (accept_nonce a n st)"
| other: "ap_last_timestamp_nonces st' = ap_last_timestamp_nonces st \<Longrightarrow> nonce_step st st'"

inductive_cases nonce_stepE: "nonce_step st st'"

definition last_nonce :: "app_state \<Rightarrow> address \<Rightarrow> nat" where
  "last_nonce st a = hm_get_or 0 (ap_last_timestamp_nonces st) a"

lemma last_nonce_accept:
  "last_nonce (accept_nonce b n st) a =
     (if a = b \<and> n > TIMESTAMP_THRESHOLD then max n (last_nonce st a) else last_nonce st a)"
  by (simp add: last_nonce_def accept_nonce_def update_timestamp_nonce_def increment_nonce_def hm_get_or_insert)

lemma nonce_step_mono: "nonce_step st st' \<Longrightarrow> last_nonce st a \<le> last_nonce st' a"
  by (erule nonce_stepE) (simp_all add: last_nonce_accept, simp add: last_nonce_def)

lemma nonce_steps_mono: "nonce_step\<^sup>*\<^sup>* st st' \<Longrightarrow> last_nonce st a \<le> last_nonce st' a"
  by (induction rule: rtranclp_induct) (auto dest: nonce_step_mono order_trans)

lemma validate_timestamp_nonce:
  "n > TIMESTAMP_THRESHOLD \<Longrightarrow> validate_nonce st a n now \<Longrightarrow> last_nonce st a < n"
  by (simp add: validate_nonce_def last_nonce_def)

text \<open>
  A timestamp nonce is accepted at most once: whatever is executed after the
  transaction that used it, and at whatever time, it is refused again, and so is
  every smaller timestamp nonce of that sender.
\<close>

theorem timestamp_nonce_used_once:
  assumes "validate_nonce st a n now" "TIMESTAMP_THRESHOLD < n" "nonce_step\<^sup>*\<^sup>* (accept_nonce a n st) st'"
    "TIMESTAMP_THRESHOLD < n'" "n' \<le> n"
  shows "\<not> validate_nonce st' a n' now'"
proof
  assume "validate_nonce st' a n' now'"
  then have "last_nonce st' a < n'" using assms(4) by (rule validate_timestamp_nonce [rotated])
  moreover have "n \<le> last_nonce st' a"
    using nonce_steps_mono [OF assms(3), of a] assms(2) by (simp add: last_nonce_accept)
  ultimately show False using assms(5) by simp
qed

theorem timestamp_nonce_used_once_witness:
  "validate_nonce app_state_new 7 1700000000000 1700000001000 \<and>
   \<not> validate_nonce (accept_nonce 8 3 (accept_nonce 7 1700000000000 app_state_new)) 7 1700000000000 1700000002000"
proof -
  have ok: "validate_nonce app_state_new 7 1700000000000 1700000001000"
    by (simp add: validate_nonce_def TIMESTAMP_THRESHOLD_def app_state_new_def app_state_of_def hm_get_or_def)
  let ?st = "accept_nonce 7 1700000000000 app_state_new"
  have "validate_nonce ?st 8 3 0"
    by (simp add: validate_nonce_def TIMESTAMP_THRESHOLD_def app_state_new_def app_state_of_def hm_get_or_def
        accept_nonce_def update_timestamp_nonce_def increment_nonce_def get_nonce_def hm_get_insert wrap_u64_def u64_mod_def)
  then have "nonce_step\<^sup>*\<^sup>* ?st (accept_nonce 8 3 ?st)" by (blast intro: nonce_step.accepted)
  then show ?thesis
    using ok timestamp_nonce_used_once [OF ok, of _ 1700000000000 1700000002000] by (simp add: TIMESTAMP_THRESHOLD_def)
qed

lemma get_nonce_increment:
  "get_nonce (increment_nonce b st) a = (if a = b then wrap_u64 (get_nonce st a + 1) else get_nonce st a)"
  by (simp add: get_nonce_def increment_nonce_def hm_get_or_insert)

lemma get_nonce_increments:
  "get_nonce st a + k < 2 ^ 64 \<Longrightarrow> get_nonce ((increment_nonce a ^^ k) st) a = get_nonce st a + k"
  by (induction k) (simp_all add: get_nonce_increment wrap_u64_def u64_mod_def)

text \<open>
  A sequential nonce is not consumed by its use: acceptance only counts the
  transactions of the account, so the very same nonce is accepted again until the
  count has passed it, up to a hundred times.
\<close>

theorem sequential_nonce_accepted_again:
  assumes "n \<le> TIMESTAMP_THRESHOLD" "get_nonce st a + k + 100 < 2 ^ 64"
  shows "validate_nonce ((increment_nonce a ^^ k) st) a n now \<longleftrightarrow>
    get_nonce st a + k \<le> n \<and> n < get_nonce st a + k + 100"
  using assms by (simp add: validate_nonce_def get_nonce_increments wrap_u64_def u64_mod_def)

section \<open>Client order ids\<close>

text \<open>The two maps are inverse to each other.\<close>

definition cloid_inv :: "app_state \<Rightarrow> bool" where
  "cloid_inv st = hm_inverse (ap_cloid_to_oid st) (ap_oid_to_cloid st)"

text \<open>
  Registering a fresh client id for a fresh order, and either kind of removal,
  keep the maps inverse; the registered id is found again.
\<close>

lemma register_cloid_inv:
  assumes "cloid_inv st" "hm_get (ap_cloid_to_oid st) (a, c) = None" "hm_get (ap_oid_to_cloid st) (m, i) = None"
  shows "cloid_inv (register_cloid a c m i st)" "get_order_by_cloid (register_cloid a c m i st) a c = Some (m, i)"
  using assms by (simp_all add: cloid_inv_def register_cloid_def get_order_by_cloid_def hm_inverse_insert hm_get_insert)

lemma remove_cloid_inv:
  assumes "cloid_inv st"
  shows "cloid_inv (remove_cloid a c st)" "get_order_by_cloid (remove_cloid a c st) a c = None"
  using assms
  by (auto simp: cloid_inv_def remove_cloid_def get_order_by_cloid_def hm_get_remove intro: hm_inverse_remove
      split: option.splits)

lemma remove_cloid_by_order_inv:
  "cloid_inv st \<Longrightarrow> cloid_inv (snd (remove_cloid_by_order m i st))"
  by (auto simp: cloid_inv_def remove_cloid_by_order_def intro: hm_inverse_remove split: option.splits)

text \<open>
  Reusing a client id breaks them: the entry of the older order survives in the
  reverse map, and when that order is filled its cleanup removes the client id
  that now belongs to the newer, still resting, order.
\<close>

theorem reused_cloid_is_lost:
  assumes "(m, i) \<noteq> (m', j)"
  shows "get_order_by_cloid (register_cloid a c m' j (register_cloid a c m i st)) a c = Some (m', j)"
    "get_order_by_cloid (snd (remove_cloid_by_order m i (register_cloid a c m' j (register_cloid a c m i st)))) a c = None"
  using assms by (auto simp: register_cloid_def get_order_by_cloid_def remove_cloid_by_order_def hm_get_insert hm_get_remove)

section \<open>Restoring a snapshot\<close>

text \<open>Restoring brings back the ledger, the nonces and the chain data, and keeps the matching engine as it is.\<close>

theorem restore_reverts_ledger_not_engine:
  "ap_unified (restore_blocking (snapshot_blocking st) st') = ap_unified st"
  "ap_nonces (restore_blocking (snapshot_blocking st) st') = ap_nonces st"
  "ap_last_timestamp_nonces (restore_blocking (snapshot_blocking st) st') = ap_last_timestamp_nonces st"
  "ap_app_hash (restore_blocking (snapshot_blocking st) st') = ap_app_hash st"
  "ap_cloid_to_oid (restore_blocking (snapshot_blocking st) st') = ap_cloid_to_oid st"
  "ap_perp (restore_blocking (snapshot_blocking st) st') = ap_perp st'"
  "ap_oid_to_cloid (restore_blocking (snapshot_blocking st) st') = ap_oid_to_cloid st'"
  by (simp_all add: restore_blocking_def snapshot_blocking_def us_restore_def us_snapshot_def)

end
