(* ===== verification/State_Commitment.thy ===== *)
theory State_Commitment
  imports App_State Merkle Engine_History
begin

text \<open>
  The commitment to the application state, from \<open>crates/chain/src/state.rs\<close>: the Merkle
  trees over balances and nonces, the roots of positions, orders, markets, leverage and
  client ids, the application hash, the end of a block, and the proofs for light
  clients.  The root of the EVM state is a value of the model (\<open>ap_evm_root\<close>).
\<close>

section \<open>Leaves\<close>

text \<open>\<open>i128::to_le_bytes\<close>\<close>

definition i128_le :: "int \<Rightarrow> byte list" where
  "i128_le x = map (\<lambda>i. word_of_int (x div 256 ^ i)) [0..<16]"

definition dec_le :: "decimal \<Rightarrow> byte list" where
  "dec_le d = i128_le (d_val d)"

definition balance_key :: "address \<Rightarrow> nat \<Rightarrow> byte list" where
  "balance_key a t = address_bytes a @ [word_of_nat t]"

definition balance_value :: "unified_balance \<Rightarrow> byte list" where
  "balance_value b = dec_le (ub_total b) @ dec_le (ub_core b) @ dec_le (ub_evm b)"

definition build_unified_state_tree :: "hash_fn \<Rightarrow> unified_state \<Rightarrow> merkle_tree" where
  "build_unified_state_tree keccak us =
     from_entries keccak (map (\<lambda>((a, t), b). (balance_key a t, balance_value b)) (sort_key fst us))"

definition compute_unified_state_root :: "hash_fn \<Rightarrow> unified_state \<Rightarrow> digest" where
  "compute_unified_state_root keccak us = mt_root keccak (build_unified_state_tree keccak us)"

definition build_nonce_tree :: "hash_fn \<Rightarrow> (address, nat) hash_map \<Rightarrow> merkle_tree" where
  "build_nonce_tree keccak ns = from_entries keccak (map (\<lambda>(a, n). (address_bytes a, u64_le n)) (sort_key fst ns))"

definition compute_nonce_root :: "hash_fn \<Rightarrow> (address, nat) hash_map \<Rightarrow> digest" where
  "compute_nonce_root keccak ns = mt_root keccak (build_nonce_tree keccak ns)"

section \<open>Roots of the engine state\<close>

text \<open>The rows of a nested map, ordered by both keys.\<close>

definition sorted_rows :: "('a::linorder, 'b::linorder, 'v) nested_map \<Rightarrow> ('a \<times> 'b \<times> 'v) list" where
  "sorted_rows m = sort_key (\<lambda>(a, b, _). (a, b)) (flatten m)"

definition position_value :: "position \<Rightarrow> byte list" where
  "position_value p = dec_le (p_size p) @ dec_le (p_entry_notional p) @ dec_le (p_realized_pnl p) @
     dec_le (p_last_funding_index p)"

definition positions_root :: "hash_fn \<Rightarrow> engine_state \<Rightarrow> digest" where
  "positions_root keccak s = mt_root keccak (from_entries keccak
     (map (\<lambda>(a, m, p). (address_bytes a @ [word_of_nat m], position_value p)) (sorted_rows (es_positions s))))"

definition order_value :: "order \<Rightarrow> byte list" where
  "order_value ord = address_bytes (o_owner ord) @ [case o_side ord of Buy \<Rightarrow> 0 | Sell \<Rightarrow> 1] @ dec_le (o_price ord) @
     dec_le (o_orig ord) @ dec_le (o_rem ord)"

definition orders_root :: "hash_fn \<Rightarrow> engine_state \<Rightarrow> digest" where
  "orders_root keccak s = mt_root keccak (from_entries keccak
     (map (\<lambda>(m, i, ord). (word_of_nat m # u64_le i, order_value ord)) (sorted_rows (es_orders s))))"

definition market_value :: "market \<Rightarrow> byte list" where
  "market_value mk = (let s = m_state mk in dec_le (ms_mark_price s) @ dec_le (ms_index_price s) @
     dec_le (ms_funding_rate s) @ dec_le (ms_oi_long s) @ dec_le (ms_oi_short s))"

definition markets_root :: "hash_fn \<Rightarrow> engine_state \<Rightarrow> digest" where
  "markets_root keccak s = mt_root keccak (from_entries keccak
     (map (\<lambda>mk. ([word_of_nat (mc_id (m_config mk))], market_value mk))
       (sort_key (\<lambda>mk. mc_id (m_config mk)) (hm_values (es_markets s)))))"

definition leverage_root :: "hash_fn \<Rightarrow> engine_state \<Rightarrow> digest" where
  "leverage_root keccak s = mt_root keccak (from_entries keccak
     (map (\<lambda>(a, m, l). (address_bytes a @ [word_of_nat m], [word_of_nat l])) (sorted_rows (es_leverage s))))"

definition scalars_hash :: "hash_fn \<Rightarrow> engine_state \<Rightarrow> digest" where
  "scalars_hash keccak s = keccak (i128_le (es_insurance_fund s) @ u64_le (es_next_order_id s))"

definition compute_cloid_root ::
  "hash_fn \<Rightarrow> (address \<times> string, market_id \<times> order_id) hash_map \<Rightarrow> digest" where
  "compute_cloid_root keccak cs = mt_root keccak (from_entries keccak
     (map (\<lambda>((a, c), (m, i)). (address_bytes a @ keccak (string_bytes c), word_of_nat m # u64_le i))
       (sort_key fst cs)))"

section \<open>The application hash\<close>

text \<open>The trading state is that of the matching engine, when there is one.\<close>

definition trading_state :: "app_state \<Rightarrow> engine_state" where
  "trading_state st = (case ap_perp st of Some en \<Rightarrow> en_state en | None \<Rightarrow> ap_engine st)"

definition compute_app_hash :: "hash_fn \<Rightarrow> app_state \<Rightarrow> digest" where
  "compute_app_hash keccak st = (let es = trading_state st in
     keccak (u64_le (ap_height st) @ u64_le (ap_timestamp st) @ ap_app_hash st @
       compute_unified_state_root keccak (ap_unified st) @ compute_nonce_root keccak (ap_nonces st) @
       positions_root keccak es @ orders_root keccak es @ markets_root keccak es @ leverage_root keccak es @
       scalars_hash keccak es @ compute_cloid_root keccak (ap_cloid_to_oid st) @
       (case ap_evm_root st of Some r \<Rightarrow> r | None \<Rightarrow> [])))"

lemma compute_app_hash_cong:
  "ap_height st = ap_height st' \<Longrightarrow> ap_timestamp st = ap_timestamp st' \<Longrightarrow> ap_app_hash st = ap_app_hash st' \<Longrightarrow>
   ap_unified st = ap_unified st' \<Longrightarrow> ap_nonces st = ap_nonces st' \<Longrightarrow> ap_perp st = ap_perp st' \<Longrightarrow>
   ap_engine st = ap_engine st' \<Longrightarrow> ap_cloid_to_oid st = ap_cloid_to_oid st' \<Longrightarrow> ap_evm_root st = ap_evm_root st' \<Longrightarrow>
   compute_app_hash keccak st = compute_app_hash keccak st'"
  by (cases "ap_perp st'") (simp_all add: compute_app_hash_def trading_state_def)

definition st_end_block :: "hash_fn \<Rightarrow> app_state \<Rightarrow> digest \<times> app_state" where
  "st_end_block keccak st =
    (let st1 = st \<lparr> ap_unified_tree := Some (build_unified_state_tree keccak (ap_unified st)),
                   ap_nonce_tree := Some (build_nonce_tree keccak (ap_nonces st)) \<rparr>;
         h = compute_app_hash keccak st1
     in (h, st1 \<lparr> ap_app_hash := h, ap_block_hashes := hm_insert (ap_height st1) h (ap_block_hashes st1) \<rparr>))"

section \<open>Proofs for light clients\<close>

definition get_unified_state_root :: "hash_fn \<Rightarrow> app_state \<Rightarrow> digest" where
  "get_unified_state_root keccak st = (case ap_unified_tree st of
       Some t \<Rightarrow> mt_root keccak t | None \<Rightarrow> compute_unified_state_root keccak (ap_unified st))"

definition get_nonce_root :: "hash_fn \<Rightarrow> app_state \<Rightarrow> digest" where
  "get_nonce_root keccak st = (case ap_nonce_tree st of
       Some t \<Rightarrow> mt_root keccak t | None \<Rightarrow> compute_nonce_root keccak (ap_nonces st))"

text \<open>\<open>Iterator::position\<close>\<close>

fun find_index :: "('a \<Rightarrow> bool) \<Rightarrow> 'a list \<Rightarrow> nat option" where
  "find_index P [] = None"
| "find_index P (x # xs) = (if P x then Some 0 else map_option Suc (find_index P xs))"

definition prove_balance :: "app_state \<Rightarrow> address \<Rightarrow> nat \<Rightarrow> merkle_proof option" where
  "prove_balance st a t = do {
     tree \<leftarrow> ap_unified_tree st;
     i \<leftarrow> find_index (\<lambda>(k, _). k = (a, t)) (sort_key fst (ap_unified st));
     mt_prove tree i
   }"

definition verify_balance_proof ::
  "hash_fn \<Rightarrow> app_state \<Rightarrow> address \<Rightarrow> nat \<Rightarrow> unified_balance \<Rightarrow> merkle_proof \<Rightarrow> bool" where
  "verify_balance_proof keccak st a t b p =
     (mp_leaf_hash p = hash_entry keccak (balance_key a t) (balance_value b) \<and>
      mp_verify keccak p (get_unified_state_root keccak st))"

definition prove_nonce :: "app_state \<Rightarrow> address \<Rightarrow> merkle_proof option" where
  "prove_nonce st a = do {
     tree \<leftarrow> ap_nonce_tree st;
     i \<leftarrow> find_index (\<lambda>(k, _). k = a) (sort_key fst (ap_nonces st));
     mt_prove tree i
   }"

definition verify_nonce_proof :: "hash_fn \<Rightarrow> app_state \<Rightarrow> address \<Rightarrow> nat \<Rightarrow> merkle_proof \<Rightarrow> bool" where
  "verify_nonce_proof keccak st a n p =
     (mp_leaf_hash p = hash_entry keccak (address_bytes a) (u64_le n) \<and>
      mp_verify keccak p (get_nonce_root keccak st))"

definition st_balance_count :: "app_state \<Rightarrow> nat" where
  "st_balance_count st = (case ap_unified_tree st of Some t \<Rightarrow> leaf_count t | None \<Rightarrow> 0)"

definition nonce_count :: "app_state \<Rightarrow> nat" where
  "nonce_count st = (case ap_nonce_tree st of Some t \<Rightarrow> leaf_count t | None \<Rightarrow> 0)"

section \<open>Determinism\<close>

text \<open>Maps with the same content, whatever the order in which they are iterated.\<close>

definition hm_same :: "('k, 'v) hash_map \<Rightarrow> ('k, 'v) hash_map \<Rightarrow> bool" where
  "hm_same m w = (hm_inv m \<and> hm_inv w \<and> (\<forall>k. hm_get m k = hm_get w k))"

definition nested_same :: "('a, 'b, 'v) nested_map \<Rightarrow> ('a, 'b, 'v) nested_map \<Rightarrow> bool" where
  "nested_same m w = (nested_inv m \<and> nested_inv w \<and> (\<forall>a b. nget m a b = nget w a b))"

definition same_trading :: "engine_state \<Rightarrow> engine_state \<Rightarrow> bool" where
  "same_trading s s' = (nested_same (es_positions s) (es_positions s') \<and> nested_same (es_orders s) (es_orders s') \<and>
     nested_same (es_leverage s) (es_leverage s') \<and> hm_same (es_markets s) (es_markets s') \<and>
     (\<forall>(i, mk) \<in> set (es_markets s). mc_id (m_config mk) = i) \<and>
     es_insurance_fund s = es_insurance_fund s' \<and> es_next_order_id s = es_next_order_id s')"

definition same_committed :: "app_state \<Rightarrow> app_state \<Rightarrow> bool" where
  "same_committed st st' = (ap_height st = ap_height st' \<and> ap_timestamp st = ap_timestamp st' \<and>
     ap_app_hash st = ap_app_hash st' \<and> ap_evm_root st = ap_evm_root st' \<and>
     hm_same (ap_unified st) (ap_unified st') \<and> hm_same (ap_nonces st) (ap_nonces st') \<and>
     hm_same (ap_cloid_to_oid st) (ap_cloid_to_oid st') \<and> same_trading (trading_state st) (trading_state st'))"

lemma hm_same_set: "hm_same m w \<Longrightarrow> set m = set w"
  by (auto simp: hm_same_def) (metis hm_get_in_set hm_in_set_get)+

lemma sort_key_unique:
  assumes "set xs = set ys" "distinct (map f xs)" "distinct (map f ys)"
  shows "sort_key f xs = sort_key f ys"
  using assms by (intro map_sorted_distinct_set_unique [of f]) (simp_all add: distinct_map)

lemma hm_same_sorted: "hm_same m w \<Longrightarrow> sort_key fst m = sort_key fst w"
  using hm_same_set [of m w] by (auto intro!: sort_key_unique simp: hm_same_def hm_inv_def)

lemma inj_pair_key: "inj pair_key"
  by (auto simp: inj_def pair_key_def prod_eq_iff)

lemma nested_same_rows:
  assumes "nested_same m w"
  shows "sorted_rows m = sorted_rows w"
proof -
  have key: "(\<lambda>(a, b, v). (a, b)) = fst \<circ> pair_key" by (auto simp: pair_key_def)
  have dist: "distinct (map (fst \<circ> pair_key) (flatten m))" "distinct (map (fst \<circ> pair_key) (flatten w))"
    using assms by (simp_all add: nested_same_def flatten_distinct)
  have "map_of (map pair_key (flatten m)) = map_of (map pair_key (flatten w))"
    using assms by (intro ext) (auto simp: nested_same_def flatten_map_of)
  then have "set (map pair_key (flatten m)) = set (map pair_key (flatten w))"
    using dist by (simp add: map_of_inject_set)
  then have "set (flatten m) = set (flatten w)" by (simp only: set_map inj_image_eq_iff [OF inj_pair_key])
  then show ?thesis unfolding sorted_rows_def key using dist by (rule sort_key_unique)
qed

lemma same_trading_markets:
  assumes "same_trading s s'"
  shows "sort_key (\<lambda>mk. mc_id (m_config mk)) (hm_values (es_markets s)) =
    sort_key (\<lambda>mk. mc_id (m_config mk)) (hm_values (es_markets s'))"
proof (rule sort_key_unique)
  have eq: "set (es_markets s) = set (es_markets s')" using assms by (intro hm_same_set) (simp add: same_trading_def)
  then show "set (hm_values (es_markets s)) = set (hm_values (es_markets s'))" by (simp add: hm_values_def)
  have ids: "map (mc_id \<circ> m_config) (hm_values (es_markets t)) = map fst (es_markets t)" if "set (es_markets t) = set (es_markets s)" for t
    using assms that by (auto simp: same_trading_def hm_values_def)
  then show "distinct (map (\<lambda>mk. mc_id (m_config mk)) (hm_values (es_markets s)))"
    "distinct (map (\<lambda>mk. mc_id (m_config mk)) (hm_values (es_markets s')))"
    using assms ids [of s] ids [of s'] eq by (simp_all add: same_trading_def hm_same_def hm_inv_def comp_def)
qed

text \<open>
  (C10) Validators that hold the same committed state compute the same application
  hash: it depends on the content of the maps and not on the order in which a
  validator's hash maps iterate.
\<close>

theorem app_hash_deterministic:
  assumes "same_committed st st'"
  shows "compute_app_hash keccak st = compute_app_hash keccak st'"
proof -
  have tr: "same_trading (trading_state st) (trading_state st')" using assms by (simp add: same_committed_def)
  then have "sorted_rows (es_positions (trading_state st)) = sorted_rows (es_positions (trading_state st'))"
    "sorted_rows (es_orders (trading_state st)) = sorted_rows (es_orders (trading_state st'))"
    "sorted_rows (es_leverage (trading_state st)) = sorted_rows (es_leverage (trading_state st'))"
    by (simp_all add: same_trading_def nested_same_rows)
  moreover have "sort_key fst (ap_unified st) = sort_key fst (ap_unified st')"
    "sort_key fst (ap_nonces st) = sort_key fst (ap_nonces st')"
    "sort_key fst (ap_cloid_to_oid st) = sort_key fst (ap_cloid_to_oid st')"
    using assms by (simp_all add: same_committed_def hm_same_sorted)
  ultimately show ?thesis
    using assms same_trading_markets [OF tr] tr
    by (simp add: same_committed_def same_trading_def compute_app_hash_def Let_def compute_unified_state_root_def
        build_unified_state_tree_def compute_nonce_root_def build_nonce_tree_def positions_root_def orders_root_def
        markets_root_def leverage_root_def scalars_hash_def compute_cloid_root_def)
qed

lemma hm_same_refl: "hm_inv m \<Longrightarrow> hm_same m m"
  by (simp add: hm_same_def)

theorem app_hash_deterministic_witness:
  "compute_app_hash pad_hash (app_state_new \<lparr> ap_nonces := [(1, 5), (2, 6)] \<rparr>) =
   compute_app_hash pad_hash (app_state_new \<lparr> ap_nonces := [(2, 6), (1, 5)] \<rparr>)"
  by (rule app_hash_deterministic)
    (simp add: same_committed_def same_trading_def nested_same_def nested_inv_def hm_same_def hm_inv_def hm_get_def
      app_state_new_def app_state_of_def trading_state_def us_new_def engine_state_new_def)

section \<open>Balance proofs are complete\<close>

lemma find_index_Some: "x \<in> set xs \<Longrightarrow> P x \<Longrightarrow> (\<And>y. y \<in> set xs \<Longrightarrow> P y \<Longrightarrow> y = x) \<Longrightarrow>
  \<exists>i. find_index P xs = Some i \<and> i < length xs \<and> xs ! i = x"
proof (induction xs)
  case (Cons y xs)
  show ?case
  proof (cases "P y")
    case True
    then have "y = x" using Cons.prems(3) [of y] by simp
    then show ?thesis using True by simp
  next
    case False
    then have "x \<noteq> y" using Cons.prems(2) by blast
    then have "x \<in> set xs" using Cons.prems(1) by simp
    moreover have "z = x" if "z \<in> set xs" "P z" for z using Cons.prems(3) [of z] that by simp
    ultimately obtain i where "find_index P xs = Some i" "i < length xs" "xs ! i = x"
      using Cons.IH Cons.prems(2) by blast
    then show ?thesis using False by simp
  qed
qed simp

text \<open>A key of a hash map is found among the sorted rows, and the tree over them proves its leaf.\<close>

lemma sorted_rows_proof:
  assumes "hm_inv m" "hm_get m k = Some v"
  obtains i p where "find_index (\<lambda>(k', _). k' = k) (sort_key fst m) = Some i"
    "mt_prove (from_entries keccak (map leaf (sort_key fst m))) i = Some p"
    "mp_leaf_hash p = (case leaf (k, v) of (x, y) \<Rightarrow> hash_entry keccak x y)"
    "mp_verify keccak p (mt_root keccak (from_entries keccak (map leaf (sort_key fst m))))"
proof -
  let ?rows = "sort_key fst m"
  let ?leaves = "map ((\<lambda>(x, y). hash_entry keccak x y) \<circ> leaf) ?rows"
  have mem: "(k, v) \<in> set ?rows" using hm_get_in_set [OF assms(2)] by simp
  have uniq: "y = (k, v)" if "y \<in> set ?rows" "case y of (k', _) \<Rightarrow> k' = k" for y
    using that assms by (auto dest: hm_in_set_get)
  have "\<exists>i. find_index (\<lambda>(k', _). k' = k) ?rows = Some i \<and> i < length ?rows \<and> ?rows ! i = (k, v)"
    using find_index_Some [OF mem, of "\<lambda>(k', _). k' = k", OF _ uniq] by simp
  then obtain i where i: "find_index (\<lambda>(k', _). k' = k) ?rows = Some i" "i < length ?rows" "?rows ! i = (k, v)"
    by blast
  have "i < length ?leaves" using i(2) by simp
  then obtain p where p: "mt_prove (from_leaves keccak ?leaves) i = Some p" "mp_leaf_hash p = ?leaves ! i"
    "mt_verify_proof keccak (from_leaves keccak ?leaves) p" by (rule mt_prove_leaf)
  have "from_entries keccak (map leaf ?rows) = from_leaves keccak ?leaves" by (simp add: from_entries_def comp_def)
  moreover have "?leaves ! i = (case leaf (k, v) of (x, y) \<Rightarrow> hash_entry keccak x y)" using i by simp
  ultimately have "mt_prove (from_entries keccak (map leaf ?rows)) i = Some p"
    "mp_leaf_hash p = (case leaf (k, v) of (x, y) \<Rightarrow> hash_entry keccak x y)"
    "mp_verify keccak p (mt_root keccak (from_entries keccak (map leaf ?rows)))"
    using p by (simp_all add: mt_verify_proof_def)
  with i(1) show ?thesis by (rule that)
qed

lemma end_block_sel:
  "ap_unified (snd (st_end_block keccak st)) = ap_unified st"
  "ap_nonces (snd (st_end_block keccak st)) = ap_nonces st"
  "ap_unified_tree (snd (st_end_block keccak st)) = Some (build_unified_state_tree keccak (ap_unified st))"
  "ap_nonce_tree (snd (st_end_block keccak st)) = Some (build_nonce_tree keccak (ap_nonces st))"
  "ap_app_hash (snd (st_end_block keccak st)) = fst (st_end_block keccak st)"
  by (simp_all add: st_end_block_def Let_def)

text \<open>
  After the end of a block every balance of the ledger and every nonce has a
  proof that verifies, for the value in the state, against the root of that block.
\<close>

theorem state_proofs_complete:
  assumes "hm_inv (ap_unified st)" "hm_get (ap_unified st) (a, t) = Some b"
    "hm_inv (ap_nonces st)" "hm_get (ap_nonces st) a = Some n"
  shows "\<exists>p q. prove_balance (snd (st_end_block keccak st)) a t = Some p \<and>
    verify_balance_proof keccak (snd (st_end_block keccak st)) a t b p \<and>
    prove_nonce (snd (st_end_block keccak st)) a = Some q \<and>
    verify_nonce_proof keccak (snd (st_end_block keccak st)) a n q"
proof -
  obtain i p where p: "find_index (\<lambda>(k', _). k' = (a, t)) (sort_key fst (ap_unified st)) = Some i"
    "mt_prove (build_unified_state_tree keccak (ap_unified st)) i = Some p"
    "mp_leaf_hash p = hash_entry keccak (balance_key a t) (balance_value b)"
    "mp_verify keccak p (mt_root keccak (build_unified_state_tree keccak (ap_unified st)))"
    unfolding build_unified_state_tree_def
    by (rule sorted_rows_proof [OF assms(1,2), where keccak = keccak and leaf = "\<lambda>((a, t), b). (balance_key a t, balance_value b)"]) simp
  obtain j q where q: "find_index (\<lambda>(k', _). k' = a) (sort_key fst (ap_nonces st)) = Some j"
    "mt_prove (build_nonce_tree keccak (ap_nonces st)) j = Some q"
    "mp_leaf_hash q = hash_entry keccak (address_bytes a) (u64_le n)"
    "mp_verify keccak q (mt_root keccak (build_nonce_tree keccak (ap_nonces st)))"
    unfolding build_nonce_tree_def
    by (rule sorted_rows_proof [OF assms(3,4), where keccak = keccak and leaf = "\<lambda>(a, n). (address_bytes a, u64_le n)"]) simp
  show ?thesis
    using p q by (simp add: prove_balance_def verify_balance_proof_def prove_nonce_def verify_nonce_proof_def
        end_block_sel get_unified_state_root_def get_nonce_root_def)
qed

definition sample_balance :: unified_balance where
  "sample_balance = \<lparr> ub_total = Decimal 10 6, ub_core = Decimal 10 6, ub_evm = Decimal 0 6 \<rparr>"

definition committed_sample :: app_state where
  "committed_sample = app_state_new \<lparr> ap_unified := [((7, 0), sample_balance)], ap_nonces := [(7, 3)] \<rparr>"

lemma committed_sample:
  "hm_inv (ap_unified committed_sample)" "hm_get (ap_unified committed_sample) (7, 0) = Some sample_balance"
  "hm_inv (ap_nonces committed_sample)" "hm_get (ap_nonces committed_sample) 7 = Some 3"
  by (simp_all add: committed_sample_def hm_inv_def hm_get_def)

theorem state_proofs_complete_witness:
  "\<exists>p q. prove_balance (snd (st_end_block pad_hash committed_sample)) 7 0 = Some p \<and>
    verify_balance_proof pad_hash (snd (st_end_block pad_hash committed_sample)) 7 0 sample_balance p \<and>
    prove_nonce (snd (st_end_block pad_hash committed_sample)) 7 = Some q \<and>
    verify_nonce_proof pad_hash (snd (st_end_block pad_hash committed_sample)) 7 3 q"
  using committed_sample by (rule state_proofs_complete)

section \<open>Balance proofs are binding\<close>

lemma le_bytes_mod:
  "map (\<lambda>i. word_of_int (x div 256 ^ i) :: byte) [0..<n] = map (\<lambda>i. word_of_int (y div 256 ^ i)) [0..<n] \<Longrightarrow>
   x mod 256 ^ n = y mod 256 ^ n"
proof (induction n)
  case (Suc n)
  then have "x mod 256 ^ n = y mod 256 ^ n" and w: "(word_of_int (x div 256 ^ n) :: byte) = word_of_int (y div 256 ^ n)"
    by simp_all
  moreover have "x div 256 ^ n mod 256 = y div 256 ^ n mod 256"
    using arg_cong [OF w, of uint] by (simp add: unsigned_of_int take_bit_eq_mod)
  moreover have "z mod 256 ^ Suc n = 256 ^ n * (z div 256 ^ n mod 256) + z mod 256 ^ n" for z :: int
    using zmod_zmult2_eq [of 256 z "256 ^ n"] by (simp add: mult.commute)
  ultimately show ?case by metis
qed simp

lemma i128_le_inject:
  assumes "i128_le x = i128_le y" "in_i128 x" "in_i128 y"
  shows "x = y"
proof -
  have "x mod 256 ^ 16 = y mod 256 ^ 16" using assms(1) unfolding i128_le_def by (rule le_bytes_mod)
  then have "(256 ^ 16 :: int) dvd x - y" by (simp add: mod_eq_dvd_iff)
  moreover have "\<bar>x - y\<bar> < 256 ^ 16" using assms(2,3) unfolding in_i128_def i128_min_def i128_max_def by simp arith
  ultimately show ?thesis by (metis dvd_imp_le_int linorder_not_less eq_iff_diff_eq_0 abs_of_nonneg zero_le_power zero_le_numeral)
qed

lemma length_i128_le [simp]: "length (i128_le x) = 16"
  by (simp add: i128_le_def)

definition balance_in_range :: "unified_balance \<Rightarrow> bool" where
  "balance_in_range b = (in_i128 (d_val (ub_total b)) \<and> in_i128 (d_val (ub_core b)) \<and> in_i128 (d_val (ub_evm b)))"

definition same_amounts :: "unified_balance \<Rightarrow> unified_balance \<Rightarrow> bool" where
  "same_amounts b b' = (d_val (ub_total b) = d_val (ub_total b') \<and> d_val (ub_core b) = d_val (ub_core b') \<and>
     d_val (ub_evm b) = d_val (ub_evm b'))"

lemma balance_value_inject:
  "balance_value b = balance_value b' \<Longrightarrow> balance_in_range b \<Longrightarrow> balance_in_range b' \<Longrightarrow> same_amounts b b'"
  by (auto simp: balance_value_def dec_le_def balance_in_range_def same_amounts_def dest!: i128_le_inject)

text \<open>The strings hashed on the way from an entry to the root.\<close>

definition proof_inputs :: "hash_fn \<Rightarrow> merkle_proof \<Rightarrow> byte list set" where
  "proof_inputs keccak p = set (path_inputs keccak (mp_leaf_hash p) (zip (mp_siblings p) (mp_directions p)))"

text \<open>
  A light client cannot be convinced of another balance: two proofs of one
  shape that verify in one state for a token of an account are proofs of the same
  amounts, unless Keccak collides on the strings that were hashed.
\<close>

theorem balance_proof_binds:
  assumes "\<And>x. length (keccak x) = 32" "mp_ok p" "mp_ok q" "mp_directions p = mp_directions q"
    "verify_balance_proof keccak st a t b p" "verify_balance_proof keccak st a t b' q"
    "inj_on keccak (proof_inputs keccak p \<union> proof_inputs keccak q)"
    "inj_on keccak {balance_key a t @ balance_value b, balance_key a t @ balance_value b'}"
    "balance_in_range b" "balance_in_range b'"
  shows "same_amounts b b'"
proof -
  have "mp_leaf_hash p = mp_leaf_hash q"
    using mp_verify_binds [OF assms(1-4)] assms(5-7) by (auto simp: verify_balance_proof_def proof_inputs_def)
  then have "keccak (balance_key a t @ balance_value b) = keccak (balance_key a t @ balance_value b')"
    using assms(5,6) by (simp add: verify_balance_proof_def hash_entry_def)
  then have "balance_value b = balance_value b'" using assms(8) by (auto dest: inj_onD)
  then show ?thesis using assms(9,10) by (rule balance_value_inject)
qed

definition sample_proof :: merkle_proof where
  "sample_proof = (let leaf = hash_entry pad_hash (balance_key 7 0) (balance_value sample_balance) in
     \<lparr> mp_leaf_hash = leaf, mp_siblings = [leaf], mp_directions = [SibRight], mp_leaf_index = 0 \<rparr>)"

lemma length_pad_hash [simp]: "length (pad_hash bs) = 32"
  by (simp add: pad_hash_def)

theorem balance_proof_binds_witness:
  "verify_balance_proof pad_hash committed_sample 7 0 (sample_balance \<lparr> ub_evm := Decimal 0 18 \<rparr>)
     (sample_proof \<lparr> mp_leaf_index := 4 \<rparr>) \<and>
   same_amounts sample_balance (sample_balance \<lparr> ub_evm := Decimal 0 18 \<rparr>)"
proof -
  let ?b = "sample_balance \<lparr> ub_evm := Decimal 0 18 \<rparr>" and ?q = "sample_proof \<lparr> mp_leaf_index := 4 \<rparr>"
  have val: "balance_value ?b = balance_value sample_balance"
    by (simp add: balance_value_def sample_balance_def dec_le_def)
  have p: "verify_balance_proof pad_hash committed_sample 7 0 sample_balance sample_proof"
    by (simp add: verify_balance_proof_def sample_proof_def Let_def mp_verify_def compute_root_def climb_def
        get_unified_state_root_def committed_sample_def app_state_new_def app_state_of_def compute_unified_state_root_def
        build_unified_state_tree_def mt_root_def from_entries_def from_leaves_def build_levels.simps)
  then have q: "verify_balance_proof pad_hash committed_sample 7 0 ?b ?q"
    by (auto simp: verify_balance_proof_def val mp_verify_def compute_root_def)
  have ok: "mp_ok sample_proof" "mp_ok ?q" "proof_inputs pad_hash ?q = proof_inputs pad_hash sample_proof"
    "\<exists>x. proof_inputs pad_hash sample_proof = {x}"
    by (simp_all add: mp_ok_def sample_proof_def Let_def hash_entry_def proof_inputs_def)
  have rng: "balance_in_range sample_balance" "balance_in_range ?b"
    by (simp_all add: balance_in_range_def sample_balance_def in_i128_def i128_min_def i128_max_def)
  have "same_amounts sample_balance ?b"
    using p q ok rng val
    by (intro balance_proof_binds [of pad_hash sample_proof ?q committed_sample 7 0]) auto
  with q show ?thesis by simp
qed

end
