(* ===== verification/App.thy ===== *)
theory App
  imports State_Commitment
begin

text \<open>
  The application, from \<open>crates/chain/src/app.rs\<close>: execution of every kind of
  transaction against the engines, the nonces, the blocks and the genesis state.
  The engines and the application share one ledger; it is loaded into the engine
  that runs and stored back afterwards.  An error leaves the state as it is at that
  moment, so it is part of every result.  The printed forms of addresses (\<open>Debug\<close>) and
  engine errors (\<open>Display\<close>) inside events and messages stay symbolic.  Locks
  never fail to be taken, and logging has no effect.
\<close>

section \<open>Events and errors\<close>

datatype attr_value = Text string | Num int | AddrText address | ErrText error | ModeText margin_mode

record event =
  ev_type :: string
  ev_attributes :: "(string \<times> attr_value) list"

definition event_new :: "string \<Rightarrow> event" where
  "event_new ty = \<lparr> ev_type = ty, ev_attributes = [] \<rparr>"

definition add_attribute :: "string \<Rightarrow> attr_value \<Rightarrow> event \<Rightarrow> event" where
  "add_attribute k v ev = ev \<lparr> ev_attributes := ev_attributes ev @ [(k, v)] \<rparr>"

definition event_of :: "string \<Rightarrow> (string \<times> attr_value) list \<Rightarrow> event" where
  "event_of ty attrs = fold (\<lambda>(k, v). add_attribute k v) attrs (event_new ty)"

text \<open>\<open>AppInternal msg\<close>, and \<open>Internal\<close> with a message that ends in the text of an engine or view transfer error.\<close>

datatype app_error =
    GenesisError string
  | AppTxError transaction_error
  | AppStateError state_error
  | AppInvalidAmount
  | QueryError string
  | AppInternal string
  | AppInternalErr string error
  | AppInternalView string view_transfer_error

record tx_result =
  tr_success :: bool
  tr_events :: "event list"
  tr_gas_used :: nat

section \<open>The shared ledger\<close>

definition perp_of :: "app_state \<Rightarrow> engine \<Rightarrow> engine" where
  "perp_of st en = en \<lparr> en_unified := map_option (\<lambda>_. ap_unified st) (en_unified en) \<rparr>"

definition put_perp :: "engine \<Rightarrow> app_state \<Rightarrow> app_state" where
  "put_perp en st = st \<lparr> ap_perp := Some en,
     ap_unified := (case en_unified en of Some us \<Rightarrow> us | None \<Rightarrow> ap_unified st) \<rparr>"

definition spot_of :: "app_state \<Rightarrow> spot_state \<Rightarrow> spot_state" where
  "spot_of st sp = sp \<lparr> sp_unified := ap_unified st \<rparr>"

definition put_spot :: "spot_state \<Rightarrow> app_state \<Rightarrow> app_state" where
  "put_spot sp st = st \<lparr> ap_spot := Some sp, ap_unified := sp_unified sp \<rparr>"

section \<open>Orders\<close>

record order_batch =
  ob_events :: "event list"
  ob_cloids :: "(string \<times> market_id \<times> order_id) list"
  ob_filled :: "(market_id \<times> order_id) list"

definition batch_event :: "event \<Rightarrow> order_batch \<Rightarrow> order_batch" where
  "batch_event ev acc = acc \<lparr> ob_events := ob_events acc @ [ev] \<rparr>"

definition batch_cloid :: "bool \<Rightarrow> market_id \<Rightarrow> order \<Rightarrow> order_batch \<Rightarrow> order_batch" where
  "batch_cloid resting m ord acc = (case o_cloid ord of
       Some c \<Rightarrow> if resting then acc \<lparr> ob_cloids := ob_cloids acc @ [(c, m, o_id ord)] \<rparr> else acc
     | None \<Rightarrow> acc)"

definition placed_event :: "address \<Rightarrow> market_id \<Rightarrow> bool \<Rightarrow> timestamp \<Rightarrow> order \<Rightarrow> block_event" where
  "placed_event a m ro ts ord = OrderPlacedEv
     \<lparr> op_order_id = o_id ord, op_account = a, op_market = m, op_side = o_side ord, op_price = o_price ord,
       op_size = o_orig ord, op_reduce_only = ro, op_cloid = o_cloid ord, op_timestamp = ts \<rparr>"

definition spot_fill_event :: "nat \<Rightarrow> bool \<Rightarrow> spot_fill \<Rightarrow> block_event" where
  "spot_fill_event tid taker f = FillEv
     \<lparr> fe_trade_id = tid, fe_order_id = (if taker then sf_taker_oid f else sf_maker_oid f),
       fe_account = (if taker then sf_taker f else sf_maker f), fe_market = sf_market f,
       fe_side = (if sf_taker_buy f = taker then Buy else Sell), fe_price = sf_price f, fe_size = sf_base_size f,
       fe_fee = (if taker then sf_taker_fee f else sf_maker_fee f), fe_is_taker = taker, fe_realized_pnl = 0,
       fe_timestamp = sf_ts f \<rparr>"

definition emit_spot_fill :: "spot_fill \<Rightarrow> app_state \<Rightarrow> app_state" where
  "emit_spot_fill f st = (let (tid, st1) = next_trade_id st in
     add_pending_block_event (spot_fill_event tid True f) (add_pending_block_event (spot_fill_event tid False f) st1))"

definition exec_spot_order ::
  "address \<Rightarrow> timestamp \<Rightarrow> order_wire \<Rightarrow> order_batch \<Rightarrow> app_state \<Rightarrow> ((app_error + order_batch) \<times> app_state) option" where
  "exec_spot_order a ts w acc st = (case to_order_request w of
       Inl e \<Rightarrow> Some (Inl (AppTxError e), st)
     | Inr q \<Rightarrow> (case ap_spot st of
         None \<Rightarrow> Some (Inr acc, st)
       | Some sp \<Rightarrow> do {
           (r, sp') \<leftarrow> sp_place_order a (ow_a w) q ts (spot_of st sp);
           let st1 = put_spot sp' st;
           Some (case r of
               Inl e \<Rightarrow> (Inr (batch_event (event_of ''spot_order_failed''
                   [(''error'', ErrText e), (''market_id'', Num (int (ow_a w)))]) acc), st1)
             | Inr (ord, fills) \<Rightarrow>
                 let resting = (\<not> is_filled ord \<and> \<not> is_zero (o_rem ord));
                     st2 = fold emit_spot_fill fills st1;
                     gone = [(sf_market f, sf_maker_oid f). f \<leftarrow> fills, sp_get_order sp' (sf_market f) (sf_maker_oid f) = None];
                     st3 = (if resting then add_pending_block_event (placed_event a (ow_a w) False ts ord) st2 else st2);
                     acc1 = batch_cloid resting (ow_a w) ord acc
                 in (Inr (batch_event (event_of ''spot_order''
                       [(''order_id'', Num (int (o_id ord))), (''sender'', AddrText a),
                        (''market_id'', Num (int (ow_a w))), (''fills'', Num (int (length fills)))])
                       (acc1 \<lparr> ob_filled := ob_filled acc1 @ gone \<rparr>)), st3))
         }))"

definition perp_fill_event :: "nat \<Rightarrow> bool \<Rightarrow> fill \<Rightarrow> block_event" where
  "perp_fill_event tid taker f = FillEv
     \<lparr> fe_trade_id = tid, fe_order_id = (if taker then f_taker_oid f else f_maker_oid f),
       fe_account = (if taker then f_taker f else f_maker f), fe_market = f_market f,
       fe_side = (if f_taker_buy f = taker then Buy else Sell), fe_price = Decimal (wrap_i128 (f_price f)) PRICE_DECIMALS,
       fe_size = Decimal (wrap_i128 (f_size f)) SIZE_DECIMALS,
       fe_fee = Decimal (if taker then wrap_i128 (f_taker_fee f) else wrap_i128 \<bar>f_maker_fee f\<bar>) USDC_DECIMALS,
       fe_is_taker = taker, fe_realized_pnl = (if taker then f_pnl_taker f else f_pnl_maker f), fe_timestamp = f_ts f \<rparr>"

definition emit_perp_fill :: "fill \<Rightarrow> app_state \<Rightarrow> app_state" where
  "emit_perp_fill f st = (let (tid, st1) = next_trade_id st in
     add_pending_block_event (perp_fill_event tid True f) (add_pending_block_event (perp_fill_event tid False f) st1))"

definition perp_fill_attrs :: "fill \<Rightarrow> event" where
  "perp_fill_attrs f = event_of ''perp_fill''
     [(''maker'', AddrText (f_maker f)), (''taker'', AddrText (f_taker f)), (''price'', Num (f_price f)),
      (''size'', Num (f_size f)), (''market_id'', Num (int (f_market f)))]"

definition still_resting :: "engine_state \<Rightarrow> market_id \<Rightarrow> order_id \<Rightarrow> bool" where
  "still_resting es m i = (case get_orderbook es m of Some book \<Rightarrow> book_get i book \<noteq> None | None \<Rightarrow> False)"

definition exec_perp_order ::
  "address \<Rightarrow> timestamp \<Rightarrow> order_wire \<Rightarrow> order_batch \<Rightarrow> app_state \<Rightarrow> ((app_error + order_batch) \<times> app_state) option" where
  "exec_perp_order a ts w acc st = (case to_order_request w of
       Inl e \<Rightarrow> Some (Inl (AppTxError e), st)
     | Inr q \<Rightarrow> (case ap_perp st of
         None \<Rightarrow> Some (Inr (batch_event (event_of ''perp_order_skipped''
             [(''sender'', AddrText a), (''market_id'', Num (int (ow_a w))), (''reason'', Text ''no_perp_engine'')]) acc), st)
       | Some en \<Rightarrow> do {
           (r, en') \<leftarrow> place_order a q ts (perp_of st en);
           let st1 = put_perp en' st;
           (case r of
               Inl e \<Rightarrow> Some (Inr (batch_event (event_of ''perp_order_failed''
                   [(''error'', ErrText e), (''market_id'', Num (int (ow_a w)))]) acc), st1)
             | Inr (ord, fills) \<Rightarrow> do {
                 let resting = (\<not> is_filled ord \<and> should_rest ord);
                 let st2 = fold emit_perp_fill fills st1;
                 let gone = [(f_market f, f_maker_oid f). f \<leftarrow> fills, \<not> still_resting (en_state en') (f_market f) (f_maker_oid f)];
                 let st3 = (if resting then add_pending_block_event (placed_event a (ow_a w) (o_reduce_only ord) ts ord) st2 else st2);
                 let acc1 = batch_cloid resting (ow_a w) ord acc;
                 let acc2 = acc1 \<lparr> ob_events := ob_events acc1 @ map perp_fill_attrs fills, ob_filled := ob_filled acc1 @ gone \<rparr>;
                 remaining \<leftarrow> to_string_trimmed (o_rem ord);
                 Some (Inr (batch_event (event_of ''perp_order''
                   [(''order_id'', Num (int (o_id ord))), (''sender'', AddrText a), (''market_id'', Num (int (ow_a w))),
                    (''fills'', Num (int (length fills))), (''remaining'', Text remaining)]) acc2), st3)
               })
         }))"

definition exec_order ::
  "address \<Rightarrow> timestamp \<Rightarrow> order_wire \<Rightarrow> order_batch \<Rightarrow> app_state \<Rightarrow> ((app_error + order_batch) \<times> app_state) option" where
  "exec_order a ts w = (if ow_a w \<ge> 128 then exec_spot_order a ts w else exec_perp_order a ts w)"

fun exec_orders ::
  "address \<Rightarrow> timestamp \<Rightarrow> order_wire list \<Rightarrow> order_batch \<Rightarrow> app_state \<Rightarrow> ((app_error + order_batch) \<times> app_state) option" where
  "exec_orders a ts [] acc st = Some (Inr acc, st)"
| "exec_orders a ts (w # ws) acc st = do {
     (r, st1) \<leftarrow> exec_order a ts w acc st;
     (case r of Inl e \<Rightarrow> Some (Inl e, st1) | Inr acc1 \<Rightarrow> exec_orders a ts ws acc1 st1)
   }"

definition empty_batch :: order_batch where
  "empty_batch = \<lparr> ob_events = [], ob_cloids = [], ob_filled = [] \<rparr>"

definition finish_batch :: "address \<Rightarrow> order_batch \<Rightarrow> app_state \<Rightarrow> app_state" where
  "finish_batch a acc st =
     fold (\<lambda>(m, i) st. snd (remove_cloid_by_order m i st)) (ob_filled acc)
       (fold (\<lambda>(c, m, i). register_cloid a c m i) (ob_cloids acc) st)"

definition execute_orders ::
  "address \<Rightarrow> order_wire list \<Rightarrow> timestamp \<Rightarrow> app_state \<Rightarrow> ((app_error + event list) \<times> app_state) option" where
  "execute_orders a ws ts st = do {
     (r, st1) \<leftarrow> exec_orders a ts ws empty_batch st;
     Some (case r of Inl e \<Rightarrow> (Inl e, st1) | Inr acc \<Rightarrow> (Inr (ob_events acc), finish_batch a acc st1))
   }"

section \<open>Cancellation\<close>

text \<open>A cancellation at the engine of a market; \<open>None\<close> inside when that engine is absent.\<close>

definition engine_cancel ::
  "address \<Rightarrow> market_id \<Rightarrow> order_id \<Rightarrow> app_state \<Rightarrow> ((error + order) option \<times> app_state) option" where
  "engine_cancel a m i st =
    (if m \<ge> 128 then (case ap_spot st of
         None \<Rightarrow> Some (None, st)
       | Some sp \<Rightarrow> map_option (\<lambda>(r, sp'). (Some r, put_spot sp' st)) (sp_cancel_order a m i (spot_of st sp)))
     else (case ap_perp st of
         None \<Rightarrow> Some (None, st)
       | Some en \<Rightarrow> let (r, en') = cancel_order a m i (perp_of st en) in Some (Some r, put_perp en' st)))"

definition cancel_outcome ::
  "market_id \<Rightarrow> order_id \<Rightarrow> (error + order) option \<Rightarrow> event list \<times> string list \<Rightarrow> event list \<times> string list" where
  "cancel_outcome m i r acc = (let (evs, cs) = acc; kind = (if m \<ge> 128 then ''spot'' else ''perp'') in (case r of
       Some (Inr ord) \<Rightarrow>
         (evs @ [event_of (kind @ ''_cancel'') [(''order_id'', Num (int i)), (''market_id'', Num (int m))]],
          (case o_cloid ord of Some c \<Rightarrow> cs @ [c] | None \<Rightarrow> cs))
     | Some (Inl e) \<Rightarrow>
         (evs @ [event_of (kind @ ''_cancel_failed'') [(''order_id'', Num (int i)), (''error'', ErrText e)]], cs)
     | None \<Rightarrow> if m \<ge> 128 then (evs, cs)
         else (evs @ [event_of ''perp_cancel_skipped''
                [(''order_id'', Num (int i)), (''reason'', Text ''no_perp_engine'')]], cs)))"

definition exec_cancel ::
  "address \<Rightarrow> cancel_wire \<Rightarrow> (event list \<times> string list) \<times> app_state \<Rightarrow> ((event list \<times> string list) \<times> app_state) option" where
  "exec_cancel a w s = (let (acc, st) = s in
     map_option (\<lambda>(r, st'). (cancel_outcome (cw_a w) (cw_o w) r acc, st')) (engine_cancel a (cw_a w) (cw_o w) st))"

definition remove_cloids :: "address \<Rightarrow> string list \<Rightarrow> app_state \<Rightarrow> app_state" where
  "remove_cloids a cs st = fold (remove_cloid a) cs st"

definition execute_cancels ::
  "address \<Rightarrow> cancel_wire list \<Rightarrow> app_state \<Rightarrow> ((app_error + event list) \<times> app_state) option" where
  "execute_cancels a ws st = do {
     ((evs, cs), st1) \<leftarrow> ofold (exec_cancel a) ws (([], []), st);
     Some (Inr evs, remove_cloids a cs st1)
   }"

definition cloid_failed :: "string \<Rightarrow> attr_value \<Rightarrow> event" where
  "cloid_failed c why = event_of ''cancel_cloid_failed'' [(''cloid'', Text c), (''error'', why)]"

definition exec_cancel_cloid ::
  "address \<Rightarrow> cancel_by_cloid_wire \<Rightarrow> (event list \<times> string list) \<times> app_state \<Rightarrow> ((event list \<times> string list) \<times> app_state) option" where
  "exec_cancel_cloid a w s = (let ((evs, cs), st) = s; c = cc_cloid w in (case get_order_by_cloid st a c of
       None \<Rightarrow> Some ((evs @ [event_of ''cancel_cloid_not_found''
           [(''cloid'', Text c), (''market_id'', Num (int (cc_asset w)))]], cs), st)
     | Some (m, i) \<Rightarrow>
         if m \<noteq> cc_asset w then Some ((evs @ [cloid_failed c (Text ''market_mismatch'')], cs), st)
         else map_option (\<lambda>(r, st'). (case r of
             None \<Rightarrow> (evs, cs)
           | Some (Inl e) \<Rightarrow> (evs @ [cloid_failed c (ErrText e)], cs)
           | Some (Inr _) \<Rightarrow>
               (evs @ [event_of ((if m \<ge> 128 then ''spot'' else ''perp'') @ ''_cancel_by_cloid'')
                  [(''cloid'', Text c), (''order_id'', Num (int i)), (''market_id'', Num (int m))]], cs @ [c]), st'))
           (engine_cancel a m i st)))"

definition execute_cancel_by_cloid ::
  "address \<Rightarrow> cancel_by_cloid_wire list \<Rightarrow> app_state \<Rightarrow> ((app_error + event list) \<times> app_state) option" where
  "execute_cancel_by_cloid a ws st = do {
     ((evs, cs), st1) \<leftarrow> ofold (exec_cancel_cloid a) ws (([], []), st);
     Some (Inr evs, remove_cloids a cs st1)
   }"

definition cloids_of :: "order list \<Rightarrow> string list" where
  "cloids_of os = List.map_filter o_cloid os"

definition spot_cancel_market ::
  "address \<Rightarrow> nat \<Rightarrow> order list \<times> spot_state \<Rightarrow> (order list \<times> spot_state) option" where
  "spot_cancel_market a m s = (let (os, sp) = s in
     map_option (\<lambda>(os', sp'). (os @ os', sp')) (sp_cancel_all_orders a m sp))"

definition spot_market_ids :: "spot_state \<Rightarrow> nat list" where
  "spot_market_ids sp = map (sc_id \<circ> sm_config) (hm_values (sp_markets sp))"

definition cancel_spot_orders :: "address \<Rightarrow> app_state \<Rightarrow> (order list \<times> app_state) option" where
  "cancel_spot_orders a st = (case ap_spot st of
       None \<Rightarrow> Some ([], st)
     | Some sp \<Rightarrow> map_option (\<lambda>(os, sp'). (os, put_spot sp' st))
         (ofold (spot_cancel_market a) (spot_market_ids sp) ([], spot_of st sp)))"

definition perp_cancel_market :: "address \<Rightarrow> market_id \<Rightarrow> order list \<times> engine \<Rightarrow> order list \<times> engine" where
  "perp_cancel_market a m s = (let (os, en) = s; (r, en') = cancel_all_orders a m en in
     (case r of Inr os' \<Rightarrow> (os @ os', en') | Inl _ \<Rightarrow> (os, en')))"

definition cancel_perp_orders :: "address \<Rightarrow> app_state \<Rightarrow> order list \<times> app_state" where
  "cancel_perp_orders a st = (case ap_perp st of
       None \<Rightarrow> ([], st)
     | Some en \<Rightarrow> let (os, en') = fold (perp_cancel_market a)
           (map (mc_id \<circ> m_config) (hm_values (es_markets (en_state en)))) ([], perp_of st en)
         in (os, put_perp en' st))"

definition execute_cancel_all :: "address \<Rightarrow> app_state \<Rightarrow> ((app_error + event list) \<times> app_state) option" where
  "execute_cancel_all a st = do {
     (spot_os, st1) \<leftarrow> cancel_spot_orders a st;
     let (perp_os, st2) = cancel_perp_orders a st1;
     Some (Inr [event_of ''cancel_all'' [(''sender'', AddrText a), (''spot_cancelled'', Num (int (length spot_os))),
         (''perp_cancelled'', Num (int (length perp_os)))]],
       remove_cloids a (cloids_of spot_os @ cloids_of perp_os) st2)
   }"

definition execute_spot_cancel_all ::
  "address \<Rightarrow> nat option \<Rightarrow> app_state \<Rightarrow> ((app_error + event list) \<times> app_state) option" where
  "execute_spot_cancel_all a market st = do {
     (os, st1) \<leftarrow> (case ap_spot st of
        None \<Rightarrow> Some ([], st)
      | Some sp \<Rightarrow> map_option (\<lambda>(os, sp'). (os, put_spot sp' st))
          (ofold (spot_cancel_market a) (case market of Some m \<Rightarrow> [m] | None \<Rightarrow> spot_market_ids sp) ([], spot_of st sp)));
     Some (Inr [event_of ''spot_cancel_all'' [(''sender'', AddrText a), (''cancelled'', Num (int (length os)))]], st1)
   }"

section \<open>Transfers, leverage, margin mode, trigger orders\<close>

definition execute_view_transfer ::
  "address \<Rightarrow> nat \<Rightarrow> string \<Rightarrow> bool \<Rightarrow> app_state \<Rightarrow> ((app_error + event list) \<times> app_state) option" where
  "execute_view_transfer a t amount to_evm st = (case ap_spot st of
       None \<Rightarrow> Some (Inl (AppInternal ''Spot engine not available''), st)
     | Some sp \<Rightarrow> (case hm_get (sp_tokens sp) t of
         None \<Rightarrow> Some (Inl (AppInternal (''Token '' @ show_nat t @ '' not found'')), st)
       | Some token \<Rightarrow> (case from_str_exact amount (st_wei_decimals token) of
           None \<Rightarrow> Some (Inl (AppInternal (''Invalid amount: '' @ amount)), st)
         | Some d \<Rightarrow> do {
             (r, sp') \<leftarrow> view_transfer a t d to_evm (spot_of st sp);
             Some (case r of
                 Inl e \<Rightarrow> Inl (AppInternalErr [] e)
               | Inr _ \<Rightarrow> Inr [event_of ''view_transfer'' [(''sender'', AddrText a), (''token'', Num (int t)),
                   (''amount'', Text amount), (''to_evm'', Text (if to_evm then ''true'' else ''false''))]],
               put_spot sp' st)
           })))"

definition execute_update_leverage ::
  "address \<Rightarrow> market_id \<Rightarrow> nat \<Rightarrow> app_state \<Rightarrow> ((app_error + event list) \<times> app_state) option" where
  "execute_update_leverage a m lev st =
    (let ok = Inr [event_of ''update_leverage'' [(''asset'', Num (int m)), (''leverage'', Num (int lev))]] in
     (case ap_perp st of
        Some en \<Rightarrow> do {
          (r, en') \<leftarrow> update_leverage a m lev (perp_of st en);
          Some (case r of Inr _ \<Rightarrow> ok | Inl e \<Rightarrow> Inl (AppInternalErr ''Leverage update failed: '' e), put_perp en' st)
        }
      | None \<Rightarrow> Some (ok, st \<lparr> ap_engine := set_leverage a m lev (ap_engine st) \<rparr>)))"

definition execute_set_margin_mode ::
  "address \<Rightarrow> margin_mode \<Rightarrow> app_state \<Rightarrow> (app_error + event list) \<times> app_state" where
  "execute_set_margin_mode a mode st =
    (let ok = Inr [event_of ''set_margin_mode'' [(''sender'', AddrText a), (''mode'', ModeText mode)]] in
     (case ap_perp st of
        Some en \<Rightarrow> let (r, en') = set_margin_mode a mode (perp_of st en) in
          (case r of Inr _ \<Rightarrow> ok | Inl e \<Rightarrow> Inl (AppInternalErr ''Set margin mode failed: '' e), put_perp en' st)
      | None \<Rightarrow> (ok, st)))"

definition execute_cancel_trigger ::
  "address \<Rightarrow> market_id \<Rightarrow> order_id \<Rightarrow> app_state \<Rightarrow> (app_error + event list) \<times> app_state" where
  "execute_cancel_trigger a m i st =
    (let ok = Inr [event_of ''cancel_trigger'' [(''sender'', AddrText a), (''order_id'', Num (int i))]] in
     (case ap_perp st of
        Some en \<Rightarrow> let (r, es) = remove_trigger_order i (en_state en); st1 = st \<lparr> ap_perp := Some (en \<lparr> en_state := es \<rparr>) \<rparr> in
          (case r of
             None \<Rightarrow> (Inl (AppInternal (''Trigger order '' @ show_nat i @ '' not found'')), st1)
           | Some _ \<Rightarrow> (ok, st1))
      | None \<Rightarrow> (ok, st)))"

definition execute_usd_transfer ::
  "address \<Rightarrow> address \<Rightarrow> string \<Rightarrow> app_state \<Rightarrow> ((app_error + event list) \<times> app_state) option" where
  "execute_usd_transfer a dest amount st = (case from_str_exact amount USDC_DECIMALS of
       None \<Rightarrow> Some (Inl AppInvalidAmount, st)
     | Some d \<Rightarrow>
         if get_core_view (ap_unified st) a 0 < d then Some (Inl (AppInternal ''Insufficient balance''), st)
         else do {
           (done', us) \<leftarrow> transfer_core a dest 0 d (ap_unified st);
           Some (if done' then Inr [event_of ''usd_transfer'' [(''from'', AddrText a), (''to'', AddrText dest), (''amount'', Text amount)]]
                 else Inl (AppInternal ''Transfer failed''), st \<lparr> ap_unified := us \<rparr>)
         })"

definition execute_withdraw ::
  "address \<Rightarrow> address \<Rightarrow> string \<Rightarrow> app_state \<Rightarrow> ((app_error + event list) \<times> app_state) option" where
  "execute_withdraw a dest amount st = (case from_str_exact amount USDC_DECIMALS of
       None \<Rightarrow> Some (Inl AppInvalidAmount, st)
     | Some d \<Rightarrow> do {
         (done', us) \<leftarrow> debit_core a 0 d (ap_unified st);
         Some (if done' then Inr [event_of ''withdraw'' [(''sender'', AddrText a), (''destination'', AddrText dest), (''amount'', Text amount)]]
               else Inl (AppInternal ''Insufficient balance for withdrawal''), st \<lparr> ap_unified := us \<rparr>)
       })"

text \<open>\<open>u128::from_be_bytes\<close>\<close>

definition nat_of_be :: "byte list \<Rightarrow> nat" where
  "nat_of_be bs = foldl (\<lambda>acc b. 256 * acc + unat b) 0 bs"

text \<open>Token and amount from the ABI-encoded data of at least 64 bytes.\<close>

definition decode_evm_action :: "byte list \<Rightarrow> (nat \<times> decimal) option" where
  "decode_evm_action bs =
    (let t = unat (bs ! 31); high = nat_of_be (take 16 (drop 32 bs)); low = nat_of_be (take 16 (drop 48 bs));
         amount_raw = (if high > 0 then i128_max else wrap_i128 (int low))
     in map_option (Pair t) (to_decimals (Decimal amount_raw 18) (if t = 0 then 6 else 18)))"

definition evm_unknown :: "nat \<Rightarrow> event" where
  "evm_unknown action = event_of ''evm_action_unknown'' [(''action_type'', Num (int action))]"

definition evm_moved ::
  "string \<Rightarrow> string \<Rightarrow> address \<Rightarrow> nat \<Rightarrow> decimal \<Rightarrow> (view_transfer_error + unit) \<times> unified_state \<Rightarrow> app_state \<Rightarrow>
   ((app_error + event list) \<times> app_state) option" where
  "evm_moved kind failed a t d moved st = (let (r, us) = moved; st1 = st \<lparr> ap_unified := us \<rparr> in do {
     amount \<leftarrow> to_string_trimmed d;
     (case r of
        Inl e \<Rightarrow> Some (Inl (AppInternalView (failed @ '' failed: token='' @ show_nat t @ '', amount='' @ amount @ '', error='') e), st1)
      | Inr _ \<Rightarrow> do {
          core \<leftarrow> to_string_trimmed (get_core_view us a t);
          evm \<leftarrow> to_string_trimmed (get_evm_view us a t);
          Some (Inr [event_of kind [(''sender'', AddrText a), (''token'', Num (int t)), (''amount'', Text amount),
            (''new_core_view'', Text core), (''new_evm_view'', Text evm)]], st1)
        })
   })"

definition execute_evm_action ::
  "address \<Rightarrow> nat \<Rightarrow> byte list \<Rightarrow> app_state \<Rightarrow> ((app_error + event list) \<times> app_state) option" where
  "execute_evm_action a action bs st =
    (if length bs \<ge> 64 then do {
       (t, d) \<leftarrow> decode_evm_action bs;
       (if action = 0 \<or> action = 3 then do {
          moved \<leftarrow> transfer_to_core_view a t d (ap_unified st);
          evm_moved ''evm_deposit'' ''View transfer to core'' a t d moved st
        } else if action = 1 \<or> action = 2 then do {
          moved \<leftarrow> transfer_to_evm_view a t d (ap_unified st);
          evm_moved ''evm_withdraw'' ''View transfer to EVM'' a t d moved st
        } else Some (Inr [evm_unknown action], st))
     } else if bs = [] then Some (Inr [
         if action = 0 \<or> action = 3 then event_of ''evm_deposit'' [(''sender'', AddrText a), (''status'', Text ''no_data'')]
         else if action = 1 \<or> action = 2 then event_of ''evm_withdraw'' [(''sender'', AddrText a), (''status'', Text ''no_data'')]
         else evm_unknown action], st)
     else Some (Inl (AppInternal (''Invalid EVM action data length: '' @ show_nat (length bs) @ '' (expected 64 bytes)'')), st))"

section \<open>Transactions\<close>

definition execute_action ::
  "address \<Rightarrow> transaction_type \<Rightarrow> timestamp \<Rightarrow> app_state \<Rightarrow> ((app_error + event list) \<times> app_state) option" where
  "execute_action a act ts st = (case act of
       TxOrder orders _ \<Rightarrow> execute_orders a orders ts st
     | TxCancel cancels \<Rightarrow> execute_cancels a cancels st
     | TxCancelByCloid cancels \<Rightarrow> execute_cancel_by_cloid a cancels st
     | TxCancelAll \<Rightarrow> execute_cancel_all a st
     | TxUpdateLeverage asset _ leverage \<Rightarrow> execute_update_leverage a asset leverage st
     | TxUsdTransfer dest amount \<Rightarrow> execute_usd_transfer a dest amount st
     | TxWithdraw dest amount \<Rightarrow> execute_withdraw a dest amount st
     | TxEvmAction action bs \<Rightarrow> execute_evm_action a action bs st
     | TxSpotOrder orders _ \<Rightarrow> execute_orders a orders ts st
     | TxSpotCancelAll market \<Rightarrow> execute_spot_cancel_all a market st
     | TxViewTransfer t amount to_evm \<Rightarrow> execute_view_transfer a t amount to_evm st
     | TxSetMarginMode mode \<Rightarrow> Some (execute_set_margin_mode a mode st)
     | TxCancelTrigger asset i \<Rightarrow> Some (execute_cancel_trigger a asset i st))"

definition execute_tx ::
  "ecdsa \<Rightarrow> hash_fn \<Rightarrow> transaction \<Rightarrow> timestamp \<Rightarrow> app_state \<Rightarrow> ((app_error + tx_result) \<times> app_state) option" where
  "execute_tx ec keccak tx ts st = (case validate_tx ec keccak tx ts st of
       Inl e \<Rightarrow> Some (Inl (AppStateError e), st)
     | Inr _ \<Rightarrow> (case tx_sender ec keccak tx of
         Inl e \<Rightarrow> Some (Inl (AppTxError e), st)
       | Inr a \<Rightarrow> do {
           (r, st1) \<leftarrow> execute_action a (tx_action tx) ts st;
           Some (case r of
               Inl e \<Rightarrow> (Inl e, st1)
             | Inr evs \<Rightarrow> (Inr \<lparr> tr_success = True, tr_events = evs, tr_gas_used = 1 \<rparr>,
                 update_timestamp_nonce a (tx_nonce tx) (increment_nonce a st1)))
         }))"

definition check_tx :: "ecdsa \<Rightarrow> hash_fn \<Rightarrow> transaction \<Rightarrow> timestamp \<Rightarrow> app_state \<Rightarrow> app_error + unit" where
  "check_tx ec keccak tx now st = (case validate_tx ec keccak tx now st of
       Inl e \<Rightarrow> Inl (AppStateError e) | Inr _ \<Rightarrow> Inr ())"

section \<open>Blocks\<close>

definition app_begin_block :: "nat \<Rightarrow> timestamp \<Rightarrow> app_state \<Rightarrow> app_state" where
  "app_begin_block h ts st = st \<lparr> ap_height := h, ap_timestamp := ts \<rparr>"

text \<open>Mark and index price of a market, as reported in events: those of the field \<open>engine\<close>.\<close>

definition reported_prices :: "app_state \<Rightarrow> market_id \<Rightarrow> decimal \<times> decimal" where
  "reported_prices st m = (case get_market (ap_engine st) m of
       Some mk \<Rightarrow> (ms_mark_price (m_state mk), ms_index_price (m_state mk))
     | None \<Rightarrow> (ZERO, ZERO))"

definition funding_phase :: "app_state \<Rightarrow> (block_event list \<times> app_state) option" where
  "funding_phase st = (case ap_perp st of
       None \<Rightarrow> Some ([], st)
     | Some en \<Rightarrow> do {
         (rates, en') \<leftarrow> process_funding (ap_timestamp st) (perp_of st en);
         Some (map (\<lambda>(m, rate). let (mark, index) = reported_prices st m in
             FundingAppliedEv \<lparr> fa_market = m, fa_funding_rate = d_val rate, fa_mark_price = mark,
               fa_index_price = index, fa_timestamp = ap_timestamp st \<rparr>) rates, put_perp en' st)
       })"

definition liquidation_phase :: "app_state \<Rightarrow> (block_event list \<times> app_state) option" where
  "liquidation_phase st = (case ap_perp st of
       None \<Rightarrow> Some ([], st)
     | Some en \<Rightarrow> do {
         (ls, en') \<leftarrow> process_liquidations (perp_of st en);
         Some (map (\<lambda>(a, m, sz). LiquidationEv \<lparr> lq_account = a, lq_market = m, lq_size = d_val sz,
             lq_price = fst (reported_prices st m), lq_pnl = 0, lq_timestamp = ap_timestamp st \<rparr>) ls, put_perp en' st)
       })"

definition app_end_block :: "hash_fn \<Rightarrow> app_state \<Rightarrow> app_state option" where
  "app_end_block keccak st = do {
     let (evs0, st1) = take_pending_block_events st;
     (evs1, st2) \<leftarrow> funding_phase st1;
     (evs2, st3) \<leftarrow> liquidation_phase st2;
     let st4 = store_block_events (ap_height st3) (evs0 @ evs1 @ evs2) st3;
     let (app_hash, st5) = st_end_block keccak st4;
     Some (store_block_metadata \<lparr> bm_height = ap_height st5, bm_timestamp = ap_timestamp st5, bm_hash = app_hash,
       bm_proposer = None, bm_tx_count = length (ap_pending_txs st5) mod 2 ^ 32 \<rparr> st5)
   }"

definition app_commit :: "app_state \<Rightarrow> digest" where
  "app_commit st = ap_app_hash st"

section \<open>Genesis\<close>

datatype balance_view = CoreView | EvmView

record genesis_balance =
  gb_address :: address
  gb_token :: nat
  gb_amount :: string
  gb_view :: balance_view

record genesis_spot_token =
  gt_index :: nat
  gt_name :: string
  gt_symbol :: string
  gt_wei_decimals :: nat
  gt_sz_decimals :: nat
  gt_max_supply :: string

record genesis_market =
  gm_id :: market_id
  gm_symbol :: string
  gm_max_leverage :: nat
  gm_initial_mark_price :: string

record genesis_state =
  gs_chain_id :: string
  gs_markets :: "genesis_market list"
  gs_spot_tokens :: "genesis_spot_token list"
  gs_balances :: "genesis_balance list"

definition market_of_genesis :: "genesis_market \<Rightarrow> market option" where
  "market_of_genesis g = map_option
     (\<lambda>price. market_new (market_config_new (gm_id g) (gm_symbol g) (gm_max_leverage g)) price 0)
     (dec_price (gm_initial_mark_price g))"

definition genesis_add_market :: "genesis_market \<Rightarrow> app_state \<Rightarrow> app_state option" where
  "genesis_add_market g st = map_option (\<lambda>mk. st \<lparr> ap_engine := es_add_market mk (ap_engine st) \<rparr>) (market_of_genesis g)"

definition token_params :: "genesis_spot_token \<Rightarrow> deploy_params" where
  "token_params g =
     \<lparr> dp_name = gt_name g, dp_symbol = gt_symbol g, dp_wei_decimals = gt_wei_decimals g,
       dp_sz_decimals = gt_sz_decimals g,
       dp_max_supply = (case from_str_exact (gt_max_supply g) PRICE_DECIMALS of
          Some d \<Rightarrow> d | None \<Rightarrow> Decimal (10 ^ 27) 18),
       dp_genesis_allocations = [], dp_erc20_address = None \<rparr>"

definition genesis_deploy :: "hash_fn \<Rightarrow> genesis_spot_token \<Rightarrow> app_state \<Rightarrow> app_state option" where
  "genesis_deploy keccak g st = (case ap_spot st of
       None \<Rightarrow> Some st
     | Some sp \<Rightarrow> map_option (\<lambda>(_, sp'). put_spot sp' st) (deploy_token keccak (token_params g) 0 0 (spot_of st sp)))"

definition genesis_amount :: "genesis_balance \<Rightarrow> decimal" where
  "genesis_amount g = (let dec = if gb_token g = 0 then 6 else 18 in
     (case from_str_exact (gb_amount g) dec of
        Some d \<Rightarrow> d
      | None \<Rightarrow> (case parse_i128 (gb_amount g) of Some x \<Rightarrow> Decimal x dec | None \<Rightarrow> Decimal 0 dec)))"

definition genesis_credit :: "genesis_balance \<Rightarrow> app_state \<Rightarrow> app_state option" where
  "genesis_credit g st = (let d = genesis_amount g in
     if d_val d = 0 then Some st
     else map_option (\<lambda>us. st \<lparr> ap_unified := us \<rparr>) (case gb_view g of
         CoreView \<Rightarrow> credit (gb_address g) (gb_token g) d (ap_unified st)
       | EvmView \<Rightarrow> credit_evm (gb_address g) (gb_token g) d (ap_unified st)))"

text \<open>The argument is the parsed genesis file, or the message of the JSON parser.\<close>

definition init_from_genesis ::
  "hash_fn \<Rightarrow> string + genesis_state \<Rightarrow> app_state \<Rightarrow> ((app_error + unit) \<times> app_state) option" where
  "init_from_genesis keccak parsed st = (case parsed of
       Inl msg \<Rightarrow> Some (Inl (GenesisError (''Failed to parse genesis: '' @ msg)), st)
     | Inr g \<Rightarrow> do {
         st1 \<leftarrow> ofold genesis_add_market (gs_markets g) st;
         st2 \<leftarrow> ofold (genesis_deploy keccak) (gs_spot_tokens g) st1;
         st3 \<leftarrow> ofold genesis_credit (gs_balances g) st2;
         Some (Inr (), st3)
       })"

end
