(* ===== verification/App_Facts.thy ===== *)
theory App_Facts
  imports App
begin

text \<open>
  Facts about the application: what a transaction does to the nonces, replay
  protection across blocks, the effect of transfers and withdrawals, batches that
  fail midway, and who may cancel a trigger order.
\<close>

section \<open>Nobody but the nonce update touches the nonces\<close>

text \<open>What orders the transactions: the nonces of the accounts and the height.\<close>

definition sequence_of :: "app_state \<Rightarrow> (address, nat) hash_map \<times> (address, nat) hash_map \<times> nat" where
  "sequence_of st = (ap_nonces st, ap_last_timestamp_nonces st, ap_height st)"

lemma fold_frame: "(\<And>x s. f (g x s) = f s) \<Longrightarrow> f (fold g xs s) = f s"
  by (induction xs arbitrary: s) auto

lemma sequence_of_updates [simp]:
  "sequence_of (st \<lparr> ap_unified := us \<rparr>) = sequence_of st" "sequence_of (st \<lparr> ap_perp := p \<rparr>) = sequence_of st"
  "sequence_of (st \<lparr> ap_engine := es \<rparr>) = sequence_of st" "sequence_of (put_perp en st) = sequence_of st"
  "sequence_of (put_spot sp st) = sequence_of st" "sequence_of (add_pending_block_event ev st) = sequence_of st"
  "sequence_of (register_cloid a c m i st) = sequence_of st"
  by (simp_all add: sequence_of_def put_perp_def put_spot_def add_pending_block_event_def register_cloid_def)

lemma sequence_of_steps [simp]:
  "sequence_of (emit_spot_fill f st) = sequence_of st" "sequence_of (emit_perp_fill g st) = sequence_of st"
  "sequence_of (remove_cloid a c st) = sequence_of st" "sequence_of (snd (remove_cloid_by_order m i st)) = sequence_of st"
  by (simp_all add: sequence_of_def emit_spot_fill_def emit_perp_fill_def next_trade_id_def add_pending_block_event_def
      remove_cloid_def remove_cloid_by_order_def split: option.splits)

lemma sequence_of_folds [simp]:
  "sequence_of (fold emit_spot_fill fs st) = sequence_of st" "sequence_of (fold emit_perp_fill gs st) = sequence_of st"
  "sequence_of (remove_cloids a cs st) = sequence_of st" "sequence_of (finish_batch a acc st) = sequence_of st"
  by (auto simp: remove_cloids_def finish_batch_def fold_frame split_beta)

lemma exec_spot_order_nonces:
  assumes "exec_spot_order a ts w acc st = Some (r, st')"
  shows "sequence_of st' = sequence_of st"
proof (cases "to_order_request w")
  case (Inr q)
  show ?thesis
  proof (cases "ap_spot st")
    case (Some sp)
    then obtain p sp' where "sp_place_order a (ow_a w) q ts (spot_of st sp) = Some (p, sp')"
      using assms Inr by (auto simp: exec_spot_order_def Option.bind_eq_Some_conv)
    then show ?thesis
      using assms Inr Some by (cases p) (auto simp: exec_spot_order_def Let_def split_beta)
  qed (use assms Inr in \<open>auto simp: exec_spot_order_def\<close>)
qed (use assms in \<open>auto simp: exec_spot_order_def\<close>)

lemma exec_perp_order_nonces:
  assumes "exec_perp_order a ts w acc st = Some (r, st')"
  shows "sequence_of st' = sequence_of st"
proof (cases "to_order_request w")
  case (Inr q)
  show ?thesis
  proof (cases "ap_perp st")
    case (Some en)
    then obtain p en' where "place_order a q ts (perp_of st en) = Some (p, en')"
      using assms Inr by (auto simp: exec_perp_order_def Option.bind_eq_Some_conv)
    then show ?thesis
      using assms Inr Some
      by (cases p) (auto simp: exec_perp_order_def Option.bind_eq_Some_conv Let_def split_beta)
  qed (use assms Inr in \<open>auto simp: exec_perp_order_def\<close>)
qed (use assms in \<open>auto simp: exec_perp_order_def\<close>)

lemma exec_order_nonces: "exec_order a ts w acc st = Some (r, st') \<Longrightarrow> sequence_of st' = sequence_of st"
  by (auto simp: exec_order_def dest: exec_spot_order_nonces exec_perp_order_nonces split: if_splits)

lemma exec_orders_nonces: "exec_orders a ts ws acc st = Some (r, st') \<Longrightarrow> sequence_of st' = sequence_of st"
proof (induction ws arbitrary: acc st)
  case (Cons w ws)
  then obtain r1 st1 where one: "exec_order a ts w acc st = Some (r1, st1)"
    and rest: "(case r1 of Inl e \<Rightarrow> Some (Inl e, st1) | Inr acc1 \<Rightarrow> exec_orders a ts ws acc1 st1) = Some (r, st')"
    by (auto simp: Option.bind_eq_Some_conv)
  then show ?case using Cons.IH exec_order_nonces [OF one] by (cases r1) auto
qed simp

lemma engine_cancel_nonces: "engine_cancel a m i st = Some (r, st') \<Longrightarrow> sequence_of st' = sequence_of st"
  by (auto simp: engine_cancel_def Let_def split: if_splits option.splits prod.splits)

lemma ofold_frame:
  "ofold f xs s = Some s' \<Longrightarrow> (\<And>x t t'. f x t = Some t' \<Longrightarrow> g t' = g t) \<Longrightarrow> g s' = g s"
  by (induction xs arbitrary: s) (auto simp: Option.bind_eq_Some_conv)

lemma exec_cancel_nonces: "exec_cancel a w t = Some t' \<Longrightarrow> sequence_of (snd t') = sequence_of (snd t)"
  by (auto simp: exec_cancel_def Let_def engine_cancel_nonces split: prod.splits)

lemma exec_cancel_cloid_nonces: "exec_cancel_cloid a w t = Some t' \<Longrightarrow> sequence_of (snd t') = sequence_of (snd t)"
  by (auto simp: exec_cancel_cloid_def Let_def engine_cancel_nonces split: prod.splits option.splits if_splits)

lemma exec_cancels_nonces:
  "ofold (exec_cancel a) ws s = Some s' \<Longrightarrow> sequence_of (snd s') = sequence_of (snd s)"
  "ofold (exec_cancel_cloid a) vs s = Some s' \<Longrightarrow> sequence_of (snd s') = sequence_of (snd s)"
  using ofold_frame [where g = "\<lambda>t. sequence_of (snd t)"] exec_cancel_nonces exec_cancel_cloid_nonces by blast+

lemma execute_orders_nonces: "execute_orders a ws ts st = Some (r, st') \<Longrightarrow> sequence_of st' = sequence_of st"
proof -
  assume "execute_orders a ws ts st = Some (r, st')"
  then obtain x st1 where "exec_orders a ts ws empty_batch st = Some (x, st1)"
    "(case x of Inl e \<Rightarrow> (Inl e, st1) | Inr acc \<Rightarrow> (Inr (ob_events acc), finish_batch a acc st1)) = (r, st')"
    by (auto simp: execute_orders_def Option.bind_eq_Some_conv)
  then show ?thesis using exec_orders_nonces [of a ts ws empty_batch st x st1] by (cases x) auto
qed

lemma execute_cancel_nonces:
  "execute_cancels a cs st = Some (r, st') \<Longrightarrow> sequence_of st' = sequence_of st"
  "execute_cancel_by_cloid a vs st = Some (r, st') \<Longrightarrow> sequence_of st' = sequence_of st"
  by (auto simp: execute_cancels_def execute_cancel_by_cloid_def Option.bind_eq_Some_conv dest!: exec_cancels_nonces)

lemma cancel_engine_orders_nonces:
  "cancel_spot_orders a st = Some (os, st') \<Longrightarrow> sequence_of st' = sequence_of st"
  "sequence_of (snd (cancel_perp_orders a st)) = sequence_of st"
  by (auto simp: cancel_spot_orders_def cancel_perp_orders_def Let_def split: option.splits prod.splits)

lemma execute_cancel_all_nonces:
  "execute_cancel_all a st = Some (r, st') \<Longrightarrow> sequence_of st' = sequence_of st"
  "execute_spot_cancel_all a m st = Some (r, st') \<Longrightarrow> sequence_of st' = sequence_of st"
  using cancel_engine_orders_nonces
  by (fastforce simp: execute_cancel_all_def execute_spot_cancel_all_def Option.bind_eq_Some_conv Let_def split_beta
      split: option.splits)+

lemma execute_transfer_nonces:
  "execute_view_transfer a t amount to_evm st = Some (r, st') \<Longrightarrow> sequence_of st' = sequence_of st"
  "execute_usd_transfer a dest amount st = Some (r, st') \<Longrightarrow> sequence_of st' = sequence_of st"
  "execute_withdraw a dest amount st = Some (r, st') \<Longrightarrow> sequence_of st' = sequence_of st"
  "execute_update_leverage a m lev st = Some (r, st') \<Longrightarrow> sequence_of st' = sequence_of st"
  by (auto simp: execute_view_transfer_def execute_usd_transfer_def execute_withdraw_def execute_update_leverage_def
      Option.bind_eq_Some_conv Let_def split: option.splits if_splits)

lemma execute_setting_nonces:
  "sequence_of (snd (execute_set_margin_mode a mode st)) = sequence_of st"
  "sequence_of (snd (execute_cancel_trigger a m i st)) = sequence_of st"
  by (auto simp: execute_set_margin_mode_def execute_cancel_trigger_def Let_def split: option.splits prod.splits)

lemma evm_moved_nonces: "evm_moved kind failed a t d moved st = Some (r, st') \<Longrightarrow> sequence_of st' = sequence_of st"
  by (cases moved; cases "fst moved") (auto simp: evm_moved_def Option.bind_eq_Some_conv)

lemma execute_evm_action_nonces: "execute_evm_action a action bs st = Some (r, st') \<Longrightarrow> sequence_of st' = sequence_of st"
  by (auto simp: execute_evm_action_def Option.bind_eq_Some_conv dest!: evm_moved_nonces split: if_splits)

lemma execute_action_nonces:
  assumes "execute_action a act ts st = Some (r, st')"
  shows "sequence_of st' = sequence_of st"
  using assms execute_setting_nonces(1) [of a _ st] execute_setting_nonces(2) [of a _ _ st]
  by (cases act) (auto simp: execute_action_def dest: execute_orders_nonces execute_cancel_nonces execute_cancel_all_nonces
      execute_transfer_nonces execute_evm_action_nonces, (metis snd_conv)+)

section \<open>A transaction uses its nonce exactly when it succeeds\<close>

lemma execute_tx_cases:
  assumes "execute_tx ec keccak tx ts st = Some (r, st')"
  obtains (refused) e where "r = Inl e" "st' = st" "validate_tx ec keccak tx ts st \<noteq> Inr ()"
  | (failed) a e where "r = Inl e" "tx_sender ec keccak tx = Inr a" "validate_nonce st a (tx_nonce tx) ts"
      "execute_action a (tx_action tx) ts st = Some (Inl e, st')"
  | (succeeded) a evs st1 where "r = Inr \<lparr> tr_success = True, tr_events = evs, tr_gas_used = 1 \<rparr>"
      "tx_sender ec keccak tx = Inr a" "validate_nonce st a (tx_nonce tx) ts"
      "execute_action a (tx_action tx) ts st = Some (Inr evs, st1)"
      "st' = update_timestamp_nonce a (tx_nonce tx) (increment_nonce a st1)"
proof (cases "validate_tx ec keccak tx ts st")
  case (Inl e)
  then show ?thesis using assms refused [of "AppStateError e"] by (simp add: execute_tx_def)
next
  case (Inr u)
  then obtain a where a: "tx_sender ec keccak tx = Inr a" "validate_nonce st a (tx_nonce tx) ts"
    by (auto simp: validate_tx_def split: sum.splits if_splits)
  then obtain x st1 where run: "execute_action a (tx_action tx) ts st = Some (x, st1)"
    using assms Inr by (auto simp: execute_tx_def Option.bind_eq_Some_conv)
  then show ?thesis using assms Inr a failed succeeded by (cases x) (auto simp: execute_tx_def)
qed

lemma sequence_of_accept:
  "sequence_of st1 = sequence_of st \<Longrightarrow>
   sequence_of (update_timestamp_nonce a n (increment_nonce a st1)) = sequence_of (accept_nonce a n st)"
  by (auto simp: sequence_of_def accept_nonce_def update_timestamp_nonce_def increment_nonce_def get_nonce_def)

text \<open>
  (C11) Whatever a transaction does, it leaves every nonce alone when it fails, and
  when it succeeds it was signed by an account for which its nonce was valid, and
  exactly the nonces of that account move on, once.
\<close>

theorem execute_tx_nonce_discipline:
  assumes "execute_tx ec keccak tx ts st = Some (r, st')"
  shows "case r of
      Inl _ \<Rightarrow> sequence_of st' = sequence_of st
    | Inr _ \<Rightarrow> \<exists>a. tx_sender ec keccak tx = Inr a \<and> validate_nonce st a (tx_nonce tx) ts \<and>
        sequence_of st' = sequence_of (accept_nonce a (tx_nonce tx) st)"
  using assms
proof (cases rule: execute_tx_cases)
  case (failed a e)
  then show ?thesis by (simp add: execute_action_nonces)
next
  case (succeeded a evs st1)
  have "sequence_of st1 = sequence_of st" using succeeded(4) by (rule execute_action_nonces)
  then show ?thesis using succeeded sequence_of_accept by auto
qed simp

text \<open>What happens to the application between two transactions of the chain.\<close>

inductive chain_step :: "ecdsa \<Rightarrow> hash_fn \<Rightarrow> app_state \<Rightarrow> app_state \<Rightarrow> bool" for ec keccak where
  tx: "execute_tx ec keccak tx ts st = Some (r, st') \<Longrightarrow> chain_step ec keccak st st'"
| begin_block: "chain_step ec keccak st (app_begin_block h ts st)"
| end_block: "app_end_block keccak st = Some st' \<Longrightarrow> chain_step ec keccak st st'"

inductive_cases chain_stepE: "chain_step ec keccak st st'"

lemma phase_nonces:
  "funding_phase st = Some (evs, st') \<Longrightarrow> sequence_of st' = sequence_of st"
  "liquidation_phase st = Some (evs, st') \<Longrightarrow> sequence_of st' = sequence_of st"
  by (auto simp: funding_phase_def liquidation_phase_def Option.bind_eq_Some_conv split: option.splits)

lemma app_end_block_nonces:
  assumes "app_end_block keccak st = Some st'"
  shows "sequence_of st' = sequence_of st"
proof -
  let ?st1 = "snd (take_pending_block_events st)"
  obtain e1 st2 e2 st3 where run: "funding_phase ?st1 = Some (e1, st2)" "liquidation_phase st2 = Some (e2, st3)"
    and fin: "sequence_of st' = sequence_of st3"
    using assms by (auto simp: app_end_block_def take_pending_block_events_def Option.bind_eq_Some_conv Let_def split_beta
        sequence_of_def store_block_metadata_def store_block_events_def st_end_block_def)
  then show ?thesis using phase_nonces by (simp add: take_pending_block_events_def sequence_of_def)
qed

lemma last_nonce_of: "sequence_of st' = sequence_of st \<Longrightarrow> last_nonce st' a = last_nonce st a"
  by (simp add: sequence_of_def last_nonce_def)

lemma execute_tx_nonce_steps:
  assumes "execute_tx ec keccak tx ts st = Some (r, st')"
  shows "nonce_step\<^sup>*\<^sup>* st st'"
  using assms
proof (cases rule: execute_tx_cases)
  case (failed a e)
  then show ?thesis using execute_action_nonces by (fastforce simp: sequence_of_def intro: nonce_step.other)
next
  case (succeeded a evs st1)
  have "sequence_of st1 = sequence_of st" using succeeded(4) by (rule execute_action_nonces)
  then have "sequence_of st' = sequence_of (accept_nonce a (tx_nonce tx) st)" using succeeded(5) sequence_of_accept by simp
  then have "nonce_step (accept_nonce a (tx_nonce tx) st) st'" by (simp add: sequence_of_def nonce_step.other)
  then show ?thesis using nonce_step.accepted [OF succeeded(3)] by (meson converse_rtranclp_into_rtranclp r_into_rtranclp)
qed simp

lemma chain_step_nonce_steps: "chain_step ec keccak st st' \<Longrightarrow> nonce_step\<^sup>*\<^sup>* st st'"
proof (erule chain_stepE)
  fix h ts assume "st' = app_begin_block h ts st"
  then show ?thesis by (simp add: app_begin_block_def nonce_step.other r_into_rtranclp)
next
  assume "app_end_block keccak st = Some st'"
  then show ?thesis using app_end_block_nonces by (fastforce simp: sequence_of_def intro: nonce_step.other)
qed (rule execute_tx_nonce_steps)

lemma chain_steps_nonce_steps: "(chain_step ec keccak)\<^sup>*\<^sup>* st st' \<Longrightarrow> nonce_step\<^sup>*\<^sup>* st st'"
  by (induction rule: rtranclp_induct) (auto dest: chain_step_nonce_steps)

lemma executed_nonce_recorded:
  assumes "execute_tx ec keccak tx ts st = Some (Inr r, st1)" "TIMESTAMP_THRESHOLD < tx_nonce tx"
  shows "\<exists>a. tx_sender ec keccak tx = Inr a \<and> tx_nonce tx \<le> last_nonce st1 a"
  using assms(1)
proof (cases rule: execute_tx_cases)
  case (succeeded a evs st0)
  have "sequence_of st0 = sequence_of st" using succeeded(4) by (rule execute_action_nonces)
  then have "last_nonce st1 a = last_nonce (accept_nonce a (tx_nonce tx) st) a"
    using succeeded(5) sequence_of_accept last_nonce_of by metis
  then show ?thesis using succeeded(2) assms(2) by (simp add: last_nonce_accept)
qed simp_all

lemma stale_nonce_refused:
  assumes "tx_sender ec keccak tx = Inr a" "TIMESTAMP_THRESHOLD < tx_nonce tx" "tx_nonce tx \<le> last_nonce st a"
  shows "execute_tx ec keccak tx ts st = Some (Inl (AppStateError StInvalidNonce), st)"
  using assms(1,3) validate_timestamp_nonce [OF assms(2), of st a ts] by (auto simp: execute_tx_def validate_tx_def)

text \<open>
  (C5) No replay of timestamped transactions: once a transaction with a timestamp
  nonce has been executed, no sequence of further transactions and blocks lets it
  in again; executing it is refused as an invalid nonce and changes nothing.
\<close>

theorem executed_transaction_not_replayed:
  assumes "execute_tx ec keccak tx ts st = Some (Inr r, st1)" "TIMESTAMP_THRESHOLD < tx_nonce tx"
    "(chain_step ec keccak)\<^sup>*\<^sup>* st1 st2"
  shows "execute_tx ec keccak tx ts2 st2 = Some (Inl (AppStateError StInvalidNonce), st2)"
proof -
  obtain a where a: "tx_sender ec keccak tx = Inr a" "tx_nonce tx \<le> last_nonce st1 a"
    using executed_nonce_recorded [OF assms(1,2)] by blast
  note a(2)
  also have "last_nonce st1 a \<le> last_nonce st2 a" using assms(3) by (intro nonce_steps_mono chain_steps_nonce_steps)
  finally show ?thesis by (rule stale_nonce_refused [OF a(1) assms(2)])
qed

definition any_signer :: ecdsa where
  "any_signer = \<lparr> ec_from_slice = (\<lambda>_. True), ec_recover = (\<lambda>_ _ _. Some [4]) \<rparr>"

definition mode_tx :: transaction where
  "mode_tx = (sample_tx (TxSetMarginMode Cross)) \<lparr> tx_nonce := 1700000000000 \<rparr>"

definition any_address :: address where
  "any_address = address_of_key pad_hash [4]"

lemma mode_tx_sender: "tx_sender any_signer pad_hash mode_tx = Inr any_address"
  by (simp add: tx_sender_def recover_signer_def recover_address_def any_signer_def mode_tx_def sample_tx_def
      signature_zero_def wrap_u8_def any_address_def)

lemma mode_tx_runs:
  "\<exists>evs. execute_tx any_signer pad_hash mode_tx 1700000001000 app_state_new =
     Some (Inr \<lparr> tr_success = True, tr_events = evs, tr_gas_used = 1 \<rparr>, accept_nonce any_address 1700000000000 app_state_new)"
  using mode_tx_sender
  by (simp add: execute_tx_def validate_tx_def validate_nonce_def TIMESTAMP_THRESHOLD_def mode_tx_def sample_tx_def
      execute_action_def execute_set_margin_mode_def app_state_new_def app_state_of_def hm_get_or_def accept_nonce_def)

theorem execute_tx_nonce_discipline_witness:
  "\<exists>r st'. execute_tx any_signer pad_hash mode_tx 1700000001000 app_state_new = Some (Inr r, st') \<and>
     sequence_of st' = sequence_of (accept_nonce any_address 1700000000000 app_state_new)"
proof -
  obtain evs where run: "execute_tx any_signer pad_hash mode_tx 1700000001000 app_state_new =
     Some (Inr \<lparr> tr_success = True, tr_events = evs, tr_gas_used = 1 \<rparr>, accept_nonce any_address 1700000000000 app_state_new)"
    using mode_tx_runs by blast
  from execute_tx_nonce_discipline [OF run] run mode_tx_sender show ?thesis by (auto simp: mode_tx_def)
qed

theorem executed_transaction_not_replayed_witness:
  "\<exists>st1. execute_tx any_signer pad_hash mode_tx 1700000002000 (app_begin_block 2 1700000002000 st1) =
     Some (Inl (AppStateError StInvalidNonce), app_begin_block 2 1700000002000 st1)"
proof -
  let ?st1 = "accept_nonce any_address 1700000000000 app_state_new"
  obtain r where run: "execute_tx any_signer pad_hash mode_tx 1700000001000 app_state_new = Some (Inr r, ?st1)"
    using mode_tx_runs by blast
  have "(chain_step any_signer pad_hash)\<^sup>*\<^sup>* ?st1 (app_begin_block 2 1700000002000 ?st1)"
    by (blast intro: chain_step.begin_block)
  from executed_transaction_not_replayed [OF run _ this, of 1700000002000] show ?thesis
    by (auto simp: mode_tx_def TIMESTAMP_THRESHOLD_def)
qed

lemma execute_tx_height: "execute_tx ec keccak tx ts st = Some (r, st') \<Longrightarrow> ap_height st' = ap_height st"
proof (erule execute_tx_cases)
  fix a evs st1
  assume "execute_action a (tx_action tx) ts st = Some (Inr evs, st1)"
    "st' = update_timestamp_nonce a (tx_nonce tx) (increment_nonce a st1)"
  then show ?thesis using execute_action_nonces [of a "tx_action tx" ts st "Inr evs" st1]
    by (simp add: sequence_of_def update_timestamp_nonce_def increment_nonce_def)
next
  fix a e
  assume "execute_action a (tx_action tx) ts st = Some (Inl e, st')"
  then show ?thesis using execute_action_nonces [of a "tx_action tx" ts st "Inl e" st'] by (simp add: sequence_of_def)
qed simp_all

lemma app_end_block_height: "app_end_block keccak st = Some st' \<Longrightarrow> ap_height st' = ap_height st"
  by (drule app_end_block_nonces) (simp add: sequence_of_def)

section \<open>Transfers and withdrawals\<close>

lemma usd_transfer_run:
  assumes "execute_usd_transfer a dest amount st = Some (Inr evs, st')" "from_str_exact amount USDC_DECIMALS = Some d"
  shows "transfer_core a dest 0 d (ap_unified st) = Some (True, ap_unified st')" "st' = st \<lparr> ap_unified := ap_unified st' \<rparr>"
  using assms by (auto simp: execute_usd_transfer_def Option.bind_eq_Some_conv split: if_splits)


definition rich_ledger :: "unified_state" where
  "rich_ledger = [((7, 0), \<lparr> ub_total = Decimal 0 6, ub_core = Decimal 0 6, ub_evm = Decimal 0 6 \<rparr>),
     ((8, 0), \<lparr> ub_total = Decimal 5000000 6, ub_core = Decimal 5000000 6, ub_evm = Decimal 0 6 \<rparr>)]"

definition rich_state :: app_state where
  "rich_state = app_state_new \<lparr> ap_unified := rich_ledger \<rparr>"

lemma amount_strings:
  "from_str_exact ''5'' 6 = Some (Decimal 5000000 6)" "from_str_exact ''-5'' 6 = Some (Decimal (- 5000000) 6)"
  by (simp_all add: from_str_exact_def str_trim_def trim_end_by_def is_ws_def parse_i128_def parse_digits_def is_digit_def
      digits_val_def digit_val_def i128_checked_defs i128_defs pow10_def wrap_i128_def Let_def replicate_unroll)

text \<open>The sign of the amount is not checked: the sender of a negative transfer is paid by its destination.\<close>

lemma rich_ledger_sound: "us_sound rich_ledger"
  by (simp add: us_sound_def rich_ledger_def ub_sound_def ub_is_valid_iff dec_add_def i128_checked_defs i128_defs)

theorem negative_transfer_takes:
  "\<exists>evs st'. execute_usd_transfer 7 8 ''-5'' rich_state = Some (Inr evs, st') \<and>
     get_core_view (ap_unified st') 7 0 = Decimal 5000000 6 \<and> get_core_view (ap_unified st') 8 0 = Decimal 0 6"
  by (simp add: execute_usd_transfer_def dec_consts amount_strings rich_state_def rich_ledger_def transfer_core_def
      credit_def ledger_eval get_core_view_def)


text \<open>
  A withdrawal takes the parsed amount out of the supply of USDC; for a negative
  amount it creates money.
\<close>

theorem withdraw_changes_supply:
  assumes "execute_withdraw a dest amount st = Some (Inr evs, st')" "from_str_exact amount USDC_DECIMALS = Some d"
  shows "token_supply 0 (ap_unified st') = token_supply 0 (ap_unified st) - d_val d"
  using assms supply_debit_core [of a 0 d "ap_unified st" True "ap_unified st'" 0]
  by (auto simp: execute_withdraw_def Option.bind_eq_Some_conv split: if_splits)

theorem negative_withdrawal_mints:
  "\<exists>evs st'. execute_withdraw 7 7 ''-5'' rich_state = Some (Inr evs, st') \<and>
     get_core_view (ap_unified st') 7 0 = Decimal 5000000 6 \<and> get_core_view (ap_unified st') 8 0 = Decimal 5000000 6"
  by (simp add: execute_withdraw_def dec_consts amount_strings rich_state_def rich_ledger_def debit_core_def
      ledger_eval get_core_view_def)

section \<open>A batch that fails midway\<close>

lemma exec_orders_append:
  "exec_orders a ts (ws @ vs) acc st = Option.bind (exec_orders a ts ws acc st)
     (\<lambda>(r, st1). case r of Inl e \<Rightarrow> Some (Inl e, st1) | Inr acc1 \<Rightarrow> exec_orders a ts vs acc1 st1)"
proof (induction ws arbitrary: acc st)
  case (Cons w ws)
  then show ?case
    by (cases "exec_order a ts w acc st") (auto split: sum.splits)
qed simp

lemma exec_order_malformed: "to_order_request w = Inl e \<Longrightarrow> exec_order a ts w acc st = Some (Inl (AppTxError e), st)"
  by (simp add: exec_order_def exec_spot_order_def exec_perp_order_def)

text \<open>
  (C18) A batch is not atomic: when an order after the first ones cannot be read, the
  transaction is reported as failed, yet the earlier orders have been executed and
  stay executed; the nonce of the account is not used up, so the very same signed
  transaction is valid again and executes the earlier orders once more.
\<close>

theorem failed_batch_keeps_effects:
  assumes "tx_sender ec keccak tx = Inr a" "validate_nonce st a (tx_nonce tx) ts"
    "tx_action tx = TxOrder (ws @ bad # rest) g" "to_order_request bad = Inl e"
    "exec_orders a ts ws empty_batch st = Some (Inr acc, st1)"
  shows "execute_tx ec keccak tx ts st = Some (Inl (AppTxError e), st1) \<and> validate_tx ec keccak tx ts st1 = Inr ()"
proof -
  have "execute_orders a (ws @ bad # rest) ts st = Some (Inl (AppTxError e), st1)"
    using assms(5) by (simp add: execute_orders_def exec_orders_append exec_order_malformed [OF assms(4)])
  moreover have "sequence_of st1 = sequence_of st" using assms(5) by (rule exec_orders_nonces)
  then have "validate_nonce st1 a (tx_nonce tx) ts"
    using assms(2) unfolding sequence_of_def validate_nonce_def get_nonce_def prod.inject by (elim conjE) (simp only:)
  ultimately show ?thesis using assms(1-3) by (simp add: execute_tx_def validate_tx_def execute_action_def)
qed

definition plain_order :: "string \<Rightarrow> order_wire" where
  "plain_order price = \<lparr> ow_a = 3, ow_b = True, ow_p = price, ow_s = ''5'', ow_r = False, ow_t = LimitWire ''Gtc'', ow_c = None \<rparr>"

definition batch_tx :: transaction where
  "batch_tx = mode_tx \<lparr> tx_action := TxOrder [plain_order ''5'', plain_order ''x''] Na \<rparr>"

theorem failed_batch_keeps_effects_witness:
  "execute_tx any_signer pad_hash batch_tx 1700000001000 app_state_new =
     Some (Inl (AppTxError TxInvalidPrice), app_state_new) \<and>
   validate_tx any_signer pad_hash batch_tx 1700000001000 app_state_new = Inr ()"
proof -
  have "tx_sender any_signer pad_hash batch_tx = Inr any_address"
    by (simp add: tx_sender_def recover_signer_def recover_address_def any_signer_def batch_tx_def mode_tx_def sample_tx_def
        signature_zero_def wrap_u8_def any_address_def)
  moreover have "validate_nonce app_state_new any_address (tx_nonce batch_tx) 1700000001000"
    by (simp add: validate_nonce_def TIMESTAMP_THRESHOLD_def batch_tx_def mode_tx_def app_state_new_def app_state_of_def hm_get_or_def)
  moreover have "tx_action batch_tx = TxOrder ([plain_order ''5''] @ plain_order ''x'' # []) Na"
    by (simp add: batch_tx_def)
  moreover have "to_order_request (plain_order ''x'') = Inl TxInvalidPrice"
    by (simp add: to_order_request_def plain_order_def dec_consts from_str_exact_def str_trim_def trim_end_by_def is_ws_def
        parse_i128_def parse_digits_def is_digit_def Let_def)
  moreover have "\<exists>acc. exec_orders any_address 1700000001000 [plain_order ''5''] empty_batch app_state_new = Some (Inr acc, app_state_new)"
    by (simp add: exec_order_def exec_perp_order_def plain_order_def to_order_request_def dec_consts from_str_exact_def
        str_trim_def trim_end_by_def is_ws_def parse_i128_def parse_digits_def is_digit_def digits_val_def digit_val_def
        i128_checked_defs i128_defs pow10_def wrap_i128_def Let_def replicate_unroll to_order_type_def trigger_fields_def
        app_state_new_def app_state_of_def)
  ultimately show ?thesis using failed_batch_keeps_effects by blast
qed

section \<open>Trigger orders and spot cancellations\<close>

text \<open>
  Cancelling a trigger order looks at the order id alone: whoever signs, and
  whatever market is named, the order is removed.
\<close>

theorem cancel_trigger_ignores_owner:
  "snd (execute_cancel_trigger a m i st) = snd (execute_cancel_trigger a' m' i st)"
  "isl (fst (execute_cancel_trigger a m i st)) = isl (fst (execute_cancel_trigger a' m' i st))"
  by (auto simp: execute_cancel_trigger_def Let_def split_beta split: option.splits)

text \<open>Cancelling all spot orders leaves the client ids of the cancelled orders registered.\<close>

theorem spot_cancel_all_keeps_cloids:
  "execute_spot_cancel_all a m st = Some (r, st') \<Longrightarrow> ap_cloid_to_oid st' = ap_cloid_to_oid st"
  by (auto simp: execute_spot_cancel_all_def Option.bind_eq_Some_conv put_spot_def split: option.splits)

section \<open>The end of a block\<close>

lemma app_end_block_run:
  assumes "app_end_block keccak st = Some st'"
  shows "\<exists>evs. get_block_events st' (ap_height st') = ap_pending_events st @ evs \<and>
    hm_get (ap_block_hashes st') (ap_height st') = Some (app_commit st') \<and>
    map_option bm_hash (hm_get (ap_block_metadata st') (ap_height st')) = Some (app_commit st') \<and>
    ap_height st' = ap_height st \<and> ap_timestamp st' = ap_timestamp st \<and> ap_pending_events st' = [] \<and>
    app_commit st' = compute_app_hash keccak (st' \<lparr> ap_app_hash := ap_app_hash st \<rparr>)"
proof -
  let ?st1 = "snd (take_pending_block_events st)"
  obtain e1 st2 e2 st3 where run: "funding_phase ?st1 = Some (e1, st2)" "liquidation_phase st2 = Some (e2, st3)"
    and fin: "(let st4 = store_block_events (ap_height st3) (ap_pending_events st @ e1 @ e2) st3;
        (app_hash, st5) = st_end_block keccak st4 in
        store_block_metadata \<lparr> bm_height = ap_height st5, bm_timestamp = ap_timestamp st5, bm_hash = app_hash,
          bm_proposer = None, bm_tx_count = length (ap_pending_txs st5) mod 2 ^ 32 \<rparr> st5) = st'"
    using assms by (auto simp: app_end_block_def take_pending_block_events_def Option.bind_eq_Some_conv Let_def split_beta)
  have "ap_height st2 = ap_height st \<and> ap_timestamp st2 = ap_timestamp st \<and> ap_pending_events st2 = [] \<and> ap_app_hash st2 = ap_app_hash st"
    using run(1) by (auto simp: funding_phase_def take_pending_block_events_def put_perp_def Option.bind_eq_Some_conv split: option.splits)
  then have "ap_height st3 = ap_height st \<and> ap_timestamp st3 = ap_timestamp st \<and> ap_pending_events st3 = [] \<and> ap_app_hash st3 = ap_app_hash st"
    using run(2) by (auto simp: liquidation_phase_def put_perp_def Option.bind_eq_Some_conv split: option.splits)
  moreover have "app_commit st' = compute_app_hash keccak (st' \<lparr> ap_app_hash := ap_app_hash st3 \<rparr>)"
    unfolding fin [symmetric]
    by (simp add: st_end_block_def Let_def store_block_events_def store_block_metadata_def app_commit_def,
        rule compute_app_hash_cong) simp_all
  ultimately show ?thesis
    unfolding fin [symmetric]
    by (simp add: st_end_block_def Let_def store_block_events_def store_block_metadata_def get_block_events_def
        hm_get_or_def hm_get_insert app_commit_def)
qed

lemma end_block_idle:
  assumes "ap_perp st = None"
  shows "\<exists>st'. app_end_block keccak st = Some st' \<and> ap_perp st' = None \<and> ap_nonces st' = ap_nonces st"
  using assms
  by (simp add: app_end_block_def take_pending_block_events_def funding_phase_def liquidation_phase_def Let_def split_beta
      store_block_events_def store_block_metadata_def st_end_block_def)

lemma app_end_block_hash:
  "app_end_block keccak st = Some st' \<Longrightarrow> app_commit st' = compute_app_hash keccak (st' \<lparr> ap_app_hash := ap_app_hash st \<rparr>)"
  by (drule app_end_block_run) blast

text \<open>
  The end of a block seals it: the events of its transactions come first among
  the events stored for its height and none is left pending, the hash that is
  committed is the one recorded for the height and in the metadata, and it is the
  commitment to the final state chained to the previous hash.
\<close>

theorem end_block_seals:
  assumes "app_end_block keccak st = Some st'"
  shows "\<exists>evs. get_block_events st' (ap_height st') = ap_pending_events st @ evs \<and>
    hm_get (ap_block_hashes st') (ap_height st') = Some (app_commit st') \<and>
    map_option bm_hash (hm_get (ap_block_metadata st') (ap_height st')) = Some (app_commit st') \<and>
    ap_height st' = ap_height st \<and> ap_timestamp st' = ap_timestamp st \<and> ap_pending_events st' = [] \<and>
    app_commit st' = compute_app_hash keccak (st' \<lparr> ap_app_hash := ap_app_hash st \<rparr>)"
  using assms by (rule app_end_block_run)

theorem end_block_seals_witness:
  "\<exists>st'. app_end_block pad_hash committed_sample = Some st' \<and>
     hm_get (ap_block_hashes st') 0 = Some (app_commit st') \<and> ap_pending_events st' = []"
proof -
  obtain st' where run: "app_end_block pad_hash committed_sample = Some st'"
    by (auto simp: app_end_block_def take_pending_block_events_def funding_phase_def liquidation_phase_def committed_sample_def
        app_state_new_def app_state_of_def Let_def split_beta)
  then show ?thesis
    using end_block_seals [OF run] by (auto simp: committed_sample_def app_state_new_def app_state_of_def)
qed

end
