(* ===== verification/Attestation.thy ===== *)
theory Attestation
  imports Merkle Rust_Int "HOL-Library.List_Lexorder"
begin

text \<open>
  State attestations, from \<open>crates/chain/src/attestation.rs\<close>,
  \<open>attestation_collector.rs\<close> and \<open>divergence_handler.rs\<close>: validators sign the
  application hash of every block, a collector compares the hashes, and a handler
  halts the node when it is in the minority.

  Ed25519 is a parameter (\<open>ed25519\<close>), as is the clock that stamps an attestation.
  The quorum threshold, a floating point number in the source, is a fraction here:
  the comparison of the quotient of two integers below \<open>2 ^ 45\<close> with 0.67 does not
  depend on the rounding.  The channel of alerts is the list of alerts sent.
\<close>

section \<open>Attestations\<close>

record ed25519 =
  ed_verifying_key :: "byte list \<Rightarrow> byte list"
  ed_sign :: "byte list \<Rightarrow> byte list \<Rightarrow> byte list"
  ed_key_ok :: "byte list \<Rightarrow> bool"
  ed_verify :: "byte list \<Rightarrow> byte list \<Rightarrow> byte list \<Rightarrow> bool"

record state_attestation =
  sa_height :: nat
  sa_app_hash :: digest
  sa_pubkey :: "byte list"
  sa_signature :: "byte list"
  sa_timestamp :: nat

definition build_signing_message :: "nat \<Rightarrow> digest \<Rightarrow> nat \<Rightarrow> byte list" where
  "build_signing_message h app_hash ts = u64_le h @ app_hash @ u64_le ts"

definition attestation_new :: "ed25519 \<Rightarrow> nat \<Rightarrow> nat \<Rightarrow> digest \<Rightarrow> byte list \<Rightarrow> state_attestation" where
  "attestation_new ed now h app_hash secret =
     \<lparr> sa_height = h, sa_app_hash = app_hash, sa_pubkey = ed_verifying_key ed secret,
       sa_signature = ed_sign ed secret (build_signing_message h app_hash now), sa_timestamp = now \<rparr>"

definition attestation_verify :: "ed25519 \<Rightarrow> state_attestation \<Rightarrow> bool" where
  "attestation_verify ed a = (ed_key_ok ed (sa_pubkey a) \<and>
     ed_verify ed (sa_pubkey a) (build_signing_message (sa_height a) (sa_app_hash a) (sa_timestamp a)) (sa_signature a))"

record attestation_key_pair =
  kp_secret :: "byte list"

definition kp_from_secret_key :: "byte list \<Rightarrow> attestation_key_pair" where
  "kp_from_secret_key secret = \<lparr> kp_secret = secret \<rparr>"

definition kp_public_key :: "ed25519 \<Rightarrow> attestation_key_pair \<Rightarrow> byte list" where
  "kp_public_key ed k = ed_verifying_key ed (kp_secret k)"

definition sign_attestation :: "ed25519 \<Rightarrow> nat \<Rightarrow> attestation_key_pair \<Rightarrow> nat \<Rightarrow> digest \<Rightarrow> state_attestation" where
  "sign_attestation ed now k h app_hash = attestation_new ed now h app_hash (kp_secret k)"

section \<open>The collector\<close>

record attestation_config =
  ac_retention_blocks :: nat
  ac_collection_timeout_ms :: nat
  ac_quorum :: "nat \<times> nat"
  ac_enabled :: bool

definition attestation_config_default :: attestation_config where
  "attestation_config_default =
     \<lparr> ac_retention_blocks = 100, ac_collection_timeout_ms = 5000, ac_quorum = (67, 100), ac_enabled = True \<rparr>"

record divergence_alert =
  da_height :: nat
  da_our_hash :: digest
  da_majority_hash :: "digest option"
  da_attestations :: "state_attestation list"
  da_we_are_minority :: bool
  da_hash_votes :: "(digest, nat) btree"

record attestation_collector =
  co_attestations :: "(nat, state_attestation list) btree"
  co_validators :: "(byte list, nat) hash_map"
  co_our_pubkey :: "byte list option"
  co_our_hashes :: "(nat, digest) btree"
  co_config :: attestation_config
  co_alerts :: "divergence_alert list"

datatype attestation_error = AttInvalidSignature | AttUnknownValidator | AttHeightTooOld | AttDuplicate

definition collector_new :: "attestation_config \<Rightarrow> byte list option \<Rightarrow> attestation_collector" where
  "collector_new cfg key = \<lparr> co_attestations = [], co_validators = [], co_our_pubkey = key, co_our_hashes = [],
     co_config = cfg, co_alerts = [] \<rparr>"

definition add_validator :: "byte list \<Rightarrow> nat \<Rightarrow> attestation_collector \<Rightarrow> attestation_collector" where
  "add_validator key vp c = c \<lparr> co_validators := hm_insert key vp (co_validators c) \<rparr>"

definition remove_validator :: "byte list \<Rightarrow> attestation_collector \<Rightarrow> attestation_collector" where
  "remove_validator key c = c \<lparr> co_validators := hm_remove key (co_validators c) \<rparr>"

definition update_validator_power :: "byte list \<Rightarrow> nat \<Rightarrow> attestation_collector \<Rightarrow> attestation_collector" where
  "update_validator_power key vp c =
    (if vp = 0 then remove_validator key c else add_validator key vp c)"

text \<open>\<open>sum\<close> of 64-bit numbers, and \<open>retain\<close> from a height on.\<close>

definition sum_u64 :: "nat list \<Rightarrow> nat" where
  "sum_u64 xs = wrap_u64 (sum_list xs)"

definition total_voting_power :: "attestation_collector \<Rightarrow> nat" where
  "total_voting_power c = sum_u64 (hm_values (co_validators c))"

definition retain_from :: "nat \<Rightarrow> (nat, 'v) btree \<Rightarrow> (nat, 'v) btree" where
  "retain_from mn m = filter (\<lambda>(h, _). h \<ge> mn) m"

definition record_our_hash :: "nat \<Rightarrow> digest \<Rightarrow> attestation_collector \<Rightarrow> attestation_collector" where
  "record_our_hash h app_hash c = c \<lparr> co_our_hashes :=
     retain_from (h - ac_retention_blocks (co_config c)) (bt_insert h app_hash (co_our_hashes c)) \<rparr>"

text \<open>The voting power of each hash and of all of them; unknown signers do not count.\<close>

definition count_attestation ::
  "(byte list, nat) hash_map \<Rightarrow> state_attestation \<Rightarrow> (digest, nat) btree \<times> nat \<Rightarrow> (digest, nat) btree \<times> nat" where
  "count_attestation vals a = (\<lambda>(votes, tot). case hm_get vals (sa_pubkey a) of
       None \<Rightarrow> (votes, tot)
     | Some vp \<Rightarrow>
         (bt_insert (sa_app_hash a) (wrap_u64 ((case bt_get votes (sa_app_hash a) of Some v \<Rightarrow> v | None \<Rightarrow> 0) + vp)) votes,
          wrap_u64 (tot + vp)))"

definition count_votes :: "(byte list, nat) hash_map \<Rightarrow> state_attestation list \<Rightarrow> (digest, nat) btree \<times> nat" where
  "count_votes vals as = fold (count_attestation vals) as ([], 0)"

text \<open>\<open>max_by_key\<close>: of several largest elements, the last one.\<close>

definition max_by_power :: "(digest \<times> nat) list \<Rightarrow> (digest \<times> nat) option" where
  "max_by_power xs = fold (\<lambda>x best. case best of
       None \<Rightarrow> Some x | Some b \<Rightarrow> if snd x \<ge> snd b then Some x else Some b) xs None"

definition below_quorum :: "attestation_config \<Rightarrow> nat \<Rightarrow> nat \<Rightarrow> bool" where
  "below_quorum cfg voted tot = (voted * snd (ac_quorum cfg) < fst (ac_quorum cfg) * tot)"

definition check_divergence :: "nat \<Rightarrow> attestation_collector \<Rightarrow> attestation_collector" where
  "check_divergence h c = (case bt_get (co_attestations c) h of
       None \<Rightarrow> c
     | Some as \<Rightarrow>
         let (votes, voted) = count_votes (co_validators c) as; tot = total_voting_power c in
         if tot = 0 then c
         else if below_quorum (co_config c) voted tot then c
         else let majority = map_option fst (max_by_power votes) in
         if length votes \<le> 1 then c
         else let ours = bt_get (co_our_hashes c) h in
         c \<lparr> co_alerts := co_alerts c @ [
             \<lparr> da_height = h, da_our_hash = (case ours of Some x \<Rightarrow> x | None \<Rightarrow> replicate 32 0),
               da_majority_hash = majority, da_attestations = as,
               da_we_are_minority = (case (ours, majority) of (Some x, Some y) \<Rightarrow> x \<noteq> y | _ \<Rightarrow> False),
               da_hash_votes = votes \<rparr>] \<rparr>)"

definition latest_own_height :: "attestation_collector \<Rightarrow> nat" where
  "latest_own_height c = (if co_our_hashes c = [] then 0 else Max (set (map fst (co_our_hashes c))))"

definition process_attestation ::
  "ed25519 \<Rightarrow> state_attestation \<Rightarrow> attestation_collector \<Rightarrow> (attestation_error + unit) \<times> attestation_collector" where
  "process_attestation ed a c =
    (if \<not> ac_enabled (co_config c) then (Inr (), c)
     else if \<not> attestation_verify ed a then (Inl AttInvalidSignature, c)
     else if \<not> hm_contains (sa_pubkey a) (co_validators c) then (Inl AttUnknownValidator, c)
     else if wrap_u64 (sa_height a + ac_retention_blocks (co_config c)) < latest_own_height c
     then (Inl AttHeightTooOld, c)
     else let as = (case bt_get (co_attestations c) (sa_height a) of Some as \<Rightarrow> as | None \<Rightarrow> []) in
       if \<exists>b \<in> set as. sa_pubkey b = sa_pubkey a
       then (Inl AttDuplicate, c)
       else let c' = c \<lparr> co_attestations := retain_from (sa_height a - ac_retention_blocks (co_config c))
              (bt_insert (sa_height a) (as @ [a]) (co_attestations c)) \<rparr>
            in (Inr (), check_divergence (sa_height a) c'))"

definition attestation_count :: "attestation_collector \<Rightarrow> nat \<Rightarrow> nat" where
  "attestation_count c h = (case bt_get (co_attestations c) h of Some as \<Rightarrow> length as | None \<Rightarrow> 0)"

definition get_attestations :: "attestation_collector \<Rightarrow> nat \<Rightarrow> state_attestation list" where
  "get_attestations c h = (case bt_get (co_attestations c) h of Some as \<Rightarrow> as | None \<Rightarrow> [])"

record attestation_stats =
  as_total_attestations :: nat
  as_heights_tracked :: nat
  as_validators_count :: nat
  as_total_voting_power :: nat

definition attestation_stats_of :: "attestation_collector \<Rightarrow> attestation_stats" where
  "attestation_stats_of c =
     \<lparr> as_total_attestations = sum_list (map (\<lambda>(_, as). length as) (co_attestations c)),
       as_heights_tracked = length (co_attestations c), as_validators_count = length (co_validators c),
       as_total_voting_power = sum_u64 (hm_values (co_validators c)) \<rparr>"

section \<open>The divergence handler\<close>

datatype divergence_policy = LogOnly | Halt | HaltAndResync

record divergence_config =
  dc_policy :: divergence_policy
  dc_halt_only_on_minority :: bool

definition divergence_config_default :: divergence_config where
  "divergence_config_default = \<lparr> dc_policy = Halt, dc_halt_only_on_minority = True \<rparr>"

record divergence_handler =
  dh_halted :: bool
  dh_divergence_height :: "nat option"
  dh_config :: divergence_config
  dh_history :: "divergence_alert list"

definition handler_new :: "divergence_config \<Rightarrow> divergence_handler" where
  "handler_new cfg = \<lparr> dh_halted = False, dh_divergence_height = None, dh_config = cfg, dh_history = [] \<rparr>"

definition clear_halt :: "divergence_handler \<Rightarrow> divergence_handler" where
  "clear_halt d = d \<lparr> dh_halted := False, dh_divergence_height := None \<rparr>"

definition halt :: "nat \<Rightarrow> divergence_handler \<Rightarrow> divergence_handler" where
  "halt h d = d \<lparr> dh_halted := True, dh_divergence_height := Some h \<rparr>"

definition remember_alert :: "divergence_alert \<Rightarrow> divergence_handler \<Rightarrow> divergence_handler" where
  "remember_alert al d = (let hist = dh_history d @ [al] in
     d \<lparr> dh_history := (if length hist > 100 then tl hist else hist) \<rparr>)"

text \<open>Resynchronising only writes to the log, so the last two policies act alike.\<close>

definition handle_alert :: "divergence_alert \<Rightarrow> divergence_handler \<Rightarrow> divergence_handler" where
  "handle_alert al d = (let d1 = remember_alert al d in
     case dc_policy (dh_config d1) of
       LogOnly \<Rightarrow> d1
     | Halt \<Rightarrow> if dc_halt_only_on_minority (dh_config d1) \<and> \<not> da_we_are_minority al then d1
               else halt (da_height al) d1
     | HaltAndResync \<Rightarrow> if dc_halt_only_on_minority (dh_config d1) \<and> \<not> da_we_are_minority al then d1
               else halt (da_height al) d1)"

definition run_handler :: "divergence_alert list \<Rightarrow> divergence_handler \<Rightarrow> divergence_handler" where
  "run_handler als d = fold handle_alert als d"

text \<open>
  The system of collector and handler.  The handler that runs is not the one that
  is returned: they share the halted flag only.
\<close>

record attestation_system =
  sy_collector :: attestation_collector
  sy_returned :: divergence_handler
  sy_running :: divergence_handler

definition create_attestation_system ::
  "byte list option \<Rightarrow> attestation_config \<Rightarrow> divergence_config \<Rightarrow> attestation_system" where
  "create_attestation_system key ccfg hcfg =
     \<lparr> sy_collector = collector_new ccfg key, sy_returned = handler_new hcfg, sy_running = handler_new hcfg \<rparr>"

definition system_alert :: "divergence_alert \<Rightarrow> attestation_system \<Rightarrow> attestation_system" where
  "system_alert al s = (let r = handle_alert al (sy_running s) in
     s \<lparr> sy_running := r, sy_returned := (sy_returned s) \<lparr> dh_halted := dh_halted r \<rparr> \<rparr>)"

definition system_clear_halt :: "attestation_system \<Rightarrow> attestation_system" where
  "system_clear_halt s = (let r = clear_halt (sy_returned s) in
     s \<lparr> sy_returned := r, sy_running := (sy_running s) \<lparr> dh_halted := dh_halted r \<rparr> \<rparr>)"


section \<open>What the collector keeps\<close>

definition signed_at :: "ed25519 \<Rightarrow> nat \<Rightarrow> state_attestation list \<Rightarrow> bool" where
  "signed_at ed h as = (distinct (map sa_pubkey as) \<and> (\<forall>a \<in> set as. sa_height a = h \<and> attestation_verify ed a))"

definition alert_justified :: "ed25519 \<Rightarrow> divergence_alert \<Rightarrow> bool" where
  "alert_justified ed al = (signed_at ed (da_height al) (da_attestations al) \<and>
     (\<exists>a \<in> set (da_attestations al). \<exists>b \<in> set (da_attestations al).
        sa_pubkey a \<noteq> sa_pubkey b \<and> sa_app_hash a \<noteq> sa_app_hash b))"

definition collector_inv :: "ed25519 \<Rightarrow> attestation_collector \<Rightarrow> bool" where
  "collector_inv ed c = (bt_inv (co_attestations c) \<and> (\<forall>(h, as) \<in> set (co_attestations c). signed_at ed h as) \<and>
     (\<forall>al \<in> set (co_alerts c). alert_justified ed al))"

inductive co_step :: "ed25519 \<Rightarrow> attestation_collector \<Rightarrow> attestation_collector \<Rightarrow> bool" for ed where
  attest: "co_step ed c (snd (process_attestation ed a c))"
| own: "co_step ed c (record_our_hash h app_hash c)"
| power: "co_step ed c (update_validator_power key vp c)"
| join: "co_step ed c (add_validator key vp c)"
| leave: "co_step ed c (remove_validator key c)"

inductive_cases co_stepE: "co_step ed c c'"

lemma bt_inv_filter: "bt_inv m \<Longrightarrow> bt_inv (filter P m)"
  by (simp add: bt_inv_def sorted_wrt_map sorted_wrt_filter)

lemma count_votes_keys:
  "set (map fst (fst (fold (count_attestation vals) as (votes, t)))) \<subseteq> set (map fst votes) \<union> sa_app_hash ` set as"
proof (induction as arbitrary: votes t)
  case (Cons a as)
  obtain votes' t' where step: "count_attestation vals a (votes, t) = (votes', t')"
    and sub: "set (map fst votes') \<subseteq> insert (sa_app_hash a) (set (map fst votes))"
    by (cases "hm_get vals (sa_pubkey a)") (auto simp: count_attestation_def)
  show ?case using Cons [of votes' t'] step sub by auto
qed simp

lemma bt_inv_count_votes: "bt_inv votes \<Longrightarrow> bt_inv (fst (fold (count_attestation vals) as (votes, t)))"
proof (induction as arbitrary: votes t)
  case (Cons a as)
  obtain votes' t' where step: "count_attestation vals a (votes, t) = (votes', t')" and inv: "bt_inv votes'"
    using Cons.prems by (cases "hm_get vals (sa_pubkey a)") (auto simp: count_attestation_def)
  show ?case using Cons.IH [OF inv, of t'] step by simp
qed simp

lemma two_keys:
  assumes "bt_inv m" "\<not> length m \<le> 1"
  shows "\<exists>x \<in> set (map fst m). \<exists>y \<in> set (map fst m). x \<noteq> y"
proof (cases m)
  case (Cons p m')
  then obtain q m'' where m': "m' = q # m''" using assms(2) by (cases m') auto
  have "fst p < fst q" using assms(1) Cons m' by (simp add: bt_inv_def)
  then show ?thesis using Cons m' by (intro bexI [of _ "fst p"] bexI [of _ "fst q"]) auto
qed (use assms in simp)

lemma signed_at_same: "signed_at ed h as \<Longrightarrow> a \<in> set as \<Longrightarrow> b \<in> set as \<Longrightarrow> sa_pubkey a = sa_pubkey b \<Longrightarrow> a = b"
  by (auto simp: signed_at_def distinct_map dest: inj_onD)

lemma check_divergence_frame [simp]: "co_attestations (check_divergence h c) = co_attestations c"
  by (simp add: check_divergence_def Let_def split_beta split: option.splits)

text \<open>The check either leaves the collector alone or adds one alert.\<close>

lemma check_divergence_cases:
  obtains (quiet) "check_divergence h c = c"
  | (alarm) as al where "bt_get (co_attestations c) h = Some as" "check_divergence h c = c \<lparr> co_alerts := co_alerts c @ [al] \<rparr>"
      "da_height al = h" "da_attestations al = as" "da_hash_votes al = fst (count_votes (co_validators c) as)"
      "\<not> length (da_hash_votes al) \<le> 1" "da_majority_hash al = map_option fst (max_by_power (da_hash_votes al))"
      "\<not> below_quorum (co_config c) (snd (count_votes (co_validators c) as)) (total_voting_power c)"
      "da_we_are_minority al = (case (bt_get (co_our_hashes c) h, da_majority_hash al) of (Some x, Some y) \<Rightarrow> x \<noteq> y | _ \<Rightarrow> False)"
proof (cases "bt_get (co_attestations c) h")
  case None
  then show ?thesis using quiet by (simp add: check_divergence_def)
next
  case (Some as)
  show ?thesis
  proof (cases "total_voting_power c = 0 \<or> below_quorum (co_config c) (snd (count_votes (co_validators c) as)) (total_voting_power c) \<or>
      length (fst (count_votes (co_validators c) as)) \<le> 1")
    case True
    then show ?thesis using Some quiet by (auto simp: check_divergence_def Let_def split_beta)
  next
    case False
    then show ?thesis using Some
      by (intro alarm [OF Some, of "last (co_alerts (check_divergence h c))"])
        (simp_all add: check_divergence_def Let_def split_beta)
  qed
qed

lemma alert_of_check:
  assumes "signed_at ed h as" "\<not> length (fst (count_votes vals as)) \<le> 1"
  shows "\<exists>a \<in> set as. \<exists>b \<in> set as. sa_pubkey a \<noteq> sa_pubkey b \<and> sa_app_hash a \<noteq> sa_app_hash b"
proof -
  have "bt_inv (fst (count_votes vals as))" by (simp add: count_votes_def bt_inv_count_votes)
  then obtain x y where xy: "x \<in> set (map fst (fst (count_votes vals as)))" "y \<in> set (map fst (fst (count_votes vals as)))" "x \<noteq> y"
    using two_keys assms(2) by blast
  have "set (map fst (fst (count_votes vals as))) \<subseteq> sa_app_hash ` set as"
    using count_votes_keys [of vals as "[]" 0] by (simp add: count_votes_def)
  then obtain a b where "a \<in> set as" "b \<in> set as" "sa_app_hash a = x" "sa_app_hash b = y" using xy by blast
  then show ?thesis using xy(3) signed_at_same [OF assms(1)] by (intro bexI [of _ a] bexI [of _ b]) auto
qed

lemma check_divergence_inv:
  assumes "collector_inv ed c"
  shows "collector_inv ed (check_divergence h c)"
proof (cases h c rule: check_divergence_cases)
  case (alarm as al)
  have "signed_at ed h as" using assms alarm(1) bt_get_in_set by (fastforce simp: collector_inv_def)
  then have "alert_justified ed al" using alarm alert_of_check [of ed h as "co_validators c"] by (simp add: alert_justified_def)
  then show ?thesis using assms alarm(2) by (simp add: collector_inv_def)
qed (use assms in simp)

lemma signed_at_snoc:
  "signed_at ed (sa_height a) as \<Longrightarrow> attestation_verify ed a \<Longrightarrow> \<forall>b \<in> set as. sa_pubkey b \<noteq> sa_pubkey a \<Longrightarrow>
     signed_at ed (sa_height a) (as @ [a])"
  by (auto simp: signed_at_def)

lemma set_retain_from: "set (retain_from mn m) \<subseteq> set m"
  by (auto simp: retain_from_def)

lemma process_attestation_inv:
  assumes "collector_inv ed c"
  shows "collector_inv ed (snd (process_attestation ed a c))"
proof (cases "process_attestation ed a c = (fst (process_attestation ed a c), c)")
  case True
  then show ?thesis using assms by (metis snd_conv)
next
  case False
  let ?as = "case bt_get (co_attestations c) (sa_height a) of Some as \<Rightarrow> as | None \<Rightarrow> []"
  let ?m = "retain_from (sa_height a - ac_retention_blocks (co_config c)) (bt_insert (sa_height a) (?as @ [a]) (co_attestations c))"
  have ok: "attestation_verify ed a" "\<forall>b \<in> set ?as. sa_pubkey b \<noteq> sa_pubkey a"
    and run: "process_attestation ed a c = (Inr (), check_divergence (sa_height a) (c \<lparr> co_attestations := ?m \<rparr>))"
    using False by (auto simp: process_attestation_def Let_def split: if_splits)
  have "signed_at ed (sa_height a) ?as"
  proof (cases "bt_get (co_attestations c) (sa_height a)")
    case (Some as)
    then show ?thesis using assms bt_get_in_set [OF Some] by (auto simp: collector_inv_def)
  qed (simp add: signed_at_def)
  then have "signed_at ed (sa_height a) (?as @ [a])" using ok by (intro signed_at_snoc)
  moreover have "set ?m \<subseteq> insert (sa_height a, ?as @ [a]) (set (co_attestations c))"
    using set_retain_from set_bt_insert_subset by (rule order_trans)
  ultimately have "collector_inv ed (c \<lparr> co_attestations := ?m \<rparr>)"
    using assms by (fastforce simp: collector_inv_def retain_from_def bt_inv_filter)
  then show ?thesis using run check_divergence_inv by simp
qed

lemma co_step_inv: "co_step ed c c' \<Longrightarrow> collector_inv ed c \<Longrightarrow> collector_inv ed c'"
  by (erule co_stepE)
     (simp_all add: process_attestation_inv, simp_all add: collector_inv_def record_our_hash_def add_validator_def
       remove_validator_def update_validator_power_def)

lemma collector_inv_reachable: "(co_step ed)\<^sup>*\<^sup>* c c' \<Longrightarrow> collector_inv ed c \<Longrightarrow> collector_inv ed c'"
  by (induction rule: rtranclp_induct) (auto dest: co_step_inv)

lemma collector_inv_new: "collector_inv ed (collector_new cfg key)"
  by (simp add: collector_inv_def collector_new_def)


section \<open>Counting votes\<close>

definition power_of :: "(byte list, nat) hash_map \<Rightarrow> state_attestation \<Rightarrow> nat" where
  "power_of vals a = hm_get_or 0 vals (sa_pubkey a)"

definition backing :: "(byte list, nat) hash_map \<Rightarrow> state_attestation list \<Rightarrow> digest \<Rightarrow> nat" where
  "backing vals as h = sum_list (map (power_of vals) (filter (\<lambda>a. sa_app_hash a = h) as))"

lemma backing_Cons: "backing vals (a # as) h = (if sa_app_hash a = h then power_of vals a else 0) + backing vals as h"
  by (simp add: backing_def)

lemma backing_le: "backing vals as h \<le> sum_list (map (power_of vals) as)"
  by (induction as) (auto simp: backing_Cons backing_def)

definition votes_for :: "(digest, nat) btree \<Rightarrow> digest \<Rightarrow> nat" where
  "votes_for votes h = (case bt_get votes h of Some v \<Rightarrow> v | None \<Rightarrow> 0)"

lemma count_attestation_step:
  assumes "tot + power_of vals a < u64_mod" "votes_for votes (sa_app_hash a) + power_of vals a < u64_mod"
  shows "\<exists>votes'. count_attestation vals a (votes, tot) = (votes', tot + power_of vals a) \<and>
     votes_for votes' = (\<lambda>h. votes_for votes h + (if sa_app_hash a = h then power_of vals a else 0))"
  using assms
  by (cases "hm_get vals (sa_pubkey a)")
    (auto simp: count_attestation_def power_of_def hm_get_or_def wrap_u64_def u64_mod_def votes_for_def)

lemma count_votes_fold:
  assumes "tot + sum_list (map (power_of vals) as) < u64_mod" "\<forall>h. votes_for votes h + backing vals as h < u64_mod"
  shows "snd (fold (count_attestation vals) as (votes, tot)) = tot + sum_list (map (power_of vals) as) \<and>
    votes_for (fst (fold (count_attestation vals) as (votes, tot))) = (\<lambda>h. votes_for votes h + backing vals as h)"
  using assms
proof (induction as arbitrary: votes tot)
  case (Cons a as)
  have "tot + power_of vals a < u64_mod" "votes_for votes (sa_app_hash a) + power_of vals a < u64_mod"
    using Cons.prems(1) spec [OF Cons.prems(2), of "sa_app_hash a"] by (simp_all add: backing_Cons)
  then obtain votes' where s: "count_attestation vals a (votes, tot) = (votes', tot + power_of vals a)"
      "votes_for votes' = (\<lambda>h. votes_for votes h + (if sa_app_hash a = h then power_of vals a else 0))"
    using count_attestation_step by blast
  have "votes_for votes' h + backing vals as h < u64_mod" for h
    using spec [OF Cons.prems(2), of h] s(2) by (simp add: backing_Cons split: if_splits)
  then show ?case using Cons.IH [of "tot + power_of vals a" votes'] Cons.prems(1) s
    by (auto simp: backing_Cons add.assoc)
qed (simp add: backing_def)

lemma count_votes_exact:
  assumes "sum_list (map (power_of vals) as) < u64_mod"
  shows "snd (count_votes vals as) = sum_list (map (power_of vals) as)"
    "votes_for (fst (count_votes vals as)) = backing vals as"
proof -
  have "\<forall>h. votes_for [] h + backing vals as h < u64_mod"
    using assms backing_le [of vals as] by (auto simp: votes_for_def bt_get_def intro: le_less_trans)
  then show "snd (count_votes vals as) = sum_list (map (power_of vals) as)"
    "votes_for (fst (count_votes vals as)) = backing vals as"
    using count_votes_fold [of 0 vals as "[]"] assms by (simp_all add: count_votes_def votes_for_def bt_get_def fun_eq_iff)
qed

text \<open>The signers are distinct, so their power is at most the total power.\<close>

lemma signers_power_le:
  assumes "distinct (map sa_pubkey as)" "hm_inv vals"
  shows "sum_list (map (power_of vals) as) \<le> sum_list (hm_values vals)"
proof -
  have "sum_list (map (power_of vals) as) = (\<Sum>k \<in> set (map sa_pubkey as). hm_get_or 0 vals k)"
    using sum_list_distinct_conv_sum_set [OF assms(1), of "hm_get_or 0 vals"] by (simp add: power_of_def [abs_def] o_def)
  also have "\<dots> \<le> (\<Sum>k \<in> set (map sa_pubkey as) \<union> fst ` set vals. hm_get_or 0 vals k)" by (rule sum_mono2) auto
  also have "\<dots> = (\<Sum>k \<in> fst ` set vals. hm_get_or 0 vals k)"
    by (rule sum.mono_neutral_right) (auto simp: hm_get_or_def hm_get_def split: option.splits dest!: map_of_SomeD intro: rev_image_eqI)
  also have "\<dots> = sum_list (map (hm_get_or 0 vals) (map fst vals))"
    using assms(2) sum_list_distinct_conv_sum_set [of "map fst vals" "hm_get_or 0 vals"] by (simp add: hm_inv_def)
  also have "map (hm_get_or 0 vals) (map fst vals) = hm_values vals"
    using assms(2) hm_in_set_get by (fastforce simp: hm_values_def hm_get_or_def)
  finally show ?thesis .
qed

lemma max_by_power_fold:
  "\<exists>m. fold (\<lambda>x best. case best of None \<Rightarrow> Some x | Some b \<Rightarrow> if snd x \<ge> snd b then Some x else Some b) xs (Some b0) = Some m \<and>
     m \<in> insert b0 (set xs) \<and> (\<forall>x \<in> insert b0 (set xs). snd x \<le> (snd m :: nat))"
proof (induction xs arbitrary: b0)
  case (Cons x xs)
  show ?case
  proof (cases "snd x \<ge> snd b0")
    case True
    then show ?thesis using Cons [of x] by fastforce
  next
    case False
    then show ?thesis using Cons [of b0] by fastforce
  qed
qed simp

lemma max_by_power_max:
  assumes "xs \<noteq> []"
  shows "\<exists>m. max_by_power xs = Some m \<and> m \<in> set xs \<and> (\<forall>x \<in> set xs. snd x \<le> snd m)"
  using assms max_by_power_fold by (cases xs) (simp_all add: max_by_power_def)


lemma majority_of_votes:
  assumes "length (fst (count_votes vals as)) > 1" "sum_list (map (power_of vals) as) < u64_mod"
  shows "\<exists>m. map_option fst (max_by_power (fst (count_votes vals as))) = Some m \<and> (\<forall>h. backing vals as h \<le> backing vals as m)"
proof -
  let ?votes = "fst (count_votes vals as)"
  have inv: "bt_inv ?votes" by (simp add: count_votes_def bt_inv_count_votes)
  obtain m p where m: "max_by_power ?votes = Some (m, p)" "(m, p) \<in> set ?votes" "\<forall>x \<in> set ?votes. snd x \<le> p"
    using max_by_power_max [of ?votes] assms(1) by (cases "?votes = []") auto
  have "votes_for ?votes h \<le> votes_for ?votes m" for h
    using m(3) bt_in_set_get [OF inv m(2)] bt_get_in_set [of ?votes h]
    by (cases "bt_get ?votes h") (auto simp: votes_for_def)
  then show ?thesis using m(1) count_votes_exact(2) [OF assms(2)] by simp
qed

lemma signers_fit:
  assumes "signed_at ed h as" "hm_inv (co_validators c)" "sum_list (hm_values (co_validators c)) < u64_mod"
  shows "sum_list (map (power_of (co_validators c)) as) \<le> total_voting_power c"
    "sum_list (map (power_of (co_validators c)) as) < u64_mod"
  using signers_power_le [of as "co_validators c"] assms
  by (simp_all add: signed_at_def total_voting_power_def sum_u64_def wrap_u64_def u64_mod_def)

text \<open>An attestation adds at most one alert, about its own height.\<close>

lemma process_attestation_alert:
  assumes "co_alerts (snd (process_attestation ed a c)) = co_alerts c @ [al]"
  obtains as c1 where "bt_get (co_attestations c1) (sa_height a) = Some as"
    "snd (process_attestation ed a c) = check_divergence (sa_height a) c1" "co_alerts c1 = co_alerts c"
    "co_validators c1 = co_validators c" "co_our_hashes c1 = co_our_hashes c" "co_config c1 = co_config c"
    "co_attestations c1 = co_attestations (snd (process_attestation ed a c))"
proof -
  have "process_attestation ed a c \<noteq> (fst (process_attestation ed a c), c)"
    using assms by (metis append_self_conv list.distinct(1) snd_conv)
  then obtain m where run: "snd (process_attestation ed a c) = check_divergence (sa_height a) (c \<lparr> co_attestations := m \<rparr>)"
    by (auto simp: process_attestation_def Let_def split: if_splits)
  have "bt_get m (sa_height a) \<noteq> None"
  proof
    assume "bt_get m (sa_height a) = None"
    then have "check_divergence (sa_height a) (c \<lparr> co_attestations := m \<rparr>) = c \<lparr> co_attestations := m \<rparr>"
      by (simp add: check_divergence_def)
    then show False using run assms by simp
  qed
  then obtain as where "bt_get m (sa_height a) = Some as" by blast
  then show ?thesis using run by (intro that [of "c \<lparr> co_attestations := m \<rparr>" as]) auto
qed

text \<open>
  Every alert of the collector, whatever sequence of attestations, own hashes
  and changes of the validator set it has seen, is justified: it holds attestations
  with valid signatures of different validators for the height of the alert, and two
  of them sign different application hashes.  While validators agree, no alert is sent.
\<close>

theorem alerts_are_justified:
  assumes "(co_step ed)\<^sup>*\<^sup>* (collector_new cfg key) c" "al \<in> set (co_alerts c)"
  shows "(\<forall>a \<in> set (da_attestations al). sa_height a = da_height al \<and> attestation_verify ed a) \<and>
    distinct (map sa_pubkey (da_attestations al)) \<and>
    (\<exists>a \<in> set (da_attestations al). \<exists>b \<in> set (da_attestations al).
       sa_pubkey a \<noteq> sa_pubkey b \<and> sa_app_hash a \<noteq> sa_app_hash b)"
proof -
  have "alert_justified ed al"
    using collector_inv_reachable [OF assms(1) collector_inv_new] assms(2) by (simp add: collector_inv_def)
  then show ?thesis by (simp add: alert_justified_def signed_at_def)
qed



section \<open>Own attestations\<close>

text \<open>What Ed25519 promises: the signatures a key makes are valid under its verifying key.\<close>

definition signatures_verify :: "ed25519 \<Rightarrow> bool" where
  "signatures_verify ed = (\<forall>secret msg. ed_key_ok ed (ed_verifying_key ed secret) \<and>
     ed_verify ed (ed_verifying_key ed secret) msg (ed_sign ed secret msg))"

lemma sign_attestation_verifies: "signatures_verify ed \<Longrightarrow> attestation_verify ed (sign_attestation ed now k h app_hash)"
  by (simp add: signatures_verify_def attestation_verify_def sign_attestation_def attestation_new_def)

lemma bt_get_filter: "bt_get (filter (\<lambda>(k, _). P k) m) k = (if P k then bt_get m k else None)"
  by (induction m) (auto simp: bt_get_def)

lemma get_attestations_stored:
  "process_attestation ed a c = (Inr (), c') \<Longrightarrow> ac_enabled (co_config c) \<Longrightarrow>
     get_attestations c' (sa_height a) = get_attestations c (sa_height a) @ [a]"
  by (auto simp: process_attestation_def Let_def get_attestations_def retain_from_def bt_get_filter split: if_splits)

lemma latest_own_height_le: "(\<And>h x. (h, x) \<in> set (co_our_hashes c) \<Longrightarrow> h \<le> n) \<Longrightarrow> latest_own_height c \<le> n"
  by (auto simp: latest_own_height_def)

text \<open>
  After a block the producer records its hash and attests it: if the node is a
  registered validator, the block is its newest and was not attested before, the
  attestation is accepted and stored, with the hash that was recorded.
\<close>

theorem own_attestation_recorded:
  assumes "signatures_verify ed" "ac_enabled (co_config c)" "hm_contains (kp_public_key ed k) (co_validators c)"
    "\<forall>h' \<in> set (map fst (co_our_hashes c)). h' \<le> h"
    "kp_public_key ed k \<notin> sa_pubkey ` set (get_attestations c h)" "h + ac_retention_blocks (co_config c) < 2 ^ 64"
  shows "\<exists>c'. process_attestation ed (sign_attestation ed now k h app_hash) (record_our_hash h app_hash c) = (Inr (), c') \<and>
    get_attestations c' h = get_attestations c h @ [sign_attestation ed now k h app_hash] \<and>
    bt_get (co_our_hashes c') h = Some app_hash"
proof -
  let ?c = "record_our_hash h app_hash c" and ?a = "sign_attestation ed now k h app_hash"
  have a: "sa_height ?a = h" "sa_pubkey ?a = kp_public_key ed k"
    by (simp_all add: sign_attestation_def attestation_new_def kp_public_key_def)
  have frame: "co_config ?c = co_config c" "co_validators ?c = co_validators c" "get_attestations ?c h = get_attestations c h"
    "co_attestations ?c = co_attestations c" "bt_get (co_our_hashes ?c) h = Some app_hash"
    by (simp_all add: record_our_hash_def get_attestations_def retain_from_def bt_get_filter)
  have "latest_own_height ?c \<le> h"
  proof (rule latest_own_height_le)
    fix h' x assume "(h', x) \<in> set (co_our_hashes ?c)"
    then have "(h', x) \<in> insert (h, app_hash) (set (co_our_hashes c))"
      using set_retain_from set_bt_insert_subset by (fastforce simp: record_our_hash_def)
    then show "h' \<le> h" using assms(4) by force
  qed
  then have "fst (process_attestation ed ?a ?c) = Inr ()"
    using assms(2,3,5,6) sign_attestation_verifies [OF assms(1)] a frame
    by (auto simp: process_attestation_def Let_def wrap_u64_def get_attestations_def image_iff split: option.splits)
  then obtain c' where run: "process_attestation ed ?a ?c = (Inr (), c')" by (metis prod.collapse)
  moreover have "co_our_hashes c' = co_our_hashes ?c"
    using run by (auto simp: process_attestation_def Let_def split: if_splits)
      (auto simp: check_divergence_def Let_def split_beta split: option.splits)
  ultimately show ?thesis using get_attestations_stored [OF run] assms(2) a frame by auto
qed

section \<open>The handler\<close>

lemma handle_alert_config [simp]: "dh_config (handle_alert al d) = dh_config d"
  by (simp add: handle_alert_def remember_alert_def halt_def Let_def split: divergence_policy.splits)

lemma handler_new_simps [simp]:
  "dh_halted (handler_new cfg) = False" "dh_divergence_height (handler_new cfg) = None"
  "dh_config (handler_new cfg) = cfg" "dh_history (handler_new cfg) = []"
  by (simp_all add: handler_new_def)

definition halts_on :: "divergence_config \<Rightarrow> divergence_alert \<Rightarrow> bool" where
  "halts_on cfg al = (dc_policy cfg \<noteq> LogOnly \<and> (dc_halt_only_on_minority cfg \<longrightarrow> da_we_are_minority al))"

lemma handle_alert_effect:
  "dh_halted (handle_alert al d) = (dh_halted d \<or> halts_on (dh_config d) al)"
  "dh_divergence_height (handle_alert al d) = (if halts_on (dh_config d) al then Some (da_height al) else dh_divergence_height d)"
  by (auto simp: handle_alert_def remember_alert_def halt_def halts_on_def Let_def split: divergence_policy.splits)

lemma run_handler_halted: "dh_halted (run_handler als d) = (dh_halted d \<or> (\<exists>al \<in> set als. halts_on (dh_config d) al))"
  unfolding run_handler_def by (induction als arbitrary: d) (auto simp: handle_alert_effect)

lemma run_handler_height: "dh_divergence_height (run_handler als d) =
    (case filter (halts_on (dh_config d)) als of [] \<Rightarrow> dh_divergence_height d | hs \<Rightarrow> Some (da_height (last hs)))"
  unfolding run_handler_def
  by (induction als arbitrary: d) (auto simp: handle_alert_effect split: list.splits)

lemma run_handler_history: "length (dh_history d) \<le> 100 \<Longrightarrow> length (dh_history (run_handler als d)) \<le> 100"
proof (unfold run_handler_def, induction als arbitrary: d)
  case (Cons al als)
  have "length (dh_history (handle_alert al d)) \<le> 100"
    using Cons.prems by (simp add: handle_alert_def remember_alert_def halt_def Let_def split: divergence_policy.splits)
  then show ?case using Cons.IH by simp
qed simp

text \<open>
  The node halts exactly when its policy says so: never under the logging policy,
  otherwise on the first alert, or on the first alert that finds it in the minority;
  the height it names is that of the last alert that halted it, and the history of
  alerts stays bounded.
\<close>

theorem handler_halts_exactly:
  "dh_halted (run_handler als (handler_new cfg)) =
     (case dc_policy cfg of LogOnly \<Rightarrow> False
      | _ \<Rightarrow> if dc_halt_only_on_minority cfg then (\<exists>al \<in> set als. da_we_are_minority al) else als \<noteq> []) \<and>
   dh_divergence_height (run_handler als (handler_new cfg)) =
     (case filter (halts_on cfg) als of [] \<Rightarrow> None | hs \<Rightarrow> Some (da_height (last hs))) \<and>
   length (dh_history (run_handler als (handler_new cfg))) \<le> 100"
  by (cases "dc_policy cfg"; cases als)
    (auto simp: run_handler_halted run_handler_height run_handler_history halts_on_def split: list.split)

text \<open>
  The handler that \<open>create_attestation_system\<close> returns never learns of an alert: it
  halts with the one that runs, but names no height and keeps no history.
\<close>

theorem returned_handler_is_blind:
  "dh_divergence_height (sy_returned (fold system_alert als (create_attestation_system key ccfg hcfg))) = None \<and>
   dh_history (sy_returned (fold system_alert als (create_attestation_system key ccfg hcfg))) = [] \<and>
   dh_halted (sy_returned (fold system_alert als (create_attestation_system key ccfg hcfg))) =
     dh_halted (run_handler als (handler_new hcfg))"
proof -
  have "dh_divergence_height (sy_returned (fold system_alert als s)) = dh_divergence_height (sy_returned s) \<and>
      dh_history (sy_returned (fold system_alert als s)) = dh_history (sy_returned s) \<and>
      sy_running (fold system_alert als s) = run_handler als (sy_running s) \<and>
      dh_halted (sy_returned (fold system_alert als s)) = dh_halted (run_handler als (sy_running s))"
    if "dh_halted (sy_returned s) = dh_halted (sy_running s)" for s
    using that unfolding run_handler_def
    by (induction als arbitrary: s) (simp_all add: system_alert_def Let_def)
  then show ?thesis by (simp add: create_attestation_system_def handler_new_def)
qed

section \<open>A validator that runs ahead\<close>

text \<open>
  The collector forgets relative to the height of the attestation it stores, not to
  its own: one attestation of a registered validator for a far height removes what
  all others attested.
\<close>

theorem future_attestation_erases:
  assumes "process_attestation ed a c = (Inr (), c')" "ac_enabled (co_config c)"
    "\<forall>h \<in> set (map fst (co_attestations c)). h + ac_retention_blocks (co_config c) < sa_height a"
  shows "co_attestations c' = [(sa_height a, [a])]"
proof -
  have get: "bt_get (co_attestations c) (sa_height a) = None"
    using assms(3) by (auto simp: bt_get_eq_None)
  have "filter (\<lambda>(h, _). h \<ge> sa_height a - ac_retention_blocks (co_config c)) (bt_insert (sa_height a) [a] m) = [(sa_height a, [a])]"
    if "\<forall>h \<in> set (map fst m). h + ac_retention_blocks (co_config c) < sa_height a" for m
    using that by (induction m) auto
  from this [OF assms(3)] show ?thesis
    using assms(1,2) get by (auto simp: process_attestation_def Let_def retain_from_def split: if_splits)
qed


section \<open>A fork of two validators\<close>

definition trusting :: ed25519 where
  "trusting = \<lparr> ed_verifying_key = (\<lambda>sk. sk), ed_sign = (\<lambda>_ _. []), ed_key_ok = (\<lambda>_. True), ed_verify = (\<lambda>_ _ _. True) \<rparr>"

definition att_of :: "byte \<Rightarrow> byte \<Rightarrow> state_attestation" where
  "att_of key x = sign_attestation trusting 0 (kp_from_secret_key [key]) 1 [x]"

definition before_fork :: attestation_collector where
  "before_fork = snd (process_attestation trusting (att_of 1 5)
     (add_validator [2] 1 (add_validator [1] 1 (collector_new attestation_config_default None))))"

lemma before_fork_state:
  "before_fork = \<lparr> co_attestations = [(1, [att_of 1 5])], co_validators = [([1], 1), ([2], 1)], co_our_pubkey = None,
     co_our_hashes = [], co_config = attestation_config_default, co_alerts = [] \<rparr>"
  by (simp add: before_fork_def att_of_def sign_attestation_def attestation_new_def kp_from_secret_key_def trusting_def
      process_attestation_def add_validator_def collector_new_def attestation_config_default_def attestation_verify_def
      hm_insert_def hm_contains_def wrap_u64_def latest_own_height_def bt_get_def retain_from_def
      check_divergence_def count_votes_def count_attestation_def hm_get_def total_voting_power_def sum_u64_def hm_values_def below_quorum_def)

definition fork_alert :: divergence_alert where
  "fork_alert = \<lparr> da_height = 1, da_our_hash = replicate 32 0, da_majority_hash = Some [6],
     da_attestations = [att_of 1 5, att_of 2 6], da_we_are_minority = False, da_hash_votes = [([5], 1), ([6], 1)] \<rparr>"

lemma fork_raises_alert:
  "co_alerts (snd (process_attestation trusting (att_of 2 6) before_fork)) = co_alerts before_fork @ [fork_alert]"
  by (simp add: before_fork_state fork_alert_def att_of_def sign_attestation_def attestation_new_def kp_from_secret_key_def trusting_def
      process_attestation_def attestation_config_default_def attestation_verify_def
      hm_contains_def wrap_u64_def latest_own_height_def bt_get_def retain_from_def max_by_power_def
      check_divergence_def count_votes_def count_attestation_def hm_get_def total_voting_power_def sum_u64_def hm_values_def below_quorum_def)

lemma before_fork_reachable: "(co_step trusting)\<^sup>*\<^sup>* (collector_new attestation_config_default None) before_fork"
  unfolding before_fork_def by (meson co_step.attest co_step.join rtranclp.rtrancl_into_rtrancl rtranclp.rtrancl_refl)

theorem alerts_are_justified_witness:
  "fork_alert \<in> set (co_alerts (snd (process_attestation trusting (att_of 2 6) before_fork))) \<and>
   (\<exists>a \<in> set (da_attestations fork_alert). \<exists>b \<in> set (da_attestations fork_alert).
      sa_pubkey a \<noteq> sa_pubkey b \<and> sa_app_hash a \<noteq> sa_app_hash b)"
proof -
  have "(co_step trusting)\<^sup>*\<^sup>* (collector_new attestation_config_default None) (snd (process_attestation trusting (att_of 2 6) before_fork))"
    using before_fork_reachable co_step.attest by (rule rtranclp.rtrancl_into_rtrancl)
  moreover have "fork_alert \<in> set (co_alerts (snd (process_attestation trusting (att_of 2 6) before_fork)))"
    by (simp add: fork_raises_alert)
  ultimately show ?thesis using alerts_are_justified by blast
qed


theorem own_attestation_recorded_witness:
  "\<exists>c'. process_attestation trusting (sign_attestation trusting 0 (kp_from_secret_key [2]) 1 [6])
      (record_our_hash 1 [6] before_fork) = (Inr (), c') \<and>
    get_attestations c' 1 = [att_of 1 5, att_of 2 6]"
proof -
  have "signatures_verify trusting" by (simp add: signatures_verify_def trusting_def)
  moreover have "ac_enabled (co_config before_fork)" "hm_contains (kp_public_key trusting (kp_from_secret_key [2])) (co_validators before_fork)"
    "\<forall>h' \<in> set (map fst (co_our_hashes before_fork)). h' \<le> 1"
    "kp_public_key trusting (kp_from_secret_key [2]) \<notin> sa_pubkey ` set (get_attestations before_fork 1)"
    "1 + ac_retention_blocks (co_config before_fork) < 2 ^ 64"
    by (simp_all add: before_fork_state attestation_config_default_def hm_contains_def hm_get_def kp_public_key_def trusting_def
        kp_from_secret_key_def get_attestations_def bt_get_def att_of_def sign_attestation_def attestation_new_def)
  moreover have "get_attestations before_fork 1 = [att_of 1 5]" "att_of 2 6 = sign_attestation trusting 0 (kp_from_secret_key [2]) 1 [6]"
    by (simp_all add: before_fork_state get_attestations_def bt_get_def att_of_def)
  ultimately show ?thesis using own_attestation_recorded [of trusting before_fork "kp_from_secret_key [2]" 1 0 "[6]"]
    by auto
qed

text \<open>The validator that runs ahead, on this collector.\<close>

theorem future_attestation_erases_witness:
  "co_attestations (snd (process_attestation trusting (sign_attestation trusting 0 (kp_from_secret_key [2]) 1000 [6]) before_fork)) =
     [(1000, [sign_attestation trusting 0 (kp_from_secret_key [2]) 1000 [6]])]"
proof -
  let ?a = "sign_attestation trusting 0 (kp_from_secret_key [2]) 1000 [6]"
  have "fst (process_attestation trusting ?a before_fork) = Inr ()"
    by (simp add: before_fork_state sign_attestation_def attestation_new_def kp_from_secret_key_def trusting_def
      process_attestation_def attestation_config_default_def attestation_verify_def hm_contains_def hm_get_def
      wrap_u64_def latest_own_height_def bt_get_def)
  then have "process_attestation trusting ?a before_fork = (Inr (), snd (process_attestation trusting ?a before_fork))"
    by (metis prod.collapse)
  from future_attestation_erases [OF this] show ?thesis
    by (simp add: before_fork_state attestation_config_default_def sign_attestation_def attestation_new_def)
qed

end
