(* ===== verification/Block_Producer.thy ===== *)
theory Block_Producer
  imports App_Facts Mempool Attestation
begin

text \<open>
  Block production, from \<open>crates/chain/src/block_producer.rs\<close>: a block drains the
  queue into the pool, executes the pending transactions, ends and commits the block,
  clears the pool and attests the new application hash.  The pipelined producer
  collects batches ahead of their execution.

  Libraries and clocks come in a record (\<open>environment\<close>): the JSON serialiser, Keccak,
  the two signature schemes, and the readings of the clock.  A panic is \<open>None\<close>.
\<close>

section \<open>State\<close>

record environment =
  ev_json :: "transaction_type \<Rightarrow> byte list"
  ev_keccak :: hash_fn
  ev_ecdsa :: ecdsa
  ev_ed25519 :: ed25519

record block_producer_config =
  pc_block_time_ms :: nat
  pc_max_txs_per_block :: nat
  pc_max_block_size :: nat

definition producer_config_default :: block_producer_config where
  "producer_config_default = \<lparr> pc_block_time_ms = 200, pc_max_txs_per_block = 10000, pc_max_block_size = 10485760 \<rparr>"

record block_result =
  br_height :: nat
  br_timestamp :: timestamp
  br_app_hash :: digest
  br_tx_count :: nat
  br_succeeded :: nat
  br_failed :: nat
  br_duration :: nat

datatype block_producer_error = BpInvalidTx app_error | BpMempoolFull | BpProduction string | BpHalted

text \<open>
  The handler called after a commit sees the result and the application; its calls
  are recorded, as are the attestations sent to the network.
\<close>

record block_producer =
  bp_app :: app_state
  bp_mempool :: shared_mempool
  bp_config :: block_producer_config
  bp_running :: bool
  bp_on_commit :: "(block_result \<times> app_state) list option"
  bp_key :: "attestation_key_pair option"
  bp_collector :: "attestation_collector option"
  bp_halt_flag :: "bool option"
  bp_broadcast :: "state_attestation list option"

definition producer_new :: "app_state \<Rightarrow> shared_mempool \<Rightarrow> block_producer_config \<Rightarrow> block_producer" where
  "producer_new app mp cfg = \<lparr> bp_app = app, bp_mempool = mp, bp_config = cfg, bp_running = False,
     bp_on_commit = None, bp_key = None, bp_collector = None, bp_halt_flag = None, bp_broadcast = None \<rparr>"

definition with_block_time :: "app_state \<Rightarrow> shared_mempool \<Rightarrow> nat \<Rightarrow> block_producer" where
  "with_block_time app mp ms = producer_new app mp (producer_config_default \<lparr> pc_block_time_ms := ms \<rparr>)"

definition with_attestation :: "attestation_key_pair \<Rightarrow> attestation_collector \<Rightarrow> block_producer \<Rightarrow> block_producer" where
  "with_attestation k c bp = bp \<lparr> bp_key := Some k, bp_collector := Some c \<rparr>"

definition with_halt_flag :: "bool \<Rightarrow> block_producer \<Rightarrow> block_producer" where
  "with_halt_flag flag bp = bp \<lparr> bp_halt_flag := Some flag \<rparr>"

definition producer_is_halted :: "block_producer \<Rightarrow> bool" where
  "producer_is_halted bp = (case bp_halt_flag bp of Some flag \<Rightarrow> flag | None \<Rightarrow> False)"

definition producer_stop :: "block_producer \<Rightarrow> block_producer" where
  "producer_stop bp = bp \<lparr> bp_running := False \<rparr>"

section \<open>Producing a block\<close>

record execution_log =
  el_hashes :: "digest list"
  el_results :: "(digest \<times> bool \<times> nat) list"
  el_succeeded :: nat
  el_failed :: nat

definition log_empty :: execution_log where
  "log_empty = \<lparr> el_hashes = [], el_results = [], el_succeeded = 0, el_failed = 0 \<rparr>"

definition log_tx :: "digest \<Rightarrow> (app_error + tx_result) \<Rightarrow> execution_log \<Rightarrow> execution_log" where
  "log_tx h r el = (case r of
       Inr res \<Rightarrow> el \<lparr> el_hashes := el_hashes el @ [h], el_results := el_results el @ [(h, True, length (tr_events res))],
         el_succeeded := el_succeeded el + 1 \<rparr>
     | Inl e \<Rightarrow> el \<lparr> el_hashes := el_hashes el @ [h], el_results := el_results el @ [(h, False, 0)],
         el_failed := el_failed el + 1 \<rparr>)"

fun execute_loop ::
  "environment \<Rightarrow> timestamp \<Rightarrow> transaction list \<Rightarrow> execution_log \<Rightarrow> app_state \<Rightarrow> (execution_log \<times> app_state) option" where
  "execute_loop ev ts [] el st = Some (el, st)"
| "execute_loop ev ts (tx # txs) el st = (let (h, tx') = get_hash (ev_json ev) (ev_keccak ev) tx in do {
     (r, st1) \<leftarrow> execute_tx (ev_ecdsa ev) (ev_keccak ev) tx' ts st;
     execute_loop ev ts txs (log_tx h r el) st1
   })"

text \<open>
  Begin, execute, end and commit, and the hashes to clear: the part both producers share.
\<close>

definition run_block ::
  "environment \<Rightarrow> timestamp \<Rightarrow> nat \<Rightarrow> transaction list \<Rightarrow> app_state \<Rightarrow> (block_result \<times> digest list \<times> app_state) option" where
  "run_block ev ts duration txs app = do {
     let h = wrap_u64 (ap_height app + 1);
     (el, app1) \<leftarrow> execute_loop ev ts txs log_empty (app_begin_block h ts app);
     app2 \<leftarrow> app_end_block (ev_keccak ev) app1;
     Some (\<lparr> br_height = h, br_timestamp = ts, br_app_hash = app_commit app2, br_tx_count = length txs,
         br_succeeded = el_succeeded el, br_failed = el_failed el, br_duration = duration \<rparr>,
       el_hashes el, app2)
   }"

definition clear_executed :: "digest list \<Rightarrow> shared_mempool \<Rightarrow> shared_mempool" where
  "clear_executed hs sm = sm \<lparr> sh_inner := fold (\<lambda>h m. snd (mempool_remove h m)) hs (sh_inner sm) \<rparr>"

text \<open>The attestation of the new hash: recorded, signed, processed and sent.\<close>

definition attest_block :: "environment \<Rightarrow> nat \<Rightarrow> nat \<Rightarrow> digest \<Rightarrow> block_producer \<Rightarrow> block_producer" where
  "attest_block ev now h app_hash bp = (case (bp_collector bp, bp_key bp) of
       (Some c, Some k) \<Rightarrow>
         let a = sign_attestation (ev_ed25519 ev) now k h app_hash;
             c' = snd (process_attestation (ev_ed25519 ev) a (record_our_hash h app_hash c))
         in bp \<lparr> bp_collector := Some c', bp_broadcast := map_option (\<lambda>sent. sent @ [a]) (bp_broadcast bp) \<rparr>
     | _ \<Rightarrow> bp)"

text \<open>The readings of the clocks for one block.\<close>

record clocks =
  ck_drain :: "nat \<Rightarrow> nat"
  ck_block :: timestamp
  ck_duration :: nat
  ck_attest :: nat

definition produce_block :: "environment \<Rightarrow> clocks \<Rightarrow> block_producer \<Rightarrow> (block_result \<times> block_producer) option" where
  "produce_block ev ck bp = do {
     let sm = drain_into_indexed (ev_json ev) (ev_keccak ev) (ev_ecdsa ev) (ck_drain ck) (bp_mempool bp);
     let txs = get_pending (sh_inner sm) (pc_max_txs_per_block (bp_config bp));
     (res, hs, app) \<leftarrow> run_block ev (ck_block ck) (ck_duration ck) txs (bp_app bp);
     let bp1 = bp \<lparr> bp_app := app, bp_mempool := clear_executed hs sm,
           bp_on_commit := map_option (\<lambda>calls. calls @ [(res, app)]) (bp_on_commit bp) \<rparr>;
     Some (res, attest_block ev (ck_attest ck) (br_height res) (br_app_hash res) bp1)
   }"

text \<open>
  The production loop, one tick of the timer at a time: nothing happens while the
  node is halted, and the loop ends when it was stopped.
\<close>

definition producer_tick :: "environment \<Rightarrow> clocks \<Rightarrow> block_producer \<Rightarrow> block_producer option" where
  "producer_tick ev ck bp =
    (if \<not> bp_running bp \<or> producer_is_halted bp then Some bp else map_option snd (produce_block ev ck bp))"

definition producer_start :: "environment \<Rightarrow> clocks list \<Rightarrow> block_producer \<Rightarrow> block_producer option" where
  "producer_start ev cks bp = ofold (producer_tick ev) cks (bp \<lparr> bp_running := True \<rparr>)"

text \<open>Submission; \<open>contended\<close> tells whether the application is locked at that moment.\<close>

definition submit_tx ::
  "environment \<Rightarrow> bool \<Rightarrow> timestamp \<Rightarrow> transaction \<Rightarrow> block_producer \<Rightarrow> (block_producer_error + digest) \<times> block_producer" where
  "submit_tx ev contended now tx bp = (let (h, tx') = get_hash (ev_json ev) (ev_keccak ev) tx in
     if contended then (Inl (BpProduction ''App lock contention during tx validation''), bp)
     else case check_tx (ev_ecdsa ev) (ev_keccak ev) tx' now (bp_app bp) of
       Inl e \<Rightarrow> (Inl (BpInvalidTx e), bp)
     | Inr _ \<Rightarrow> (Inr h, bp \<lparr> bp_mempool := sh_push tx' (bp_mempool bp) \<rparr>))"

definition mempool_size :: "block_producer \<Rightarrow> nat" where
  "mempool_size bp = ms_total_txs (mempool_stats_of (sh_inner (bp_mempool bp)))"

section \<open>The pipelined producer\<close>

text \<open>
  The collector task holds at most one batch that the channel has no room for yet;
  the channel holds at most as many batches as the pipeline is deep.
\<close>

record pipelined_producer =
  pl_app :: app_state
  pl_mempool :: shared_mempool
  pl_config :: block_producer_config
  pl_depth :: nat
  pl_held :: "transaction list option"
  pl_channel :: "transaction list list"

definition pipelined_new :: "app_state \<Rightarrow> shared_mempool \<Rightarrow> block_producer_config \<Rightarrow> pipelined_producer" where
  "pipelined_new app mp cfg =
     \<lparr> pl_app = app, pl_mempool = mp, pl_config = cfg, pl_depth = 2, pl_held = None, pl_channel = [] \<rparr>"

definition with_pipeline_depth :: "nat \<Rightarrow> pipelined_producer \<Rightarrow> pipelined_producer" where
  "with_pipeline_depth n p = p \<lparr> pl_depth := max n 1 \<rparr>"

definition pl_collect :: "environment \<Rightarrow> (nat \<Rightarrow> nat) \<Rightarrow> pipelined_producer \<Rightarrow> pipelined_producer" where
  "pl_collect ev clock p = (let sm = drain_into_indexed (ev_json ev) (ev_keccak ev) (ev_ecdsa ev) clock (pl_mempool p) in
     p \<lparr> pl_mempool := sm, pl_held := Some (get_pending (sh_inner sm) (pc_max_txs_per_block (pl_config p))) \<rparr>)"

definition pl_send :: "pipelined_producer \<Rightarrow> pipelined_producer" where
  "pl_send p = (case pl_held p of
       Some batch \<Rightarrow> if length (pl_channel p) < pl_depth p
         then p \<lparr> pl_channel := pl_channel p @ [batch], pl_held := None \<rparr> else p
     | None \<Rightarrow> p)"

definition execute_and_commit ::
  "environment \<Rightarrow> timestamp \<Rightarrow> nat \<Rightarrow> transaction list \<Rightarrow> pipelined_producer \<Rightarrow> (block_result \<times> pipelined_producer) option" where
  "execute_and_commit ev ts duration txs p = do {
     (res, hs, app) \<leftarrow> run_block ev ts duration txs (pl_app p);
     Some (res, p \<lparr> pl_app := app, pl_mempool := clear_executed hs (pl_mempool p) \<rparr>)
   }"

inductive pl_step :: "environment \<Rightarrow> pipelined_producer \<Rightarrow> block_result option \<Rightarrow> pipelined_producer \<Rightarrow> bool" for ev where
  collect: "pl_held p = None \<Longrightarrow> pl_step ev p None (pl_collect ev clock p)"
| send: "pl_held p \<noteq> None \<Longrightarrow> length (pl_channel p) < pl_depth p \<Longrightarrow> pl_step ev p None (pl_send p)"
| run: "pl_channel p = batch # batches \<Longrightarrow>
    execute_and_commit ev ts duration batch (p \<lparr> pl_channel := batches \<rparr>) = Some (res, p') \<Longrightarrow> pl_step ev p (Some res) p'"

inductive_cases pl_stepE: "pl_step ev p r p'"


section \<open>What a block does\<close>

lemma execute_loop_run:
  assumes "execute_loop ev ts txs el st = Some (el', st')"
  shows "el_hashes el' = el_hashes el @ map (\<lambda>tx. fst (get_hash (ev_json ev) (ev_keccak ev) tx)) txs \<and>
    el_succeeded el' + el_failed el' = el_succeeded el + el_failed el + length txs \<and>
    ap_height st' = ap_height st \<and> (chain_step (ev_ecdsa ev) (ev_keccak ev))\<^sup>*\<^sup>* st st'"
  using assms
proof (induction txs arbitrary: el st)
  case (Cons tx txs)
  obtain h tx' where h: "get_hash (ev_json ev) (ev_keccak ev) tx = (h, tx')" by fastforce
  obtain r st1 where tx: "execute_tx (ev_ecdsa ev) (ev_keccak ev) tx' ts st = Some (r, st1)"
    and rest: "execute_loop ev ts txs (log_tx h r el) st1 = Some (el', st')"
    using Cons.prems h by (auto simp: Option.bind_eq_Some_conv)
  have "el_hashes (log_tx h r el) = el_hashes el @ [h]"
    "el_succeeded (log_tx h r el) + el_failed (log_tx h r el) = el_succeeded el + el_failed el + 1"
    by (simp_all add: log_tx_def split: sum.splits)
  then show ?case
    using Cons.IH [OF rest] h execute_tx_height [OF tx] chain_step.tx [OF tx] by (auto intro: converse_rtranclp_into_rtranclp)
qed simp

lemma run_block_facts:
  assumes "run_block ev ts d txs app = Some (res, hs, app')"
  shows "br_height res = wrap_u64 (ap_height app + 1)" "ap_height app' = br_height res" "br_app_hash res = ap_app_hash app'"
    "br_tx_count res = length txs" "br_succeeded res + br_failed res = length txs"
    "hs = map (\<lambda>tx. fst (get_hash (ev_json ev) (ev_keccak ev) tx)) txs"
    "(chain_step (ev_ecdsa ev) (ev_keccak ev))\<^sup>*\<^sup>* app app'"
proof -
  let ?h = "wrap_u64 (ap_height app + 1)"
  obtain el app1 where loop: "execute_loop ev ts txs log_empty (app_begin_block ?h ts app) = Some (el, app1)"
    and fin: "app_end_block (ev_keccak ev) app1 = Some app'"
    and res: "res = \<lparr> br_height = ?h, br_timestamp = ts, br_app_hash = app_commit app', br_tx_count = length txs,
         br_succeeded = el_succeeded el, br_failed = el_failed el, br_duration = d \<rparr>" "hs = el_hashes el"
    using assms by (auto simp: run_block_def Option.bind_eq_Some_conv Let_def)
  note el = execute_loop_run [OF loop]
  show "br_height res = ?h" "br_app_hash res = ap_app_hash app'" "br_tx_count res = length txs"
    using res by (simp_all add: app_commit_def)
  show "ap_height app' = br_height res"
    using el app_end_block_height [OF fin] res by (simp add: app_begin_block_def)
  show "br_succeeded res + br_failed res = length txs" "hs = map (\<lambda>tx. fst (get_hash (ev_json ev) (ev_keccak ev) tx)) txs"
    using el res by (simp_all add: log_empty_def)
  have "chain_step (ev_ecdsa ev) (ev_keccak ev) app (app_begin_block ?h ts app)" by (rule chain_step.begin_block)
  moreover have "chain_step (ev_ecdsa ev) (ev_keccak ev) app1 app'" using fin by (rule chain_step.end_block)
  ultimately show "(chain_step (ev_ecdsa ev) (ev_keccak ev))\<^sup>*\<^sup>* app app'" using el by (meson converse_rtranclp_into_rtranclp rtranclp.rtrancl_into_rtrancl)
qed

lemma remove_internal_gone: "hm_get (mp_txs (snd (remove_internal h m))) k = (if k = h then None else hm_get (mp_txs m) k)"
  by (auto simp: remove_internal_def split: option.splits)

lemma cleared: "h \<in> set hs \<Longrightarrow> \<not> mempool_contains (fold (\<lambda>h m. snd (mempool_remove h m)) hs m) h"
proof -
  have "hm_get (mp_txs (fold (\<lambda>h m. snd (mempool_remove h m)) hs m)) k = (if k \<in> set hs then None else hm_get (mp_txs m) k)" for k
    by (induction hs arbitrary: m) (auto simp: mempool_remove_def remove_internal_gone)
  then show "h \<in> set hs \<Longrightarrow> ?thesis" by (simp add: mempool_contains_def hm_contains_def)
qed

lemma pending_loop_length: "length acc < max 1 n \<Longrightarrow> length (pending_loop m n hs acc) \<le> max 1 n"
proof (induction hs arbitrary: acc)
  case (Cons h hs)
  show ?case
  proof (cases "hm_get (mp_txs m) h")
    case None
    then show ?thesis using Cons by simp
  next
    case (Some e)
    show ?thesis
    proof (cases "length acc + 1 \<ge> n")
      case True
      then show ?thesis using Some Cons.prems by (simp add: Let_def)
    next
      case False
      then have "length (acc @ [me_tx e]) < max 1 n" by simp
      from Cons.IH [OF this] show ?thesis using Some False by (simp add: Let_def)
    qed
  qed
qed simp

lemma attest_block_frame [simp]:
  "bp_app (attest_block ev now h x bp) = bp_app bp" "bp_mempool (attest_block ev now h x bp) = bp_mempool bp"
  "bp_config (attest_block ev now h x bp) = bp_config bp" "bp_running (attest_block ev now h x bp) = bp_running bp"
  "bp_halt_flag (attest_block ev now h x bp) = bp_halt_flag bp"
  by (simp_all add: attest_block_def Let_def split: option.splits)

lemma produce_block_run:
  assumes "produce_block ev ck bp = Some (res, bp')"
  obtains sm hs where "sm = drain_into_indexed (ev_json ev) (ev_keccak ev) (ev_ecdsa ev) (ck_drain ck) (bp_mempool bp)"
    "run_block ev (ck_block ck) (ck_duration ck) (get_pending (sh_inner sm) (pc_max_txs_per_block (bp_config bp))) (bp_app bp) =
       Some (res, hs, bp_app bp')"
    "bp_mempool bp' = clear_executed hs sm" "bp_running bp' = bp_running bp" "bp_halt_flag bp' = bp_halt_flag bp"
  using assms by (auto simp: produce_block_def Let_def Option.bind_eq_Some_conv)

definition next_batch :: "environment \<Rightarrow> clocks \<Rightarrow> block_producer \<Rightarrow> transaction list" where
  "next_batch ev ck bp = get_pending
     (sh_inner (drain_into_indexed (ev_json ev) (ev_keccak ev) (ev_ecdsa ev) (ck_drain ck) (bp_mempool bp)))
     (pc_max_txs_per_block (bp_config bp))"



section \<open>Halting\<close>

lemma ofold_idle: "f x s = Some s \<Longrightarrow> (\<And>x. f x s = Some s) \<Longrightarrow> ofold f xs s = Some s"
  by (induction xs) auto


definition queued_pool :: shared_mempool where
  "queued_pool = \<lparr> sh_inner = mempool_new, sh_incoming = [sample_tx (TxSetMarginMode Cross)] \<rparr>"

definition some_clocks :: clocks where
  "some_clocks = \<lparr> ck_drain = (\<lambda>_. 0), ck_block = 7, ck_duration = 0, ck_attest = 0 \<rparr>"


section \<open>The pipeline executes a transaction twice\<close>

text \<open>
  A batch is collected without leaving the pool, so until the first batch is executed
  a second one repeats it; and a sequential nonce is valid again.
\<close>

inductive pl_run :: "environment \<Rightarrow> pipelined_producer \<Rightarrow> block_result list \<Rightarrow> pipelined_producer \<Rightarrow> bool" for ev where
  stop: "pl_run ev p [] p"
| silent: "pl_step ev p None p' \<Longrightarrow> pl_run ev p' rs p'' \<Longrightarrow> pl_run ev p rs p''"
| block: "pl_step ev p (Some r) p' \<Longrightarrow> pl_run ev p' rs p'' \<Longrightarrow> pl_run ev p (r # rs) p''"

definition test_env :: environment where
  "test_env = \<lparr> ev_json = (\<lambda>_. []), ev_keccak = pad_hash, ev_ecdsa = any_signer, ev_ed25519 = trusting \<rparr>"

lemma recollect:
  assumes "sh_incoming (pl_mempool p) = []" "pl_held p = None" "pl_channel p = []" "1 < pl_depth p"
    "get_pending (sh_inner (pl_mempool p)) (pc_max_txs_per_block (pl_config p)) = batch"
  shows "pl_run ev (p \<lparr> pl_channel := [batch, batch] \<rparr>) rs p' \<Longrightarrow> pl_run ev p rs p'"
proof -
  let ?p1 = "p \<lparr> pl_held := Some batch \<rparr>" and ?p2 = "p \<lparr> pl_channel := [batch] \<rparr>"
  let ?p3 = "p \<lparr> pl_held := Some batch, pl_channel := [batch] \<rparr>" and ?p4 = "p \<lparr> pl_channel := [batch, batch] \<rparr>"
  have drained: "drain_into_indexed (ev_json ev) (ev_keccak ev) (ev_ecdsa ev) (\<lambda>_. 0) (pl_mempool p) = pl_mempool p"
    using assms(1) by (simp add: drain_into_indexed_def)
  have "pl_step ev p None ?p1"
    using pl_step.collect [of p ev "\<lambda>_. 0"] assms drained by (cases p) (simp add: pl_collect_def Let_def)
  moreover have "pl_step ev ?p1 None ?p2"
    using pl_step.send [of ?p1 ev] assms by (cases p) (simp add: pl_send_def)
  moreover have "pl_step ev ?p2 None ?p3"
    using pl_step.collect [of ?p2 ev "\<lambda>_. 0"] assms drained by (cases p) (simp add: pl_collect_def Let_def)
  moreover have "pl_step ev ?p3 None ?p4"
    using pl_step.send [of ?p3 ev] assms by (cases p) (simp add: pl_send_def)
  moreover assume "pl_run ev ?p4 rs p'"
  ultimately show ?thesis by (meson pl_run.silent)
qed

definition replayed_tx :: transaction where
  "replayed_tx = sample_tx (TxSetMarginMode Cross)"

definition one_tx_pool :: shared_mempool where
  "one_tx_pool = \<lparr> sh_inner = snd (mempool_add (\<lambda>_. []) pad_hash any_signer 0 replayed_tx mempool_new), sh_incoming = [] \<rparr>"


lemma replayed_tx_runs:
  assumes "ap_perp st = None" "get_nonce st any_address \<le> 5" "tx_action tx = TxSetMarginMode Cross" "tx_nonce tx = 5"
    "tx_signature tx = signature_zero"
  shows "\<exists>res. execute_tx any_signer pad_hash tx ts st = Some (Inr res, increment_nonce any_address st)"
proof -
  have "tx_sender any_signer pad_hash tx = Inr any_address"
    using assms(5) by (simp add: tx_sender_def recover_signer_def recover_address_def any_signer_def
        signature_zero_def wrap_u8_def any_address_def)
  moreover have "validate_nonce st any_address 5 ts"
    using assms(2) by (simp add: validate_nonce_def TIMESTAMP_THRESHOLD_def wrap_u64_def u64_mod_def)
  ultimately show ?thesis
    using assms by (simp add: execute_tx_def validate_tx_def execute_action_def execute_set_margin_mode_def
        update_timestamp_nonce_def TIMESTAMP_THRESHOLD_def)
qed

lemma replayed_block:
  assumes "ap_perp st = None" "get_nonce st any_address \<le> 5" "tx_action tx = TxSetMarginMode Cross" "tx_nonce tx = 5"
    "tx_signature tx = signature_zero"
  shows "\<exists>res hs st'. run_block test_env ts d [tx] st = Some (res, hs, st') \<and> br_succeeded res = 1 \<and> ap_perp st' = None \<and>
    get_nonce st' any_address = get_nonce st any_address + 1"
proof -
  let ?st = "app_begin_block (wrap_u64 (ap_height st + 1)) ts st"
  obtain h tx' where h: "get_hash (\<lambda>_. []) pad_hash tx = (h, tx')" and tx': "tx_action tx' = tx_action tx"
    "tx_nonce tx' = tx_nonce tx" "tx_signature tx' = tx_signature tx"
    by (cases "tx_hash tx") (auto simp: get_hash_def Let_def)
  obtain r where r: "execute_tx any_signer pad_hash tx' ts ?st = Some (Inr r, increment_nonce any_address ?st)"
    using replayed_tx_runs [of ?st tx' ts] assms tx' by (auto simp: app_begin_block_def get_nonce_def)
  have "ap_perp (increment_nonce any_address ?st) = None"
    using assms(1) by (simp add: increment_nonce_def app_begin_block_def)
  then obtain st' where st': "app_end_block pad_hash (increment_nonce any_address ?st) = Some st'" "ap_perp st' = None"
    "ap_nonces st' = ap_nonces (increment_nonce any_address ?st)" using end_block_idle by blast
  have "get_nonce st' any_address = get_nonce st any_address + 1"
    using assms(2) st'(3) by (simp add: get_nonce_def increment_nonce_def app_begin_block_def hm_get_or_def wrap_u64_def u64_mod_def)
  then show ?thesis using h r st' by (simp add: run_block_def test_env_def Let_def log_tx_def log_empty_def)
qed

lemma one_tx_pending: "\<exists>tx. get_pending (sh_inner one_tx_pool) 10000 = [tx] \<and> tx_action tx = TxSetMarginMode Cross \<and>
    tx_nonce tx = 5 \<and> tx_signature tx = signature_zero"
proof -
  have "recover_signer any_signer pad_hash t = Inr any_address" if "tx_signature t = signature_zero" for t
    using that by (simp add: recover_signer_def recover_address_def any_signer_def signature_zero_def wrap_u8_def any_address_def)
  then show ?thesis
    by (simp add: one_tx_pool_def replayed_tx_def sample_tx_def mempool_add_def get_hash_def mempool_new_def mempool_with_config_def
        mempool_config_default_def evict.simps admit_def account_txs_def hm_contains_def hm_get_or_def get_pending_def
        hm_insert_def hm_values_def hm_get_def Let_def)
qed

text \<open>
  The pipelined producer collects, sends, collects and sends the one pending
  transaction before the first batch is executed; both blocks execute it, with success.
\<close>

theorem pipeline_executes_twice:
  "\<exists>rs p'. pl_run test_env (pipelined_new app_state_new one_tx_pool producer_config_default) rs p' \<and>
     map br_succeeded rs = [1, 1]"
proof -
  let ?p = "pipelined_new app_state_new one_tx_pool producer_config_default"
  obtain tx where batch: "get_pending (sh_inner one_tx_pool) 10000 = [tx]" and tx: "tx_action tx = TxSetMarginMode Cross"
    "tx_nonce tx = 5" "tx_signature tx = signature_zero" using one_tx_pending by blast
  have start: "ap_perp app_state_new = None" "get_nonce app_state_new any_address = 0"
    by (simp_all add: app_state_new_def app_state_of_def get_nonce_def hm_get_or_def)
  obtain r1 hs1 st1 where b1: "run_block test_env 0 0 [tx] app_state_new = Some (r1, hs1, st1)" "br_succeeded r1 = 1"
    "ap_perp st1 = None" "get_nonce st1 any_address = 1"
    using replayed_block [OF start(1) _ tx, of 0 0] start(2) by auto
  obtain r2 hs2 st2 where b2: "run_block test_env 0 0 [tx] st1 = Some (r2, hs2, st2)" "br_succeeded r2 = 1"
    using replayed_block [OF b1(3) _ tx, of 0 0] b1(4) by auto
  let ?q0 = "?p \<lparr> pl_channel := [[tx], [tx]] \<rparr>"
  let ?q1 = "?p \<lparr> pl_channel := [[tx]], pl_app := st1, pl_mempool := clear_executed hs1 one_tx_pool \<rparr>"
  let ?q2 = "?p \<lparr> pl_app := st2, pl_mempool := clear_executed hs2 (clear_executed hs1 one_tx_pool) \<rparr>"
  have "pl_step test_env ?q0 (Some r1) ?q1"
    using b1(1) by (intro pl_step.run [of _ "[tx]" "[[tx]]" _ 0 0]) (simp_all add: execute_and_commit_def pipelined_new_def)
  moreover have "pl_step test_env ?q1 (Some r2) ?q2"
    using b2(1) by (intro pl_step.run [of _ "[tx]" "[]" _ 0 0]) (simp_all add: execute_and_commit_def pipelined_new_def)
  ultimately have "pl_run test_env ?q0 [r1, r2] ?q2" by (meson pl_run.block pl_run.stop)
  then have "pl_run test_env ?p [r1, r2] ?q2"
    using batch by (intro recollect [of ?p "[tx]"]) (simp_all add: pipelined_new_def one_tx_pool_def producer_config_default_def)
  then show ?thesis using b1(2) b2(2) by (intro exI [of _ "[r1, r2]"] exI [of _ ?q2]) simp
qed

section \<open>A transfer that stops block production\<close>

text \<open>
  The sign of an amount is not checked and the subtraction panics on overflow: a
  transfer of a negative amount of 33 digits panics for every sender with a positive
  balance, and the task that produces blocks ends with it.
\<close>

definition huge_negative :: string where
  "huge_negative = ''-170141183460469231731687303715884''"

lemma huge_negative_parsed: "from_str_exact huge_negative 6 = Some (Decimal (- 170141183460469231731687303715884000000) 6)"
  by (simp add: huge_negative_def from_str_exact_def str_trim_def trim_end_by_def is_ws_def parse_i128_def parse_digits_def is_digit_def
      digits_val_def digit_val_def i128_checked_defs i128_defs pow10_def wrap_i128_def Let_def replicate_unroll)

theorem transfer_panics:
  "execute_usd_transfer 8 7 huge_negative rich_state = None"
  by (simp add: execute_usd_transfer_def dec_consts huge_negative_parsed rich_state_def rich_ledger_def transfer_core_def
      credit_def ledger_eval get_core_view_def)


section \<open>A block with one transaction\<close>


end
