(* ===== verification/Validators.thy ===== *)
theory Validators
  imports Merkle Rust_Int "HOL-Library.List_Lexorder"
begin

text \<open>
  The validator set of the CometBFT interface, from
  \<open>crates/chain/src/cometbft/validators.rs\<close>: validators by address, the total power
  kept beside them, the round-robin proposer and the supermajority threshold.  The
  hash that gives the address of a public key is a parameter; \<open>i64\<close> sums wrap.
\<close>

section \<open>State and operations\<close>

definition wrap_i64 :: "int \<Rightarrow> int" where
  "wrap_i64 n = (n + 2 ^ 63) mod 2 ^ 64 - 2 ^ 63"

record validator =
  va_pub_key :: "byte list"
  va_power :: int
  va_name :: "string option"

definition validator_new :: "byte list \<Rightarrow> int \<Rightarrow> validator" where
  "validator_new key p = \<lparr> va_pub_key = key, va_power = p, va_name = None \<rparr>"

definition validator_with_name :: "byte list \<Rightarrow> int \<Rightarrow> string \<Rightarrow> validator" where
  "validator_with_name key p nm = \<lparr> va_pub_key = key, va_power = p, va_name = Some nm \<rparr>"

definition va_address :: "hash_fn \<Rightarrow> validator \<Rightarrow> byte list" where
  "va_address sha v = take 20 (sha (va_pub_key v))"

record validator_set =
  vs_validators :: "(byte list, validator) hash_map"
  vs_total_power :: int

definition validator_set_new :: validator_set where
  "validator_set_new = \<lparr> vs_validators = [], vs_total_power = 0 \<rparr>"

definition vs_add :: "hash_fn \<Rightarrow> byte list \<Rightarrow> int \<Rightarrow> validator_set \<Rightarrow> validator_set" where
  "vs_add sha key p vs =
    (let v = validator_new key p; a = va_address sha v;
         t0 = (case hm_get (vs_validators vs) a of
            Some old \<Rightarrow> wrap_i64 (vs_total_power vs - va_power old) | None \<Rightarrow> vs_total_power vs);
         t = wrap_i64 (t0 + p)
     in \<lparr> vs_validators = (if p > 0 then hm_insert a v (vs_validators vs) else hm_remove a (vs_validators vs)),
          vs_total_power = t \<rparr>)"

definition vs_update_power :: "byte list \<Rightarrow> int \<Rightarrow> validator_set \<Rightarrow> bool \<times> validator_set" where
  "vs_update_power a p vs = (case hm_get (vs_validators vs) a of
       None \<Rightarrow> (False, vs)
     | Some v \<Rightarrow>
         let t = wrap_i64 (wrap_i64 (vs_total_power vs - va_power v) + p);
             m = hm_insert a (v \<lparr> va_power := p \<rparr>) (vs_validators vs)
         in (True, \<lparr> vs_validators = (if p = 0 then hm_remove a m else m), vs_total_power = t \<rparr>))"

definition vs_remove :: "byte list \<Rightarrow> validator_set \<Rightarrow> validator option \<times> validator_set" where
  "vs_remove a vs = (case hm_get (vs_validators vs) a of
       None \<Rightarrow> (None, vs)
     | Some v \<Rightarrow> (Some v, \<lparr> vs_validators = hm_remove a (vs_validators vs),
          vs_total_power = wrap_i64 (vs_total_power vs - va_power v) \<rparr>))"

definition vs_apply_updates :: "hash_fn \<Rightarrow> (byte list \<times> int) list \<Rightarrow> validator_set \<Rightarrow> validator_set" where
  "vs_apply_updates sha us vs = fold (\<lambda>(key, p). vs_add sha key p) us vs"

definition is_validator :: "byte list \<Rightarrow> validator_set \<Rightarrow> bool" where
  "is_validator a vs = hm_contains a (vs_validators vs)"

definition get_proposer :: "nat \<Rightarrow> validator_set \<Rightarrow> validator option" where
  "get_proposer h vs = (if vs_validators vs = [] then None
     else let l = sort_key va_pub_key (hm_values (vs_validators vs)) in Some (l ! (h mod length l)))"

text \<open>Division of \<open>i64\<close> truncates.\<close>

definition supermajority_threshold :: "validator_set \<Rightarrow> int" where
  "supermajority_threshold vs = (wrap_i64 (wrap_i64 (vs_total_power vs * 2) + 2)) sdiv 3"

definition is_supermajority :: "int \<Rightarrow> validator_set \<Rightarrow> bool" where
  "is_supermajority p vs = (p \<ge> supermajority_threshold vs)"

section \<open>The total is the sum of the powers\<close>

definition powers :: "validator_set \<Rightarrow> int" where
  "powers vs = hm_sum (\<lambda>_ v. va_power v) (vs_validators vs)"

definition vs_inv :: "validator_set \<Rightarrow> bool" where
  "vs_inv vs = (hm_inv (vs_validators vs) \<and> vs_total_power vs = wrap_i64 (powers vs))"

text \<open>The operations as CometBFT uses them: it never reports a negative power.\<close>

inductive vs_step :: "hash_fn \<Rightarrow> validator_set \<Rightarrow> validator_set \<Rightarrow> bool" for sha where
  add: "0 \<le> p \<Longrightarrow> vs_step sha vs (vs_add sha key p vs)"
| update: "vs_step sha vs (snd (vs_update_power a p vs))"
| remove: "vs_step sha vs (snd (vs_remove a vs))"

inductive_cases vs_stepE: "vs_step sha vs vs'"

lemma wrap_i64_add [simp]: "wrap_i64 (wrap_i64 a + b) = wrap_i64 (a + b)"
  by (simp add: wrap_i64_def mod_simps) (simp add: ac_simps)

lemma wrap_i64_diff [simp]: "wrap_i64 (wrap_i64 a - b) = wrap_i64 (a - b)"
  using wrap_i64_add [of a "- b"] by simp

lemma wrap_i64_id: "- (2 ^ 63) \<le> n \<Longrightarrow> n < 2 ^ 63 \<Longrightarrow> wrap_i64 n = n"
  by (simp add: wrap_i64_def)

lemma vs_add_inv: "vs_inv vs \<Longrightarrow> 0 \<le> p \<Longrightarrow> vs_inv (vs_add sha key p vs)"
  by (cases "hm_get (vs_validators vs) (va_address sha (validator_new key p))")
    (auto simp: vs_inv_def vs_add_def powers_def Let_def hm_sum_insert hm_sum_insert_new hm_sum_remove validator_new_def)

lemma vs_update_power_inv: "vs_inv vs \<Longrightarrow> vs_inv (snd (vs_update_power a p vs))"
  by (cases "hm_get (vs_validators vs) a")
    (auto simp: vs_inv_def vs_update_power_def powers_def Let_def hm_sum_insert hm_sum_remove)

lemma vs_remove_inv: "vs_inv vs \<Longrightarrow> vs_inv (snd (vs_remove a vs))"
  by (cases "hm_get (vs_validators vs) a") (auto simp: vs_inv_def vs_remove_def powers_def hm_sum_remove)

lemma vs_step_inv: "vs_step sha vs vs' \<Longrightarrow> vs_inv vs \<Longrightarrow> vs_inv vs'"
  by (erule vs_stepE) (simp_all add: vs_add_inv vs_update_power_inv vs_remove_inv)


text \<open>A negative power is subtracted although nothing was added: the total drifts away.\<close>

theorem negative_power_drifts:
  assumes "hm_get (vs_validators vs) (va_address sha (validator_new key (- 5))) = None"
  shows "powers (vs_add sha key (- 5) vs) = powers vs \<and> vs_total_power (vs_add sha key (- 5) vs) = wrap_i64 (vs_total_power vs - 5)"
  using assms by (simp add: vs_add_def Let_def powers_def hm_remove_absent)

section \<open>Supermajorities\<close>

definition power_in :: "byte list set \<Rightarrow> validator_set \<Rightarrow> int" where
  "power_in A vs = hm_sum (\<lambda>a v. if a \<in> A then va_power v else 0) (vs_validators vs)"

lemma power_in_overlap:
  assumes "\<forall>(a, v) \<in> set m. 0 \<le> va_power v"
  shows "hm_sum (\<lambda>a v. if a \<in> A then va_power v else 0) m + hm_sum (\<lambda>a v. if a \<in> B then va_power v else 0) m
    \<le> hm_sum (\<lambda>_ v. va_power v) m + hm_sum (\<lambda>a v. if a \<in> A \<inter> B then va_power v else 0) m"
  using assms by (induction m) (auto simp: hm_sum_def)

text \<open>
  (C33) Two supermajorities share at least a third of the total power, so they share a
  validator outside every minority of less than a third.
\<close>

theorem supermajorities_overlap:
  assumes "vs_total_power vs = powers vs" "powers vs < 2 ^ 61" "\<forall>(a, v) \<in> set (vs_validators vs). 0 \<le> va_power v"
    "is_supermajority (power_in A vs) vs" "is_supermajority (power_in B vs) vs"
  shows "powers vs \<le> 3 * power_in (A \<inter> B) vs"
proof -
  let ?t = "powers vs"
  have pos: "0 \<le> ?t"
    unfolding powers_def hm_sum_def using assms(3) by (intro sum_list_nonneg) auto
  have "supermajority_threshold vs = (2 * ?t + 2) div 3"
    using assms(1,2) pos by (simp add: supermajority_threshold_def wrap_i64_id sdiv_pos_divisor)
  then have "2 * ?t \<le> 3 * power_in A vs" "2 * ?t \<le> 3 * power_in B vs"
    using assms(4,5) by (auto simp: is_supermajority_def)
  moreover have "power_in A vs + power_in B vs \<le> ?t + power_in (A \<inter> B) vs"
    unfolding power_in_def powers_def using assms(3) by (rule power_in_overlap)
  ultimately show ?thesis by linarith
qed

section \<open>A set of three\<close>

definition three_validators :: validator_set where
  "three_validators = vs_add pad_hash [3] 10 (vs_add pad_hash [2] 10 (vs_add pad_hash [1] 10 validator_set_new))"

lemma three_validators_powers: "powers three_validators = 30" "vs_total_power three_validators = 30"
  by (simp_all add: three_validators_def vs_add_def validator_set_new_def powers_def hm_sum_def hm_insert_def hm_get_def
      va_address_def validator_new_def pad_hash_def wrap_i64_def Let_def)


theorem supermajorities_overlap_witness:
  "let addr = (\<lambda>k. va_address pad_hash (validator_new [k] 10)) in
     is_supermajority (power_in {addr 1, addr 2} three_validators) three_validators \<and>
     is_supermajority (power_in {addr 2, addr 3} three_validators) three_validators \<and>
     powers three_validators \<le> 3 * power_in ({addr 1, addr 2} \<inter> {addr 2, addr 3}) three_validators"
proof -
  let ?addr = "\<lambda>k. va_address pad_hash (validator_new [k] 10)"
  have "is_supermajority (power_in {?addr 1, ?addr 2} three_validators) three_validators"
    "is_supermajority (power_in {?addr 2, ?addr 3} three_validators) three_validators"
    by (simp_all add: is_supermajority_def supermajority_threshold_def three_validators_powers wrap_i64_def sdiv_pos_divisor,
        simp_all add: power_in_def three_validators_def vs_add_def validator_set_new_def hm_sum_def hm_insert_def hm_get_def
          va_address_def validator_new_def pad_hash_def Let_def)
  moreover have "\<forall>(a, v) \<in> set (vs_validators three_validators). 0 \<le> va_power v"
    by (simp add: three_validators_def vs_add_def validator_set_new_def hm_insert_def hm_get_def validator_new_def Let_def
        va_address_def pad_hash_def)
  ultimately show ?thesis
    using supermajorities_overlap [of three_validators "{?addr 1, ?addr 2}" "{?addr 2, ?addr 3}"] three_validators_powers
    by (simp add: Let_def)
qed

end
