(* ===== verification/Persist_State.thy ===== *)
theory Persist_State
  imports State_Commitment "HOL-Library.AList"
begin

text \<open>
  What is written to disk, from \<open>crates/persistence/src\<close>: the persisted state and its
  entries (\<open>state.rs\<close>), the keys (\<open>keys.rs\<close>), write batches (\<open>lib.rs\<close>) and the
  column families (\<open>column_families.rs\<close>).

  Parameters: the database (\<open>kv_store\<close>, RocksDB) and the codecs (\<open>codec\<close>, bincode and
  JSON).  What the code relies on is \<open>store_ok\<close> and, where a theorem needs it, that the
  codecs read back what they wrote.  Strings are ASCII.
\<close>

section \<open>Entries\<close>

record balance_data =
  bd_total :: string
  bd_core :: string
  bd_evm :: string
  bd_decimals :: nat

record balance_entry =
  be_account :: address
  be_token :: nat
  be_balance :: balance_data

record account_entry =
  ae_account :: address
  ae_equity :: string
  ae_margin_used :: string
  ae_available :: string

record position_entry =
  pe_account :: address
  pe_market :: market_id
  pe_position :: position

record leverage_entry =
  lv_account :: address
  lv_market :: market_id
  lv_leverage :: nat

record market_entry =
  mke_id :: market_id
  mke_symbol :: string
  mke_max_leverage :: nat
  mke_tick_size :: string
  mke_lot_size :: string
  mke_maker_fee :: string
  mke_taker_fee :: string
  mke_mark_price :: string
  mke_index_price :: string
  mke_funding_rate :: string
  mke_accumulator :: string
  mke_oi_long :: string
  mke_oi_short :: string
  mke_next_funding :: timestamp

record order_entry =
  ode_market :: market_id
  ode_id :: order_id
  ode_order :: order

record spot_token_entry =
  ste_index :: nat
  ste_symbol :: string
  ste_name :: string
  ste_wei_decimals :: nat
  ste_sz_decimals :: nat
  ste_max_supply :: string
  ste_deployer :: address

record spot_market_entry =
  sme_id :: nat
  sme_symbol :: string
  sme_base :: nat
  sme_quote :: nat
  sme_tick_size :: string
  sme_lot_size :: string
  sme_maker_fee :: string
  sme_taker_fee :: string

record reserved_entry =
  rse_account :: address
  rse_token :: nat
  rse_amount :: string

record evm_account_entry =
  eva_address :: "byte list"
  eva_nonce :: nat
  eva_code_hash :: "digest option"

record evm_storage_entry =
  evs_address :: "byte list"
  evs_slot :: "byte list"
  evs_value :: "byte list"

record evm_code_entry =
  evc_hash :: digest
  evc_bytecode :: "byte list"

record evm_block_hash_entry =
  evb_height :: nat
  evb_hash :: digest

record nonce_entry =
  ne_account :: address
  ne_nonce :: nat

record block_meta_entry =
  bme_height :: nat
  bme_timestamp :: timestamp
  bme_hash :: digest
  bme_app_hash :: digest
  bme_tx_count :: nat

record cloid_entry =
  cle_account :: address
  cle_cloid :: string
  cle_market :: market_id
  cle_order_id :: order_id

section \<open>The persisted state\<close>

record core_state =
  cr_balances :: "balance_entry list"
  cr_accounts :: "account_entry list"
  cr_positions :: "position_entry list"
  cr_leverage :: "leverage_entry list"
  cr_markets :: "market_entry list"
  cr_orders :: "order_entry list"
  cr_insurance_fund :: string
  cr_next_order_id :: order_id

record spot_persist =
  sps_tokens :: "spot_token_entry list"
  sps_markets :: "spot_market_entry list"
  sps_reserved :: "reserved_entry list"
  sps_orders :: "order_entry list"
  sps_next_token_index :: nat
  sps_next_market_id :: nat
  sps_next_order_id :: order_id

record evm_state_data =
  evd_accounts :: "evm_account_entry list"
  evd_storage :: "evm_storage_entry list"
  evd_code :: "evm_code_entry list"
  evd_block_hashes :: "evm_block_hash_entry list"

record chain_persist =
  chs_nonces :: "nonce_entry list"
  chs_blocks :: "block_meta_entry list"
  chs_cloids :: "cloid_entry list"

record perp_persist =
  pps_positions :: "position_entry list"
  pps_leverage :: "leverage_entry list"
  pps_markets :: "market_entry list"
  pps_orders :: "order_entry list"
  pps_next_order_id :: order_id
  pps_insurance_fund :: string

record persisted_state =
  ps_schema :: nat
  ps_height :: nat
  ps_timestamp :: timestamp
  ps_app_hash :: digest
  ps_core :: core_state
  ps_spot :: spot_persist
  ps_evm :: evm_state_data
  ps_chain :: chain_persist
  ps_perp :: perp_persist

definition SCHEMA_VERSION :: nat where
  "SCHEMA_VERSION = 2"

definition core_default :: core_state where
  "core_default = \<lparr> cr_balances = [], cr_accounts = [], cr_positions = [], cr_leverage = [], cr_markets = [],
     cr_orders = [], cr_insurance_fund = [], cr_next_order_id = 0 \<rparr>"

definition spot_persist_default :: spot_persist where
  "spot_persist_default = \<lparr> sps_tokens = [], sps_markets = [], sps_reserved = [], sps_orders = [],
     sps_next_token_index = 0, sps_next_market_id = 0, sps_next_order_id = 0 \<rparr>"

definition evm_data_default :: evm_state_data where
  "evm_data_default = \<lparr> evd_accounts = [], evd_storage = [], evd_code = [], evd_block_hashes = [] \<rparr>"

definition chain_persist_default :: chain_persist where
  "chain_persist_default = \<lparr> chs_nonces = [], chs_blocks = [], chs_cloids = [] \<rparr>"

definition perp_persist_default :: perp_persist where
  "perp_persist_default = \<lparr> pps_positions = [], pps_leverage = [], pps_markets = [], pps_orders = [],
     pps_next_order_id = 0, pps_insurance_fund = [] \<rparr>"

definition persisted_new :: persisted_state where
  "persisted_new = \<lparr> ps_schema = SCHEMA_VERSION, ps_height = 0, ps_timestamp = 0, ps_app_hash = replicate 32 0,
     ps_core = core_default, ps_spot = spot_persist_default, ps_evm = evm_data_default,
     ps_chain = chain_persist_default, ps_perp = perp_persist_default \<rparr>"

text \<open>The outer \<open>None\<close> is the overflow of the sum of the two views.\<close>

definition bd_is_valid :: "balance_data \<Rightarrow> bool option" where
  "bd_is_valid b = (let d = bd_decimals b in
     case (from_str_exact (bd_total b) d, from_str_exact (bd_core b) d, from_str_exact (bd_evm b) d) of
       (Some t, Some c, Some e) \<Rightarrow> map_option (\<lambda>s. t = s) (dec_add c e)
     | _ \<Rightarrow> Some False)"

datatype invalid_state =
    SchemaMismatch nat
  | InvalidBalance address nat

fun first_invalid :: "balance_entry list \<Rightarrow> invalid_state option option" where
  "first_invalid [] = Some None"
| "first_invalid (b # bs) = do {
     ok \<leftarrow> bd_is_valid (be_balance b);
     if ok then first_invalid bs else Some (Some (InvalidBalance (be_account b) (be_token b)))
   }"

definition ps_validate :: "persisted_state \<Rightarrow> invalid_state option option" where
  "ps_validate st = (if ps_schema st \<noteq> SCHEMA_VERSION then Some (Some (SchemaMismatch (ps_schema st)))
     else first_invalid (cr_balances (ps_core st)))"

section \<open>Bytes\<close>

text \<open>Big-endian value of bytes; strings as bytes.\<close>

definition be_value :: "byte list \<Rightarrow> nat" where
  "be_value bs = foldl (\<lambda>acc b. 256 * acc + unat b) 0 bs"

definition le_value :: "byte list \<Rightarrow> nat" where
  "le_value bs = be_value (rev bs)"

definition bytes_string :: "byte list \<Rightarrow> string" where
  "bytes_string bs = map (\<lambda>b. char_of (unat b)) bs"

lemma be_bytes_head: "be_bytes (Suc w) n = word_of_nat (n div 256 ^ w) # be_bytes w n"
  by (simp add: be_bytes_def)

lemma foldl_be_bytes: "foldl (\<lambda>acc b. 256 * acc + unat b) a (be_bytes w n) = a * 256 ^ w + n mod 256 ^ w"
proof (induction w arbitrary: a)
  case 0
  show ?case by (simp add: be_bytes_def)
next
  case (Suc w)
  have "unat (word_of_nat (n div 256 ^ w) :: byte) = n div 256 ^ w mod 256" by (simp add: unat_of_nat)
  moreover have "n mod 256 ^ Suc w = 256 ^ w * (n div 256 ^ w mod 256) + n mod 256 ^ w"
    by (simp only: power_Suc2 mod_mult2_eq)
  moreover have "foldl (\<lambda>acc b. 256 * acc + unat b) a (be_bytes (Suc w) n) =
      (256 * a + unat (word_of_nat (n div 256 ^ w) :: byte)) * 256 ^ w + n mod 256 ^ w"
    by (simp only: be_bytes_head foldl_Cons Suc.IH)
  ultimately show ?case by (simp add: algebra_simps)
qed

lemma be_value_bytes [simp]: "n < 256 ^ w \<Longrightarrow> be_value (be_bytes w n) = n"
  using foldl_be_bytes [of 0 w n] by (simp add: be_value_def)

lemma u64_le_rev: "u64_le n = rev (be_bytes 8 n)"
  by (simp add: u64_le_def be_bytes_def rev_map)

lemma le_value_bytes [simp]: "n < 2 ^ 64 \<Longrightarrow> le_value (u64_le n) = n"
  using be_value_bytes [of n 8] by (simp add: le_value_def u64_le_rev)

lemma length_u64_le [simp]: "length (u64_le n) = 8"
  by (simp add: u64_le_rev)

lemma bytes_string_bytes [simp]: "bytes_string (string_bytes s) = s"
  by (induction s) (simp_all add: bytes_string_def string_bytes_def unat_of_nat)

lemma length_address_bytes [simp]: "length (address_bytes a) = 20"
  by (simp add: address_bytes_def)

lemma address_of_address_bytes [simp]: "a < 2 ^ 160 \<Longrightarrow> address_of_bytes (address_bytes a) = a"
  using be_value_bytes [of a 20] by (simp add: address_of_bytes_def address_bytes_def be_value_def)

lemma unat_byte [simp]: "n < 256 \<Longrightarrow> unat (word_of_nat n :: byte) = n"
  by (simp add: unat_of_nat)

section \<open>Keys\<close>

definition position_key :: "address \<Rightarrow> nat \<Rightarrow> byte list" where
  "position_key a m = address_bytes a @ [word_of_nat m]"

definition decode_position_key :: "byte list \<Rightarrow> (address \<times> nat) option" where
  "decode_position_key key =
    (if length key \<noteq> 21 then None else Some (address_of_bytes (take 20 key), unat (key ! 20)))"

text \<open>\<open>balance_key\<close> of the application state encodes balances here, too.\<close>

definition decode_balance_key :: "byte list \<Rightarrow> (address \<times> nat) option" where
  "decode_balance_key key =
    (if length key \<noteq> 21 then None else Some (address_of_bytes (take 20 key), unat (key ! 20)))"

definition order_row_key :: "market_id \<Rightarrow> order_id \<Rightarrow> byte list" where
  "order_row_key m i = word_of_nat m # be_bytes 8 i"

definition decode_order_key :: "byte list \<Rightarrow> (market_id \<times> order_id) option" where
  "decode_order_key key = (if length key \<noteq> 9 then None else Some (unat (key ! 0), be_value (drop 1 key)))"

definition nonce_key :: "address \<Rightarrow> byte list" where
  "nonce_key a = address_bytes a"

definition block_key :: "nat \<Rightarrow> byte list" where
  "block_key h = be_bytes 8 h"

definition decode_block_key :: "byte list \<Rightarrow> nat option" where
  "decode_block_key key = (if length key \<noteq> 8 then None else Some (be_value key))"

definition cloid_key :: "address \<Rightarrow> string \<Rightarrow> byte list" where
  "cloid_key a c = address_bytes a @ string_bytes c"

definition evm_storage_key :: "byte list \<Rightarrow> byte list \<Rightarrow> byte list" where
  "evm_storage_key a slot = a @ slot"

definition decode_evm_storage_key :: "byte list \<Rightarrow> (byte list \<times> byte list) option" where
  "decode_evm_storage_key key = (if length key \<noteq> 52 then None else Some (take 20 key, drop 20 key))"

definition byte_key :: "nat \<Rightarrow> byte list" where
  "byte_key i = [word_of_nat i]"

definition decode_byte_key :: "byte list \<Rightarrow> nat option" where
  "decode_byte_key key = (if length key \<noteq> 1 then None else Some (unat (key ! 0)))"

lemma decode_keys [simp]:
  "a < 2 ^ 160 \<Longrightarrow> m < 256 \<Longrightarrow> decode_position_key (position_key a m) = Some (a, m)"
  "a < 2 ^ 160 \<Longrightarrow> m < 256 \<Longrightarrow> decode_balance_key (balance_key a m) = Some (a, m)"
  "m < 256 \<Longrightarrow> i < 2 ^ 64 \<Longrightarrow> decode_order_key (order_row_key m i) = Some (m, i)"
  "h < 2 ^ 64 \<Longrightarrow> decode_block_key (block_key h) = Some h"
  "length addr = 20 \<Longrightarrow> length slot = 32 \<Longrightarrow> decode_evm_storage_key (evm_storage_key addr slot) = Some (addr, slot)"
  "m < 256 \<Longrightarrow> decode_byte_key (byte_key m) = Some m"
  using be_value_bytes [of i 8] be_value_bytes [of h 8]
  by (simp_all add: decode_position_key_def position_key_def decode_balance_key_def balance_key_def decode_order_key_def order_row_key_def decode_block_key_def
      block_key_def decode_evm_storage_key_def evm_storage_key_def decode_byte_key_def byte_key_def nth_append)

section \<open>Column families, batches, and the database\<close>

datatype column_family =
    Default | Balances | Accounts | Positions | Leverage | Markets | Orders | AccountOrders | SpotTokens | SpotMarkets
  | SpotReserved | EvmAccounts | EvmStorage | EvmCode | EvmBlockHashes | Nonces | BlockMeta | BlockHashes | AppHashes
  | CloidIndex | Metadata | Fills | FundingPayments | Trades

datatype batch_op =
    is_put: BPut (op_cf: column_family) (op_key: "byte list") "byte list"
  | BDel (op_cf: column_family) (op_key: "byte list")

text \<open>Errors without the text of their messages; what a broken invariant names is kept.\<close>

datatype violation =
    DuplicateOrder market_id order_id
  | BalanceInvariant address nat

datatype persistence_error =
    RocksDb
  | Serialization
  | Deserialization
  | Json
  | KeyEncoding
  | ColumnFamilyNotFound
  | InvalidState invalid_state
  | InvariantViolation violation
  | NotInitialized
  | AlreadyExists
  | IoError
  | Corruption
  | VersionMismatch nat nat
  | RecoveryFailed
  | NotFound

type_synonym row = "byte list \<times> byte list"

text \<open>
  The database: the rows of a column family from a key on, the value of a key, and the
  atomic write of a batch; each may fail.
\<close>

record 'd kv_store =
  kv_iter :: "'d \<Rightarrow> column_family \<Rightarrow> byte list \<Rightarrow> row list option"
  kv_get :: "'d \<Rightarrow> column_family \<Rightarrow> byte list \<Rightarrow> byte list option option"
  kv_write :: "batch_op list \<Rightarrow> 'd \<Rightarrow> 'd option"

definition prefix_scan :: "'d kv_store \<Rightarrow> 'd \<Rightarrow> column_family \<Rightarrow> byte list \<Rightarrow> row list option" where
  "prefix_scan kv d cf pre = map_option (takeWhile (\<lambda>(k, _). take (length pre) k = pre)) (kv_iter kv d cf pre)"

definition commit_batch :: "'d kv_store \<Rightarrow> batch_op list \<Rightarrow> 'd \<Rightarrow> 'd option" where
  "commit_batch kv ops d = (if ops = [] then Some d else kv_write kv ops d)"

definition METADATA_HEIGHT :: "byte list" where
  "METADATA_HEIGHT = string_bytes ''height''"

definition METADATA_TIMESTAMP :: "byte list" where
  "METADATA_TIMESTAMP = string_bytes ''timestamp''"

definition METADATA_NEXT_ORDER_ID :: "byte list" where
  "METADATA_NEXT_ORDER_ID = string_bytes ''next_order_id''"

definition METADATA_INSURANCE_FUND :: "byte list" where
  "METADATA_INSURANCE_FUND = string_bytes ''insurance_fund''"

definition METADATA_SCHEMA_VERSION :: "byte list" where
  "METADATA_SCHEMA_VERSION = string_bytes ''schema_version''"

definition get_height :: "'d kv_store \<Rightarrow> 'd \<Rightarrow> nat option" where
  "get_height kv d = map_option (\<lambda>v. case v of
       Some bs \<Rightarrow> if 8 \<le> length bs then le_value (take 8 bs) else 0
     | None \<Rightarrow> 0) (kv_get kv d Metadata METADATA_HEIGHT)"

definition get_app_hash :: "'d kv_store \<Rightarrow> 'd \<Rightarrow> nat \<Rightarrow> digest option option" where
  "get_app_hash kv d h = map_option (\<lambda>v. case v of
       Some bs \<Rightarrow> if length bs = 32 then Some bs else None
     | None \<Rightarrow> None) (kv_get kv d AppHashes (block_key h))"

text \<open>
  What the documentation of RocksDB promises: a database has contents, a map for each
  column family, which reads report completely and a batch updates in its order.
\<close>

fun apply_op :: "batch_op \<Rightarrow> (byte list \<rightharpoonup> byte list) \<Rightarrow> byte list \<rightharpoonup> byte list" where
  "apply_op (BPut c k v) m = m(k \<mapsto> v)"
| "apply_op (BDel c k) m = m(k := None)"

definition after_ops :: "column_family \<Rightarrow> batch_op list \<Rightarrow> (byte list \<rightharpoonup> byte list) \<Rightarrow> byte list \<rightharpoonup> byte list" where
  "after_ops c ops m = fold apply_op (filter (\<lambda>op. op_cf op = c) ops) m"

definition store_ok :: "'d kv_store \<Rightarrow> ('d \<Rightarrow> column_family \<Rightarrow> byte list \<rightharpoonup> byte list) \<Rightarrow> bool" where
  "store_ok kv contents =
    ((\<forall>d c rows. kv_iter kv d c [] = Some rows \<longrightarrow> distinct (map fst rows) \<and> map_of rows = contents d c) \<and>
     (\<forall>d c k v. kv_get kv d c k = Some v \<longrightarrow> v = contents d c k) \<and>
     (\<forall>ops d d'. kv_write kv ops d = Some d' \<longrightarrow> (\<forall>c. contents d' c = after_ops c ops (contents d c))))"

definition reads_work :: "'d kv_store \<Rightarrow> 'd \<Rightarrow> bool" where
  "reads_work kv d = ((\<forall>c. kv_iter kv d c [] \<noteq> None) \<and> (\<forall>c k. kv_get kv d c k \<noteq> None))"

text \<open>A database in memory: lists of rows.\<close>

definition rows_store :: "(column_family \<Rightarrow> row list) kv_store" where
  "rows_store = \<lparr> kv_iter = (\<lambda>d c pre. Some (AList.clearjunk (d c))), kv_get = (\<lambda>d c k. Some (map_of (d c) k)),
     kv_write = (\<lambda>ops d. Some (fold (\<lambda>op d. case op of
         BPut c k v \<Rightarrow> d(c := AList.update k v (d c))
       | BDel c k \<Rightarrow> d(c := AList.delete k (d c))) ops d)) \<rparr>"

lemma rows_store_ok: "store_ok rows_store (\<lambda>d c. map_of (d c))"
proof -
  have "map_of (fold (\<lambda>op d. case op of BPut c k v \<Rightarrow> d(c := AList.update k v (d c)) | BDel c k \<Rightarrow> d(c := AList.delete k (d c))) ops d c) =
      after_ops c ops (map_of (d c))" for ops d c
    by (induction ops arbitrary: d)
      (auto simp: after_ops_def update_conv' delete_conv' split: batch_op.splits)
  then show ?thesis
    by (auto simp: store_ok_def rows_store_def map_of_clearjunk distinct_clearjunk)
qed

lemma rows_store_reads: "reads_work rows_store d"
  by (simp add: reads_work_def rows_store_def)

section \<open>What a batch leaves\<close>

lemma after_ops_append [simp]: "after_ops c (xs @ ys) m = after_ops c ys (after_ops c xs m)"
  by (simp add: after_ops_def)

lemma after_ops_other: "\<forall>op \<in> set ops. op_cf op \<noteq> c \<Longrightarrow> after_ops c ops m = m"
  by (simp add: after_ops_def filter_False)

lemma after_ops_dels:
  assumes "dom m \<subseteq> set ks"
  shows "after_ops c (map (BDel c) ks) m = Map.empty"
proof -
  have "fold apply_op (map (BDel c) ks) m = m |` (- set ks)"
    by (induction ks arbitrary: m) (auto simp: fun_upd_def restrict_map_def fun_eq_iff)
  then show ?thesis using assms by (auto simp: after_ops_def filter_True comp_def restrict_map_def fun_eq_iff domIff subset_iff)
qed

lemma after_ops_puts: "after_ops c (map (\<lambda>x. BPut c (key x) (val x)) xs) m = m ++ map_of (rev (map (\<lambda>x. (key x, val x)) xs))"
proof -
  have "fold apply_op (map (\<lambda>x. BPut c (key x) (val x)) xs) m = m ++ map_of (rev (map (\<lambda>x. (key x, val x)) xs))"
    by (induction xs arbitrary: m) simp_all
  then show ?thesis by (simp add: after_ops_def filter_True comp_def)
qed

text \<open>Entries written under different keys and read back by any listing of the rows.\<close>

lemma set_map_filter: "set (List.map_filter f xs) = {y. \<exists>x \<in> set xs. f x = Some y}"
  by (force simp: List.map_filter_def)

lemma distinct_by_key:
  assumes "\<forall>x \<in> set xs. dk (key x) = Some (ident x)" "distinct (map ident xs)"
  shows "distinct (map key xs)"
proof -
  have "inj_on key (set xs)"
  proof (rule inj_onI)
    fix x y assume xy: "x \<in> set xs" "y \<in> set xs" "key x = key y"
    then have "ident x = ident y" using assms(1) by (metis option.inject)
    then show "x = y" using assms(2) xy by (auto simp: distinct_map inj_on_def)
  qed
  then show ?thesis using assms(2) by (auto simp: distinct_map)
qed

lemma rows_of_map:
  assumes "distinct (map fst rows)" "map_of rows = map_of (rev (map (\<lambda>x. (key x, val x)) xs))" "distinct (map key xs)"
  shows "set rows = (\<lambda>x. (key x, val x)) ` set xs"
proof -
  have "distinct (map fst (rev (map (\<lambda>x. (key x, val x)) xs)))"
    using assms(3) by (simp add: rev_map comp_def) (simp add: rev_map [symmetric])
  then have "set rows = set (rev (map (\<lambda>x. (key x, val x)) xs))"
    using assms(1,2) map_of_inject_set by blast
  then show ?thesis by simp
qed

lemma reload_entries:
  assumes "distinct (map fst rows)" "map_of rows = map_of (rev (map (\<lambda>x. (key x, val x)) xs))"
    "\<forall>x \<in> set xs. dk (key x) = Some (ident x)" "distinct (map ident xs)"
    "\<forall>x \<in> set xs. dec (key x, val x) = Some x"
  shows "set (List.map_filter dec rows) = set xs"
proof -
  have "distinct (map key xs)" using assms(3,4) by (rule distinct_by_key)
  then show ?thesis
    unfolding set_map_filter rows_of_map [OF assms(1,2) \<open>distinct (map key xs)\<close>] using assms(5) by auto
qed

end
