(* ===== verification/Persister.thy ===== *)
theory Persister
  imports Persist_State
begin

text \<open>
  Saving and loading the persisted state, from \<open>crates/persistence/src/persister.rs\<close>:
  one batch that clears six column families and writes all entries, and the way back.
\<close>

section \<open>Results\<close>

text \<open>A panic is the outer \<open>None\<close>.\<close>

type_synonym 'a outcome = "(persistence_error + 'a) option"

definition pbind :: "'a outcome \<Rightarrow> ('a \<Rightarrow> 'b outcome) \<Rightarrow> 'b outcome" where
  "pbind r f = (case r of None \<Rightarrow> None | Some (Inl e) \<Rightarrow> Some (Inl e) | Some (Inr x) \<Rightarrow> f x)"

definition db_result :: "'a option \<Rightarrow> 'a outcome" where
  "db_result r = (case r of None \<Rightarrow> Some (Inl RocksDb) | Some x \<Rightarrow> Some (Inr x))"

lemma pbind_simps [simp]:
  "pbind (Some (Inr x)) f = f x" "pbind None f = None" "pbind (Some (Inl e)) f = Some (Inl e)"
  by (simp_all add: pbind_def)

lemma db_result_Some [simp]: "db_result (Some x) = Some (Inr x)"
  by (simp add: db_result_def)

lemma pbind_db_eq_Inr: "pbind (db_result r) f = Some (Inr y) \<longleftrightarrow> (\<exists>x. r = Some x \<and> f x = Some (Inr y))"
  by (cases r) (simp_all add: db_result_def)

lemma pbind_eq_Inr: "pbind r f = Some (Inr y) \<longleftrightarrow> (\<exists>x. r = Some (Inr x) \<and> f x = Some (Inr y))"
  by (auto simp: pbind_def split: option.splits sum.splits)

section \<open>Codecs\<close>

record 'a codec =
  cd_enc :: "'a \<Rightarrow> byte list option"
  cd_dec :: "byte list \<Rightarrow> 'a option"

record codecs =
  cs_balance :: "balance_data codec"
  cs_account :: "account_entry codec"
  cs_position :: "position codec"
  cs_market :: "market_entry codec"
  cs_order :: "order codec"
  cs_token :: "spot_token_entry codec"
  cs_spot_market :: "spot_market_entry codec"
  cs_evm_account :: "evm_account_entry codec"
  cs_block :: "block_meta_entry codec"

definition reads_back :: "'a codec \<Rightarrow> 'a \<Rightarrow> bool" where
  "reads_back c x = (\<forall>bs. cd_enc c x = Some bs \<longrightarrow> cd_dec c bs = Some x)"

section \<open>Saving\<close>

definition prefer_first :: "'a list \<Rightarrow> 'a list \<Rightarrow> 'a list" where
  "prefer_first xs ys = (if xs \<noteq> [] then xs else ys)"

definition cleared :: "column_family list" where
  "cleared = [CloidIndex, Orders, Positions, Leverage, Balances, Nonces]"

definition clear_ops :: "'d kv_store \<Rightarrow> 'd \<Rightarrow> batch_op list option" where
  "clear_ops kv d = map_option concat
     (omap (\<lambda>c. map_option (map (\<lambda>(k, _). BDel c k)) (prefix_scan kv d c [])) cleared)"

definition put_rows :: "column_family \<Rightarrow> ('a \<Rightarrow> byte list) \<Rightarrow> ('a \<Rightarrow> byte list option) \<Rightarrow> 'a list \<Rightarrow> batch_op list option" where
  "put_rows c key enc xs = omap (\<lambda>x. map_option (BPut c (key x)) (enc x)) xs"

definition spot_order_key :: "order_entry \<Rightarrow> byte list" where
  "spot_order_key e = order_row_key (min 255 (ode_market e + 128)) (ode_id e)"

definition cloid_value :: "cloid_entry \<Rightarrow> byte list" where
  "cloid_value e = word_of_nat (cle_market e) # u64_le (cle_order_id e)"

definition metadata_ops :: "persisted_state \<Rightarrow> batch_op list" where
  "metadata_ops st =
    [BPut Metadata METADATA_HEIGHT (u64_le (ps_height st)),
     BPut Metadata METADATA_TIMESTAMP (u64_le (ps_timestamp st)),
     BPut Metadata METADATA_NEXT_ORDER_ID (u64_le (cr_next_order_id (ps_core st))),
     BPut Metadata METADATA_INSURANCE_FUND (string_bytes (cr_insurance_fund (ps_core st))),
     BPut Metadata METADATA_SCHEMA_VERSION (rev (be_bytes 4 SCHEMA_VERSION)),
     BPut AppHashes (block_key (ps_height st)) (ps_app_hash st)]"

definition state_puts :: "codecs \<Rightarrow> persisted_state \<Rightarrow> batch_op list option" where
  "state_puts cd st =
    (let core = ps_core st; perp = ps_perp st; spot = ps_spot st; evm = ps_evm st; chain = ps_chain st in do {
       balances \<leftarrow> put_rows Balances (\<lambda>b. balance_key (be_account b) (be_token b)) (cd_enc (cs_balance cd) \<circ> be_balance) (cr_balances core);
       accounts \<leftarrow> put_rows Accounts (nonce_key \<circ> ae_account) (cd_enc (cs_account cd)) (cr_accounts core);
       positions \<leftarrow> put_rows Positions (\<lambda>p. position_key (pe_account p) (pe_market p)) (cd_enc (cs_position cd) \<circ> pe_position)
         (prefer_first (pps_positions perp) (cr_positions core));
       leverage \<leftarrow> put_rows Leverage (\<lambda>l. position_key (lv_account l) (lv_market l)) (\<lambda>l. Some [word_of_nat (lv_leverage l)])
         (prefer_first (pps_leverage perp) (cr_leverage core));
       markets \<leftarrow> put_rows Markets (byte_key \<circ> mke_id) (cd_enc (cs_market cd)) (prefer_first (pps_markets perp) (cr_markets core));
       orders \<leftarrow> put_rows Orders (\<lambda>e. order_row_key (ode_market e) (ode_id e)) (cd_enc (cs_order cd) \<circ> ode_order)
         (prefer_first (pps_orders perp) (cr_orders core));
       tokens \<leftarrow> put_rows SpotTokens (byte_key \<circ> ste_index) (cd_enc (cs_token cd)) (sps_tokens spot);
       spot_markets \<leftarrow> put_rows SpotMarkets (byte_key \<circ> sme_id) (cd_enc (cs_spot_market cd)) (sps_markets spot);
       reserved \<leftarrow> put_rows SpotReserved (\<lambda>r. balance_key (rse_account r) (rse_token r)) (Some \<circ> string_bytes \<circ> rse_amount) (sps_reserved spot);
       spot_orders \<leftarrow> put_rows Orders spot_order_key (cd_enc (cs_order cd) \<circ> ode_order) (sps_orders spot);
       evm_accounts \<leftarrow> put_rows EvmAccounts eva_address (cd_enc (cs_evm_account cd)) (evd_accounts evm);
       storage \<leftarrow> put_rows EvmStorage (\<lambda>e. evm_storage_key (evs_address e) (evs_slot e)) (Some \<circ> evs_value) (evd_storage evm);
       code \<leftarrow> put_rows EvmCode evc_hash (Some \<circ> evc_bytecode) (evd_code evm);
       hashes \<leftarrow> put_rows EvmBlockHashes (block_key \<circ> evb_height) (Some \<circ> evb_hash) (evd_block_hashes evm);
       nonces \<leftarrow> put_rows Nonces (nonce_key \<circ> ne_account) (Some \<circ> u64_le \<circ> ne_nonce) (chs_nonces chain);
       blocks \<leftarrow> put_rows BlockMeta (block_key \<circ> bme_height) (cd_enc (cs_block cd)) (chs_blocks chain);
       cloids \<leftarrow> put_rows CloidIndex (\<lambda>e. cloid_key (cle_account e) (cle_cloid e)) (Some \<circ> cloid_value) (chs_cloids chain);
       Some (concat [balances, accounts, positions, leverage, markets, orders, tokens, spot_markets, reserved, spot_orders,
         evm_accounts, storage, code, hashes, nonces, blocks, cloids, metadata_ops st])
     })"

definition persist_state :: "'d kv_store \<Rightarrow> codecs \<Rightarrow> persisted_state \<Rightarrow> 'd \<Rightarrow> 'd outcome" where
  "persist_state kv cd st d = (case ps_validate st of
       None \<Rightarrow> None
     | Some (Some e) \<Rightarrow> Some (Inl (InvalidState e))
     | Some None \<Rightarrow> pbind (db_result (clear_ops kv d)) (\<lambda>dels. case state_puts cd st of
           None \<Rightarrow> Some (Inl Serialization)
         | Some puts \<Rightarrow> db_result (commit_batch kv (dels @ puts) d)))"

section \<open>Loading\<close>

definition read_u64 :: "byte list option \<Rightarrow> nat \<Rightarrow> nat" where
  "read_u64 v other = (case v of Some bs \<Rightarrow> if 8 \<le> length bs then le_value (take 8 bs) else other | None \<Rightarrow> other)"

definition from_utf8 :: "byte list \<Rightarrow> string option" where
  "from_utf8 bs = (if list_all (\<lambda>b. unat b < 128) bs then Some (bytes_string bs) else None)"

definition load_balance :: "codecs \<Rightarrow> row \<Rightarrow> balance_entry option" where
  "load_balance cd = (\<lambda>(k, v). do {
     (a, t) \<leftarrow> decode_balance_key k;
     b \<leftarrow> cd_dec (cs_balance cd) v;
     Some \<lparr> be_account = a, be_token = t, be_balance = b \<rparr> })"

definition load_position :: "codecs \<Rightarrow> row \<Rightarrow> position_entry option" where
  "load_position cd = (\<lambda>(k, v). do {
     (a, m) \<leftarrow> decode_position_key k;
     p \<leftarrow> cd_dec (cs_position cd) v;
     Some \<lparr> pe_account = a, pe_market = m, pe_position = p \<rparr> })"

definition load_leverage :: "row \<Rightarrow> leverage_entry option" where
  "load_leverage = (\<lambda>(k, v). do {
     (a, m) \<leftarrow> decode_position_key k;
     if v = [] then None else Some \<lparr> lv_account = a, lv_market = m, lv_leverage = unat (hd v) \<rparr> })"

definition load_order :: "codecs \<Rightarrow> row \<Rightarrow> order_entry option" where
  "load_order cd = (\<lambda>(k, v). do {
     (m, i) \<leftarrow> decode_order_key k;
     ord \<leftarrow> cd_dec (cs_order cd) v;
     Some \<lparr> ode_market = m, ode_id = i, ode_order = ord \<rparr> })"

text \<open>Rows of the orders whose market is 128 or more are those of spot orders.\<close>

definition perp_rows :: "order_entry list \<Rightarrow> order_entry list" where
  "perp_rows es = filter (\<lambda>e. ode_market e < 128) es"

definition spot_rows :: "order_entry list \<Rightarrow> order_entry list" where
  "spot_rows es = map (\<lambda>e. e \<lparr> ode_market := ode_market e - 128 \<rparr>) (filter (\<lambda>e. \<not> ode_market e < 128) es)"

text \<open>A stored value of less than 32 bytes does not fit the array it is copied to.\<close>

definition load_storage :: "row list \<Rightarrow> evm_storage_entry list option" where
  "load_storage rows = omap (\<lambda>((a, s), v). if length v < 32 then None
       else Some \<lparr> evs_address = a, evs_slot = s, evs_value = take 32 v \<rparr>)
     (List.map_filter (\<lambda>(k, v). map_option (\<lambda>x. (x, v)) (decode_evm_storage_key k)) rows)"

definition load_code :: "row \<Rightarrow> evm_code_entry option" where
  "load_code = (\<lambda>(k, v). if length k = 32 then Some \<lparr> evc_hash = k, evc_bytecode = v \<rparr> else None)"

definition load_nonce :: "row \<Rightarrow> nonce_entry option" where
  "load_nonce = (\<lambda>(k, v). if length k = 20 \<and> 8 \<le> length v
     then Some \<lparr> ne_account = address_of_bytes k, ne_nonce = le_value (take 8 v) \<rparr> else None)"

definition load_cloid :: "row \<Rightarrow> cloid_entry option" where
  "load_cloid = (\<lambda>(k, v). if 20 < length k \<and> 9 \<le> length v
     then Some \<lparr> cle_account = address_of_bytes (take 20 k), cle_cloid = bytes_string (drop 20 k),
                 cle_market = unat (hd v), cle_order_id = le_value (take 8 (tl v)) \<rparr>
     else None)"

definition scan :: "'d kv_store \<Rightarrow> 'd \<Rightarrow> column_family \<Rightarrow> (row list \<Rightarrow> 'b outcome) \<Rightarrow> 'b outcome" where
  "scan kv d c f = pbind (db_result (prefix_scan kv d c [])) f"

definition load_core :: "'d kv_store \<Rightarrow> codecs \<Rightarrow> 'd \<Rightarrow> (core_state \<times> order_entry list) outcome" where
  "load_core kv cd d =
     scan kv d Balances (\<lambda>balances. scan kv d Positions (\<lambda>positions. scan kv d Leverage (\<lambda>leverage.
     scan kv d Markets (\<lambda>markets. scan kv d Orders (\<lambda>orders.
     pbind (db_result (kv_get kv d Metadata METADATA_NEXT_ORDER_ID)) (\<lambda>next_id.
     pbind (db_result (kv_get kv d Metadata METADATA_INSURANCE_FUND)) (\<lambda>fund.
       let es = List.map_filter (load_order cd) orders in
       Some (Inr (core_default
         \<lparr> cr_balances := List.map_filter (load_balance cd) balances, cr_positions := List.map_filter (load_position cd) positions,
           cr_leverage := List.map_filter load_leverage leverage,
           cr_markets := List.map_filter (\<lambda>(_, v). cd_dec (cs_market cd) v) markets,
           cr_orders := perp_rows es, cr_next_order_id := read_u64 next_id 0,
           cr_insurance_fund := (case fund of
               Some bs \<Rightarrow> (case from_utf8 bs of Some s \<Rightarrow> s | None \<Rightarrow> ''0'')
             | None \<Rightarrow> []) \<rparr>, spot_rows es)))))))))"

definition load_spot :: "'d kv_store \<Rightarrow> codecs \<Rightarrow> 'd \<Rightarrow> order_entry list \<Rightarrow> spot_persist outcome" where
  "load_spot kv cd d orders =
     scan kv d SpotTokens (\<lambda>tokens. scan kv d SpotMarkets (\<lambda>markets.
       Some (Inr (spot_persist_default
         \<lparr> sps_tokens := List.map_filter (\<lambda>(_, v). cd_dec (cs_token cd) v) tokens,
           sps_markets := List.map_filter (\<lambda>(_, v). cd_dec (cs_spot_market cd) v) markets, sps_orders := orders \<rparr>))))"

definition load_evm :: "'d kv_store \<Rightarrow> codecs \<Rightarrow> 'd \<Rightarrow> evm_state_data outcome" where
  "load_evm kv cd d =
     scan kv d EvmAccounts (\<lambda>accounts. scan kv d EvmStorage (\<lambda>storage.
     case load_storage storage of
       None \<Rightarrow> None
     | Some es \<Rightarrow> scan kv d EvmCode (\<lambda>code.
         Some (Inr (evm_data_default
           \<lparr> evd_accounts := List.map_filter (\<lambda>(_, v). cd_dec (cs_evm_account cd) v) accounts,
             evd_storage := es, evd_code := List.map_filter load_code code \<rparr>)))))"

definition load_chain :: "'d kv_store \<Rightarrow> codecs \<Rightarrow> 'd \<Rightarrow> chain_persist outcome" where
  "load_chain kv cd d =
     scan kv d Nonces (\<lambda>nonces. scan kv d BlockMeta (\<lambda>blocks. scan kv d CloidIndex (\<lambda>cloids.
       Some (Inr \<lparr> chs_nonces = List.map_filter load_nonce nonces,
         chs_blocks = List.map_filter (\<lambda>(_, v). cd_dec (cs_block cd) v) blocks,
         chs_cloids = List.map_filter load_cloid cloids \<rparr>))))"

definition load_state :: "'d kv_store \<Rightarrow> codecs \<Rightarrow> 'd \<Rightarrow> persisted_state option outcome" where
  "load_state kv cd d =
     pbind (db_result (get_height kv d)) (\<lambda>h.
     if h = 0 then Some (Inr None)
     else pbind (db_result (kv_get kv d Metadata METADATA_TIMESTAMP)) (\<lambda>ts.
     pbind (db_result (get_app_hash kv d h)) (\<lambda>app_hash.
     pbind (load_core kv cd d) (\<lambda>(core, spot_orders).
     pbind (load_spot kv cd d spot_orders) (\<lambda>spot.
     pbind (load_evm kv cd d) (\<lambda>evm.
     pbind (load_chain kv cd d) (\<lambda>chain.
       let st = persisted_new \<lparr> ps_height := h, ps_timestamp := read_u64 ts 0,
             ps_app_hash := (case app_hash of Some x \<Rightarrow> x | None \<Rightarrow> ps_app_hash persisted_new),
             ps_core := core, ps_spot := spot, ps_evm := evm, ps_chain := chain \<rparr>
       in case ps_validate st of
            None \<Rightarrow> None
          | Some (Some e) \<Rightarrow> Some (Inl (InvalidState e))
          | Some None \<Rightarrow> Some (Inr (Some st)))))))))"

definition has_state :: "'d kv_store \<Rightarrow> 'd \<Rightarrow> bool outcome" where
  "has_state kv d = pbind (db_result (get_height kv d)) (\<lambda>h. Some (Inr (0 < h)))"

text \<open>The stand-alone check adds that order ids are unique.\<close>

fun first_duplicate :: "(market_id \<times> order_id) list \<Rightarrow> order_entry list \<Rightarrow> persistence_error option" where
  "first_duplicate seen [] = None"
| "first_duplicate seen (e # es) = (let k = (ode_market e, ode_id e) in
     if k \<in> set seen then Some (InvariantViolation (DuplicateOrder (ode_market e) (ode_id e))) else first_duplicate (k # seen) es)"

definition validate_state :: "persisted_state \<Rightarrow> unit outcome" where
  "validate_state st =
    (if ps_schema st \<noteq> SCHEMA_VERSION then Some (Inl (VersionMismatch SCHEMA_VERSION (ps_schema st)))
     else (case first_invalid (cr_balances (ps_core st)) of
         None \<Rightarrow> None
       | Some (Some (InvalidBalance a t)) \<Rightarrow> Some (Inl (InvariantViolation (BalanceInvariant a t)))
       | Some (Some (SchemaMismatch n)) \<Rightarrow> Some (Inl (VersionMismatch SCHEMA_VERSION n))
       | Some None \<Rightarrow> (case first_duplicate [] (cr_orders (ps_core st)) of
           Some e \<Rightarrow> Some (Inl e)
         | None \<Rightarrow> Some (Inr ()))))"

section \<open>What a save leaves in the database\<close>

lemma put_rows_map:
  "put_rows c key enc xs = Some ops \<Longrightarrow> ops = map (\<lambda>x. BPut c (key x) (the (enc x))) xs \<and> (\<forall>x \<in> set xs. enc x \<noteq> None)"
  by (induction xs arbitrary: ops) (auto simp: put_rows_def Option.bind_eq_Some_conv)

lemma after_put_rows:
  assumes "put_rows c' key enc xs = Some ops"
  shows "after_ops c ops m = (if c = c' then m ++ map_of (rev (map (\<lambda>x. (key x, the (enc x))) xs)) else m)"
proof -
  have "ops = map (\<lambda>x. BPut c' (key x) (the (enc x))) xs" using put_rows_map [OF assms] by simp
  then show ?thesis by (simp add: after_ops_puts after_ops_other)
qed

lemma prefix_scan_all [simp]: "prefix_scan kv d c [] = kv_iter kv d c []"
  by (cases "kv_iter kv d c []") (auto simp: prefix_scan_def takeWhile_eq_all_conv)

lemma after_clear_column:
  assumes "store_ok kv contents" "kv_iter kv d c' [] = Some rows"
  shows "after_ops c (map (\<lambda>(k, _). BDel c' k) rows) (contents d c) = (if c = c' then Map.empty else contents d c)"
proof -
  have dels: "map (\<lambda>(k, _). BDel c' k) rows = map (BDel c') (map fst rows)" by auto
  have "dom (contents d c') \<subseteq> set (map fst rows)" using assms by (auto simp: store_ok_def) (metis domI dom_map_of_conv_image_fst image_eqI)
  then show ?thesis unfolding dels using after_ops_dels [of "contents d c'" "map fst rows" c'] by (simp add: after_ops_other)
qed

text \<open>A successful save clears the six column families and writes the entries.\<close>

lemma after_clear_ops:
  assumes "store_ok kv contents" "clear_ops kv d = Some dels"
  shows "after_ops c dels (contents d c) = (if c \<in> set cleared then Map.empty else contents d c)"
proof -
  obtain r1 r2 r3 r4 r5 r6 where rows: "kv_iter kv d CloidIndex [] = Some r1" "kv_iter kv d Orders [] = Some r2"
    "kv_iter kv d Positions [] = Some r3" "kv_iter kv d Leverage [] = Some r4" "kv_iter kv d Balances [] = Some r5"
    "kv_iter kv d Nonces [] = Some r6"
    and dels: "dels = map (\<lambda>(k, _). BDel CloidIndex k) r1 @ map (\<lambda>(k, _). BDel Orders k) r2 @ map (\<lambda>(k, _). BDel Positions k) r3 @
      map (\<lambda>(k, _). BDel Leverage k) r4 @ map (\<lambda>(k, _). BDel Balances k) r5 @ map (\<lambda>(k, _). BDel Nonces k) r6"
    using assms(2) by (auto simp: clear_ops_def cleared_def Option.bind_eq_Some_conv)
  note one = after_clear_column [OF assms(1)]
  have empty: "after_ops c (map (\<lambda>(k, _). BDel c' k) rs) Map.empty = Map.empty" for c c' and rs :: "row list"
  proof -
    have dels: "map (\<lambda>(k, _). BDel c' k) rs = map (BDel c') (map fst rs)" by auto
    show ?thesis unfolding dels using after_ops_dels [of Map.empty "map fst rs" c'] by (cases "c = c'") (simp_all add: after_ops_other)
  qed
  show ?thesis
    unfolding dels after_ops_append
    by (cases "c \<in> set cleared")
      (auto simp: cleared_def empty one [OF rows(1)] one [OF rows(2)] one [OF rows(3)] one [OF rows(4)] one [OF rows(5)] one [OF rows(6)])
qed

lemma persist_contents:
  assumes "store_ok kv contents" "persist_state kv cd st d = Some (Inr d')"
  obtains puts where "state_puts cd st = Some puts" "ps_validate st = Some None"
    "\<forall>c. contents d' c = after_ops c puts (if c \<in> set cleared then Map.empty else contents d c)"
proof -
  obtain dels puts where ops: "clear_ops kv d = Some dels" "state_puts cd st = Some puts" "ps_validate st = Some None"
    and commit: "commit_batch kv (dels @ puts) d = Some d'"
    using assms(2) by (auto simp: persist_state_def pbind_db_eq_Inr db_result_def split: option.splits)
  have "puts \<noteq> []" using ops(2) by (auto simp: state_puts_def Option.bind_eq_Some_conv Let_def metadata_ops_def)
  then have "kv_write kv (dels @ puts) d = Some d'" using commit by (simp add: commit_batch_def)
  then have "contents d' c = after_ops c puts (after_ops c dels (contents d c))" for c
    using assms(1) by (simp add: store_ok_def)
  then show ?thesis using after_clear_ops [OF assms(1) ops(1)] that [OF ops(2,3)] by simp
qed

section \<open>Loading what was saved\<close>

text \<open>
  What can be saved: values within their types, one entry per key, and codecs that read
  back what they wrote.  The market of an order stays below 128, for a spot order, too.
\<close>

definition savable_balances :: "codecs \<Rightarrow> balance_entry list \<Rightarrow> bool" where
  "savable_balances cd bs = (distinct (map (\<lambda>b. (be_account b, be_token b)) bs) \<and>
     (\<forall>b \<in> set bs. be_account b < 2 ^ 160 \<and> be_token b < 256 \<and> reads_back (cs_balance cd) (be_balance b)))"

definition savable_positions :: "codecs \<Rightarrow> position_entry list \<Rightarrow> bool" where
  "savable_positions cd ps = (distinct (map (\<lambda>p. (pe_account p, pe_market p)) ps) \<and>
     (\<forall>p \<in> set ps. pe_account p < 2 ^ 160 \<and> pe_market p < 256 \<and> reads_back (cs_position cd) (pe_position p)))"

definition savable_leverage :: "leverage_entry list \<Rightarrow> bool" where
  "savable_leverage ls = (distinct (map (\<lambda>l. (lv_account l, lv_market l)) ls) \<and>
     (\<forall>l \<in> set ls. lv_account l < 2 ^ 160 \<and> lv_market l < 256 \<and> lv_leverage l < 256))"

definition savable_orders :: "codecs \<Rightarrow> order_entry list \<Rightarrow> bool" where
  "savable_orders cd es = (distinct (map (\<lambda>e. (ode_market e, ode_id e)) es) \<and>
     (\<forall>e \<in> set es. ode_market e < 128 \<and> ode_id e < 2 ^ 64 \<and> reads_back (cs_order cd) (ode_order e)))"

definition savable_nonces :: "nonce_entry list \<Rightarrow> bool" where
  "savable_nonces ns = (distinct (map ne_account ns) \<and> (\<forall>n \<in> set ns. ne_account n < 2 ^ 160 \<and> ne_nonce n < 2 ^ 64))"

definition savable_cloids :: "cloid_entry list \<Rightarrow> bool" where
  "savable_cloids es = (distinct (map (\<lambda>e. (cle_account e, cle_cloid e)) es) \<and>
     (\<forall>e \<in> set es. cle_account e < 2 ^ 160 \<and> cle_cloid e \<noteq> [] \<and> cle_market e < 256 \<and> cle_order_id e < 2 ^ 64))"

definition the_positions :: "persisted_state \<Rightarrow> position_entry list" where
  "the_positions st = prefer_first (pps_positions (ps_perp st)) (cr_positions (ps_core st))"

definition the_leverage :: "persisted_state \<Rightarrow> leverage_entry list" where
  "the_leverage st = prefer_first (pps_leverage (ps_perp st)) (cr_leverage (ps_core st))"

definition the_orders :: "persisted_state \<Rightarrow> order_entry list" where
  "the_orders st = prefer_first (pps_orders (ps_perp st)) (cr_orders (ps_core st))"

definition savable :: "codecs \<Rightarrow> persisted_state \<Rightarrow> bool" where
  "savable cd st =
    (0 < ps_height st \<and> ps_height st < 2 ^ 64 \<and> ps_timestamp st < 2 ^ 64 \<and> length (ps_app_hash st) = 32 \<and>
     cr_next_order_id (ps_core st) < 2 ^ 64 \<and> list_all (\<lambda>c. of_char c < (128::nat)) (cr_insurance_fund (ps_core st)) \<and>
     savable_balances cd (cr_balances (ps_core st)) \<and> savable_positions cd (the_positions st) \<and>
     savable_leverage (the_leverage st) \<and> savable_orders cd (the_orders st) \<and> savable_orders cd (sps_orders (ps_spot st)) \<and>
     savable_nonces (chs_nonces (ps_chain st)) \<and> savable_cloids (chs_cloids (ps_chain st)))"

lemma reads_backD: "reads_back c x \<Longrightarrow> cd_enc c x \<noteq> None \<Longrightarrow> cd_dec c (the (cd_enc c x)) = Some x"
  by (auto simp: reads_back_def)

text \<open>The rows of one column after the puts, for each kind of entry.\<close>

definition column :: "('a \<Rightarrow> byte list) \<Rightarrow> ('a \<Rightarrow> byte list option) \<Rightarrow> 'a list \<Rightarrow> byte list \<rightharpoonup> byte list" where
  "column key enc xs = map_of (rev (map (\<lambda>x. (key x, the (enc x))) xs))"

lemma after_put_rows_empty:
  "put_rows c key enc xs = Some ops \<Longrightarrow> after_ops c ops Map.empty = column key enc xs"
  by (simp add: after_put_rows column_def)

lemma state_puts_columns:
  assumes "state_puts cd st = Some puts"
  shows "after_ops Balances puts Map.empty =
      column (\<lambda>b. balance_key (be_account b) (be_token b)) (cd_enc (cs_balance cd) \<circ> be_balance) (cr_balances (ps_core st))"
    "after_ops Positions puts Map.empty =
      column (\<lambda>p. position_key (pe_account p) (pe_market p)) (cd_enc (cs_position cd) \<circ> pe_position) (the_positions st)"
    "after_ops Leverage puts Map.empty =
      column (\<lambda>l. position_key (lv_account l) (lv_market l)) (\<lambda>l. Some [word_of_nat (lv_leverage l)]) (the_leverage st)"
    "after_ops Nonces puts Map.empty = column (nonce_key \<circ> ne_account) (Some \<circ> u64_le \<circ> ne_nonce) (chs_nonces (ps_chain st))"
    "after_ops CloidIndex puts Map.empty =
      column (\<lambda>e. cloid_key (cle_account e) (cle_cloid e)) (Some \<circ> cloid_value) (chs_cloids (ps_chain st))"
    "after_ops Orders puts Map.empty =
      column (\<lambda>e. order_row_key (ode_market e) (ode_id e)) (cd_enc (cs_order cd) \<circ> ode_order) (the_orders st) ++
      column spot_order_key (cd_enc (cs_order cd) \<circ> ode_order) (sps_orders (ps_spot st))"
    "\<forall>m. after_ops Metadata puts m METADATA_HEIGHT = Some (u64_le (ps_height st))"
    "\<forall>m. after_ops Metadata puts m METADATA_TIMESTAMP = Some (u64_le (ps_timestamp st))"
    "\<forall>m. after_ops Metadata puts m METADATA_NEXT_ORDER_ID = Some (u64_le (cr_next_order_id (ps_core st)))"
    "\<forall>m. after_ops Metadata puts m METADATA_INSURANCE_FUND = Some (string_bytes (cr_insurance_fund (ps_core st)))"
    "\<forall>m. after_ops AppHashes puts m (block_key (ps_height st)) = Some (ps_app_hash st)"
    "\<forall>b \<in> set (cr_balances (ps_core st)). cd_enc (cs_balance cd) (be_balance b) \<noteq> None"
    "\<forall>p \<in> set (the_positions st). cd_enc (cs_position cd) (pe_position p) \<noteq> None"
    "\<forall>e \<in> set (the_orders st) \<union> set (sps_orders (ps_spot st)). cd_enc (cs_order cd) (ode_order e) \<noteq> None"
  using assms
  unfolding the_positions_def the_leverage_def the_orders_def column_def
  by (auto simp: state_puts_def Option.bind_eq_Some_conv Let_def after_put_rows metadata_ops_def after_ops_def [of _ "_ # _"] after_ops_def [of _ "[]"]
      METADATA_HEIGHT_def METADATA_TIMESTAMP_def METADATA_NEXT_ORDER_ID_def METADATA_INSURANCE_FUND_def METADATA_SCHEMA_VERSION_def
      string_bytes_def dest: put_rows_map)

lemma load_column:
  assumes "store_ok kv contents" "kv_iter kv d c [] = Some rows" "contents d c = column key enc xs"
    "\<forall>x \<in> set xs. dk (key x) = Some (ident x)" "distinct (map ident xs)" "\<forall>x \<in> set xs. dec (key x, the (enc x)) = Some x"
  shows "set (List.map_filter dec rows) = set xs"
proof (rule reload_entries)
  show "distinct (map fst rows)" "map_of rows = map_of (rev (map (\<lambda>x. (key x, the (enc x))) xs))"
    using assms(1,2,3) by (auto simp: store_ok_def column_def)
qed (use assms(4,5,6) in auto)

lemma first_invalid_iff: "first_invalid bs = Some None \<longleftrightarrow> (\<forall>b \<in> set bs. bd_is_valid (be_balance b) = Some True)"
  by (induction bs) (auto simp: Option.bind_eq_Some_conv split: if_splits)

lemma address_key_parts [simp]:
  "take 20 (address_bytes a @ xs) = address_bytes a" "drop 20 (address_bytes a @ xs) = xs"
  by simp_all

text \<open>The rows of one kind of entry give the entries back.\<close>

lemma loaded_balances:
  assumes "store_ok kv contents" "kv_iter kv d Balances [] = Some rows" "savable_balances cd bs"
    "contents d Balances = column (\<lambda>b. balance_key (be_account b) (be_token b)) (cd_enc (cs_balance cd) \<circ> be_balance) bs"
    "\<forall>b \<in> set bs. cd_enc (cs_balance cd) (be_balance b) \<noteq> None"
  shows "set (List.map_filter (load_balance cd) rows) = set bs"
  using assms(3,5)
  by (intro load_column [OF assms(1,2,4), where dk = decode_balance_key and ident = "\<lambda>b. (be_account b, be_token b)"])
    (auto simp: savable_balances_def load_balance_def reads_backD)

lemma loaded_positions:
  assumes "store_ok kv contents" "kv_iter kv d Positions [] = Some rows" "savable_positions cd ps"
    "contents d Positions = column (\<lambda>p. position_key (pe_account p) (pe_market p)) (cd_enc (cs_position cd) \<circ> pe_position) ps"
    "\<forall>p \<in> set ps. cd_enc (cs_position cd) (pe_position p) \<noteq> None"
  shows "set (List.map_filter (load_position cd) rows) = set ps"
  using assms(3,5)
  by (intro load_column [OF assms(1,2,4), where dk = decode_position_key and ident = "\<lambda>p. (pe_account p, pe_market p)"])
    (auto simp: savable_positions_def load_position_def reads_backD)

lemma loaded_leverage:
  assumes "store_ok kv contents" "kv_iter kv d Leverage [] = Some rows" "savable_leverage ls"
    "contents d Leverage = column (\<lambda>l. position_key (lv_account l) (lv_market l)) (\<lambda>l. Some [word_of_nat (lv_leverage l)]) ls"
  shows "set (List.map_filter load_leverage rows) = set ls"
  using assms(3)
  by (intro load_column [OF assms(1,2,4), where dk = decode_position_key and ident = "\<lambda>l. (lv_account l, lv_market l)"])
    (auto simp: savable_leverage_def load_leverage_def)

lemma loaded_nonces:
  assumes "store_ok kv contents" "kv_iter kv d Nonces [] = Some rows" "savable_nonces ns"
    "contents d Nonces = column (nonce_key \<circ> ne_account) (Some \<circ> u64_le \<circ> ne_nonce) ns"
  shows "set (List.map_filter load_nonce rows) = set ns"
  using assms(3)
  by (intro load_column [OF assms(1,2,4), where dk = "\<lambda>k. Some (address_of_bytes k)" and ident = ne_account])
    (auto simp: savable_nonces_def load_nonce_def nonce_key_def)

lemma length_string_bytes: "length (string_bytes s) = length s"
  by (simp add: string_bytes_def)

lemma loaded_cloids:
  assumes "store_ok kv contents" "kv_iter kv d CloidIndex [] = Some rows" "savable_cloids es"
    "contents d CloidIndex = column (\<lambda>e. cloid_key (cle_account e) (cle_cloid e)) (Some \<circ> cloid_value) es"
  shows "set (List.map_filter load_cloid rows) = set es"
  using assms(3)
  by (intro load_column [OF assms(1,2,4), where dk = "\<lambda>k. Some (address_of_bytes (take 20 k), bytes_string (drop 20 k))"
        and ident = "\<lambda>e. (cle_account e, cle_cloid e)"])
    (auto simp: savable_cloids_def load_cloid_def cloid_key_def cloid_value_def length_string_bytes)

text \<open>Orders of both kinds share a column; the market tells them apart.\<close>

definition shift_market :: "order_entry \<Rightarrow> order_entry" where
  "shift_market e = e \<lparr> ode_market := ode_market e + 128 \<rparr>"

lemma loaded_orders:
  assumes "store_ok kv contents" "kv_iter kv d Orders [] = Some rows" "savable_orders cd ps" "savable_orders cd ss"
    "contents d Orders = column (\<lambda>e. order_row_key (ode_market e) (ode_id e)) (cd_enc (cs_order cd) \<circ> ode_order) ps ++
      column spot_order_key (cd_enc (cs_order cd) \<circ> ode_order) ss"
    "\<forall>e \<in> set ps \<union> set ss. cd_enc (cs_order cd) (ode_order e) \<noteq> None"
  shows "set (List.map_filter (load_order cd) rows) = set ps \<union> shift_market ` set ss"
proof -
  let ?xs = "ps @ map shift_market ss"
  let ?key = "\<lambda>e. order_row_key (ode_market e) (ode_id e)" and ?enc = "cd_enc (cs_order cd) \<circ> ode_order"
  have spot: "map (\<lambda>e. (spot_order_key e, the (?enc e))) ss = map (\<lambda>e. (?key (shift_market e), the (?enc (shift_market e)))) ss"
    using assms(4) by (auto simp: savable_orders_def spot_order_key_def shift_market_def)
  have col: "contents d Orders = column ?key ?enc ?xs"
    unfolding assms(5) column_def spot by (simp add: comp_def)
  have "set (List.map_filter (load_order cd) rows) = set ?xs"
  proof (rule load_column [OF assms(1,2) col, where dk = decode_order_key and ident = "\<lambda>e. (ode_market e, ode_id e)"])
    show "\<forall>x \<in> set ?xs. decode_order_key (?key x) = Some (ode_market x, ode_id x)"
      using assms(3,4) by (auto simp: savable_orders_def shift_market_def)
    have "distinct (map ((\<lambda>e. (ode_market e, ode_id e)) \<circ> shift_market) ss)"
      using assms(4) by (auto simp: savable_orders_def shift_market_def distinct_map inj_on_def)
    then show "distinct (map (\<lambda>e. (ode_market e, ode_id e)) ?xs)"
      using assms(3) by (auto simp: savable_orders_def shift_market_def)
    show "\<forall>x \<in> set ?xs. load_order cd (?key x, the (?enc x)) = Some x"
      using assms(3,4,6) by (auto simp: savable_orders_def load_order_def shift_market_def reads_backD)
  qed
  then show ?thesis by simp
qed

lemma split_loaded_orders:
  assumes "set es = set ps \<union> shift_market ` set ss" "savable_orders cd ps" "savable_orders cd ss"
  shows "set (perp_rows es) = set ps \<and> set (spot_rows es) = set ss"
proof
  show "set (perp_rows es) = set ps"
    using assms by (force simp: perp_rows_def savable_orders_def shift_market_def)
  have "{e \<in> set es. \<not> ode_market e < 128} = shift_market ` set ss"
    using assms by (force simp: savable_orders_def shift_market_def)
  then have "set (spot_rows es) = (\<lambda>e. e \<lparr> ode_market := ode_market e - 128 \<rparr>) ` shift_market ` set ss"
    by (simp add: spot_rows_def)
  then show "set (spot_rows es) = set ss" by (simp add: shift_market_def image_image)
qed

text \<open>When reads work, loading is a function of the contents.\<close>

definition rows_of :: "'d kv_store \<Rightarrow> 'd \<Rightarrow> column_family \<Rightarrow> row list" where
  "rows_of kv d c = the (kv_iter kv d c [])"

lemma rows_of_iter: "reads_work kv d \<Longrightarrow> kv_iter kv d c [] = Some (rows_of kv d c)"
  by (simp add: reads_work_def rows_of_def)

lemma scan_works: "reads_work kv d \<Longrightarrow> scan kv d c f = f (rows_of kv d c)"
  by (simp add: scan_def rows_of_iter)

lemma get_works: "store_ok kv contents \<Longrightarrow> reads_work kv d \<Longrightarrow> kv_get kv d c k = Some (contents d c k)"
  by (auto simp: reads_work_def store_ok_def) (metis not_Some_eq)

lemma storage_rows_fit:
  assumes "\<forall>(k, v) \<in> set rows. 32 \<le> length v"
  shows "load_storage rows \<noteq> None"
proof -
  have all: "omap (\<lambda>((a, s), v). if length v < 32 then None
       else Some \<lparr> evs_address = a, evs_slot = s, evs_value = take 32 v \<rparr>) xs \<noteq> None"
    if "\<forall>(x, v) \<in> set xs. 32 \<le> length v" for xs :: "((byte list \<times> byte list) \<times> byte list) list"
    using that by (induction xs) (auto simp: Option.bind_eq_None_conv)
  show ?thesis unfolding load_storage_def by (rule all) (use assms in \<open>auto simp: set_map_filter\<close>)
qed

definition reloaded :: "persisted_state \<Rightarrow> persisted_state \<Rightarrow> bool" where
  "reloaded st st' =
    (ps_height st' = ps_height st \<and> ps_timestamp st' = ps_timestamp st \<and> ps_app_hash st' = ps_app_hash st \<and>
     set (cr_balances (ps_core st')) = set (cr_balances (ps_core st)) \<and>
     set (cr_positions (ps_core st')) = set (the_positions st) \<and> set (cr_leverage (ps_core st')) = set (the_leverage st) \<and>
     set (cr_orders (ps_core st')) = set (the_orders st) \<and> set (sps_orders (ps_spot st')) = set (sps_orders (ps_spot st)) \<and>
     set (chs_nonces (ps_chain st')) = set (chs_nonces (ps_chain st)) \<and>
     set (chs_cloids (ps_chain st')) = set (chs_cloids (ps_chain st)) \<and>
     cr_next_order_id (ps_core st') = cr_next_order_id (ps_core st) \<and>
     cr_insurance_fund (ps_core st') = cr_insurance_fund (ps_core st))"

lemma loaded_columns:
  assumes "store_ok kv contents" "persist_state kv cd st d = Some (Inr d')" "savable cd st" "reads_work kv d'"
  shows "set (List.map_filter (load_balance cd) (rows_of kv d' Balances)) = set (cr_balances (ps_core st))"
    "set (List.map_filter (load_position cd) (rows_of kv d' Positions)) = set (the_positions st)"
    "set (List.map_filter load_leverage (rows_of kv d' Leverage)) = set (the_leverage st)"
    "set (List.map_filter load_nonce (rows_of kv d' Nonces)) = set (chs_nonces (ps_chain st))"
    "set (List.map_filter load_cloid (rows_of kv d' CloidIndex)) = set (chs_cloids (ps_chain st))"
    "set (perp_rows (List.map_filter (load_order cd) (rows_of kv d' Orders))) = set (the_orders st)"
    "set (spot_rows (List.map_filter (load_order cd) (rows_of kv d' Orders))) = set (sps_orders (ps_spot st))"
proof -
  obtain puts where puts: "state_puts cd st = Some puts" and ok: "ps_validate st = Some None"
    and after: "\<forall>c. contents d' c = after_ops c puts (if c \<in> set cleared then Map.empty else contents d c)"
    using assms(1,2) by (rule persist_contents)
  note cols = state_puts_columns [OF puts]
  note wf = assms(3) [unfolded savable_def]
  have iter: "kv_iter kv d' c [] = Some (rows_of kv d' c)" for c using assms(4) by (rule rows_of_iter)
  have col: "contents d' c = after_ops c puts Map.empty" if "c \<in> set cleared" for c using after that by simp
  show "set (List.map_filter (load_balance cd) (rows_of kv d' Balances)) = set (cr_balances (ps_core st))"
    using wf cols(1,12) col [of Balances] by (intro loaded_balances [OF assms(1) iter]) (simp_all add: cleared_def)
  show "set (List.map_filter (load_position cd) (rows_of kv d' Positions)) = set (the_positions st)"
    using wf cols(2,13) col [of Positions] by (intro loaded_positions [OF assms(1) iter]) (simp_all add: cleared_def)
  show "set (List.map_filter load_leverage (rows_of kv d' Leverage)) = set (the_leverage st)"
    using wf cols(3) col [of Leverage] by (intro loaded_leverage [OF assms(1) iter]) (simp_all add: cleared_def)
  show "set (List.map_filter load_nonce (rows_of kv d' Nonces)) = set (chs_nonces (ps_chain st))"
    using wf cols(4) col [of Nonces] by (intro loaded_nonces [OF assms(1) iter]) (simp_all add: cleared_def)
  show "set (List.map_filter load_cloid (rows_of kv d' CloidIndex)) = set (chs_cloids (ps_chain st))"
    using wf cols(5) col [of CloidIndex] by (intro loaded_cloids [OF assms(1) iter]) (simp_all add: cleared_def)
  have "set (List.map_filter (load_order cd) (rows_of kv d' Orders)) = set (the_orders st) \<union> shift_market ` set (sps_orders (ps_spot st))"
    using wf cols(6,14) col [of Orders] by (intro loaded_orders [OF assms(1) iter]) (simp_all add: cleared_def)
  then show "set (perp_rows (List.map_filter (load_order cd) (rows_of kv d' Orders))) = set (the_orders st)"
    "set (spot_rows (List.map_filter (load_order cd) (rows_of kv d' Orders))) = set (sps_orders (ps_spot st))"
    using wf split_loaded_orders by blast+
qed

lemma loaded_metadata:
  assumes "store_ok kv contents" "persist_state kv cd st d = Some (Inr d')" "savable cd st" "reads_work kv d'"
  shows "get_height kv d' = Some (ps_height st)" "get_app_hash kv d' (ps_height st) = Some (Some (ps_app_hash st))"
    "kv_get kv d' Metadata METADATA_TIMESTAMP = Some (Some (u64_le (ps_timestamp st)))"
    "kv_get kv d' Metadata METADATA_NEXT_ORDER_ID = Some (Some (u64_le (cr_next_order_id (ps_core st))))"
    "kv_get kv d' Metadata METADATA_INSURANCE_FUND = Some (Some (string_bytes (cr_insurance_fund (ps_core st))))"
    "ps_validate st = Some None"
proof -
  obtain puts where puts: "state_puts cd st = Some puts" and ok: "ps_validate st = Some None"
    and after: "\<forall>c. contents d' c = after_ops c puts (if c \<in> set cleared then Map.empty else contents d c)"
    using assms(1,2) by (rule persist_contents)
  note cols = state_puts_columns(7,8,9,10,11) [OF puts]
  show "get_height kv d' = Some (ps_height st)" "get_app_hash kv d' (ps_height st) = Some (Some (ps_app_hash st))"
    "kv_get kv d' Metadata METADATA_TIMESTAMP = Some (Some (u64_le (ps_timestamp st)))"
    "kv_get kv d' Metadata METADATA_NEXT_ORDER_ID = Some (Some (u64_le (cr_next_order_id (ps_core st))))"
    "kv_get kv d' Metadata METADATA_INSURANCE_FUND = Some (Some (string_bytes (cr_insurance_fund (ps_core st))))"
    using cols after assms(3) by (simp_all add: get_height_def get_app_hash_def get_works [OF assms(1,4)] savable_def)
  show "ps_validate st = Some None" by (rule ok)
qed

lemma from_utf8_ascii: "list_all (\<lambda>c. of_char c < (128::nat)) s \<Longrightarrow> from_utf8 (string_bytes s) = Some s"
proof -
  assume "list_all (\<lambda>c. of_char c < (128::nat)) s"
  then have "list_all (\<lambda>b. unat b < 128) (string_bytes s)" by (induction s) (simp_all add: string_bytes_def unat_of_nat)
  then show ?thesis by (simp add: from_utf8_def)
qed

lemma read_u64_le: "n < 2 ^ 64 \<Longrightarrow> read_u64 (Some (u64_le n)) z = n"
  by (simp add: read_u64_def)

lemma saved_state_reloads:
  assumes "store_ok kv contents" "persist_state kv cd st d = Some (Inr d')" "savable cd st" "reads_work kv d'"
    "\<forall>k v. contents d' EvmStorage k = Some v \<longrightarrow> 32 \<le> length v"
  shows "\<exists>st'. load_state kv cd d' = Some (Inr (Some st')) \<and> reloaded st st'"
proof -
  note columns = loaded_columns [OF assms(1-4)] and meta = loaded_metadata [OF assms(1-4)] and wf = assms(3) [unfolded savable_def]
  have storage: "load_storage (rows_of kv d' EvmStorage) \<noteq> None"
  proof (rule storage_rows_fit)
    have "distinct (map fst (rows_of kv d' EvmStorage)) \<and> map_of (rows_of kv d' EvmStorage) = contents d' EvmStorage"
      using assms(1) rows_of_iter [OF assms(4)] by (auto simp: store_ok_def)
    then show "\<forall>(k, v) \<in> set (rows_of kv d' EvmStorage). 32 \<le> length v" using assms(5) by (metis (mono_tags, lifting) case_prodI2 map_of_is_SomeI)
  qed
  then obtain evs where evs: "load_storage (rows_of kv d' EvmStorage) = Some evs" by blast
  have valid: "first_invalid (List.map_filter (load_balance cd) (rows_of kv d' Balances)) = Some None"
    using meta(6) by (simp add: ps_validate_def first_invalid_iff columns(1) split: if_splits)
  show ?thesis
    using wf columns meta valid evs
    by (simp add: load_state_def load_core_def load_spot_def load_evm_def load_chain_def scan_works [OF assms(4)] reloaded_def
        ps_validate_def persisted_new_def core_default_def read_u64_le from_utf8_ascii spot_persist_default_def Let_def)
qed


text \<open>
  A save that succeeds in the memory database, on top of stale rows: the cancelled order
  and the old nonce are gone.
\<close>

definition one_codec :: "'a \<Rightarrow> 'a codec" where
  "one_codec x = \<lparr> cd_enc = (\<lambda>_. Some [1]), cd_dec = (\<lambda>_. Some x) \<rparr>"

definition saved_balance :: balance_data where
  "saved_balance = \<lparr> bd_total = ''5'', bd_core = ''3'', bd_evm = ''2'', bd_decimals = 6 \<rparr>"

definition sample_codecs :: codecs where
  "sample_codecs = \<lparr> cs_balance = one_codec saved_balance, cs_account = one_codec undefined, cs_position = one_codec position_new,
     cs_market = one_codec undefined, cs_order = one_codec undefined, cs_token = one_codec undefined,
     cs_spot_market = one_codec undefined, cs_evm_account = one_codec undefined, cs_block = one_codec undefined \<rparr>"

definition saved_sample :: persisted_state where
  "saved_sample = persisted_new \<lparr> ps_height := 3, ps_timestamp := 30,
     ps_core := core_default \<lparr> cr_balances := [\<lparr> be_account = 7, be_token = 0, be_balance = saved_balance \<rparr>],
       cr_insurance_fund := ''12'', cr_next_order_id := 9 \<rparr>,
     ps_chain := chain_persist_default \<lparr> chs_nonces := [\<lparr> ne_account = 7, ne_nonce = 4 \<rparr>] \<rparr> \<rparr>"

definition stale_rows :: "column_family \<Rightarrow> row list" where
  "stale_rows c = (if c = Nonces then [(nonce_key 8, u64_le 1)] else [])"

lemma saved_balance_valid: "bd_is_valid saved_balance = Some True"
  by (simp add: bd_is_valid_def saved_balance_def from_str_exact_def str_trim_def trim_end_by_def is_ws_def parse_i128_def
      parse_digits_def is_digit_def digits_val_def digit_val_def i128_checked_defs i128_defs pow10_def wrap_i128_def Let_def
      replicate_unroll dec_add_def checked_add_def)

lemma saved_sample_saves:
  "\<exists>d. persist_state rows_store sample_codecs saved_sample stale_rows = Some (Inr d) \<and>
     d EvmStorage = [] \<and> d Markets = [] \<and> d SpotTokens = [] \<and> d SpotMarkets = []"
  "savable sample_codecs saved_sample"
proof -
  let ?quiet = "{EvmStorage, Markets, SpotTokens, SpotMarkets}"
  have valid: "ps_validate saved_sample = Some None"
    by (simp add: ps_validate_def saved_sample_def persisted_new_def saved_balance_valid)
  have "\<exists>puts. state_puts sample_codecs saved_sample = Some puts \<and> (\<forall>op \<in> set puts. op_cf op \<notin> ?quiet)"
    by (simp add: state_puts_def saved_sample_def persisted_new_def core_default_def spot_persist_default_def evm_data_default_def
        perp_persist_default_def chain_persist_default_def put_rows_def prefer_first_def sample_codecs_def one_codec_def metadata_ops_def)
  then obtain puts where puts: "state_puts sample_codecs saved_sample = Some puts" "\<forall>op \<in> set puts. op_cf op \<notin> ?quiet" by blast
  obtain dels where "clear_ops rows_store stale_rows = Some dels" by (simp add: clear_ops_def cleared_def rows_store_def)
  then have "\<exists>d. persist_state rows_store sample_codecs saved_sample stale_rows = Some (Inr d)"
    using valid puts(1) by (simp add: persist_state_def commit_batch_def rows_store_def)
  then obtain d where d: "persist_state rows_store sample_codecs saved_sample stale_rows = Some (Inr d)" by blast
  obtain puts' where "state_puts sample_codecs saved_sample = Some puts'"
    "\<forall>c. map_of (d c) = after_ops c puts' (if c \<in> set cleared then Map.empty else map_of (stale_rows c))"
    using persist_contents [OF rows_store_ok d] by metis
  then have "map_of (d c) = Map.empty" if "c \<in> ?quiet" for c
    using puts that after_ops_other [of puts c] by (auto simp: cleared_def stale_rows_def)
  then have "d c = []" if "c \<in> ?quiet" for c using that by (metis map_of_eq_empty_iff)
  then show "\<exists>d. persist_state rows_store sample_codecs saved_sample stale_rows = Some (Inr d) \<and>
     d EvmStorage = [] \<and> d Markets = [] \<and> d SpotTokens = [] \<and> d SpotMarkets = []" using d by blast
  show "savable sample_codecs saved_sample"
    by (simp add: savable_def saved_sample_def persisted_new_def core_default_def savable_balances_def savable_positions_def
        savable_leverage_def savable_orders_def savable_nonces_def savable_cloids_def the_positions_def the_leverage_def the_orders_def
        prefer_first_def perp_persist_default_def spot_persist_default_def chain_persist_default_def sample_codecs_def one_codec_def
        reads_back_def)
qed


text \<open>What is not loaded: reservations, counters of the spot engine, accounts, and the fields of the perpetuals engine.\<close>

lemma validated_eq: "(case v of None \<Rightarrow> None | Some None \<Rightarrow> Some (Inr (Some s)) | Some (Some e) \<Rightarrow> Some (Inl (InvalidState e))) =
    Some (Inr (Some st)) \<longleftrightarrow> v = Some None \<and> s = st"
  by (auto split: option.splits)

lemma load_parts:
  "load_core kv cd d = Some (Inr (core, es)) \<Longrightarrow> cr_accounts core = []"
  "load_spot kv cd d es = Some (Inr spot) \<Longrightarrow> sps_reserved spot = [] \<and> sps_next_token_index spot = 0 \<and>
     sps_next_market_id spot = 0 \<and> sps_next_order_id spot = 0 \<and> sps_orders spot = es"
  "load_evm kv cd d = Some (Inr evm) \<Longrightarrow> evd_block_hashes evm = []"
  subgoal by (auto simp: load_core_def scan_def pbind_db_eq_Inr Let_def core_default_def)
  subgoal by (auto simp: load_spot_def scan_def pbind_db_eq_Inr spot_persist_default_def)
  subgoal by (auto simp: load_evm_def scan_def pbind_db_eq_Inr evm_data_default_def split: option.splits)
  done

theorem reload_loses:
  assumes "load_state kv cd d = Some (Inr (Some st))"
  shows "sps_reserved (ps_spot st) = [] \<and> sps_next_token_index (ps_spot st) = 0 \<and> sps_next_market_id (ps_spot st) = 0 \<and>
    sps_next_order_id (ps_spot st) = 0 \<and> cr_accounts (ps_core st) = [] \<and> evd_block_hashes (ps_evm st) = [] \<and>
    ps_perp st = perp_persist_default"
proof -
  obtain h ts ah core es spot evm chain where parts: "load_core kv cd d = Some (Inr (core, es))" "load_spot kv cd d es = Some (Inr spot)" "load_evm kv cd d = Some (Inr evm)"
    "st = persisted_new \<lparr> ps_height := h, ps_timestamp := ts, ps_app_hash := ah, ps_core := core, ps_spot := spot, ps_evm := evm,
       ps_chain := chain \<rparr>"
    using assms by (auto simp: load_state_def pbind_db_eq_Inr pbind_eq_Inr Let_def validated_eq split: if_splits)
  then show ?thesis using load_parts(1) [OF parts(1)] load_parts(2) [OF parts(2)] load_parts(3) [OF parts(3)] by (simp add: parts(4) persisted_new_def)
qed

lemma load_parts_empty:
  "load_core kv cd d = Some (Inr (core, es)) \<Longrightarrow> kv_iter kv d Markets [] = Some [] \<Longrightarrow> cr_markets core = []"
  "load_spot kv cd d es = Some (Inr spot) \<Longrightarrow> kv_iter kv d SpotTokens [] = Some [] \<Longrightarrow> sps_tokens spot = []"
  "load_spot kv cd d es = Some (Inr spot) \<Longrightarrow> kv_iter kv d SpotMarkets [] = Some [] \<Longrightarrow> sps_markets spot = []"
  subgoal by (auto simp: load_core_def scan_def pbind_db_eq_Inr Let_def core_default_def List.map_filter_def)
  subgoal by (auto simp: load_spot_def scan_def pbind_db_eq_Inr spot_persist_default_def List.map_filter_def)
  subgoal by (auto simp: load_spot_def scan_def pbind_db_eq_Inr spot_persist_default_def List.map_filter_def)
  done

lemma load_empty:
  assumes "load_state kv cd d = Some (Inr (Some st))"
  shows "kv_iter kv d Markets [] = Some [] \<Longrightarrow> cr_markets (ps_core st) = []"
    "kv_iter kv d SpotTokens [] = Some [] \<Longrightarrow> sps_tokens (ps_spot st) = []"
    "kv_iter kv d SpotMarkets [] = Some [] \<Longrightarrow> sps_markets (ps_spot st) = []"
proof -
  obtain es where core: "load_core kv cd d = Some (Inr (ps_core st, es))" and spot: "load_spot kv cd d es = Some (Inr (ps_spot st))"
    using assms by (auto simp: load_state_def pbind_db_eq_Inr pbind_eq_Inr Let_def validated_eq persisted_new_def split: if_splits)
  show "kv_iter kv d Markets [] = Some [] \<Longrightarrow> cr_markets (ps_core st) = []" by (rule load_parts_empty(1) [OF core])
  show "kv_iter kv d SpotTokens [] = Some [] \<Longrightarrow> sps_tokens (ps_spot st) = []" by (rule load_parts_empty(2) [OF spot])
  show "kv_iter kv d SpotMarkets [] = Some [] \<Longrightarrow> sps_markets (ps_spot st) = []" by (rule load_parts_empty(3) [OF spot])
qed

end
