(* ===== verification/Persist_Integration.thy ===== *)
theory Persist_Integration
  imports Persister
begin

text \<open>
  Extraction of the persisted state from the running components and restoration into
  them, from \<open>crates/chain/src/persistence_integration.rs\<close>.  Printing and parsing a
  decimal may panic; a panic is \<open>None\<close>.
\<close>

section \<open>Extraction\<close>

definition balance_entry_of :: "(address \<times> nat) \<times> unified_balance \<Rightarrow> balance_entry option" where
  "balance_entry_of = (\<lambda>((a, t), b). do {
     total_s \<leftarrow> to_string_trimmed (ub_total b);
     core_s \<leftarrow> to_string_trimmed (ub_core b);
     evm_s \<leftarrow> to_string_trimmed (ub_evm b);
     Some \<lparr> be_account = a, be_token = t,
       be_balance = \<lparr> bd_total = total_s, bd_core = core_s, bd_evm = evm_s, bd_decimals = d_dec (ub_total b) \<rparr> \<rparr> })"

definition market_entry_of :: "market \<Rightarrow> market_entry option" where
  "market_entry_of mk = (let c = m_config mk; s = m_state mk in do {
     tick \<leftarrow> to_string_trimmed (mc_tick_size c);
     lot \<leftarrow> to_string_trimmed (mc_lot_size c);
     maker \<leftarrow> to_string_trimmed (mc_maker_fee_rate c);
     taker \<leftarrow> to_string_trimmed (mc_taker_fee_rate c);
     mark \<leftarrow> to_string_trimmed (ms_mark_price s);
     index \<leftarrow> to_string_trimmed (ms_index_price s);
     rate \<leftarrow> to_string_trimmed (ms_funding_rate s);
     acc \<leftarrow> to_string_trimmed (ms_funding_accumulator s);
     oi_long \<leftarrow> to_string_trimmed (ms_oi_long s);
     oi_short \<leftarrow> to_string_trimmed (ms_oi_short s);
     Some \<lparr> mke_id = mc_id c, mke_symbol = mc_symbol c, mke_max_leverage = mc_max_leverage c, mke_tick_size = tick,
       mke_lot_size = lot, mke_maker_fee = maker, mke_taker_fee = taker, mke_mark_price = mark, mke_index_price = index,
       mke_funding_rate = rate, mke_accumulator = acc, mke_oi_long = oi_long, mke_oi_short = oi_short,
       mke_next_funding = ms_next_funding_time s \<rparr> })"

definition position_entries :: "engine_state \<Rightarrow> position_entry list" where
  "position_entries s = map (\<lambda>(a, m, p). \<lparr> pe_account = a, pe_market = m, pe_position = p \<rparr>) (flatten (es_positions s))"

definition leverage_entries :: "engine_state \<Rightarrow> leverage_entry list" where
  "leverage_entries s = map (\<lambda>(a, m, l). \<lparr> lv_account = a, lv_market = m, lv_leverage = l \<rparr>) (flatten (es_leverage s))"

text \<open>Orders come from the books, in the order of the markets.\<close>

definition order_entries :: "engine_state \<Rightarrow> order_entry list" where
  "order_entries s = concat (map (\<lambda>mk. let m = mc_id (m_config mk) in case get_orderbook s m of
       Some b \<Rightarrow> map (\<lambda>ord. \<lparr> ode_market = m, ode_id = o_id ord, ode_order = ord \<rparr>) (get_all_orders b)
     | None \<Rightarrow> []) (hm_values (es_markets s)))"

definition insurance_string :: "engine_state \<Rightarrow> string option" where
  "insurance_string s = to_string_trimmed (Decimal (es_insurance_fund s) USDC_DECIMALS)"

definition extract_perp :: "engine \<Rightarrow> persisted_state \<Rightarrow> persisted_state option" where
  "extract_perp en st = (let s = en_state en in do {
     markets \<leftarrow> omap market_entry_of (hm_values (es_markets s));
     fund \<leftarrow> insurance_string s;
     Some (st \<lparr> ps_perp := \<lparr> pps_positions = position_entries s, pps_leverage = leverage_entries s, pps_markets = markets,
                 pps_orders = order_entries s, pps_next_order_id = es_next_order_id s, pps_insurance_fund = fund \<rparr>,
               ps_core := (ps_core st) \<lparr> cr_next_order_id := es_next_order_id s, cr_insurance_fund := fund \<rparr> \<rparr>) })"

definition extract_shared :: "engine_state \<Rightarrow> persisted_state \<Rightarrow> persisted_state option" where
  "extract_shared s st = do {
     markets \<leftarrow> omap market_entry_of (hm_values (es_markets s));
     fund \<leftarrow> insurance_string s;
     Some (st \<lparr> ps_core := (ps_core st) \<lparr> cr_positions := position_entries s, cr_leverage := leverage_entries s, cr_markets := markets,
                 cr_orders := order_entries s, cr_next_order_id := es_next_order_id s, cr_insurance_fund := fund \<rparr> \<rparr>) }"

definition token_entry_of :: "spot_token \<Rightarrow> spot_token_entry option" where
  "token_entry_of t = map_option (\<lambda>supply_s. \<lparr> ste_index = st_index t, ste_symbol = st_symbol t, ste_name = st_name t,
     ste_wei_decimals = st_wei_decimals t, ste_sz_decimals = st_sz_decimals t, ste_max_supply = supply_s, ste_deployer = st_deployer t \<rparr>)
     (to_string_trimmed (st_max_supply t))"

definition spot_market_entry_of :: "spot_market \<Rightarrow> spot_market_entry option" where
  "spot_market_entry_of mk = (let c = sm_config mk in do {
     tick \<leftarrow> to_string_trimmed (sc_tick_size c);
     lot \<leftarrow> to_string_trimmed (sc_lot_size c);
     maker \<leftarrow> to_string_trimmed (sc_maker_fee_rate c);
     taker \<leftarrow> to_string_trimmed (sc_taker_fee_rate c);
     Some \<lparr> sme_id = sc_id c, sme_symbol = sc_symbol c, sme_base = sc_base_token c, sme_quote = sc_quote_token c,
       sme_tick_size = tick, sme_lot_size = lot, sme_maker_fee = maker, sme_taker_fee = taker \<rparr> })"

definition reserved_entry_of :: "(address \<times> nat) \<times> decimal \<Rightarrow> reserved_entry option" where
  "reserved_entry_of = (\<lambda>((a, t), d). map_option (\<lambda>s. \<lparr> rse_account = a, rse_token = t, rse_amount = s \<rparr>) (to_string_trimmed d))"

definition spot_order_entries :: "spot_state \<Rightarrow> order_entry list" where
  "spot_order_entries s = concat (map (\<lambda>mk. let m = sc_id (sm_config mk) in
     map (\<lambda>ord. \<lparr> ode_market = m, ode_id = o_id ord, ode_order = ord \<rparr>)
       (case hm_get (sp_orders s) m of Some mo \<Rightarrow> hm_values mo | None \<Rightarrow> [])) (hm_values (sp_markets s)))"

definition extract_spot :: "spot_state \<Rightarrow> persisted_state \<Rightarrow> persisted_state option" where
  "extract_spot s st = do {
     tokens \<leftarrow> omap token_entry_of (hm_values (sp_tokens s));
     markets \<leftarrow> omap spot_market_entry_of (hm_values (sp_markets s));
     reserved \<leftarrow> omap reserved_entry_of (sp_reserved s);
     Some (st \<lparr> ps_spot := \<lparr> sps_tokens = tokens, sps_markets = markets, sps_reserved = reserved, sps_orders = spot_order_entries s,
       sps_next_token_index = sp_next_token_index s, sps_next_market_id = sp_next_market_id s,
       sps_next_order_id = sp_next_order_id s \<rparr> \<rparr>) }"

text \<open>The metadata of the last hundred blocks, newest first; the hash serves as the application hash, too.\<close>

definition block_entries :: "(nat, block_meta) hash_map \<Rightarrow> block_meta_entry list" where
  "block_entries ms = map (\<lambda>(_, b). \<lparr> bme_height = bm_height b, bme_timestamp = bm_timestamp b, bme_hash = bm_hash b,
     bme_app_hash = bm_hash b, bme_tx_count = bm_tx_count b \<rparr>) (take 100 (rev (sort_key fst ms)))"

definition extract_state ::
  "nat \<Rightarrow> timestamp \<Rightarrow> digest \<Rightarrow> unified_state \<Rightarrow> engine_state \<Rightarrow> engine option \<Rightarrow> spot_state option \<Rightarrow>
   (address, nat) hash_map \<Rightarrow> (address \<times> string, market_id \<times> order_id) hash_map \<Rightarrow> (nat, block_meta) hash_map \<Rightarrow>
   persisted_state option" where
  "extract_state h ts app_hash us es perp spot nonces cloids metas = do {
     balances \<leftarrow> omap balance_entry_of us;
     let st0 = persisted_new \<lparr> ps_height := h, ps_timestamp := ts, ps_app_hash := app_hash,
                 ps_core := core_default \<lparr> cr_balances := balances \<rparr> \<rparr>;
     st1 \<leftarrow> (case perp of Some en \<Rightarrow> extract_perp en st0 | None \<Rightarrow> extract_shared es st0);
     st2 \<leftarrow> (case spot of Some s \<Rightarrow> extract_spot s st1 | None \<Rightarrow> Some st1);
     Some (st2 \<lparr> ps_chain :=
       \<lparr> chs_nonces = map (\<lambda>(a, n). \<lparr> ne_account = a, ne_nonce = n \<rparr>) nonces, chs_blocks = block_entries metas,
         chs_cloids = map (\<lambda>((a, c), (m, i)). \<lparr> cle_account = a, cle_cloid = c, cle_market = m, cle_order_id = i \<rparr>) cloids \<rparr> \<rparr>) }"

section \<open>Restoration\<close>

datatype restore_error =
    RestoreVersionMismatch nat nat
  | ValidationFailed invalid_state
  | MissingData string
  | InvalidFormat string

definition parse_or_zero :: "string \<Rightarrow> nat \<Rightarrow> decimal" where
  "parse_or_zero s d = (case from_str_exact s d of Some x \<Rightarrow> x | None \<Rightarrow> Decimal 0 d)"

definition restore_balance :: "balance_entry \<Rightarrow> unified_state \<Rightarrow> unified_state" where
  "restore_balance e us =
    (let b = be_balance e; d = (if 0 < bd_decimals b then bd_decimals b else if be_token e = 0 then 6 else 18)
     in set_balance (be_account e) (be_token e)
          \<lparr> ub_total = parse_or_zero (bd_total b) d, ub_core = parse_or_zero (bd_core b) d, ub_evm = parse_or_zero (bd_evm b) d \<rparr> us)"

text \<open>An assignment from an entry; the empty string stands for an absent value.\<close>

definition restore_field :: "string \<Rightarrow> (string \<Rightarrow> decimal option) \<Rightarrow> (decimal \<Rightarrow> market \<Rightarrow> market) \<Rightarrow> market \<Rightarrow> market option" where
  "restore_field s parse f mk = (if s = [] then Some mk else map_option (\<lambda>d. f d mk) (parse s))"

definition put_state :: "(market_state \<Rightarrow> market_state) \<Rightarrow> market \<Rightarrow> market" where
  "put_state f mk = mk \<lparr> m_state := f (m_state mk) \<rparr>"

definition rate_or :: "string \<Rightarrow> string \<Rightarrow> decimal option" where
  "rate_or other s = dec_rate (if s = [] then other else s)"

text \<open>Open interest, funding and prices are read as numbers of 8 decimals.\<close>

definition restore_market_state :: "market_entry \<Rightarrow> market \<Rightarrow> market option" where
  "restore_market_state e mk = do {
     m1 \<leftarrow> restore_field (mke_index_price e) dec_price (\<lambda>d. put_state (\<lambda>s. s \<lparr> ms_index_price := d \<rparr>)) mk;
     m2 \<leftarrow> restore_field (mke_funding_rate e) dec_price (\<lambda>d. put_state (\<lambda>s. s \<lparr> ms_funding_rate := d \<rparr>)) m1;
     m3 \<leftarrow> restore_field (mke_accumulator e) dec_price (\<lambda>d. put_state (\<lambda>s. s \<lparr> ms_funding_accumulator := d \<rparr>)) m2;
     m4 \<leftarrow> restore_field (mke_oi_long e) dec_size (\<lambda>d. put_state (\<lambda>s. s \<lparr> ms_oi_long := d \<rparr>)) m3;
     restore_field (mke_oi_short e) dec_size (\<lambda>d. put_state (\<lambda>s. s \<lparr> ms_oi_short := d \<rparr>)) m4 }"

definition build_market_from_entry :: "market_entry \<Rightarrow> market option" where
  "build_market_from_entry e = do {
     tick \<leftarrow> dec_price (mke_tick_size e);
     lot \<leftarrow> dec_size (mke_lot_size e);
     maker \<leftarrow> rate_or ''0.0002'' (mke_maker_fee e);
     taker \<leftarrow> rate_or ''0.0005'' (mke_taker_fee e);
     let config = (market_config_new (mke_id e) (mke_symbol e) (mke_max_leverage e))
       \<lparr> mc_tick_size := tick, mc_lot_size := lot, mc_maker_fee_rate := maker, mc_taker_fee_rate := taker \<rparr>;
     mark \<leftarrow> dec_price (if mke_mark_price e = [] then ''0'' else mke_mark_price e);
     restore_market_state e (market_new config mark (mke_next_funding e)) }"

definition restore_scalars :: "order_id \<Rightarrow> string \<Rightarrow> engine_state \<Rightarrow> engine_state" where
  "restore_scalars next_id fund s = s \<lparr> es_next_order_id := next_id,
     es_insurance_fund := (case from_str_exact fund 6 of Some d \<Rightarrow> d_val d | None \<Rightarrow> es_insurance_fund s) \<rparr>"

definition restore_entries ::
  "position_entry list \<Rightarrow> leverage_entry list \<Rightarrow> order_entry list \<Rightarrow> order_id \<Rightarrow> string \<Rightarrow> engine_state \<Rightarrow> engine_state" where
  "restore_entries positions leverage orders next_id fund s =
     restore_scalars next_id fund
       (fold (\<lambda>e. es_restore_order (ode_order e)) orders
         (fold (\<lambda>e. set_leverage (lv_account e) (lv_market e) (lv_leverage e)) leverage
           (fold (\<lambda>e. set_position (pe_account e) (pe_market e) (pe_position e)) positions s)))"

definition add_entry_market :: "market_entry \<Rightarrow> engine_state \<Rightarrow> engine_state option" where
  "add_entry_market e s = map_option (\<lambda>mk. es_add_market mk s) (build_market_from_entry e)"

definition restore_engine_state ::
  "market_entry list \<Rightarrow> position_entry list \<Rightarrow> leverage_entry list \<Rightarrow> order_entry list \<Rightarrow> order_id \<Rightarrow> string \<Rightarrow>
   engine_state \<Rightarrow> engine_state option" where
  "restore_engine_state markets positions leverage orders next_id fund s =
     map_option (restore_entries positions leverage orders next_id fund) (ofold add_entry_market markets s)"

definition restore_spot_token :: "hash_fn \<Rightarrow> spot_token_entry \<Rightarrow> spot_state \<Rightarrow> spot_state option" where
  "restore_spot_token keccak e s =
     map_option (\<lambda>t. sp_restore_token t s)
       (spot_token_new keccak (ste_index e) (ste_name e) (ste_symbol e) (ste_wei_decimals e) (ste_sz_decimals e)
         (parse_or_zero (ste_max_supply e) (ste_wei_decimals e)) (ste_deployer e))"

definition restore_spot_market :: "spot_market_entry \<Rightarrow> spot_state \<Rightarrow> spot_state option" where
  "restore_spot_market e s = do {
     tick \<leftarrow> dec_price (sme_tick_size e);
     lot \<leftarrow> dec_size (sme_lot_size e);
     maker \<leftarrow> rate_or ''-0.0002'' (sme_maker_fee e);
     taker \<leftarrow> rate_or ''0.0005'' (sme_taker_fee e);
     Some (sp_restore_market \<lparr> sc_id = wrap_u8 (sme_id e), sc_symbol = sme_symbol e, sc_base_token = sme_base e,
       sc_quote_token = sme_quote e, sc_tick_size = tick, sc_lot_size = lot, sc_min_order_size = lot,
       sc_max_order_size = Decimal 1000000000 6, sc_maker_fee_rate = maker, sc_taker_fee_rate = taker, sc_is_active = True \<rparr> s) }"

definition restore_reserved :: "reserved_entry \<Rightarrow> spot_state \<Rightarrow> spot_state" where
  "restore_reserved e = set_reserved (rse_account e) (rse_token e) (parse_or_zero (rse_amount e) (if rse_token e = 0 then 6 else 18))"

definition restore_spot :: "hash_fn \<Rightarrow> spot_persist \<Rightarrow> spot_state \<Rightarrow> spot_state option" where
  "restore_spot keccak p s = do {
     s1 \<leftarrow> ofold (restore_spot_token keccak) (sps_tokens p) s;
     s2 \<leftarrow> ofold restore_spot_market (sps_markets p) s1;
     let s3 = fold restore_reserved (sps_reserved p) s2;
     let s4 = fold (\<lambda>e. sp_restore_order (ode_market e) (ode_order e)) (sps_orders p) s3;
     Some (s4 \<lparr> sp_next_token_index := sps_next_token_index p, sp_next_market_id := wrap_u8 (sps_next_market_id p),
       sp_next_order_id := sps_next_order_id p \<rparr>) }"

text \<open>The shared engine gets the markets twice, the second time with everything else.\<close>

definition restore_state ::
  "hash_fn \<Rightarrow> persisted_state \<Rightarrow> unified_state \<times> engine_state \<times> spot_state option \<Rightarrow>
   ((restore_error + (nat \<times> timestamp \<times> digest)) \<times> unified_state \<times> engine_state \<times> spot_state option) option" where
  "restore_state keccak st = (\<lambda>(us, es, spot).
    (if ps_schema st \<noteq> SCHEMA_VERSION then Some (Inl (RestoreVersionMismatch SCHEMA_VERSION (ps_schema st)), us, es, spot)
     else case ps_validate st of
       None \<Rightarrow> None
     | Some (Some e) \<Rightarrow> Some (Inl (ValidationFailed e), us, es, spot)
     | Some None \<Rightarrow> (let core = ps_core st; us1 = fold restore_balance (cr_balances core) us in do {
         es1 \<leftarrow> ofold add_entry_market (cr_markets core) es;
         es2 \<leftarrow> restore_engine_state (cr_markets core) (cr_positions core) (cr_leverage core) (cr_orders core)
                 (cr_next_order_id core) (cr_insurance_fund core) es1;
         spot1 \<leftarrow> (case spot of Some s \<Rightarrow> map_option Some (restore_spot keccak (ps_spot st) s) | None \<Rightarrow> Some None);
         Some (Inr (ps_height st, ps_timestamp st, ps_app_hash st), us1, es2, spot1) })))"

definition restore_nonce_map :: "persisted_state \<Rightarrow> (address, nat) hash_map \<Rightarrow> (address, nat) hash_map" where
  "restore_nonce_map st m = fold (\<lambda>e. hm_insert (ne_account e) (ne_nonce e)) (chs_nonces (ps_chain st)) m"

definition restore_cloid_map ::
  "persisted_state \<Rightarrow> (address \<times> string, market_id \<times> order_id) hash_map \<Rightarrow> (address \<times> string, market_id \<times> order_id) hash_map" where
  "restore_cloid_map st m =
     fold (\<lambda>e. hm_insert (cle_account e, cle_cloid e) (cle_market e, cle_order_id e)) (chs_cloids (ps_chain st)) m"

definition restore_hash_map :: "persisted_state \<Rightarrow> (nat, digest) hash_map \<Rightarrow> (nat, digest) hash_map" where
  "restore_hash_map st m = fold (\<lambda>e. hm_insert (bme_height e) (bme_app_hash e)) (chs_blocks (ps_chain st)) m"

definition restore_perp_market :: "market_entry \<Rightarrow> engine_state \<Rightarrow> engine_state option" where
  "restore_perp_market e s = (case get_market s (mke_id e) of
       None \<Rightarrow> Some s
     | Some mk \<Rightarrow> do {
         m1 \<leftarrow> restore_field (mke_mark_price e) dec_price (\<lambda>d. put_state (\<lambda>s. s \<lparr> ms_mark_price := d \<rparr>)) mk;
         m2 \<leftarrow> restore_market_state e m1;
         let m3 = (if 0 < mke_next_funding e then put_state (\<lambda>s. s \<lparr> ms_next_funding_time := mke_next_funding e \<rparr>) m2 else m2);
         m4 \<leftarrow> restore_field (mke_maker_fee e) dec_rate (\<lambda>d m. m \<lparr> m_config := (m_config m) \<lparr> mc_maker_fee_rate := d \<rparr> \<rparr>) m3;
         m5 \<leftarrow> restore_field (mke_taker_fee e) dec_rate (\<lambda>d m. m \<lparr> m_config := (m_config m) \<lparr> mc_taker_fee_rate := d \<rparr> \<rparr>) m4;
         Some (es_set_market (mke_id e) m5 s)
       })"

definition restore_perp_engine_state :: "persisted_state \<Rightarrow> engine \<Rightarrow> engine option" where
  "restore_perp_engine_state st en =
    (let perp = ps_perp st; core = ps_core st in do {
       s1 \<leftarrow> ofold restore_perp_market (prefer_first (pps_markets perp) (cr_markets core)) (en_state en);
       Some (en \<lparr> en_state := restore_entries (the_positions st) (the_leverage st) (the_orders st)
         (if 0 < pps_next_order_id perp then pps_next_order_id perp else cr_next_order_id core)
         (if pps_insurance_fund perp \<noteq> [] then pps_insurance_fund perp else cr_insurance_fund core) s1 \<rparr>) })"

text \<open>
  The restart of a node in CometBFT mode (\<open>node/src/main.rs\<close>): the loaded state goes
  into the ledger, the engines and the chain state of a new application.
\<close>

definition restart_app :: "hash_fn \<Rightarrow> persisted_state \<Rightarrow> unified_state \<Rightarrow> engine_state \<Rightarrow> engine \<Rightarrow> spot_state \<Rightarrow> app_state option" where
  "restart_app keccak st us es en sp = do {
     (r, us1, es1, spot1) \<leftarrow> restore_state keccak st (us, es, Some sp);
     case r of
       Inl _ \<Rightarrow> Some ((app_state_of us1 (Some en) es1 spot1))
     | Inr (h, ts, app_hash) \<Rightarrow> do {
         en1 \<leftarrow> restore_perp_engine_state st en;
         Some (restore_block_hashes (restore_hash_map st []) (restore_cloid_mappings (restore_cloid_map st [])
           (restore_nonces (restore_nonce_map st []) (restore_chain_state h ts app_hash (app_state_of us1 (Some en1) es1 spot1)))))
       } }"

section \<open>What a restart keeps\<close>

text \<open>Maps filled from entries.\<close>

lemma hm_get_fold_put:
  "hm_get (fold (\<lambda>e. hm_insert (key e) (val e)) xs m) k =
     (case find (\<lambda>e. key e = k) (rev xs) of Some e \<Rightarrow> Some (val e) | None \<Rightarrow> hm_get m k)"
  by (induction xs rule: rev_induct) auto

lemma hm_get_fold_set:
  assumes "set xs = f ` set m" "hm_inv m" "\<forall>p \<in> set m. key (f p) = fst p \<and> val (f p) = snd p"
  shows "hm_get (fold (\<lambda>e. hm_insert (key e) (val e)) xs []) = hm_get m"
proof
  fix k
  have row: "hm_get m (key x) = Some (val x)" if "x \<in> set xs" for x
  proof -
    obtain p where p: "p \<in> set m" "x = f p" using \<open>x \<in> set xs\<close> assms(1) by blast
    have "hm_get m (fst p) = Some (snd p)" by (rule hm_in_set_get [OF assms(2)]) (simp add: p(1))
    then show ?thesis using bspec [OF assms(3) p(1)] p(2) by simp
  qed
  show "hm_get (fold (\<lambda>e. hm_insert (key e) (val e)) xs []) k = hm_get m k"
  proof (cases "find (\<lambda>e. key e = k) (rev xs)")
    case None
    then have "\<forall>x \<in> set xs. key x \<noteq> k" by (simp add: find_None_iff)
    then have "\<forall>p \<in> set m. fst p \<noteq> k" using assms(1,3) by auto
    then have "hm_get m k = None" by (auto simp: hm_get_def map_of_eq_None_iff)
    then show ?thesis using None by (simp add: hm_get_fold_put)
  next
    case (Some e)
    then have "e \<in> set xs" "key e = k" by (auto simp: find_Some_iff) (metis nth_mem rev_nth set_rev length_rev)
    then show ?thesis using row [of e] Some by (simp add: hm_get_fold_put)
  qed
qed

text \<open>A balance that prints and parses to itself: one precision for the three amounts.\<close>

definition printable :: "unified_balance \<Rightarrow> bool" where
  "printable b = (let d = d_dec (ub_total b) in 0 < d \<and> d \<le> 38 \<and> d_dec (ub_core b) = d \<and> d_dec (ub_evm b) = d \<and>
     (\<forall>x \<in> {ub_total b, ub_core b, ub_evm b}. \<bar>d_val x\<bar> \<le> i128_max))"

definition entry_balance :: "balance_entry \<Rightarrow> unified_balance" where
  "entry_balance e = (let b = be_balance e; d = (if 0 < bd_decimals b then bd_decimals b else if be_token e = 0 then 6 else 18)
     in \<lparr> ub_total = parse_or_zero (bd_total b) d, ub_core = parse_or_zero (bd_core b) d, ub_evm = parse_or_zero (bd_evm b) d \<rparr>)"

lemma restore_balance_insert: "restore_balance e = hm_insert (be_account e, be_token e) (entry_balance e)"
  by (simp add: fun_eq_iff restore_balance_def entry_balance_def set_balance_def Let_def)

lemma print_parse_or_zero:
  assumes "\<bar>d_val x\<bar> \<le> i128_max" "d_dec x \<le> 38"
  shows "\<exists>s. to_string_trimmed x = Some s \<and> parse_or_zero s (d_dec x) = x"
proof -
  have "in_i128 (d_val x)" "d_val x \<noteq> i128_min" using assms(1) by (auto simp: i128_defs)
  then obtain s where "to_string_trimmed x = Some s" "from_str_exact s (d_dec x) = Some x"
    using print_parse_rescaled [of x "d_dec x"] assms by (cases x) auto
  then show ?thesis by (auto simp: parse_or_zero_def)
qed

lemma balance_entry_roundtrip:
  assumes "balance_entry_of ((a, t), b) = Some e" "printable b"
  shows "be_account e = a \<and> be_token e = t \<and> entry_balance e = b"
proof -
  let ?d = "d_dec (ub_total b)"
  have p: "0 < ?d" "d_dec (ub_core b) = ?d" "d_dec (ub_evm b) = ?d" "?d \<le> 38" "\<bar>d_val (ub_total b)\<bar> \<le> i128_max"
    "\<bar>d_val (ub_core b)\<bar> \<le> i128_max" "\<bar>d_val (ub_evm b)\<bar> \<le> i128_max"
    using assms(2) by (auto simp: printable_def Let_def)
  obtain x y z where s: "to_string_trimmed (ub_total b) = Some x" "parse_or_zero x ?d = ub_total b"
    "to_string_trimmed (ub_core b) = Some y" "parse_or_zero y ?d = ub_core b"
    "to_string_trimmed (ub_evm b) = Some z" "parse_or_zero z ?d = ub_evm b"
    using print_parse_or_zero [of "ub_total b"] print_parse_or_zero [of "ub_core b"] print_parse_or_zero [of "ub_evm b"] p by auto
  show ?thesis
    using assms(1) s p(1) by (auto simp: balance_entry_of_def entry_balance_def Let_def)
qed

lemma omap_set: "omap f xs = Some ys \<Longrightarrow> set ys = (\<lambda>x. the (f x)) ` set xs \<and> (\<forall>x \<in> set xs. f x \<noteq> None)"
  by (induction xs arbitrary: ys) (auto simp: Option.bind_eq_Some_conv)

text \<open>What extraction records of the ledger and the chain.\<close>

lemma extract_chain:
  assumes "extract_state h ts ah us es perp spot nonces cloids metas = Some st"
  shows "chs_nonces (ps_chain st) = map (\<lambda>(a, n). \<lparr> ne_account = a, ne_nonce = n \<rparr>) nonces"
    "chs_cloids (ps_chain st) = map (\<lambda>((a, c), (m, i)). \<lparr> cle_account = a, cle_cloid = c, cle_market = m, cle_order_id = i \<rparr>) cloids"
    "omap balance_entry_of us = Some (cr_balances (ps_core st))"
    "ps_height st = h" "ps_timestamp st = ts" "ps_app_hash st = ah"
  using assms
  by (auto simp: extract_state_def Option.bind_eq_Some_conv Let_def extract_perp_def extract_shared_def extract_spot_def persisted_new_def
      core_default_def split: option.splits)

lemma load_state_valid:
  "load_state kv cd d = Some (Inr (Some st)) \<Longrightarrow> ps_schema st = SCHEMA_VERSION \<and> ps_validate st = Some None"
  by (auto simp: load_state_def pbind_db_eq_Inr pbind_eq_Inr Let_def validated_eq persisted_new_def split: if_splits)

lemma load_state_perp: "load_state kv cd d = Some (Inr (Some st)) \<Longrightarrow> ps_perp st = perp_persist_default"
  by (auto simp: load_state_def pbind_db_eq_Inr pbind_eq_Inr Let_def validated_eq persisted_new_def split: if_splits)

lemma restart_app_run:
  assumes "restart_app keccak st us es en sp = Some app" "ps_schema st = SCHEMA_VERSION" "ps_validate st = Some None"
  obtains sp' where "restore_spot keccak (ps_spot st) sp = Some sp'" "ap_spot app = Some sp'"
    "ap_unified app = fold restore_balance (cr_balances (ps_core st)) us" "ap_nonces app = restore_nonce_map st []"
    "ap_cloid_to_oid app = restore_cloid_map st []" "ap_height app = ps_height st" "ap_timestamp app = ps_timestamp st"
    "ap_app_hash app = ps_app_hash st" "ap_last_timestamp_nonces app = []" "ap_block_metadata app = []"
  using assms
  by (auto simp: restart_app_def restore_state_def Let_def Option.bind_eq_Some_conv restore_block_hashes_def restore_cloid_mappings_def
      restore_nonces_def restore_chain_state_def app_state_of_def)


text \<open>The sample of the persister, extracted from a ledger and an engine without markets.\<close>

definition restart_ledger :: unified_state where
  "restart_ledger = [((7, 0), \<lparr> ub_total = Decimal 5000000 6, ub_core = Decimal 3000000 6, ub_evm = Decimal 2000000 6 \<rparr>)]"

definition restart_engine :: engine_state where
  "restart_engine = engine_state_new \<lparr> es_insurance_fund := 12000000, es_next_order_id := 9 \<rparr>"

lemma sample_strings:
  "to_string_trimmed (Decimal 5000000 6) = Some ''5''" "to_string_trimmed (Decimal 3000000 6) = Some ''3''"
  "to_string_trimmed (Decimal 2000000 6) = Some ''2''" "to_string_trimmed (Decimal 12000000 6) = Some ''12''"
  by (simp_all add: to_string_trimmed_def to_string_full_eq i128_defs show_nat.simps pad_left_def digit_char_def trim_end_by_def
      char_of_def replicate_unroll bit_Suc_0_iff)

lemma sample_extracted:
  "extract_state 3 30 (replicate 32 0) restart_ledger restart_engine None None [(7, 4)] [] [] = Some saved_sample"
  by (simp add: extract_state_def restart_ledger_def balance_entry_of_def sample_strings extract_shared_def restart_engine_def
      engine_state_new_def insurance_string_def position_entries_def leverage_entries_def order_entries_def flatten_def
      saved_sample_def persisted_new_def core_default_def saved_balance_def chain_persist_default_def block_entries_def dec_consts hm_values_def)


section \<open>What a restart loses\<close>

lemma restore_spot_reserved:
  "ofold (restore_spot_token keccak) ts s = Some s' \<Longrightarrow> sp_reserved s' = sp_reserved s"
  "ofold restore_spot_market ms s = Some s' \<Longrightarrow> sp_reserved s' = sp_reserved s"
  "sp_reserved (fold (\<lambda>e. sp_restore_order (ode_market e) (ode_order e)) es s) = sp_reserved s"
proof -
  show "ofold (restore_spot_token keccak) ts s = Some s' \<Longrightarrow> sp_reserved s' = sp_reserved s"
    by (induction ts arbitrary: s) (auto simp: restore_spot_token_def sp_restore_token_def Option.bind_eq_Some_conv)
  show "ofold restore_spot_market ms s = Some s' \<Longrightarrow> sp_reserved s' = sp_reserved s"
    by (induction ms arbitrary: s) (auto simp: restore_spot_market_def sp_restore_market_def Let_def Option.bind_eq_Some_conv)
  show "sp_reserved (fold (\<lambda>e. sp_restore_order (ode_market e) (ode_order e)) es s) = sp_reserved s"
    by (induction es arbitrary: s) (auto simp: sp_restore_order_def Let_def sp_index_push_def sp_upd_book_def split: option.splits)
qed

text \<open>
  The counters of the spot engine start at 0 again, the index of USDC and an id that
  resting orders may have, and what open orders had reserved is free.
\<close>

theorem restart_resets_spot:
  assumes "load_state kv cd d = Some (Inr (Some st))" "restart_app keccak st us es en sp = Some app"
  shows "\<exists>sp'. ap_spot app = Some sp' \<and> sp_next_token_index sp' = 0 \<and> sp_next_market_id sp' = 0 \<and> sp_next_order_id sp' = 0 \<and>
    sp_reserved sp' = sp_reserved sp"
proof -
  obtain sp' where r: "restore_spot keccak (ps_spot st) sp = Some sp'" "ap_spot app = Some sp'"
    using restart_app_run [OF assms(2)] load_state_valid [OF assms(1)] by metis
  obtain core es where "load_spot kv cd d es = Some (Inr (ps_spot st))"
    using assms(1) by (auto simp: load_state_def pbind_db_eq_Inr pbind_eq_Inr Let_def validated_eq persisted_new_def split: if_splits)
  note zero = load_parts(2) [OF this]
  obtain s1 s2 where s: "ofold (restore_spot_token keccak) (sps_tokens (ps_spot st)) sp = Some s1"
    "ofold restore_spot_market (sps_markets (ps_spot st)) s1 = Some s2"
    "sp' = (fold (\<lambda>e. sp_restore_order (ode_market e) (ode_order e)) (sps_orders (ps_spot st)) s2)
      \<lparr> sp_next_token_index := 0, sp_next_market_id := 0, sp_next_order_id := 0 \<rparr>"
    using r(1) zero by (auto simp: restore_spot_def Option.bind_eq_Some_conv wrap_u8_def)
  then show ?thesis
    using r(2) restore_spot_reserved(1) [OF s(1)] restore_spot_reserved(2) [OF s(2)] by (simp add: restore_spot_reserved(3))
qed

text \<open>
  A funding rate has 10 decimals and is read back with 8: a rate that uses the last two
  stops the restart with a panic, any other one comes back in another scale.
\<close>

lemma rate_strings:
  "to_string_trimmed (Decimal 123456 10) = Some ''0.0000123456''" "dec_price ''0.0000123456'' = None"
  "to_string_trimmed (Decimal 1000000 10) = Some ''0.0001''" "dec_price ''0.0001'' = Some (Decimal 10000 8)"
  subgoal by (simp add: to_string_trimmed_def to_string_full_eq i128_defs show_nat.simps pad_left_def digit_char_def trim_end_by_def char_of_def replicate_unroll bit_Suc_0_iff)
  subgoal by (simp add: dec_price_def dec_consts from_str_exact_def str_trim_def trim_end_by_def is_ws_def Let_def)
  subgoal by (simp add: to_string_trimmed_def to_string_full_eq i128_defs show_nat.simps pad_left_def digit_char_def trim_end_by_def char_of_def replicate_unroll bit_Suc_0_iff)
  subgoal by (simp add: dec_price_def dec_consts from_str_exact_def str_trim_def trim_end_by_def is_ws_def parse_i128_def parse_digits_def
        is_digit_def digits_val_def digit_val_def i128_checked_defs i128_defs pow10_def wrap_i128_def Let_def replicate_unroll)
  done

theorem fine_funding_rate_panics:
  assumes "market_entry_of mk = Some e" "ms_funding_rate (m_state mk) = Decimal 123456 10"
  shows "build_market_from_entry e = None"
proof -
  have "mke_funding_rate e = ''0.0000123456''"
    using assms rate_strings(1) by (auto simp: market_entry_of_def Let_def Option.bind_eq_Some_conv)
  then show ?thesis
    by (auto simp: build_market_from_entry_def restore_market_state_def restore_field_def rate_strings Option.bind_eq_None_conv Let_def)
qed

lemma restore_field_keeps: "restore_field s parse f mk = Some mk' \<Longrightarrow> (\<And>d m. g (f d m) = g m) \<Longrightarrow> g mk' = g mk"
  by (auto simp: restore_field_def split: if_splits)

lemma restored_funding_rate:
  assumes "restore_market_state e mk = Some mk'" "mke_funding_rate e \<noteq> []"
  shows "dec_price (mke_funding_rate e) = Some (ms_funding_rate (m_state mk'))"
proof -
  let ?g = "\<lambda>m. ms_funding_rate (m_state m)"
  obtain m1 m2 m3 m4 where r: "restore_field (mke_funding_rate e) dec_price (\<lambda>d. put_state (\<lambda>s. s \<lparr> ms_funding_rate := d \<rparr>)) m1 = Some m2"
    "restore_field (mke_accumulator e) dec_price (\<lambda>d. put_state (\<lambda>s. s \<lparr> ms_funding_accumulator := d \<rparr>)) m2 = Some m3"
    "restore_field (mke_oi_long e) dec_size (\<lambda>d. put_state (\<lambda>s. s \<lparr> ms_oi_long := d \<rparr>)) m3 = Some m4"
    "restore_field (mke_oi_short e) dec_size (\<lambda>d. put_state (\<lambda>s. s \<lparr> ms_oi_short := d \<rparr>)) m4 = Some mk'"
    using assms(1) by (auto simp: restore_market_state_def Option.bind_eq_Some_conv)
  have "?g mk' = ?g m4" "?g m4 = ?g m3" "?g m3 = ?g m2"
    by (rule restore_field_keeps [OF r(4)] restore_field_keeps [OF r(3)] restore_field_keeps [OF r(2)], simp add: put_state_def)+
  then show ?thesis using r(1) assms(2) by (auto simp: restore_field_def put_state_def)
qed

theorem restored_rate_rescaled:
  assumes "market_entry_of mk = Some e" "ms_funding_rate (m_state mk) = Decimal 1000000 10" "build_market_from_entry e = Some mk'"
  shows "ms_funding_rate (m_state mk') = Decimal 10000 8"
proof -
  have rate: "mke_funding_rate e = ''0.0001''"
    using assms rate_strings(3) by (auto simp: market_entry_of_def Let_def Option.bind_eq_Some_conv)
  obtain mk0 where "restore_market_state e mk0 = Some mk'"
    using assms(3) by (auto simp: build_market_from_entry_def Option.bind_eq_Some_conv Let_def)
  then show ?thesis using restored_funding_rate rate rate_strings(4) by fastforce
qed

end
