(* ===== verification/Comet_App.thy ===== *)
theory Comet_App
  imports App_Facts Validators Persist_Integration
begin

text \<open>
  The application as CometBFT drives it, from \<open>crates/chain/src/cometbft/app.rs\<close>: the
  checks of transactions and proposals, the initial state, the execution of a decided
  block with its evidence and its raw EVM transactions, the deferred persistence, and the
  state that a node takes over from a snapshot.

  Parameters (\<open>comet_env\<close>): the JSON decoder of transactions, the decoder of raw EVM
  transactions, the EVM executor with its state root and its state data, the hex
  encoder, the database and its codecs.
\<close>

section \<open>Parameters\<close>

record evm_tx =
  et_from :: "byte list"
  et_to :: "byte list option"
  et_value :: nat
  et_data :: "byte list"
  et_gas_limit :: nat
  et_gas_price :: nat
  et_nonce :: nat

record evm_log =
  lg_address :: "byte list"
  lg_topics :: "digest list"
  lg_data :: "byte list"

record evm_result =
  er_success :: bool
  er_gas_used :: nat
  er_output :: "byte list"
  er_logs :: "evm_log list"

record ('e, 'd) comet_env =
  ce_decode :: "byte list \<Rightarrow> transaction option"
  ce_keccak :: hash_fn
  ce_ecdsa :: ecdsa
  ce_hex :: "byte list \<Rightarrow> string"
  ce_evm_decode :: "byte list \<Rightarrow> evm_tx option"
  ce_evm_execute :: "evm_tx \<Rightarrow> 'e \<Rightarrow> (string + evm_result) \<times> 'e"
  ce_evm_commit :: "'e \<Rightarrow> 'e"
  ce_evm_root :: "'e \<Rightarrow> digest"
  ce_evm_data :: "'e \<Rightarrow> evm_state_data"
  ce_kv :: "'d kv_store"
  ce_codecs :: codecs

section \<open>Receipts of EVM transactions\<close>

definition hex_digit :: "nat \<Rightarrow> char" where
  "hex_digit n = (if n < 10 then digit_char n else char_of (87 + n))"

fun hex_nat :: "nat \<Rightarrow> string" where
  "hex_nat n = (if n < 16 then [hex_digit n] else hex_nat (n div 16) @ [hex_digit (n mod 16)])"

declare hex_nat.simps [simp del]

definition hex0x :: "nat \<Rightarrow> string" where
  "hex0x n = ''0x'' @ hex_nat n"

record log_entry =
  le_address :: string
  le_topics :: "string list"
  le_data :: string
  le_block_number :: string
  le_transaction_hash :: string
  le_transaction_index :: string
  le_block_hash :: string
  le_log_index :: string
  le_removed :: bool

record transaction_receipt =
  rc_transaction_hash :: string
  rc_transaction_index :: string
  rc_block_hash :: string
  rc_block_number :: string
  rc_from :: string
  rc_to :: "string option"
  rc_cumulative_gas_used :: string
  rc_effective_gas_price :: string
  rc_gas_used :: string
  rc_contract_address :: "string option"
  rc_logs :: "log_entry list"
  rc_logs_bloom :: string
  rc_tx_type :: string
  rc_status :: string

record transaction_object =
  to_block_hash :: "string option"
  to_block_number :: "string option"
  to_from :: string
  to_gas :: string
  to_gas_price :: string
  to_hash :: string
  to_input :: string
  to_nonce :: string
  to_to :: "string option"
  to_transaction_index :: "string option"
  to_value :: string
  to_v :: string
  to_r :: string
  to_s :: string
  to_tx_type :: string

text \<open>The RLP list of sender and nonce that the address of a new contract is the hash of.\<close>

definition strip_zeros :: "byte list \<Rightarrow> byte list" where
  "strip_zeros bs = dropWhile (\<lambda>b. b = 0) bs"

definition create_nonce_length :: "nat \<Rightarrow> nat" where
  "create_nonce_length n = (if n = 0 then 1 else if n < 0x80 then 1 else if n < 0x100 then 2 else 9)"

definition create_nonce_bytes :: "nat \<Rightarrow> byte list" where
  "create_nonce_bytes n =
    (if n = 0 then [0x80] else if n < 0x80 then [word_of_nat n] else if n < 0x100 then [0x81, word_of_nat n]
     else let bs = strip_zeros (be_bytes 8 n) in word_of_nat (0x80 + length bs) # bs)"

definition create_payload :: "byte list \<Rightarrow> nat \<Rightarrow> byte list" where
  "create_payload sender n = 0x94 # sender @ create_nonce_bytes n"

definition create_rlp :: "byte list \<Rightarrow> nat \<Rightarrow> byte list" where
  "create_rlp sender n = (let total_len = 21 + create_nonce_length n in
     (if total_len < 56 then [word_of_nat (0xc0 + total_len)] else [0xf8, word_of_nat total_len]) @ create_payload sender n)"

definition calculate_contract_address_hex ::
  "hash_fn \<Rightarrow> (byte list \<Rightarrow> string) \<Rightarrow> byte list \<Rightarrow> nat \<Rightarrow> string" where
  "calculate_contract_address_hex keccak hexs sender n = ''0x'' @ hexs (drop 12 (keccak (create_rlp sender n)))"

definition zeros_hex :: "nat \<Rightarrow> string" where
  "zeros_hex n = ''0x'' @ replicate n (CHR ''0'')"

definition fake_block_hash :: string where
  "fake_block_hash = ''0x'' @ replicate 64 (CHR ''a'')"

definition receipt_of ::
  "hash_fn \<Rightarrow> (byte list \<Rightarrow> string) \<Rightarrow> nat \<Rightarrow> byte list \<Rightarrow> evm_tx \<Rightarrow> evm_result \<Rightarrow> transaction_receipt" where
  "receipt_of keccak hexs height raw tx res =
    (let h = ''0x'' @ hexs (keccak raw); block = hex0x height in
     \<lparr> rc_transaction_hash = h, rc_transaction_index = ''0x0'', rc_block_hash = fake_block_hash, rc_block_number = block,
       rc_from = ''0x'' @ hexs (et_from tx), rc_to = map_option (\<lambda>a. ''0x'' @ hexs a) (et_to tx),
       rc_cumulative_gas_used = hex0x (er_gas_used res), rc_effective_gas_price = hex0x (et_gas_price tx),
       rc_gas_used = hex0x (er_gas_used res),
       rc_contract_address = (if et_to tx = None \<and> er_success res
          then Some (calculate_contract_address_hex keccak hexs (et_from tx) (et_nonce tx)) else None),
       rc_logs = map (\<lambda>(i, l). \<lparr> le_address = ''0x'' @ hexs (lg_address l),
           le_topics = map (\<lambda>t. ''0x'' @ hexs t) (lg_topics l), le_data = ''0x'' @ hexs (lg_data l),
           le_block_number = block, le_transaction_hash = h, le_transaction_index = ''0x0'',
           le_block_hash = fake_block_hash, le_log_index = hex0x i, le_removed = False \<rparr>)
         (enumerate 0 (er_logs res)),
       rc_logs_bloom = zeros_hex 512, rc_tx_type = ''0x2'', rc_status = (if er_success res then ''0x1'' else ''0x0'') \<rparr>)"

definition tx_object_of ::
  "hash_fn \<Rightarrow> (byte list \<Rightarrow> string) \<Rightarrow> nat \<Rightarrow> byte list \<Rightarrow> evm_tx \<Rightarrow> transaction_object" where
  "tx_object_of keccak hexs height raw tx =
     \<lparr> to_block_hash = Some fake_block_hash, to_block_number = Some (hex0x height), to_from = ''0x'' @ hexs (et_from tx),
       to_gas = hex0x (et_gas_limit tx), to_gas_price = hex0x (et_gas_price tx), to_hash = ''0x'' @ hexs (keccak raw),
       to_input = ''0x'' @ hexs (et_data tx), to_nonce = hex0x (et_nonce tx),
       to_to = map_option (\<lambda>a. ''0x'' @ hexs a) (et_to tx), to_transaction_index = Some ''0x0'',
       to_value = hex0x (et_value tx), to_v = ''0x1'', to_r = zeros_hex 64, to_s = zeros_hex 64, to_tx_type = ''0x2'' \<rparr>"

section \<open>State\<close>

record ('e, 'd) comet_app =
  cm_app :: app_state
  cm_validators :: validator_set
  cm_chain_id :: string
  cm_evm :: "'e option"
  cm_receipts :: "(digest, transaction_receipt) hash_map option"
  cm_transactions :: "(digest, transaction_object) hash_map option"
  cm_block_number :: "nat option"
  cm_db :: "'d option"
  cm_pending :: "persisted_state option"

definition comet_new :: "app_state \<Rightarrow> ('e, 'd) comet_app" where
  "comet_new app = \<lparr> cm_app = app, cm_validators = validator_set_new, cm_chain_id = [], cm_evm = None,
     cm_receipts = None, cm_transactions = None, cm_block_number = None, cm_db = None, cm_pending = None \<rparr>"

definition with_evm_executor :: "('e, 'd) comet_env \<Rightarrow> 'e \<Rightarrow> ('e, 'd) comet_app \<Rightarrow> ('e, 'd) comet_app" where
  "with_evm_executor ce e c = c \<lparr> cm_evm := Some e, cm_app := (cm_app c) \<lparr> ap_evm_root := Some (ce_evm_root ce e) \<rparr> \<rparr>"

definition with_evm_receipt_store ::
  "(digest, transaction_receipt) hash_map \<Rightarrow> (digest, transaction_object) hash_map \<Rightarrow> nat \<Rightarrow> ('e, 'd) comet_app \<Rightarrow> ('e, 'd) comet_app" where
  "with_evm_receipt_store rs ts n c = c \<lparr> cm_receipts := Some rs, cm_transactions := Some ts, cm_block_number := Some n \<rparr>"

definition with_persistence :: "'d \<Rightarrow> ('e, 'd) comet_app \<Rightarrow> ('e, 'd) comet_app" where
  "with_persistence db c = c \<lparr> cm_db := Some db \<rparr>"

definition verify_app_hash :: "hash_fn \<Rightarrow> digest \<Rightarrow> ('e, 'd) comet_app \<Rightarrow> bool \<times> digest" where
  "verify_app_hash keccak expected c = (let h = compute_app_hash keccak (cm_app c) in (h = expected, h))"

text \<open>Casts between \<open>i64\<close> and \<open>u64\<close>.\<close>

definition u64_of_i64 :: "int \<Rightarrow> nat" where
  "u64_of_i64 n = nat (n mod 2 ^ 64)"

definition i64_of_u64 :: "nat \<Rightarrow> int" where
  "i64_of_u64 n = wrap_i64 (int n)"

section \<open>Information, checks and proposals\<close>

record info_response =
  ir_data :: string
  ir_app_version :: nat
  ir_last_block_height :: int
  ir_last_block_app_hash :: digest
  ir_matches :: bool

text \<open>\<open>ir_matches\<close> is the comparison that \<open>info\<close> writes to the log.\<close>

definition comet_info :: "hash_fn \<Rightarrow> ('e, 'd) comet_app \<Rightarrow> info_response" where
  "comet_info keccak c = \<lparr> ir_data = ''HyperCore'', ir_app_version = 1,
     ir_last_block_height = i64_of_u64 (ap_height (cm_app c)), ir_last_block_app_hash = ap_app_hash (cm_app c),
     ir_matches = (ap_app_hash (cm_app c) = compute_app_hash keccak (cm_app c)) \<rparr>"

datatype tx_log = LogText string | LogApp app_error | LogEvm string

datatype abci_event =
    HyperCoreEvent event
  | MisbehaviorEvidence string int
  | EvmRawTx "byte list" bool nat

record exec_tx_result =
  rs_code :: nat
  rs_log :: tx_log
  rs_gas_wanted :: int
  rs_gas_used :: int
  rs_events :: "abci_event list"
  rs_codespace :: string

definition failed_result :: "tx_log \<Rightarrow> string \<Rightarrow> exec_tx_result" where
  "failed_result msg space = \<lparr> rs_code = 1, rs_log = msg, rs_gas_wanted = 0, rs_gas_used = 0, rs_events = [], rs_codespace = space \<rparr>"

definition undecodable :: exec_tx_result where
  "undecodable = failed_result (LogText ''Failed to decode as HyperCore Transaction or raw EVM transaction'') ''encoding''"

definition comet_check_tx :: "('e, 'd) comet_env \<Rightarrow> timestamp \<Rightarrow> byte list \<Rightarrow> ('e, 'd) comet_app \<Rightarrow> exec_tx_result" where
  "comet_check_tx ce now raw c = (case ce_decode ce raw of
       Some tx \<Rightarrow> (case check_tx (ce_ecdsa ce) (ce_keccak ce) tx now (cm_app c) of
           Inr _ \<Rightarrow> \<lparr> rs_code = 0, rs_log = LogText ''OK'', rs_gas_wanted = 1, rs_gas_used = 1, rs_events = [], rs_codespace = [] \<rparr>
         | Inl e \<Rightarrow> failed_result (LogApp e) ''app'')
     | None \<Rightarrow> (case ce_evm_decode ce raw of
           Some tx \<Rightarrow> \<lparr> rs_code = 0, rs_log = LogText ''OK (EVM)'', rs_gas_wanted = i64_of_u64 (et_gas_limit tx),
             rs_gas_used = 0, rs_events = [], rs_codespace = [] \<rparr>
         | None \<Rightarrow> undecodable))"

definition prepare_proposal :: "byte list list \<Rightarrow> byte list list" where
  "prepare_proposal txs = txs"

definition proposal_tx_ok :: "('e, 'd) comet_env \<Rightarrow> timestamp \<Rightarrow> ('e, 'd) comet_app \<Rightarrow> byte list \<Rightarrow> bool" where
  "proposal_tx_ok ce now c raw = (case ce_decode ce raw of
       Some tx \<Rightarrow> check_tx (ce_ecdsa ce) (ce_keccak ce) tx now (cm_app c) = Inr ()
     | None \<Rightarrow> ce_evm_decode ce raw \<noteq> None)"

text \<open>One reading of the clock for each transaction.\<close>

definition process_proposal :: "('e, 'd) comet_env \<Rightarrow> (nat \<Rightarrow> timestamp) \<Rightarrow> byte list list \<Rightarrow> ('e, 'd) comet_app \<Rightarrow> bool" where
  "process_proposal ce clock txs c = list_all (\<lambda>(i, raw). proposal_tx_ok ce (clock i) c raw) (enumerate 0 txs)"

text \<open>A validator without a key is skipped; a key of neither kind is the empty one.\<close>

definition init_chain ::
  "hash_fn \<Rightarrow> ('e, 'd) comet_env \<Rightarrow> string \<Rightarrow> (byte list option option \<times> int) list \<Rightarrow> (string + genesis_state) option \<Rightarrow>
   ('e, 'd) comet_app \<Rightarrow> (digest \<times> ('e, 'd) comet_app) option" where
  "init_chain sha ce chain vals genesis c =
    (let c1 = c \<lparr> cm_chain_id := chain,
           cm_validators := fold (\<lambda>(key, p) vs. case key of None \<Rightarrow> vs
             | Some k \<Rightarrow> vs_add sha (case k of Some bs \<Rightarrow> bs | None \<Rightarrow> []) p vs) vals (cm_validators c) \<rparr>
     in case genesis of
          None \<Rightarrow> Some (ap_app_hash (cm_app c1), c1)
        | Some parsed \<Rightarrow> do {
            (_, app) \<leftarrow> init_from_genesis (ce_keccak ce) parsed (cm_app c1);
            Some (ap_app_hash app, c1 \<lparr> cm_app := app \<rparr>)
          })"


section \<open>A decided block\<close>

record finalize_request =
  fq_height :: int
  fq_time :: "(int \<times> int) option"
  fq_txs :: "byte list list"
  fq_misbehavior :: "(string \<times> int \<times> int) list"

record finalize_response =
  fr_events :: "abci_event list"
  fr_tx_results :: "exec_tx_result list"
  fr_validator_updates :: "(byte list \<times> int) list"
  fr_app_hash :: digest

definition request_timestamp :: "finalize_request \<Rightarrow> timestamp" where
  "request_timestamp q = (case fq_time q of
       Some (secs, nanos) \<Rightarrow> wrap_u64 (wrap_u64 (u64_of_i64 secs * 1000) + u64_of_i64 nanos div 1000000)
     | None \<Rightarrow> 0)"

definition record_evidence :: "(string \<times> int \<times> int) list \<Rightarrow> app_state \<Rightarrow> abci_event list \<times> app_state" where
  "record_evidence ms st =
    (if ms \<noteq> []
     then (map (\<lambda>(ty, h, _). MisbehaviorEvidence ty h) ms,
       st \<lparr> ap_last_evidence_count := length ms, ap_total_evidence_count := wrap_u64 (ap_total_evidence_count st + length ms) \<rparr>)
     else ([], st \<lparr> ap_last_evidence_count := 0 \<rparr>))"

definition store_receipt ::
  "('e, 'd) comet_env \<Rightarrow> nat \<Rightarrow> byte list \<Rightarrow> evm_tx \<Rightarrow> evm_result \<Rightarrow> ('e, 'd) comet_app \<Rightarrow> ('e, 'd) comet_app" where
  "store_receipt ce height raw tx res c = (let h = ce_keccak ce raw in c
     \<lparr> cm_receipts := map_option (hm_insert h (receipt_of (ce_keccak ce) (ce_hex ce) height raw tx res)) (cm_receipts c),
       cm_transactions := map_option (hm_insert h (tx_object_of (ce_keccak ce) (ce_hex ce) height raw tx)) (cm_transactions c) \<rparr>)"

definition run_raw_evm ::
  "('e, 'd) comet_env \<Rightarrow> nat \<Rightarrow> byte list \<Rightarrow> evm_tx \<Rightarrow> ('e, 'd) comet_app \<Rightarrow> exec_tx_result \<times> ('e, 'd) comet_app" where
  "run_raw_evm ce height raw tx c = (case cm_evm c of
       None \<Rightarrow> (failed_result (LogText ''EVM executor not available'') ''evm'', c)
     | Some e \<Rightarrow> (case ce_evm_execute ce tx e of
         (Inr res, e1) \<Rightarrow>
           (\<lparr> rs_code = (if er_success res then 0 else 1),
              rs_log = LogText (if er_success res then ''OK (EVM)'' else ''EVM execution reverted''),
              rs_gas_wanted = i64_of_u64 (et_gas_limit tx), rs_gas_used = i64_of_u64 (er_gas_used res),
              rs_events = [EvmRawTx (et_from tx) (er_success res) (er_gas_used res)], rs_codespace = [] \<rparr>,
            store_receipt ce height raw tx res (c \<lparr> cm_evm := Some (ce_evm_commit ce e1) \<rparr>))
       | (Inl err, e1) \<Rightarrow>
           ((failed_result (LogEvm err) ''evm'') \<lparr> rs_gas_wanted := i64_of_u64 (et_gas_limit tx) \<rparr>, c \<lparr> cm_evm := Some e1 \<rparr>)))"

definition run_core_tx ::
  "('e, 'd) comet_env \<Rightarrow> timestamp \<Rightarrow> transaction \<Rightarrow> ('e, 'd) comet_app \<Rightarrow> (exec_tx_result \<times> ('e, 'd) comet_app) option" where
  "run_core_tx ce ts tx c = do {
     (r, app) \<leftarrow> execute_tx (ce_ecdsa ce) (ce_keccak ce) tx ts (cm_app c);
     Some (case r of
         Inr res \<Rightarrow> \<lparr> rs_code = 0, rs_log = LogText ''OK'', rs_gas_wanted = 1, rs_gas_used = i64_of_u64 (tr_gas_used res),
           rs_events = map HyperCoreEvent (tr_events res), rs_codespace = [] \<rparr>
       | Inl e \<Rightarrow> failed_result (LogApp e) ''app'', c \<lparr> cm_app := app \<rparr>)
   }"

definition run_block_tx ::
  "('e, 'd) comet_env \<Rightarrow> nat \<Rightarrow> timestamp \<Rightarrow> byte list \<Rightarrow> ('e, 'd) comet_app \<Rightarrow> (exec_tx_result \<times> ('e, 'd) comet_app) option" where
  "run_block_tx ce height ts raw c = (case ce_decode ce raw of
       Some tx \<Rightarrow> run_core_tx ce ts tx c
     | None \<Rightarrow> (case ce_evm_decode ce raw of
         Some tx \<Rightarrow> Some (run_raw_evm ce height raw tx c)
       | None \<Rightarrow> Some (undecodable, c)))"

fun run_block_txs ::
  "('e, 'd) comet_env \<Rightarrow> nat \<Rightarrow> timestamp \<Rightarrow> byte list list \<Rightarrow> ('e, 'd) comet_app \<Rightarrow> (exec_tx_result list \<times> ('e, 'd) comet_app) option" where
  "run_block_txs ce height ts [] c = Some ([], c)"
| "run_block_txs ce height ts (raw # raws) c = do {
     (r, c1) \<leftarrow> run_block_tx ce height ts raw c;
     (rs, c2) \<leftarrow> run_block_txs ce height ts raws c1;
     Some (r # rs, c2)
   }"

text \<open>The application reads the EVM root of the executor when it computes the hash.\<close>

definition sync_evm_root :: "('e, 'd) comet_env \<Rightarrow> ('e, 'd) comet_app \<Rightarrow> app_state" where
  "sync_evm_root ce c = (cm_app c) \<lparr> ap_evm_root := map_option (ce_evm_root ce) (cm_evm c) \<rparr>"

definition state_to_persist :: "('e, 'd) comet_env \<Rightarrow> nat \<Rightarrow> timestamp \<Rightarrow> digest \<Rightarrow> ('e, 'd) comet_app \<Rightarrow> persisted_state option" where
  "state_to_persist ce height ts h c = (let app = cm_app c in
     map_option (\<lambda>st. case cm_evm c of Some e \<Rightarrow> st \<lparr> ps_evm := ce_evm_data ce e \<rparr> | None \<Rightarrow> st)
       (extract_state height ts h (ap_unified app) (ap_engine app) (ap_perp app) (ap_spot app) (ap_nonces app) (ap_cloid_to_oid app)
         (ap_block_metadata app)))"

definition finalize_block ::
  "('e, 'd) comet_env \<Rightarrow> finalize_request \<Rightarrow> ('e, 'd) comet_app \<Rightarrow> (finalize_response \<times> ('e, 'd) comet_app) option" where
  "finalize_block ce q c =
    (let height = u64_of_i64 (fq_height q); ts = request_timestamp q in
     if ap_height (cm_app c) = height
     then Some (\<lparr> fr_events = [], fr_tx_results = [], fr_validator_updates = [], fr_app_hash = ap_app_hash (cm_app c) \<rparr>, c)
     else do {
       let (evs0, app1) = record_evidence (fq_misbehavior q) (app_begin_block height ts (cm_app c));
       (rs, c2) \<leftarrow> run_block_txs ce height ts (fq_txs q) (c \<lparr> cm_app := app1 \<rparr>);
       app3 \<leftarrow> app_end_block (ce_keccak ce) (sync_evm_root ce c2);
       let c3 = c2 \<lparr> cm_app := app3, cm_block_number := map_option (\<lambda>_. height) (cm_block_number c2) \<rparr>;
       let h = app_commit app3;
       c4 \<leftarrow> (case cm_db c3 of
           Some _ \<Rightarrow> map_option (\<lambda>p. c3 \<lparr> cm_pending := Some p \<rparr>) (state_to_persist ce height ts h c3)
         | None \<Rightarrow> Some c3);
       Some (\<lparr> fr_events = evs0 @ concat (map rs_events rs), fr_tx_results = rs, fr_validator_updates = [], fr_app_hash = h \<rparr>, c4)
     })"

text \<open>A failure of the database is written to the log; the state of that height is dropped.\<close>

definition comet_commit :: "('e, 'd) comet_env \<Rightarrow> ('e, 'd) comet_app \<Rightarrow> ('e, 'd) comet_app option" where
  "comet_commit ce c = (case (cm_pending c, cm_db c) of
       (None, _) \<Rightarrow> Some c
     | (Some p, None) \<Rightarrow> Some (c \<lparr> cm_pending := None \<rparr>)
     | (Some p, Some db) \<Rightarrow> map_option (\<lambda>r. c \<lparr> cm_pending := None, cm_db := Some (case r of Inr db' \<Rightarrow> db' | Inl _ \<Rightarrow> db) \<rparr>)
         (persist_state (ce_kv ce) (ce_codecs ce) p db))"

text \<open>The last chunk of a snapshot: what was reassembled, or an error, and the code of the response.\<close>

definition take_over_snapshot ::
  "('e, 'd) comet_env \<Rightarrow> string + persisted_state \<Rightarrow> ('e, 'd) comet_app \<Rightarrow> (nat \<times> ('e, 'd) comet_app) option" where
  "take_over_snapshot ce snap c = (case snap of
       Inl _ \<Rightarrow> Some (3, c)
     | Inr st \<Rightarrow> (let app = cm_app c in do {
         (r, us1, es1, spot1) \<leftarrow> restore_state (ce_keccak ce) st (ap_unified app, ap_engine app, ap_spot app);
         case r of
           Inl _ \<Rightarrow> Some (3, c)
         | Inr (h, ts, app_hash) \<Rightarrow> do {
             perp1 \<leftarrow> (case ap_perp app of Some en \<Rightarrow> map_option Some (restore_perp_engine_state st en) | None \<Rightarrow> Some None);
             Some (1, c \<lparr> cm_app := restore_chain_state h ts app_hash
               (app \<lparr> ap_unified := us1, ap_engine := es1, ap_spot := spot1, ap_perp := perp1 \<rparr>) \<rparr>)
           } }))"

section \<open>What a decided block does\<close>

text \<open>What every step of a block keeps or only moves forward.\<close>

definition moves_on :: "app_state \<Rightarrow> app_state \<Rightarrow> bool" where
  "moves_on st st' = (ap_height st' = ap_height st \<and> (\<forall>a. last_nonce st a \<le> last_nonce st' a))"

lemma moves_on_refl [simp]: "moves_on st st"
  by (simp add: moves_on_def)

lemma moves_on_trans: "moves_on st st' \<Longrightarrow> moves_on st' st'' \<Longrightarrow> moves_on st st''"
  by (auto simp: moves_on_def intro: order_trans)

lemma execute_tx_moves_on: "execute_tx ec keccak tx ts st = Some (r, st') \<Longrightarrow> moves_on st st'"
  using execute_tx_height execute_tx_nonce_steps nonce_steps_mono by (fastforce simp: moves_on_def)

lemma run_raw_evm_app [simp]: "cm_app (snd (run_raw_evm ce h raw tx c)) = cm_app c"
  by (auto simp: run_raw_evm_def store_receipt_def Let_def split: option.splits sum.splits prod.splits)

lemma run_raw_evm_code: "rs_codespace (fst (run_raw_evm ce h raw tx c)) \<noteq> ''encoding''"
  by (auto simp: run_raw_evm_def failed_result_def split: option.splits sum.splits prod.splits)

lemma run_core_tx_cases:
  assumes "run_core_tx ce ts tx c = Some (r, c')"
  obtains (ok) res where "execute_tx (ce_ecdsa ce) (ce_keccak ce) tx ts (cm_app c) = Some (Inr res, cm_app c')"
      "rs_code r = 0" "rs_codespace r = []"
  | (failed) e where "execute_tx (ce_ecdsa ce) (ce_keccak ce) tx ts (cm_app c) = Some (Inl e, cm_app c')"
      "r = failed_result (LogApp e) ''app''"
proof -
  obtain x app where x: "execute_tx (ce_ecdsa ce) (ce_keccak ce) tx ts (cm_app c) = Some (x, app)" and c': "cm_app c' = app"
    and r: "(case x of Inr res \<Rightarrow> \<lparr> rs_code = 0, rs_log = LogText ''OK'', rs_gas_wanted = 1, rs_gas_used = i64_of_u64 (tr_gas_used res),
           rs_events = map HyperCoreEvent (tr_events res), rs_codespace = [] \<rparr>
       | Inl e \<Rightarrow> failed_result (LogApp e) ''app'') = r"
    using assms by (auto simp: run_core_tx_def Option.bind_eq_Some_conv)
  show ?thesis
    by (cases x) (use x c' r in \<open>auto intro: ok failed\<close>)
qed

lemma run_block_tx_facts:
  assumes "run_block_tx ce h ts raw c = Some (r, c')"
  shows "moves_on (cm_app c) (cm_app c')"
    "ce_decode ce raw \<noteq> None \<or> ce_evm_decode ce raw \<noteq> None \<Longrightarrow> rs_codespace r \<noteq> ''encoding''"
    "ce_decode ce raw = Some tx \<Longrightarrow> rs_code r = 0 \<Longrightarrow> TIMESTAMP_THRESHOLD < tx_nonce tx \<Longrightarrow>
      \<exists>a. tx_sender (ce_ecdsa ce) (ce_keccak ce) tx = Inr a \<and> tx_nonce tx \<le> last_nonce (cm_app c') a"
proof (atomize (full), cases "ce_decode ce raw")
  case None
  show "moves_on (cm_app c) (cm_app c') \<and>
      (ce_decode ce raw \<noteq> None \<or> ce_evm_decode ce raw \<noteq> None \<longrightarrow> rs_codespace r \<noteq> ''encoding'') \<and>
      (ce_decode ce raw = Some tx \<longrightarrow> rs_code r = 0 \<longrightarrow> TIMESTAMP_THRESHOLD < tx_nonce tx \<longrightarrow>
        (\<exists>a. tx_sender (ce_ecdsa ce) (ce_keccak ce) tx = Inr a \<and> tx_nonce tx \<le> last_nonce (cm_app c') a))"
  proof (cases "ce_evm_decode ce raw")
    case (Some etx)
    then have "run_raw_evm ce h raw etx c = (r, c')" using assms None by (simp add: run_block_tx_def)
    then show ?thesis using None run_raw_evm_app [of ce h raw etx c] run_raw_evm_code [of ce h raw etx c] by simp
  qed (use assms None in \<open>simp add: run_block_tx_def\<close>)
next
  case (Some t)
  then have run: "run_core_tx ce ts t c = Some (r, c')" using assms by (simp add: run_block_tx_def)
  then show "moves_on (cm_app c) (cm_app c') \<and>
      (ce_decode ce raw \<noteq> None \<or> ce_evm_decode ce raw \<noteq> None \<longrightarrow> rs_codespace r \<noteq> ''encoding'') \<and>
      (ce_decode ce raw = Some tx \<longrightarrow> rs_code r = 0 \<longrightarrow> TIMESTAMP_THRESHOLD < tx_nonce tx \<longrightarrow>
        (\<exists>a. tx_sender (ce_ecdsa ce) (ce_keccak ce) tx = Inr a \<and> tx_nonce tx \<le> last_nonce (cm_app c') a))"
    by (cases rule: run_core_tx_cases)
      (use Some execute_tx_moves_on executed_nonce_recorded in \<open>auto simp: failed_result_def\<close>)
qed

text \<open>One result for each transaction, in order; and what a success leaves behind stays.\<close>

lemma run_block_txs_facts:
  assumes "run_block_txs ce h ts raws c = Some (rs, c')"
  shows "length rs = length raws \<and> moves_on (cm_app c) (cm_app c')"
  using assms
proof (induction raws arbitrary: c rs)
  case (Cons raw raws)
  then obtain r c1 rs' where "run_block_tx ce h ts raw c = Some (r, c1)" "run_block_txs ce h ts raws c1 = Some (rs', c')" "rs = r # rs'"
    by (auto simp: Option.bind_eq_Some_conv)
  then show ?case using Cons.IH [of c1 rs'] run_block_tx_facts(1) moves_on_trans by fastforce
qed simp

lemma run_block_txs_success:
  assumes "run_block_txs ce h ts raws c = Some (rs, c')" "i < length raws" "ce_decode ce (raws ! i) = Some tx"
    "rs_code (rs ! i) = 0" "TIMESTAMP_THRESHOLD < tx_nonce tx"
  shows "\<exists>a. tx_sender (ce_ecdsa ce) (ce_keccak ce) tx = Inr a \<and> tx_nonce tx \<le> last_nonce (cm_app c') a"
  using assms(1,2,3,4)
proof (induction raws arbitrary: c rs i)
  case (Cons raw raws)
  then obtain r c1 rs' where step: "run_block_tx ce h ts raw c = Some (r, c1)"
    and rest: "run_block_txs ce h ts raws c1 = Some (rs', c')" and rs: "rs = r # rs'"
    by (auto simp: Option.bind_eq_Some_conv)
  show ?case
  proof (cases i)
    case 0
    then have "ce_decode ce raw = Some tx" "rs_code r = 0" using Cons.prems(3,4) rs by simp_all
    then obtain a where a: "tx_sender (ce_ecdsa ce) (ce_keccak ce) tx = Inr a" "tx_nonce tx \<le> last_nonce (cm_app c1) a"
      using run_block_tx_facts(3) [OF step _ _ assms(5)] by blast
    moreover have "last_nonce (cm_app c1) a \<le> last_nonce (cm_app c') a"
      using run_block_txs_facts [OF rest] by (simp add: moves_on_def)
    ultimately show ?thesis by (meson order_trans)
  next
    case (Suc j)
    then show ?thesis using Cons.IH [OF rest, of j] Cons.prems rs by simp
  qed
qed simp

lemma app_end_block_last_nonce: "app_end_block keccak st = Some st' \<Longrightarrow> last_nonce st' a = last_nonce st a"
  using app_end_block_nonces last_nonce_of by blast

text \<open>A finalized block, unless its height was finalized before.\<close>

lemma finalize_block_run:
  assumes "finalize_block ce q c = Some (r, c')" "ap_height (cm_app c) \<noteq> u64_of_i64 (fq_height q)"
  obtains app1 c2 where "snd (record_evidence (fq_misbehavior q) (app_begin_block (u64_of_i64 (fq_height q)) (request_timestamp q) (cm_app c))) = app1"
    "run_block_txs ce (u64_of_i64 (fq_height q)) (request_timestamp q) (fq_txs q) (c \<lparr> cm_app := app1 \<rparr>) = Some (fr_tx_results r, c2)"
    "app_end_block (ce_keccak ce) (sync_evm_root ce c2) = Some (cm_app c')" "fr_app_hash r = app_commit (cm_app c')"
  using assms
  by (auto simp: finalize_block_def Let_def split_beta Option.bind_eq_Some_conv split: option.splits)

lemma finalize_block_facts:
  assumes "finalize_block ce q c = Some (r, c')" "ap_height (cm_app c) \<noteq> u64_of_i64 (fq_height q)"
  shows "ap_height (cm_app c') = u64_of_i64 (fq_height q)" "length (fr_tx_results r) = length (fq_txs q)"
    "fr_app_hash r = ap_app_hash (cm_app c')" "\<forall>a. last_nonce (cm_app c) a \<le> last_nonce (cm_app c') a"
proof -
  let ?h = "u64_of_i64 (fq_height q)" and ?ts = "request_timestamp q"
  obtain app1 c2 where r: "snd (record_evidence (fq_misbehavior q) (app_begin_block ?h ?ts (cm_app c))) = app1"
    "run_block_txs ce ?h ?ts (fq_txs q) (c \<lparr> cm_app := app1 \<rparr>) = Some (fr_tx_results r, c2)"
    "app_end_block (ce_keccak ce) (sync_evm_root ce c2) = Some (cm_app c')" "fr_app_hash r = app_commit (cm_app c')"
    using assms by (rule finalize_block_run)
  have app1: "ap_height app1 = ?h" "last_nonce app1 a = last_nonce (cm_app c) a" for a
    using r(1) by (auto simp: record_evidence_def app_begin_block_def last_nonce_def)
  have txs: "length (fr_tx_results r) = length (fq_txs q)" "moves_on app1 (cm_app c2)"
    using run_block_txs_facts [OF r(2)] by simp_all
  have sync: "ap_height (sync_evm_root ce c2) = ap_height (cm_app c2)" "last_nonce (sync_evm_root ce c2) a = last_nonce (cm_app c2) a" for a
    by (simp_all add: sync_evm_root_def last_nonce_def)
  show "ap_height (cm_app c') = ?h" using app_end_block_height [OF r(3)] sync txs(2) app1 by (simp add: moves_on_def)
  show "length (fr_tx_results r) = length (fq_txs q)" by (rule txs(1))
  show "fr_app_hash r = ap_app_hash (cm_app c')" using r(4) by (simp add: app_commit_def)
  show "\<forall>a. last_nonce (cm_app c) a \<le> last_nonce (cm_app c') a"
    using app_end_block_last_nonce [OF r(3)] sync txs(2) app1 by (simp add: moves_on_def)
qed

section \<open>Deciding a block\<close>

text \<open>
  (C31) Finalizing a height again, as CometBFT does when it replays its last block,
  changes nothing and reports the hash of the first time; the first time the block
  takes the requested height, gives one result for each transaction in order, and
  reports the hash the application committed.
\<close>

theorem finalize_block_once:
  assumes "finalize_block ce q c = Some (r, c')" "ap_height (cm_app c) \<noteq> u64_of_i64 (fq_height q)"
  shows "finalize_block ce q c' = Some (\<lparr> fr_events = [], fr_tx_results = [], fr_validator_updates = [], fr_app_hash = fr_app_hash r \<rparr>, c') \<and>
    ap_height (cm_app c') = u64_of_i64 (fq_height q) \<and> length (fr_tx_results r) = length (fq_txs q) \<and>
    fr_app_hash r = app_commit (cm_app c')"
  using finalize_block_facts [OF assms] by (simp add: finalize_block_def app_commit_def)

text \<open>Blocks and commits, one after the other.\<close>

inductive comet_step :: "('e, 'd) comet_env \<Rightarrow> ('e, 'd) comet_app \<Rightarrow> ('e, 'd) comet_app \<Rightarrow> bool" for ce where
  block: "finalize_block ce q c = Some (r, c') \<Longrightarrow> comet_step ce c c'"
| commit: "comet_commit ce c = Some c' \<Longrightarrow> comet_step ce c c'"

inductive_cases comet_stepE: "comet_step ce c c'"

lemma comet_step_last_nonce: "comet_step ce c c' \<Longrightarrow> last_nonce (cm_app c) a \<le> last_nonce (cm_app c') a"
proof (erule comet_stepE)
  fix q r assume run: "finalize_block ce q c = Some (r, c')"
  show ?thesis
  proof (cases "ap_height (cm_app c) = u64_of_i64 (fq_height q)")
    case True
    then show ?thesis using run by (simp add: finalize_block_def)
  next
    case False
    then show ?thesis using finalize_block_facts(4) [OF run] by simp
  qed
qed (auto simp: comet_commit_def split: option.splits)

lemma comet_steps_last_nonce: "(comet_step ce)\<^sup>*\<^sup>* c c' \<Longrightarrow> last_nonce (cm_app c) a \<le> last_nonce (cm_app c') a"
  by (induction rule: rtranclp_induct) (auto dest: comet_step_last_nonce order_trans)

lemma run_block_txs_stale:
  assumes "run_block_txs ce h ts raws c = Some (rs, c')" "j < length raws" "ce_decode ce (raws ! j) = Some tx"
    "tx_sender (ce_ecdsa ce) (ce_keccak ce) tx = Inr a" "TIMESTAMP_THRESHOLD < tx_nonce tx" "tx_nonce tx \<le> last_nonce (cm_app c) a"
  shows "rs ! j = failed_result (LogApp (AppStateError StInvalidNonce)) ''app''"
  using assms(1,2,3,6)
proof (induction raws arbitrary: c rs j)
  case (Cons raw raws)
  then obtain r c1 rs' where step: "run_block_tx ce h ts raw c = Some (r, c1)"
    and rest: "run_block_txs ce h ts raws c1 = Some (rs', c')" and rs: "rs = r # rs'"
    by (auto simp: Option.bind_eq_Some_conv)
  show ?case
  proof (cases j)
    case 0
    then show ?thesis
      using step rs Cons.prems(3) stale_nonce_refused [OF assms(4,5) Cons.prems(4)] by (simp add: run_block_tx_def run_core_tx_def)
  next
    case (Suc k)
    have "last_nonce (cm_app c) a \<le> last_nonce (cm_app c1) a" using run_block_tx_facts(1) [OF step] by (simp add: moves_on_def)
    then show ?thesis using Cons.IH [OF rest, of k] Cons.prems Suc rs by simp
  qed
qed simp

text \<open>
  (C14) A transaction with a timestamp nonce that succeeded in a decided block fails as a
  replay in every later block that contains it again, wherever it stands there and
  whatever blocks are decided and committed in between.
\<close>

theorem decided_transaction_not_replayed:
  assumes "finalize_block ce q c = Some (r, c1)" "i < length (fr_tx_results r)" "ce_decode ce (fq_txs q ! i) = Some tx"
    "rs_code (fr_tx_results r ! i) = 0" "TIMESTAMP_THRESHOLD < tx_nonce tx" "(comet_step ce)\<^sup>*\<^sup>* c1 c2"
    and "finalize_block ce q' c2 = Some (r', c3)" "j < length (fr_tx_results r')" "fq_txs q' ! j = fq_txs q ! i"
  shows "fr_tx_results r' ! j = failed_result (LogApp (AppStateError StInvalidNonce)) ''app''"
proof -
  let ?h = "u64_of_i64 (fq_height q)"
  have new: "ap_height (cm_app c) \<noteq> ?h" using assms(1,2) by (auto simp: finalize_block_def)
  obtain app1 c' where run: "run_block_txs ce ?h (request_timestamp q) (fq_txs q) (c \<lparr> cm_app := app1 \<rparr>) = Some (fr_tx_results r, c')"
    and fin: "app_end_block (ce_keccak ce) (sync_evm_root ce c') = Some (cm_app c1)"
    using assms(1) new by (rule finalize_block_run)
  have "i < length (fq_txs q)" using finalize_block_facts(2) [OF assms(1) new] assms(2) by simp
  then obtain a where a: "tx_sender (ce_ecdsa ce) (ce_keccak ce) tx = Inr a" "tx_nonce tx \<le> last_nonce (cm_app c') a"
    using run_block_txs_success [OF run _ assms(3,4,5)] by blast
  note a(2)
  also have "last_nonce (cm_app c') a = last_nonce (cm_app c1) a"
    using app_end_block_last_nonce [OF fin] by (simp add: sync_evm_root_def last_nonce_def)
  also have "\<dots> \<le> last_nonce (cm_app c2) a" using assms(6) by (rule comet_steps_last_nonce)
  finally have old: "tx_nonce tx \<le> last_nonce (cm_app c2) a" .
  have new': "ap_height (cm_app c2) \<noteq> u64_of_i64 (fq_height q')" using assms(7,8) by (auto simp: finalize_block_def)
  obtain app2 c4 where first: "snd (record_evidence (fq_misbehavior q') (app_begin_block (u64_of_i64 (fq_height q'))
      (request_timestamp q') (cm_app c2))) = app2"
    and run': "run_block_txs ce (u64_of_i64 (fq_height q')) (request_timestamp q') (fq_txs q') (c2 \<lparr> cm_app := app2 \<rparr>) =
      Some (fr_tx_results r', c4)"
    using assms(7) new' by (rule finalize_block_run)
  have "last_nonce app2 a = last_nonce (cm_app c2) a"
    using first by (auto simp: record_evidence_def app_begin_block_def last_nonce_def)
  moreover have "j < length (fq_txs q')" using finalize_block_facts(2) [OF assms(7) new'] assms(8) by simp
  ultimately show ?thesis
    using run_block_txs_stale [OF run' _ _ a(1) assms(5)] old assms(3,9) by simp
qed

lemma run_block_txs_readable:
  "run_block_txs ce h ts raws c = Some (rs, c') \<Longrightarrow> list_all (\<lambda>raw. ce_decode ce raw \<noteq> None \<or> ce_evm_decode ce raw \<noteq> None) raws \<Longrightarrow>
   list_all (\<lambda>r. rs_codespace r \<noteq> ''encoding'') rs"
proof (induction raws arbitrary: c rs)
  case (Cons raw raws)
  then obtain r c1 rs' where step: "run_block_tx ce h ts raw c = Some (r, c1)"
    and rest: "run_block_txs ce h ts raws c1 = Some (rs', c')" and rs: "rs = r # rs'"
    by (auto simp: Option.bind_eq_Some_conv)
  have "rs_codespace r \<noteq> ''encoding''" using run_block_tx_facts(2) [OF step] Cons.prems(2) by simp
  then show ?case using Cons.IH [OF rest] Cons.prems(2) rs by simp
qed simp

lemma accepted_readable:
  assumes "process_proposal ce clock raws c"
  shows "list_all (\<lambda>raw. ce_decode ce raw \<noteq> None \<or> ce_evm_decode ce raw \<noteq> None) raws"
proof -
  have "proposal_tx_ok ce (clock i) c (raws ! i)" if "i < length raws" for i
    using that assms by (auto simp: process_proposal_def list_all_iff in_set_enumerate_eq dest!: bspec [of _ _ "(i, raws ! i)"])
  then show ?thesis
    by (force simp: list_all_length proposal_tx_ok_def split: option.splits)
qed

text \<open>
  Every transaction of a proposal that a validator accepted is read when the block
  is executed: no result of the block is a decoding failure.
\<close>

theorem accepted_proposal_readable:
  assumes "process_proposal ce clock (fq_txs q) c0" "finalize_block ce q c = Some (r, c')"
  shows "list_all (\<lambda>x. rs_codespace x \<noteq> ''encoding'') (fr_tx_results r)"
proof (cases "ap_height (cm_app c) = u64_of_i64 (fq_height q)")
  case True
  then show ?thesis using assms(2) by (auto simp: finalize_block_def)
next
  case False
  then obtain app1 c2 where "run_block_txs ce (u64_of_i64 (fq_height q)) (request_timestamp q) (fq_txs q) (c \<lparr> cm_app := app1 \<rparr>) =
      Some (fr_tx_results r, c2)" using finalize_block_run [OF assms(2)] by metis
  then show ?thesis using accepted_readable [OF assms(1)] by (rule run_block_txs_readable)
qed

section \<open>A block with one transaction\<close>

definition clock_env :: "(unit, column_family \<Rightarrow> row list) comet_env" where
  "clock_env = \<lparr> ce_decode = (\<lambda>raw. if raw = [1] then Some mode_tx else None), ce_keccak = pad_hash, ce_ecdsa = any_signer,
     ce_hex = (\<lambda>_. []), ce_evm_decode = (\<lambda>_. None), ce_evm_execute = (\<lambda>_ e. (Inl [], e)), ce_evm_commit = (\<lambda>e. e),
     ce_evm_root = (\<lambda>_. []), ce_evm_data = (\<lambda>_. evm_data_default), ce_kv = rows_store, ce_codecs = sample_codecs \<rparr>"

definition one_tx_request :: "nat \<Rightarrow> finalize_request" where
  "one_tx_request h = \<lparr> fq_height = int h, fq_time = Some (1700000001, 0), fq_txs = [[1]], fq_misbehavior = [] \<rparr>"

lemma clock_env_block:
  "\<exists>r c. finalize_block clock_env (one_tx_request 1) (comet_new app_state_new) = Some (r, c) \<and>
     length (fr_tx_results r) = 1 \<and> rs_code (fr_tx_results r ! 0) = 0 \<and> ap_height (cm_app c) = 1 \<and>
     ap_perp (cm_app c) = None \<and> cm_evm c = None \<and> cm_db c = None \<and> last_nonce (cm_app c) any_address = 1700000000000"
proof -
  let ?st = "app_begin_block 1 1700000001000 app_state_new"
  let ?st1 = "?st \<lparr> ap_last_evidence_count := 0 \<rparr>"
  let ?st2 = "accept_nonce any_address 1700000000000 ?st1"
  have h: "u64_of_i64 1 = 1" and t: "request_timestamp (one_tx_request 1) = 1700000001000"
    by (simp_all add: u64_of_i64_def request_timestamp_def one_tx_request_def wrap_u64_def u64_mod_def)
  obtain evs where run: "execute_tx any_signer pad_hash mode_tx 1700000001000 ?st1 =
      Some (Inr \<lparr> tr_success = True, tr_events = evs, tr_gas_used = 1 \<rparr>, ?st2)"
    using mode_tx_sender
    by (simp add: execute_tx_def validate_tx_def validate_nonce_def TIMESTAMP_THRESHOLD_def mode_tx_def sample_tx_def
        execute_action_def execute_set_margin_mode_def app_state_new_def app_state_of_def hm_get_or_def accept_nonce_def app_begin_block_def)
  have "ap_perp (?st2 \<lparr> ap_evm_root := None \<rparr>) = None"
    by (simp add: accept_nonce_def app_begin_block_def app_state_new_def app_state_of_def update_timestamp_nonce_def increment_nonce_def)
  then obtain st3 where st3: "app_end_block pad_hash (?st2 \<lparr> ap_evm_root := None \<rparr>) = Some st3" "ap_perp st3 = None"
    using end_block_idle by blast
  have "ap_height st3 = 1"
    using app_end_block_height [OF st3(1)] by (simp add: accept_nonce_def app_begin_block_def update_timestamp_nonce_def increment_nonce_def)
  moreover have "last_nonce st3 any_address = 1700000000000"
    using app_end_block_last_nonce [OF st3(1), of any_address]
    by (simp add: accept_nonce_def app_begin_block_def last_nonce_def update_timestamp_nonce_def increment_nonce_def hm_get_or_def
        TIMESTAMP_THRESHOLD_def app_state_new_def app_state_of_def)
  moreover have "ap_height app_state_new = 0" by (simp add: app_state_new_def app_state_of_def)
  ultimately show ?thesis
    using h t run st3
    by (simp add: finalize_block_def Let_def record_evidence_def run_block_tx_def run_core_tx_def comet_new_def sync_evm_root_def
        one_tx_request_def clock_env_def)
qed

theorem finalize_block_once_witness:
  "\<exists>r c. finalize_block clock_env (one_tx_request 1) (comet_new app_state_new) = Some (r, c) \<and> ap_height (cm_app c) = 1"
proof -
  obtain r c where run: "finalize_block clock_env (one_tx_request 1) (comet_new app_state_new) = Some (r, c)"
    using clock_env_block by blast
  have "ap_height (cm_app (comet_new app_state_new)) \<noteq> u64_of_i64 (fq_height (one_tx_request 1))"
    by (simp add: comet_new_def app_state_new_def app_state_of_def one_tx_request_def u64_of_i64_def)
  from finalize_block_once [OF run this] run show ?thesis by (auto simp: one_tx_request_def u64_of_i64_def)
qed

lemma clock_env_block_again:
  assumes "ap_height (cm_app c) = 1" "ap_perp (cm_app c) = None" "cm_evm c = None" "cm_db c = None"
    "last_nonce (cm_app c) any_address = 1700000000000"
  shows "\<exists>r c'. finalize_block clock_env (one_tx_request 2) c = Some (r, c') \<and> length (fr_tx_results r) = 1"
proof -
  let ?st = "(app_begin_block 2 1700000001000 (cm_app c)) \<lparr> ap_last_evidence_count := 0 \<rparr>"
  have h: "u64_of_i64 2 = 2" and t: "request_timestamp (one_tx_request 2) = 1700000001000"
    by (simp_all add: u64_of_i64_def request_timestamp_def one_tx_request_def wrap_u64_def u64_mod_def)
  have "last_nonce ?st any_address = 1700000000000" using assms(5) by (simp add: app_begin_block_def last_nonce_def)
  then have run: "execute_tx any_signer pad_hash mode_tx 1700000001000 ?st = Some (Inl (AppStateError StInvalidNonce), ?st)"
    using stale_nonce_refused [OF mode_tx_sender] by (simp add: mode_tx_def TIMESTAMP_THRESHOLD_def)
  have "ap_perp (?st \<lparr> ap_evm_root := None \<rparr>) = None" using assms(2) by (simp add: app_begin_block_def)
  then obtain st3 where "app_end_block pad_hash (?st \<lparr> ap_evm_root := None \<rparr>) = Some st3" using end_block_idle by blast
  then show ?thesis
    using h t run assms(1,3,4)
    by (simp add: finalize_block_def Let_def record_evidence_def run_block_tx_def run_core_tx_def sync_evm_root_def
        one_tx_request_def clock_env_def)
qed

theorem decided_transaction_not_replayed_witness:
  "\<exists>r c r' c'. finalize_block clock_env (one_tx_request 1) (comet_new app_state_new) = Some (r, c) \<and>
     rs_code (fr_tx_results r ! 0) = 0 \<and> finalize_block clock_env (one_tx_request 2) c = Some (r', c') \<and>
     fr_tx_results r' ! 0 = failed_result (LogApp (AppStateError StInvalidNonce)) ''app''"
proof -
  obtain r c where run: "finalize_block clock_env (one_tx_request 1) (comet_new app_state_new) = Some (r, c)"
    "length (fr_tx_results r) = 1" "rs_code (fr_tx_results r ! 0) = 0"
    and c: "ap_height (cm_app c) = 1" "ap_perp (cm_app c) = None" "cm_evm c = None" "cm_db c = None"
      "last_nonce (cm_app c) any_address = 1700000000000"
    using clock_env_block by blast
  obtain r' c' where again: "finalize_block clock_env (one_tx_request 2) c = Some (r', c')" "length (fr_tx_results r') = 1"
    using clock_env_block_again [OF c] by blast
  have tx: "ce_decode clock_env (fq_txs (one_tx_request 1) ! 0) = Some mode_tx" "TIMESTAMP_THRESHOLD < tx_nonce mode_tx"
    by (simp_all add: clock_env_def one_tx_request_def mode_tx_def TIMESTAMP_THRESHOLD_def)
  have "fr_tx_results r' ! 0 = failed_result (LogApp (AppStateError StInvalidNonce)) ''app''"
    by (rule decided_transaction_not_replayed [OF run(1) _ tx(1) run(3) tx(2) rtranclp.rtrancl_refl again(1)])
      (use run(2) again(2) in \<open>simp_all add: one_tx_request_def\<close>)
  then show ?thesis using run again by blast
qed

theorem accepted_proposal_readable_witness:
  "\<exists>r c. finalize_block clock_env (one_tx_request 1) (comet_new app_state_new) = Some (r, c) \<and>
     rs_codespace (fr_tx_results r ! 0) \<noteq> ''encoding''"
proof -
  obtain r c where run: "finalize_block clock_env (one_tx_request 1) (comet_new app_state_new) = Some (r, c)"
    "length (fr_tx_results r) = 1" using clock_env_block by blast
  have "process_proposal clock_env (\<lambda>_. 1700000001000) (fq_txs (one_tx_request 1)) (comet_new app_state_new)"
    using mode_tx_sender
    by (simp add: process_proposal_def proposal_tx_ok_def clock_env_def check_tx_def validate_tx_def validate_nonce_def one_tx_request_def
        TIMESTAMP_THRESHOLD_def comet_new_def app_state_new_def app_state_of_def hm_get_or_def mode_tx_def sample_tx_def)
  from accepted_proposal_readable [OF this run(1)] run show ?thesis by (auto simp: list_all_length)
qed

section \<open>The database and snapshots\<close>

lemma run_block_txs_db: "run_block_txs ce h ts raws c = Some (rs, c') \<Longrightarrow> cm_db c' = cm_db c"
proof (induction raws arbitrary: c rs)
  case (Cons raw raws)
  then obtain r c1 rs' where step: "run_block_tx ce h ts raw c = Some (r, c1)" and rest: "run_block_txs ce h ts raws c1 = Some (rs', c')"
    by (auto simp: Option.bind_eq_Some_conv)
  have evm: "cm_db (snd (run_raw_evm ce h raw tx c)) = cm_db c" for tx
    by (auto simp: run_raw_evm_def store_receipt_def Let_def split: option.splits sum.splits prod.splits)
  have "cm_db c1 = cm_db c"
    using step evm by (auto simp: run_block_tx_def run_core_tx_def Option.bind_eq_Some_conv split: option.splits) (metis snd_conv)
  then show ?case using Cons.IH [OF rest] by simp
qed simp

lemma finalize_block_pending:
  assumes "finalize_block ce q c = Some (r, c')" "ap_height (cm_app c) \<noteq> u64_of_i64 (fq_height q)" "cm_db c = Some db"
  shows "\<exists>p. cm_pending c' = Some p \<and> cm_db c' = Some db \<and> ps_height p = u64_of_i64 (fq_height q) \<and> ps_app_hash p = fr_app_hash r"
proof -
  let ?h = "u64_of_i64 (fq_height q)" and ?ts = "request_timestamp q"
  obtain app1 c2 where app1: "snd (record_evidence (fq_misbehavior q) (app_begin_block ?h ?ts (cm_app c))) = app1"
    and run: "run_block_txs ce ?h ?ts (fq_txs q) (c \<lparr> cm_app := app1 \<rparr>) = Some (fr_tx_results r, c2)"
    and fin: "app_end_block (ce_keccak ce) (sync_evm_root ce c2) = Some (cm_app c')" and h: "fr_app_hash r = app_commit (cm_app c')"
    using assms(1,2) by (rule finalize_block_run)
  have db: "cm_db c2 = Some db" using run_block_txs_db [OF run] assms(3) by simp
  let ?c3 = "c2 \<lparr> cm_app := cm_app c', cm_block_number := map_option (\<lambda>_. ?h) (cm_block_number c2) \<rparr>"
  obtain p where p: "state_to_persist ce ?h ?ts (fr_app_hash r) ?c3 = Some p" "c' = ?c3 \<lparr> cm_pending := Some p \<rparr>"
    using assms(1,2) db run fin h app1
    by (auto simp: finalize_block_def Let_def split_beta Option.bind_eq_Some_conv)
  have "ps_height p = ?h \<and> ps_app_hash p = fr_app_hash r"
    using p(1) extract_chain(4,6) by (auto simp: state_to_persist_def Let_def split: option.splits)
  moreover have "cm_pending c' = Some p" "cm_db c' = Some db" by (subst p(2), simp add: db)+
  ultimately show ?thesis by blast
qed

text \<open>The state goes to the database when the block is committed; what the database holds then is the decided block.\<close>

theorem committed_block_reloads:
  assumes "finalize_block ce q c = Some (r, c')" "ap_height (cm_app c) \<noteq> u64_of_i64 (fq_height q)" "cm_db c = Some db"
    and "cm_pending c' = Some p" "persist_state (ce_kv ce) (ce_codecs ce) p db = Some (Inr db')"
    and "store_ok (ce_kv ce) contents" "savable (ce_codecs ce) p" "reads_work (ce_kv ce) db'"
      "\<forall>k v. contents db' EvmStorage k = Some v \<longrightarrow> 32 \<le> length v"
  shows "comet_commit ce c' = Some (c' \<lparr> cm_pending := None, cm_db := Some db' \<rparr>) \<and>
    (\<exists>st. load_state (ce_kv ce) (ce_codecs ce) db' = Some (Inr (Some st)) \<and> ps_height st = u64_of_i64 (fq_height q) \<and>
      ps_app_hash st = fr_app_hash r)"
proof -
  have p: "cm_db c' = Some db" "ps_height p = u64_of_i64 (fq_height q)" "ps_app_hash p = fr_app_hash r"
    using finalize_block_pending [OF assms(1-3)] assms(4) by auto
  then show ?thesis
    using saved_state_reloads [OF assms(6,5,7,8,9)] assms(4,5) by (auto simp: comet_commit_def reloaded_def)
qed

text \<open>A node that takes over a snapshot keeps its own nonces and client ids, unlike one that restarts.\<close>

theorem snapshot_leaves_nonces:
  assumes "take_over_snapshot ce (Inr st) c = Some (1, c')"
  shows "ap_nonces (cm_app c') = ap_nonces (cm_app c) \<and> ap_cloid_to_oid (cm_app c') = ap_cloid_to_oid (cm_app c) \<and>
    cm_evm c' = cm_evm c \<and> ap_height (cm_app c') = ps_height st"
proof -
  obtain x us1 es1 spot1 where r: "restore_state (ce_keccak ce) st (ap_unified (cm_app c), ap_engine (cm_app c), ap_spot (cm_app c)) =
      Some (x, us1, es1, spot1)"
    using assms by (auto simp: take_over_snapshot_def Let_def Option.bind_eq_Some_conv)
  then obtain ts ah where x: "x = Inr (ps_height st, ts, ah)"
    using assms by (auto simp: take_over_snapshot_def restore_state_def Let_def Option.bind_eq_Some_conv split: if_splits option.splits)
  show ?thesis
    using assms r unfolding x by (auto simp: take_over_snapshot_def Let_def Option.bind_eq_Some_conv restore_chain_state_def)
qed

section \<open>What does not hold\<close>

text \<open>
  The comparison that \<open>info\<close> makes at every start fails after every block: the hash is
  part of its own preimage, so recomputing it from the state that stores it gives
  another hash, unless Keccak collides.
\<close>

lemma stored_hash_mismatch:
  assumes "app_end_block keccak st = Some st'" "compute_app_hash keccak st' = ap_app_hash st'"
  shows "ap_app_hash st' = ap_app_hash st \<or> (\<exists>x y. x \<noteq> y \<and> keccak x = keccak y)"
proof -
  obtain pre post where hash: "\<And>x. compute_app_hash keccak (st' \<lparr> ap_app_hash := x \<rparr>) = keccak (pre @ x @ post)"
  proof
    fix x
    have "trading_state (st' \<lparr> ap_app_hash := x \<rparr>) = trading_state st'" by (cases "ap_perp st'") (simp_all add: trading_state_def)
    then show "compute_app_hash keccak (st' \<lparr> ap_app_hash := x \<rparr>) = keccak ((u64_le (ap_height st') @ u64_le (ap_timestamp st')) @ x @
      (compute_unified_state_root keccak (ap_unified st') @ compute_nonce_root keccak (ap_nonces st') @
       positions_root keccak (trading_state st') @ orders_root keccak (trading_state st') @ markets_root keccak (trading_state st') @
       leverage_root keccak (trading_state st') @ scalars_hash keccak (trading_state st') @
       compute_cloid_root keccak (ap_cloid_to_oid st') @ (case ap_evm_root st' of Some r \<Rightarrow> r | None \<Rightarrow> [])))"
      by (simp add: compute_app_hash_def Let_def)
  qed
  have "st' \<lparr> ap_app_hash := ap_app_hash st' \<rparr> = st'" by (cases st') simp
  then have own: "compute_app_hash keccak st' = keccak (pre @ ap_app_hash st' @ post)" using hash [of "ap_app_hash st'"] by metis
  have "keccak (pre @ ap_app_hash st @ post) = keccak (pre @ ap_app_hash st' @ post)"
    using app_end_block_hash [OF assms(1)] assms(2) hash [of "ap_app_hash st"] own by (simp add: app_commit_def)
  then show ?thesis by (metis append_same_eq same_append_eq)
qed

theorem info_never_matches:
  assumes "finalize_block ce q c = Some (r, c')" "ap_height (cm_app c) \<noteq> u64_of_i64 (fq_height q)"
    "ir_matches (comet_info (ce_keccak ce) c')"
  shows "\<exists>st. app_end_block (ce_keccak ce) st = Some (cm_app c') \<and>
    (fr_app_hash r = ap_app_hash st \<or> (\<exists>x y. x \<noteq> y \<and> ce_keccak ce x = ce_keccak ce y))"
proof -
  obtain app1 c2 where fin: "app_end_block (ce_keccak ce) (sync_evm_root ce c2) = Some (cm_app c')"
    and h: "fr_app_hash r = app_commit (cm_app c')" using finalize_block_run [OF assms(1,2)] by metis
  show ?thesis
    using stored_hash_mismatch [OF fin] fin h assms(3) by (auto simp: comet_info_def app_commit_def)
qed

text \<open>
  A proposal is checked against the clock of the validator: two validators in the same
  state can disagree on it.
\<close>

theorem proposal_depends_on_clock:
  "process_proposal clock_env (\<lambda>_. 1700000001000) [[1]] (comet_new app_state_new) \<and>
   \<not> process_proposal clock_env (\<lambda>_. 1700009000000) [[1]] (comet_new app_state_new)"
  using mode_tx_sender
  by (simp add: process_proposal_def proposal_tx_ok_def clock_env_def check_tx_def validate_tx_def validate_nonce_def
      TIMESTAMP_THRESHOLD_def comet_new_def app_state_new_def app_state_of_def hm_get_or_def mode_tx_def sample_tx_def)

text \<open>
  The reported address of a new contract: from nonce 256 on the header of the list
  announces one byte more than the largest payload has.
\<close>

lemma length_create_nonce_bytes:
  "n < 256 \<Longrightarrow> length (create_nonce_bytes n) = create_nonce_length n"
  "256 \<le> n \<Longrightarrow> n < 2 ^ 56 \<Longrightarrow> length (create_nonce_bytes n) < create_nonce_length n"
proof -
  assume n: "256 \<le> n" "n < 2 ^ 56"
  have "be_bytes (Suc 7) n = word_of_nat (n div 256 ^ 7) # be_bytes 7 n" by (simp only: be_bytes_def upt.simps rev_append) simp
  then have be: "be_bytes 8 n = 0 # be_bytes 7 n" using n(2) by simp
  have "length (strip_zeros (be_bytes 8 n)) \<le> 7"
    using length_dropWhile_le [of "\<lambda>b. b = 0" "be_bytes 7 n"] by (simp add: strip_zeros_def be)
  then show "length (create_nonce_bytes n) < create_nonce_length n"
    using n(1) by (simp add: create_nonce_bytes_def create_nonce_length_def Let_def)
qed (simp add: create_nonce_bytes_def create_nonce_length_def)

theorem contract_address_header:
  assumes "length sender = 20" "n < 2 ^ 56"
  shows "(n < 256) = (hd (create_rlp sender n) = word_of_nat (0xc0 + length (create_payload sender n)))"
proof (cases "n < 256")
  case True
  then have "create_nonce_length n \<le> 2" by (simp add: create_nonce_length_def)
  then show ?thesis
    using True length_create_nonce_bytes(1) [OF True] assms(1) by (simp add: create_rlp_def create_payload_def Let_def)
next
  case False
  define k where "k = length (create_nonce_bytes n)"
  have nine: "create_nonce_length n = 9" using False by (simp add: create_nonce_length_def)
  then have k: "k < 9" using length_create_nonce_bytes(2) [of n] False assms(2) by (simp add: k_def)
  then have "(word_of_nat (213 + k) :: byte) \<noteq> 222"
    using word_of_nat_eq_iff [where ?'a = 8, of "213 + k" 222] by (simp add: take_bit_eq_mod)
  then show ?thesis
    using False nine assms(1) by (simp add: create_rlp_def create_payload_def Let_def k_def [symmetric])
qed

end
