(* ===== verification/State_Sync.thy ===== *)
theory State_Sync
  imports Comet_App
begin

text \<open>
  Snapshots for nodes that join: creation, serving and reassembly of chunks, from
  \<open>crates/persistence/src/snapshot.rs\<close>, and the handlers of the application for them,
  from \<open>crates/chain/src/cometbft/app.rs\<close>.

  Parameters (\<open>sync_env\<close>): the checkpoint of the database, the JSON codec of the
  persisted state, SHA-256, and the clock string in the metadata.  The snapshot directory
  is a map from heights to files; whether a write succeeds is an argument.
\<close>

section \<open>Providing snapshots\<close>

definition SNAPSHOT_FORMAT :: nat where
  "SNAPSHOT_FORMAT = 1"

definition MAX_SNAPSHOTS :: nat where
  "MAX_SNAPSHOTS = 5"

record snapshot_metadata =
  smd_height :: nat
  smd_format :: nat
  smd_chunks :: nat
  smd_hash :: digest
  smd_metadata :: string

record snapshot_manager =
  smg_interval :: nat
  smg_chunk_size :: nat
  smg_snapshots :: "(nat, snapshot_metadata) hash_map"
  smg_files :: "(nat, byte list) hash_map"

record 'd sync_env =
  sy_kv :: "'d kv_store"
  sy_codecs :: codecs
  sy_checkpoint :: "'d \<Rightarrow> 'd option"
  sy_json :: "persisted_state codec"
  sy_sha :: hash_fn
  sy_created_at :: string

definition should_create_snapshot :: "nat \<Rightarrow> snapshot_manager \<Rightarrow> bool option" where
  "should_create_snapshot h m = (if h = 0 then Some False else if smg_interval m = 0 then None else Some (h mod smg_interval m = 0))"

definition chunk_count :: "nat \<Rightarrow> nat \<Rightarrow> nat" where
  "chunk_count len c = (len + c - 1) div c"

definition drop_snapshots :: "nat list \<Rightarrow> snapshot_manager \<Rightarrow> snapshot_manager" where
  "drop_snapshots hs m =
     fold (\<lambda>h m. m \<lparr> smg_snapshots := hm_remove h (smg_snapshots m), smg_files := hm_remove h (smg_files m) \<rparr>) hs m"

text \<open>The lowest heights go first.\<close>

definition cleanup_old_snapshots :: "snapshot_manager \<Rightarrow> snapshot_manager" where
  "cleanup_old_snapshots m = drop_snapshots (rev (drop MAX_SNAPSHOTS (rev (sort (hm_keys (smg_snapshots m)))))) m"

text \<open>The file is written before its metadata; the outer \<open>None\<close> is a panic.\<close>

definition create_snapshot ::
  "'d sync_env \<Rightarrow> bool \<times> bool \<Rightarrow> nat \<Rightarrow> 'd \<Rightarrow> snapshot_manager \<Rightarrow> ((persistence_error + snapshot_metadata) \<times> snapshot_manager) option" where
  "create_snapshot sy writes h d m = (case sy_checkpoint sy d of
       None \<Rightarrow> Some (Inl RocksDb, m)
     | Some d' \<Rightarrow> (case load_state (sy_kv sy) (sy_codecs sy) d' of
         None \<Rightarrow> None
       | Some (Inl e) \<Rightarrow> Some (Inl e, m)
       | Some (Inr None) \<Rightarrow> Some (Inl NotFound, m)
       | Some (Inr (Some st)) \<Rightarrow> (case cd_enc (sy_json sy) st of
           None \<Rightarrow> Some (Inl Serialization, m)
         | Some json \<Rightarrow>
             if smg_chunk_size m = 0 then None
             else if \<not> fst writes then Some (Inl IoError, m)
             else (let meta = \<lparr> smd_height = h, smd_format = SNAPSHOT_FORMAT,
                         smd_chunks = chunk_count (length json) (smg_chunk_size m) mod 2 ^ 32, smd_hash = sy_sha sy json,
                         smd_metadata = sy_created_at sy \<rparr>;
                       m1 = m \<lparr> smg_files := hm_insert h json (smg_files m) \<rparr>
                   in if \<not> snd writes then Some (Inl IoError, m1)
                      else Some (Inr meta, cleanup_old_snapshots (m1 \<lparr> smg_snapshots := hm_insert h meta (smg_snapshots m1) \<rparr>))))))"

definition list_snapshots :: "snapshot_manager \<Rightarrow> snapshot_metadata list" where
  "list_snapshots m = rev (sort_key smd_height (rev (hm_values (smg_snapshots m))))"

text \<open>A chunk that starts behind the end of the file is a slice out of range.\<close>

definition load_chunk :: "nat \<Rightarrow> nat \<Rightarrow> snapshot_manager \<Rightarrow> byte list outcome" where
  "load_chunk h i m = (case hm_get (smg_snapshots m) h of
       None \<Rightarrow> Some (Inl NotFound)
     | Some meta \<Rightarrow>
         if smd_chunks meta \<le> i then Some (Inl NotFound)
         else (case hm_get (smg_files m) h of
             None \<Rightarrow> Some (Inl IoError)
           | Some json \<Rightarrow> (let start = i * smg_chunk_size m in
               if length json < start then None else Some (Inr (take (smg_chunk_size m) (drop start json))))))"

section \<open>Reassembling a snapshot\<close>

record snapshot_restore =
  srs_current :: "snapshot_metadata option"
  srs_chunks :: "(nat, byte list) hash_map"

definition snapshot_restore_new :: snapshot_restore where
  "snapshot_restore_new = \<lparr> srs_current = None, srs_chunks = [] \<rparr>"

definition offer_snapshot :: "snapshot_metadata \<Rightarrow> snapshot_restore \<Rightarrow> bool \<times> snapshot_restore" where
  "offer_snapshot meta r = (if smd_format meta \<noteq> SNAPSHOT_FORMAT then (False, r)
     else (True, r \<lparr> srs_current := Some meta, srs_chunks := [] \<rparr>))"

text \<open>\<open>Inr True\<close>: more chunks are needed.\<close>

definition apply_chunk :: "nat \<Rightarrow> byte list \<Rightarrow> snapshot_restore \<Rightarrow> (persistence_error + bool) \<times> snapshot_restore" where
  "apply_chunk i bs r = (case srs_current r of
       None \<Rightarrow> (Inl NotFound, r)
     | Some meta \<Rightarrow>
         if smd_chunks meta \<le> i then (Inl NotFound, r)
         else (let r1 = r \<lparr> srs_chunks := hm_insert i bs (srs_chunks r) \<rparr>
               in (Inr (length (srs_chunks r1) \<noteq> smd_chunks meta), r1)))"

fun take_chunks :: "nat list \<Rightarrow> snapshot_restore \<Rightarrow> byte list option \<times> snapshot_restore" where
  "take_chunks [] r = (Some [], r)"
| "take_chunks (i # is) r = (case hm_get (srs_chunks r) i of
       None \<Rightarrow> (None, r)
     | Some bs \<Rightarrow> (case take_chunks is (r \<lparr> srs_chunks := hm_remove i (srs_chunks r) \<rparr>) of
         (None, r1) \<Rightarrow> (None, r1)
       | (Some rest, r1) \<Rightarrow> (Some (bs @ rest), r1)))"

definition restore_finalize ::
  "hash_fn \<Rightarrow> persisted_state codec \<Rightarrow> snapshot_restore \<Rightarrow> ((persistence_error + persisted_state) \<times> snapshot_restore) option" where
  "restore_finalize sha json r = (case srs_current r of
       None \<Rightarrow> Some (Inl NotFound, r)
     | Some meta \<Rightarrow> (case take_chunks [0..<smd_chunks meta] (r \<lparr> srs_current := None \<rparr>) of
         (None, r1) \<Rightarrow> Some (Inl NotFound, r1)
       | (Some bs, r1) \<Rightarrow>
           if sha bs \<noteq> smd_hash meta then Some (Inl Serialization, r1)
           else (case cd_dec json bs of
               None \<Rightarrow> Some (Inl Serialization, r1)
             | Some st \<Rightarrow> (case ps_validate st of
                 None \<Rightarrow> None
               | Some (Some e) \<Rightarrow> Some (Inl (InvalidState e), r1)
               | Some None \<Rightarrow> Some (Inr st, r1)))))"

definition restore_cancel :: "snapshot_restore \<Rightarrow> snapshot_restore" where
  "restore_cancel r = r \<lparr> srs_current := None, srs_chunks := [] \<rparr>"

section \<open>The handlers of the application\<close>

record ('e, 'd) sync_node =
  sn_app :: "('e, 'd) comet_app"
  sn_manager :: "snapshot_manager option"
  sn_restore :: "snapshot_restore option"

definition ACCEPT :: nat where "ACCEPT = 1"

definition ABORT :: nat where "ABORT = 2"

definition RETRY :: nat where "RETRY = 2"

definition REJECT :: nat where "REJECT = 3"

text \<open>The commit of a block creates the periodic snapshots, from the database that the
  manager shares with the application; a failure is written to the log.\<close>

definition node_commit ::
  "('e, 'd) comet_env \<Rightarrow> 'd sync_env \<Rightarrow> bool \<times> bool \<Rightarrow> ('e, 'd) sync_node \<Rightarrow> ('e, 'd) sync_node option" where
  "node_commit ce sy writes n = do {
     c \<leftarrow> comet_commit ce (sn_app n);
     case (sn_manager n, cm_db c) of
       (Some m, Some d) \<Rightarrow> do {
         due \<leftarrow> should_create_snapshot (ap_height (cm_app c)) m;
         if due then map_option (\<lambda>(_, m'). n \<lparr> sn_app := c, sn_manager := Some m' \<rparr>) (create_snapshot sy writes (ap_height (cm_app c)) d m)
         else Some (n \<lparr> sn_app := c \<rparr>)
       }
     | _ \<Rightarrow> Some (n \<lparr> sn_app := c \<rparr>)
   }"

definition node_list_snapshots :: "('e, 'd) sync_node \<Rightarrow> snapshot_metadata list" where
  "node_list_snapshots n = (case sn_manager n of Some m \<Rightarrow> list_snapshots m | None \<Rightarrow> [])"

text \<open>A hash of another length is replaced by zeros; the trusted hash of the request is not looked at.\<close>

definition node_offer_snapshot ::
  "string \<Rightarrow> (nat \<times> nat \<times> nat \<times> byte list) option \<Rightarrow> ('e, 'd) sync_node \<Rightarrow> nat \<times> ('e, 'd) sync_node" where
  "node_offer_snapshot created offer n = (case (sn_restore n, offer) of
       (Some r, Some (h, format, chunks, hash)) \<Rightarrow>
         (let meta = \<lparr> smd_height = h, smd_format = format, smd_chunks = chunks,
                smd_hash = (if length hash = 32 then hash else replicate 32 0), smd_metadata = created \<rparr>;
              (ok, r1) = offer_snapshot meta r
          in (if ok then ACCEPT else ABORT, n \<lparr> sn_restore := Some r1 \<rparr>))
     | _ \<Rightarrow> (REJECT, n))"

definition node_load_chunk :: "nat \<Rightarrow> nat \<Rightarrow> ('e, 'd) sync_node \<Rightarrow> byte list option" where
  "node_load_chunk h i n = (case sn_manager n of
       None \<Rightarrow> Some []
     | Some m \<Rightarrow> map_option (\<lambda>r. case r of Inr bs \<Rightarrow> bs | Inl _ \<Rightarrow> []) (load_chunk h i m))"

text \<open>The code of the response, and the chunks to fetch again.\<close>

definition node_apply_chunk ::
  "('e, 'd) comet_env \<Rightarrow> 'd sync_env \<Rightarrow> nat \<Rightarrow> byte list \<Rightarrow> ('e, 'd) sync_node \<Rightarrow> ((nat \<times> nat list) \<times> ('e, 'd) sync_node) option" where
  "node_apply_chunk ce sy i bs n = (case sn_restore n of
       None \<Rightarrow> Some ((REJECT, []), n)
     | Some r \<Rightarrow> (case apply_chunk i bs r of
         (Inl _, r1) \<Rightarrow> Some ((RETRY, [i]), n \<lparr> sn_restore := Some r1 \<rparr>)
       | (Inr True, r1) \<Rightarrow> Some ((ACCEPT, []), n \<lparr> sn_restore := Some r1 \<rparr>)
       | (Inr False, r1) \<Rightarrow> do {
           (x, r2) \<leftarrow> restore_finalize (sy_sha sy) (sy_json sy) r1;
           (code, c) \<leftarrow> take_over_snapshot ce (case x of Inl _ \<Rightarrow> Inl [] | Inr st \<Rightarrow> Inr st) (sn_app n);
           Some ((code, []), n \<lparr> sn_app := c, sn_restore := Some r2 \<rparr>)
         }))"

section \<open>Chunks\<close>

lemma concat_pieces: "concat (map (\<lambda>i. take c (drop (i * c) xs)) [0..<n]) = take (n * c) xs"
proof (induction n)
  case (Suc n)
  have "take (Suc n * c) xs = take (n * c) xs @ take c (drop (n * c) xs)"
    by (metis add.commute mult_Suc take_add)
  then show ?case using Suc by simp
qed simp

lemma chunk_count_covers: "0 < c \<Longrightarrow> len \<le> chunk_count len c * c"
proof -
  assume c: "0 < c"
  have "(len + c - 1) div c * c + (len + c - 1) mod c = len + c - 1" by simp
  moreover have "(len + c - 1) mod c < c" using c by simp
  ultimately show ?thesis unfolding chunk_count_def using c by linarith
qed

lemma take_chunks_all:
  "distinct is \<Longrightarrow> (\<forall>i \<in> set is. hm_get (srs_chunks r) i = Some (f i)) \<Longrightarrow> fst (take_chunks is r) = Some (concat (map f is))"
proof (induction "is" arbitrary: r)
  case (Cons i "is")
  let ?r = "r \<lparr> srs_chunks := hm_remove i (srs_chunks r) \<rparr>"
  have "fst (take_chunks is ?r) = Some (concat (map f is))" using Cons by (intro Cons.IH) auto
  then show ?case using Cons.prems(2) by (cases "take_chunks is ?r") simp
qed simp

definition receive :: "(nat \<times> byte list) list \<Rightarrow> snapshot_restore \<Rightarrow> snapshot_restore" where
  "receive chunks r = fold (\<lambda>(i, bs) r. snd (apply_chunk i bs r)) chunks r"

lemma receive_chunks:
  assumes "srs_current r = Some meta" "\<forall>i \<in> set is. i < smd_chunks meta"
  shows "srs_current (receive (map (\<lambda>i. (i, f i)) is) r) = Some meta \<and>
    (\<forall>i. hm_get (srs_chunks (receive (map (\<lambda>i. (i, f i)) is) r)) i = (if i \<in> set is then Some (f i) else hm_get (srs_chunks r) i))"
  using assms
proof (induction "is" arbitrary: r)
  case (Cons i "is")
  let ?r = "r \<lparr> srs_chunks := hm_insert i (f i) (srs_chunks r) \<rparr>"
  have "receive (map (\<lambda>i. (i, f i)) (i # is)) r = receive (map (\<lambda>i. (i, f i)) is) ?r"
    using Cons.prems by (simp add: receive_def apply_chunk_def Let_def)
  then show ?case using Cons.IH [of ?r] Cons.prems by auto
qed (simp add: receive_def)

text \<open>What the provider keeps after it has dropped its oldest snapshots.\<close>

lemma drop_snapshots_get:
  "hm_get (smg_snapshots (drop_snapshots hs m)) h = (if h \<in> set hs then None else hm_get (smg_snapshots m) h)"
  "hm_get (smg_files (drop_snapshots hs m)) h = (if h \<in> set hs then None else hm_get (smg_files m) h)"
  "smg_chunk_size (drop_snapshots hs m) = smg_chunk_size m"
  by (induction hs arbitrary: m) (simp_all add: drop_snapshots_def)

lemma created_snapshot:
  assumes "create_snapshot sy w h d m = Some (Inr meta, m')"
  obtains d' st json where "sy_checkpoint sy d = Some d'" "load_state (sy_kv sy) (sy_codecs sy) d' = Some (Inr (Some st))"
    "cd_enc (sy_json sy) st = Some json" "0 < smg_chunk_size m" "smd_height meta = h" "smd_format meta = SNAPSHOT_FORMAT"
    "smd_hash meta = sy_sha sy json" "smd_chunks meta = chunk_count (length json) (smg_chunk_size m) mod 2 ^ 32"
    "m' = cleanup_old_snapshots (m \<lparr> smg_files := hm_insert h json (smg_files m), smg_snapshots := hm_insert h meta (smg_snapshots m) \<rparr>)"
  using assms
  by (auto simp: create_snapshot_def Let_def split: option.splits sum.splits if_splits)

lemma served_chunk:
  assumes "load_chunk h i (cleanup_old_snapshots (m \<lparr> smg_files := hm_insert h json (smg_files m),
      smg_snapshots := hm_insert h meta (smg_snapshots m) \<rparr>)) = Some (Inr bs)"
  shows "bs = take (smg_chunk_size m) (drop (i * smg_chunk_size m) json)"
  using assms
  by (auto simp: load_chunk_def cleanup_old_snapshots_def drop_snapshots_get Let_def split: option.splits if_splits)

text \<open>
  (C20) State sync transfers the state: whoever receives the chunks of a snapshot from its
  provider, in any order and any number of times, finalizes to the state that was in
  the database when the snapshot was taken.
\<close>

theorem state_sync_roundtrip:
  assumes "create_snapshot sy w h d m = Some (Inr meta, m')" "set is = {..<smd_chunks meta}"
    "\<forall>i \<in> set is. load_chunk h i m' = Some (Inr (f i))"
    and size: "\<forall>st json. cd_enc (sy_json sy) st = Some json \<longrightarrow> chunk_count (length json) (smg_chunk_size m) < 2 ^ 32"
    and codec: "\<forall>st. reads_back (sy_json sy) st"
  shows "\<exists>d' st. sy_checkpoint sy d = Some d' \<and> load_state (sy_kv sy) (sy_codecs sy) d' = Some (Inr (Some st)) \<and>
    (\<exists>r'. restore_finalize (sy_sha sy) (sy_json sy) (receive (map (\<lambda>i. (i, f i)) is) (snd (offer_snapshot meta r))) = Some (Inr st, r'))"
proof -
  obtain d' st json where c: "sy_checkpoint sy d = Some d'" "load_state (sy_kv sy) (sy_codecs sy) d' = Some (Inr (Some st))"
    "cd_enc (sy_json sy) st = Some json" "0 < smg_chunk_size m" "smd_format meta = SNAPSHOT_FORMAT"
    "smd_hash meta = sy_sha sy json" "smd_chunks meta = chunk_count (length json) (smg_chunk_size m) mod 2 ^ 32"
    "m' = cleanup_old_snapshots (m \<lparr> smg_files := hm_insert h json (smg_files m), smg_snapshots := hm_insert h meta (smg_snapshots m) \<rparr>)"
    using assms(1) by (rule created_snapshot)
  let ?r = "receive (map (\<lambda>i. (i, f i)) is) (snd (offer_snapshot meta r))"
  have f: "f i = take (smg_chunk_size m) (drop (i * smg_chunk_size m) json)" if "i < smd_chunks meta" for i
    using assms(2,3) that served_chunk unfolding c(8) by blast
  have r: "srs_current ?r = Some meta" "\<forall>i < smd_chunks meta. hm_get (srs_chunks ?r) i = Some (f i)"
    using receive_chunks [of "snd (offer_snapshot meta r)" meta "is" f] assms(2) c(5) by (auto simp: offer_snapshot_def)
  have "fst (take_chunks [0..<smd_chunks meta] (?r \<lparr> srs_current := None \<rparr>)) = Some (concat (map f [0..<smd_chunks meta]))"
    by (rule take_chunks_all) (use r(2) in simp_all)
  also have "map f [0..<smd_chunks meta] = map (\<lambda>i. take (smg_chunk_size m) (drop (i * smg_chunk_size m) json)) [0..<smd_chunks meta]"
    using f by simp
  also have "concat \<dots> = json"
    using concat_pieces [of "smg_chunk_size m" json "smd_chunks meta"] chunk_count_covers [OF c(4), of "length json"] size c(3,7) by simp
  finally obtain r' where "take_chunks [0..<smd_chunks meta] (?r \<lparr> srs_current := None \<rparr>) = (Some json, r')"
    by (metis prod.collapse)
  moreover have "cd_dec (sy_json sy) json = Some st" using codec c(3) by (simp add: reads_back_def)
  ultimately have "restore_finalize (sy_sha sy) (sy_json sy) ?r = Some (Inr st, r')"
    using r(1) c(6) load_state_valid [OF c(2)] by (simp add: restore_finalize_def)
  then show ?thesis using c(1,2) by blast
qed

text \<open>The saved sample, in two chunks that arrive in the wrong order and one of them twice.\<close>

definition small_manager :: snapshot_manager where
  "small_manager = \<lparr> smg_interval = 10, smg_chunk_size = 2, smg_snapshots = [], smg_files = [] \<rparr>"

definition only_json :: "persisted_state \<Rightarrow> persisted_state codec" where
  "only_json st = \<lparr> cd_enc = (\<lambda>x. if x = st then Some [1, 2, 3] else None), cd_dec = (\<lambda>_. Some st) \<rparr>"

definition sync_of :: "persisted_state \<Rightarrow> (column_family \<Rightarrow> row list) sync_env" where
  "sync_of st = \<lparr> sy_kv = rows_store, sy_codecs = sample_codecs, sy_checkpoint = Some, sy_json = only_json st, sy_sha = pad_hash,
     sy_created_at = [] \<rparr>"

definition two_pieces :: "nat \<Rightarrow> byte list" where
  "two_pieces i = (if i = 0 then [1, 2] else [3])"

theorem state_sync_roundtrip_witness:
  "\<exists>st d meta m' r'. create_snapshot (sync_of st) (True, True) 3 d small_manager = Some (Inr meta, m') \<and>
     restore_finalize pad_hash (only_json st)
       (receive (map (\<lambda>i. (i, two_pieces i)) [1, 0, 1]) (snd (offer_snapshot meta snapshot_restore_new))) = Some (Inr st, r')"
proof -
  obtain d where d: "persist_state rows_store sample_codecs saved_sample stale_rows = Some (Inr d)" "d EvmStorage = []"
    using saved_sample_saves(1) by blast
  obtain st where st: "load_state rows_store sample_codecs d = Some (Inr (Some st))"
    using saved_state_reloads [OF rows_store_ok d(1) saved_sample_saves(2) rows_store_reads] d(2) by auto
  let ?meta = "\<lparr> smd_height = 3, smd_format = SNAPSHOT_FORMAT, smd_chunks = 2, smd_hash = pad_hash [1, 2, 3], smd_metadata = [] \<rparr>"
  let ?m = "small_manager \<lparr> smg_snapshots := [(3, ?meta)], smg_files := [(3, [1, 2, 3])] \<rparr>"
  have clean: "cleanup_old_snapshots ?m = ?m"
    by (simp add: cleanup_old_snapshots_def drop_snapshots_def hm_keys_def MAX_SNAPSHOTS_def)
  have pieces: "chunk_count (Suc (Suc (Suc 0))) 2 mod 4294967296 = 2" by (simp add: chunk_count_def)
  have create: "create_snapshot (sync_of st) (True, True) 3 d small_manager = Some (Inr ?meta, ?m)"
    using st clean pieces by (simp add: create_snapshot_def sync_of_def only_json_def small_manager_def Let_def hm_insert_def)
  have set: "set [1, 0, 1 :: nat] = {..<smd_chunks ?meta}" by auto
  have served: "\<forall>i \<in> set [1, 0, 1]. load_chunk 3 i ?m = Some (Inr (two_pieces i))"
    by (simp add: load_chunk_def small_manager_def two_pieces_def Let_def hm_get_Cons)
  have "\<forall>x json. cd_enc (sy_json (sync_of st)) x = Some json \<longrightarrow> chunk_count (length json) (smg_chunk_size small_manager) < 2 ^ 32"
    "\<forall>x. reads_back (sy_json (sync_of st)) x"
    by (auto simp: sync_of_def only_json_def reads_back_def small_manager_def chunk_count_def split: if_splits)
  from state_sync_roundtrip [OF create set served this, of snapshot_restore_new]
  obtain r' where "restore_finalize pad_hash (only_json st)
       (receive (map (\<lambda>i. (i, two_pieces i)) [1, 0, 1]) (snd (offer_snapshot ?meta snapshot_restore_new))) = Some (Inr st, r')"
    using st by (auto simp: sync_of_def)
  then show ?thesis using create by blast
qed

text \<open>
  Chunks cannot be forged: what a node finalizes under the hash of somebody's
  snapshot is the state of that snapshot, whoever sent the chunks, unless SHA-256
  collides.
\<close>

theorem finalized_snapshot_authentic:
  assumes "restore_finalize sha json r = Some (Inr st, r')" "srs_current r = Some meta" "smd_hash meta = sha bytes"
  shows "(cd_dec json bytes = Some st \<and> ps_validate st = Some None) \<or> (\<exists>x y. x \<noteq> y \<and> sha x = sha y)"
proof -
  obtain bs r1 where "take_chunks [0..<smd_chunks meta] (r \<lparr> srs_current := None \<rparr>) = (Some bs, r1)" "sha bs = smd_hash meta"
    "cd_dec json bs = Some st" "ps_validate st = Some None"
    using assms(1,2) by (auto simp: restore_finalize_def split: option.splits prod.splits if_splits)
  then show ?thesis using assms(3) by (cases "bs = bytes") auto
qed

theorem finalized_snapshot_authentic_witness:
  "\<exists>r'. restore_finalize pad_hash (only_json persisted_new)
     \<lparr> srs_current = Some \<lparr> smd_height = 1, smd_format = 1, smd_chunks = 1, smd_hash = pad_hash [1, 2, 3], smd_metadata = [] \<rparr>,
       srs_chunks = [(0, [1, 2, 3])] \<rparr> = Some (Inr persisted_new, r') \<and>
     ((cd_dec (only_json persisted_new) [1, 2, 3] = Some persisted_new \<and> ps_validate persisted_new = Some None) \<or>
      (\<exists>x y. x \<noteq> y \<and> pad_hash x = pad_hash y))"
proof -
  let ?meta = "\<lparr> smd_height = 1, smd_format = 1, smd_chunks = 1, smd_hash = pad_hash [1, 2, 3], smd_metadata = [] \<rparr>"
  obtain r' where run: "restore_finalize pad_hash (only_json persisted_new) \<lparr> srs_current = Some ?meta, srs_chunks = [(0, [1, 2, 3])] \<rparr> =
      Some (Inr persisted_new, r')"
    by (simp add: restore_finalize_def only_json_def hm_get_Cons ps_validate_def persisted_new_def core_default_def)
  from finalized_snapshot_authentic [OF run] run show ?thesis by auto
qed

text \<open>The number of snapshots on disk stays bounded.\<close>

lemma drop_snapshots_keys: "set (hm_keys (smg_snapshots (drop_snapshots hs m))) = set (hm_keys (smg_snapshots m)) - set hs"
proof -
  have "k \<in> set (hm_keys x) \<longleftrightarrow> hm_get x k \<noteq> None" for k and x :: "(nat, snapshot_metadata) hash_map"
    by (auto simp: hm_keys_def hm_get_def map_of_eq_None_iff)
  then show ?thesis by (auto simp: drop_snapshots_get split: if_splits)
qed

lemma drop_snapshots_inv: "hm_inv (smg_snapshots m) \<Longrightarrow> hm_inv (smg_snapshots (drop_snapshots hs m))"
  by (induction hs arbitrary: m) (simp_all add: drop_snapshots_def)

theorem snapshots_bounded:
  assumes "hm_inv (smg_snapshots m)" "create_snapshot sy w h d m = Some (Inr meta, m')"
  shows "length (smg_snapshots m') \<le> MAX_SNAPSHOTS"
proof -
  obtain json where m': "m' = cleanup_old_snapshots
      (m \<lparr> smg_files := hm_insert h json (smg_files m), smg_snapshots := hm_insert h meta (smg_snapshots m) \<rparr>)"
    using created_snapshot [OF assms(2)] by metis
  define m1 where "m1 = m \<lparr> smg_files := hm_insert h json (smg_files m), smg_snapshots := hm_insert h meta (smg_snapshots m) \<rparr>"
  have m1: "hm_inv (smg_snapshots m1)" "m' = cleanup_old_snapshots m1"
    using assms(1) m' by (simp_all add: m1_def hm_inv_insert)
  let ?ks = "rev (sort (hm_keys (smg_snapshots m1)))"
  have "distinct ?ks" using m1(1) by (simp add: hm_inv_def hm_keys_def)
  then have apart: "set (take MAX_SNAPSHOTS ?ks) \<inter> set (drop MAX_SNAPSHOTS ?ks) = {}"
    by (rule set_take_disj_set_drop_if_distinct) simp
  have parts: "set ?ks = set (take MAX_SNAPSHOTS ?ks) \<union> set (drop MAX_SNAPSHOTS ?ks)"
    by (metis append_take_drop_id set_append)
  have "set ?ks - set (drop MAX_SNAPSHOTS ?ks) = set (take MAX_SNAPSHOTS ?ks)"
    unfolding parts using apart by blast
  then have keys: "set (hm_keys (smg_snapshots m')) = set (take MAX_SNAPSHOTS ?ks)"
    unfolding m1(2) cleanup_old_snapshots_def drop_snapshots_keys by simp
  have "distinct (hm_keys (smg_snapshots m'))"
    using drop_snapshots_inv [OF m1(1)] unfolding m1(2) cleanup_old_snapshots_def by (simp add: hm_inv_def hm_keys_def)
  then have "length (smg_snapshots m') = card (set (take MAX_SNAPSHOTS ?ks))"
    using keys distinct_card [of "hm_keys (smg_snapshots m')"] by (simp add: hm_keys_def)
  also have "\<dots> \<le> MAX_SNAPSHOTS" using card_length [of "take MAX_SNAPSHOTS ?ks"] by simp
  finally show ?thesis .
qed

text \<open>
  What a node reports after it has taken over a snapshot is the hash that the snapshot
  claims, whatever balances it holds; nothing compares it with the trusted hash.
\<close>

theorem claimed_hash_is_reported:
  assumes "take_over_snapshot ce (Inr st) c = Some (1, c')"
  shows "ir_last_block_app_hash (comet_info keccak c') = ps_app_hash st \<and>
    ap_unified (cm_app c') = fold restore_balance (cr_balances (ps_core st)) (ap_unified (cm_app c))"
proof -
  obtain x us1 es1 spot1 where r: "restore_state (ce_keccak ce) st (ap_unified (cm_app c), ap_engine (cm_app c), ap_spot (cm_app c)) =
      Some (x, us1, es1, spot1)"
    using assms by (auto simp: take_over_snapshot_def Let_def Option.bind_eq_Some_conv)
  then obtain h ts where x: "x = Inr (h, ts, ps_app_hash st)" "us1 = fold restore_balance (cr_balances (ps_core st)) (ap_unified (cm_app c))"
    using assms by (auto simp: take_over_snapshot_def restore_state_def Let_def Option.bind_eq_Some_conv split: if_splits option.splits)
  show ?thesis
    using assms r unfolding x by (auto simp: take_over_snapshot_def Let_def Option.bind_eq_Some_conv restore_chain_state_def comet_info_def)
qed

end
