(* ===== verification/Spec2Isabelle.thy ===== *)
theory Spec2Isabelle
  imports Engine_Facts Hyper_Bft Spot_Engine Gateway_Validation Mempool Block_Producer State_Sync
begin

text \<open>
  A verification development for HyperCore, an exchange chain in Rust: an order book
  engine for perpetuals and a spot engine, a ledger with two views (Core and EVM), a
  chain application that executes signed transactions, its consensus and its gateway.

  The parts of the program, from the outside in, and how they interact.  The gateway
  (\<open>crates/gateway\<close>) validates a signed request, recovers its signer and turns it into
  a chain transaction.  The mempool orders transactions; the block producer, or a view
  of the consensus, drains it and hands a block to the application
  (\<open>crates/chain/src/app.rs\<close>).  The application checks signature and nonce, executes
  the action on the engines (\<open>crates/engine\<close>) and on the ledger
  (\<open>crates/primitives/src/unified_state.rs\<close>), runs funding and liquidations at the end
  of the block, and commits to the state with Merkle trees.  Validators attest the
  committed hash and halt when they find themselves in the minority.  In CometBFT mode
  the handlers of \<open>cometbft/app.rs\<close> drive the application instead; the committed state
  goes to RocksDB (\<open>crates/persistence\<close>), from where a node restarts, and to snapshots,
  from which other nodes start.

  The theories, in the order of their dependence, with their sources:

  \<^item> \<open>Prelude\<close>: computations that may panic, the two map types of the standard library
    and the interface \<open>map_interface\<close> they both satisfy.
  \<^item> \<open>Rust_Int\<close>, \<open>Rust_Str\<close>: 128- and 64-bit integers with their checks and wrap-around;
    the string operations of the decimal parser and printer.
  \<^item> \<open>Decimal\<close> (\<open>primitives/decimal.rs\<close>), \<open>Batch_Ops\<close> (\<open>engine/batch_ops.rs\<close>): fixed-point
    arithmetic; printing and parsing are inverse, products truncate towards zero and
    panic exactly on overflow.
  \<^item> \<open>Order\<close>, \<open>Events\<close>, \<open>Market\<close>, \<open>Position\<close> (\<open>order.rs\<close>, \<open>types.rs\<close>, \<open>error.rs\<close>,
    \<open>events.rs\<close>, \<open>market.rs\<close>, \<open>position.rs\<close> of the primitives): the data of trading; a
    fill keeps the position invariant and books the announced profit.
  \<^item> \<open>Order_Book\<close>, \<open>Matching\<close> (\<open>engine/orderbook.rs\<close>, \<open>matching.rs\<close>): the book refines a
    map from ids to orders and keeps price-time priority; matching ends, conserves
    size, trades at the maker's price with other accounts only, and keeps the book
    uncrossed.  The two loops are instances of the locale \<open>matching_loop\<close>.
  \<^item> \<open>Risk\<close> (\<open>risk.rs\<close>, \<open>liquidation.rs\<close>, \<open>funding.rs\<close>), \<open>Engine_State\<close>,
    \<open>Trigger_Orders\<close>, \<open>Engine_History\<close> (\<open>engine/state.rs\<close>): margin, liquidation and
    funding formulas; the state of the engine with its indices, triggers, histories
    and snapshots.
  \<^item> \<open>Unified_State\<close> (\<open>unified_state.rs\<close>): the ledger; every reachable ledger is valid
    and non-negative, and transfers conserve the supply.
  \<^item> \<open>Engine\<close>, \<open>Engine_Facts\<close> (\<open>engine/lib.rs\<close>): the orchestration of an order with its
    triggers, cancellation, funding, liquidation and auto-deleveraging; open interest
    follows the positions, cancellation is exact, rejected orders do no harm, the
    insurance fund is never overdrawn.
  \<^item> \<open>Spot\<close>, \<open>Spot_Engine\<close> (\<open>primitives/spot.rs\<close>, \<open>engine/spot_engine.rs\<close>): spot tokens,
    reserves, matching and settlement.
  \<^item> \<open>Merkle\<close> (\<open>chain/merkle.rs\<close>), \<open>State_Commitment\<close> (\<open>chain/state.rs\<close>): the trees, proofs
    that exist and bind, an application hash independent of iteration order.
  \<^item> \<open>Eip712\<close>, \<open>Transaction\<close> (\<open>primitives/eip712.rs\<close>, \<open>chain/tx.rs\<close>), \<open>Gateway_Signing\<close>
    (\<open>gateway/api.rs\<close>, \<open>eip712.rs\<close>, \<open>handlers.rs\<close>), \<open>Gateway_Validation\<close>
    (\<open>validation.rs\<close>, \<open>binary_protocol.rs\<close>): what a signature binds, the agreement of
    gateway and chain on digests, and what validated requests are for the chain.
  \<^item> \<open>App_State\<close>, \<open>App\<close>, \<open>App_Facts\<close> (\<open>chain/state.rs\<close>, \<open>app.rs\<close>): the handlers of all
    transactions, blocks and genesis; replay protection, the effect of transfers.
  \<^item> \<open>Mempool\<close> (\<open>mempool.rs\<close>), \<open>Hyper_Bft\<close> (\<open>hyperbft/\<close>, \<open>consensus.rs\<close>), \<open>Attestation\<close>
    (\<open>attestation.rs\<close>, \<open>attestation_collector.rs\<close>, \<open>divergence_handler.rs\<close>),
    \<open>Block_Producer\<close> (\<open>block_producer.rs\<close>): bounds of the pool, certificates and unique
    blocks per height, justified divergence alerts, and blocks as steps of the chain.
  \<^item> \<open>Validators\<close>, \<open>Comet_App\<close> (\<open>cometbft/validators.rs\<close>, \<open>app.rs\<close>): the total power is
    the sum of the powers, supermajorities overlap; a height is finalized once, and a
    transaction that succeeded in a decided block fails in every later one.
  \<^item> \<open>Persist_State\<close>, \<open>Persister\<close> (\<open>persistence/state.rs\<close>, \<open>keys.rs\<close>, \<open>lib.rs\<close>,
    \<open>rocksdb_backend.rs\<close>, \<open>persister.rs\<close>), \<open>Persist_Integration\<close>
    (\<open>chain/persistence_integration.rs\<close>), \<open>State_Sync\<close> (\<open>persistence/snapshot.rs\<close>): keys
    decode, what is saved is loaded, a restart keeps the accounts, the chunks of a
    snapshot give back its state.

  How the model reads the code.  A struct is a record, an enum a datatype, a method a
  function that returns the changed state.  A function that can panic returns an
  \<open>option\<close>, where \<open>None\<close> is the panic; a \<open>Result\<close> is a sum with the error on the left,
  and a function with both effects returns an option of a sum paired with the state,
  so that what an error leaves behind is visible.  Decimal arithmetic panics on
  overflow, as its operators do; bare integer arithmetic and casts wrap, as in a
  release build.  Hash maps are association lists in insertion order, and statements
  that must not depend on that order are proved for all permutations; B-tree maps are
  sorted association lists.  Strings are ASCII.  Locks are taken one operation at a
  time, so concurrent callers are sequences of operations.  The engines and the
  application share one ledger: the application loads it into an engine before an
  operation and stores it after (\<open>perp_of\<close>, \<open>put_perp\<close>, \<open>spot_of\<close>, \<open>put_spot\<close>).

  Parameters stand for code outside the repository: Keccak (\<open>hash_fn\<close>), the recovery of
  secp256k1 (\<open>ecdsa\<close>), Ed25519 (\<open>ed25519\<close>, with the hypothesis that signatures made
  with a key verify under it), the hex decoder, the JSON serialiser, the standard
  hasher, clocks, the EVM executor and its state root, bincode and JSON (\<open>codec\<close>) and the
  database (\<open>kv_store\<close>, with the hypothesis \<open>store_ok\<close>, of which \<open>rows_store\<close> is a model).  Statements about collisions name the
  colliding inputs instead of assuming that there are none.

  Loops and fuel.  The matching loops are partial functions whose termination is
  proved; the eviction of the mempool ends by a measure.  Placing an order can activate
  triggers, which place orders: the recursion is cut off at one more than the number of
  trigger prices, and \<open>place_order_unfolds\<close> shows that the cut is never reached, since
  every activation removes a price level.

  Reachability.  State machines are step relations: \<open>us_step\<close> (ledger), \<open>nonce_step\<close> and
  \<open>chain_step\<close> (application), \<open>pool_step\<close> (mempool), \<open>vc_step\<close> (votes), \<open>co_step\<close>
  (attestations), \<open>pl_step\<close> (pipelined production), \<open>vs_step\<close> (validator set),
  \<open>comet_step\<close> (decided and committed blocks).  Invariants are proved by induction
  over them and apply to every history of the program.

  What does not hold is proved too, as theorems about concrete inputs: the sign of an
  amount is not checked by the chain (\<open>negative_transfer_takes\<close>, \<open>transfer_panics\<close>), a
  failed batch keeps its effects and can be executed again
  (\<open>failed_batch_keeps_effects\<close>), a sequential nonce is accepted more than once
  (\<open>sequential_nonce_accepted_again\<close>), and the pipelined producer executes a pending
  transaction twice (\<open>pipeline_executes_twice\<close>), a restart forgets the counters of the
  spot engine (\<open>restart_resets_spot\<close>), and state sync reports the hash a snapshot claims
  (\<open>claimed_hash_is_reported\<close>), among others listed in the manifest.

  Not modelled: the transport of requests (HTTP, WebSocket, rate limiting by the
  governor library) and the information queries, which only read and format; the EVM
  executor and its RPC, which wrap the revm library; RocksDB and its options; the gossip of
  attestations over libp2p; the server of CometBFT's protobuf messages; memory
  mapping, allocation, threads and metrics around the engine; the indexer and the start
  of the node.  Serde and bincode encodings, logging and floating-point display values
  are left out where they occur in modelled files.
\<close>

end
